(* ===== verification/Prelude.thy ===== *)
theory Prelude
  imports Complex_Main "HOL-Library.AList"
begin

text \<open>
  The vocabulary the components share: the Python exceptions as a sum type, JSON values and
  Python dictionaries as association lists in insertion order, and decimal printing of integers.
  Decimal values of the source are modelled as exact rationals (\<^typ>\<open>rat\<close>); the rounding of
  Python's 28-digit decimal context is not modelled.  Strings are lists of 8-bit characters, so
  the encoding to bytes of an ASCII string is the string itself.

  The locale \<open>key_value\<close> is the contract of a keyed store (a dictionary, the Redis key space):
  what a read returns after a write and after a deletion.  Its lemmas are proved once and used
  for every store of the development through the interpretations.
\<close>

section \<open>Collections of rewrite rules\<close>

named_theorems store_simps \<open>reads of a keyed store after its updates\<close>
named_theorems op_defs \<open>definitions of operations that proofs unfold together\<close>

section \<open>Python exceptions and results\<close>

text \<open>
  \<open>IntegrityError\<close> also stands for its subclass \<open>CheckViolation\<close>; \<open>BrokerUnreachable\<close> is
  \<open>AlpacaConnectionError\<close> and \<open>BrokerFailure\<close> any other \<open>AlpacaClientError\<close>, where a caller
  handles them together with the errors of Python.
\<close>

datatype py_error =
    RuntimeError string
  | ValueError string
  | KeyError string
  | TypeError string
  | CircuitBreakerError string
  | DecodeError
  | InvalidOperation
  | ResponseError string
  | IntegrityError string
  | DatabaseError string
  | HTTPException nat string
  | BrokerUnreachable string
  | BrokerFailure string

type_synonym 'a result = "py_error + 'a"

definition rbind :: "'a result \<Rightarrow> ('a \<Rightarrow> 'b result) \<Rightarrow> 'b result" where
  "rbind r f = (case r of Inl e \<Rightarrow> Inl e | Inr a \<Rightarrow> f a)"

lemma rbind_simps [simp]:
  "rbind (Inl e) f = Inl e"
  "rbind (Inr a) f = f a"
  by (simp_all add: rbind_def)

lemma rbind_Inr_iff: "rbind r f = Inr b \<longleftrightarrow> (\<exists>a. r = Inr a \<and> f a = Inr b)"
  by (cases r) auto

section \<open>Keyed stores\<close>

locale key_value =
  fixes get :: "'s \<Rightarrow> 'k \<Rightarrow> 'v option"
    and put :: "'k \<Rightarrow> 'v \<Rightarrow> 's \<Rightarrow> 's"
  assumes get_put: "get (put k v s) k' = (if k' = k then Some v else get s k')"
begin

lemma get_put_same: "get (put k v s) k = Some v"
  by (simp add: get_put)

lemma get_put_other: "k' \<noteq> k \<Longrightarrow> get (put k v s) k' = get s k'"
  by (simp add: get_put)

lemma put_commute: "k \<noteq> k' \<Longrightarrow> get (put k v (put k' v' s)) = get (put k' v' (put k v s))"
  by (auto simp: get_put fun_eq_iff)

text \<open>Writing a list of pairs: the last pair for a key decides what a read returns.\<close>

lemma get_fold_put:
  "get (fold (\<lambda>(k, v). put k v) kvs s) k =
     (case map_of (rev kvs) k of Some v \<Rightarrow> Some v | None \<Rightarrow> get s k)"
proof (induction kvs arbitrary: s)
  case Nil
  show ?case by simp
next
  case (Cons kv kvs)
  obtain k0 v0 where kv: "kv = (k0, v0)" by (cases kv)
  show ?case
    using Cons.IH [of "put k0 v0 s"]
    by (auto simp: kv get_put map_add_def split: option.splits)
qed

end

locale key_value_del = key_value get put
  for get :: "'s \<Rightarrow> 'k \<Rightarrow> 'v option" and put :: "'k \<Rightarrow> 'v \<Rightarrow> 's \<Rightarrow> 's" +
  fixes del :: "'k \<Rightarrow> 's \<Rightarrow> 's"
  assumes get_del: "get (del k s) k' = (if k' = k then None else get s k')"
begin

lemma get_del_put: "get (del k (put k v s)) = get (del k s)"
  by (auto simp: get_del get_put fun_eq_iff)

lemma get_del_put_absent: "get s k = None \<Longrightarrow> get (del k (put k v s)) = get s"
  by (auto simp: get_del get_put fun_eq_iff)

lemma del_idem: "get (del k (del k s)) = get (del k s)"
  by (auto simp: get_del fun_eq_iff)

end

text \<open>Association lists are the first such store.\<close>

interpretation al: key_value_del map_of AList.update AList.delete
  by unfold_locales (auto simp: update_conv' delete_conv')

section \<open>JSON values and dictionaries\<close>

datatype json =
    JNull
  | JBool bool
  | JInt int
  | JDec rat
  | JStr string
  | JList "json list"
  | JObj "(string \<times> json) list"

type_synonym dict = "(string \<times> json) list"

text \<open>\<open>d.get(k)\<close>, \<open>d[k] = v\<close>, \<open>d.pop(k, None)\<close> and \<open>d.update(kvs)\<close>.\<close>

definition dict_get :: "dict \<Rightarrow> string \<Rightarrow> json option" where
  "dict_get d k = map_of d k"

definition dict_put :: "string \<Rightarrow> json \<Rightarrow> dict \<Rightarrow> dict" where
  "dict_put k v d = AList.update k v d"

definition dict_del :: "string \<Rightarrow> dict \<Rightarrow> dict" where
  "dict_del k d = AList.delete k d"

definition dict_update :: "(string \<times> json) list \<Rightarrow> dict \<Rightarrow> dict" where
  "dict_update kvs d = fold (\<lambda>(k, v). dict_put k v) kvs d"

interpretation dct: key_value_del dict_get dict_put dict_del
  by unfold_locales
    (auto simp: dict_get_def dict_put_def dict_del_def al.get_put al.get_del)

lemma dict_get_put [simp, store_simps]:
  "dict_get (dict_put k v d) k' = (if k' = k then Some v else dict_get d k')"
  by (rule dct.get_put)

lemma dict_get_update [store_simps]:
  "dict_get (dict_update kvs d) k =
     (case map_of (rev kvs) k of Some v \<Rightarrow> Some v | None \<Rightarrow> dict_get d k)"
  unfolding dict_update_def by (rule dct.get_fold_put)

lemma dict_get_Cons [simp]: "dict_get ((a, b) # d) k = (if k = a then Some b else dict_get d k)"
  by (simp add: dict_get_def)

lemma dict_get_Nil [simp]: "dict_get [] k = None"
  by (simp add: dict_get_def)

text \<open>\<open>d[k]\<close> raises \<open>KeyError\<close>; \<open>d.get(k)\<close> of an absent key is \<open>None\<close>, JSON's null.\<close>

definition dict_index :: "dict \<Rightarrow> string \<Rightarrow> json result" where
  "dict_index d k = (case dict_get d k of None \<Rightarrow> Inl (KeyError k) | Some v \<Rightarrow> Inr v)"

definition dict_get_or :: "dict \<Rightarrow> string \<Rightarrow> json \<Rightarrow> json" where
  "dict_get_or d k v = (case dict_get d k of None \<Rightarrow> v | Some w \<Rightarrow> w)"

text \<open>The value of a key when it is a string or an integer.\<close>

definition dict_str :: "dict \<Rightarrow> string \<Rightarrow> string option" where
  "dict_str d k = (case dict_get d k of Some (JStr s) \<Rightarrow> Some s | _ \<Rightarrow> None)"

definition dict_int :: "dict \<Rightarrow> string \<Rightarrow> int option" where
  "dict_int d k = (case dict_get d k of Some (JInt n) \<Rightarrow> Some n | _ \<Rightarrow> None)"

lemma dict_str_iff: "dict_str d k = Some s \<longleftrightarrow> dict_get d k = Some (JStr s)"
  by (auto simp: dict_str_def split: option.splits json.splits)

lemma dict_int_iff: "dict_int d k = Some n \<longleftrightarrow> dict_get d k = Some (JInt n)"
  by (auto simp: dict_int_def split: option.splits json.splits)

lemma dict_index_get: "dict_index d k = Inr v \<longleftrightarrow> dict_get d k = Some v"
  by (auto simp: dict_index_def split: option.splits)

text \<open>Python truth of a JSON value: empty strings, lists, dictionaries and zero are false.\<close>

fun truthy :: "json \<Rightarrow> bool" where
  "truthy JNull = False"
| "truthy (JBool b) = b"
| "truthy (JInt n) = (n \<noteq> 0)"
| "truthy (JDec q) = (q \<noteq> 0)"
| "truthy (JStr s) = (s \<noteq> [])"
| "truthy (JList xs) = (xs \<noteq> [])"
| "truthy (JObj d) = (d \<noteq> [])"

text \<open>\<open>x + 1\<close> on a JSON value: defined on numbers (booleans are integers), else \<open>TypeError\<close>.\<close>

fun json_incr :: "json \<Rightarrow> json result" where
  "json_incr (JInt n) = Inr (JInt (n + 1))"
| "json_incr (JDec q) = Inr (JDec (q + 1))"
| "json_incr (JBool b) = Inr (JInt (if b then 2 else 1))"
| "json_incr _ = Inl (TypeError ''unsupported operand'')"

definition opt_str :: "string option \<Rightarrow> json" where
  "opt_str s = (case s of None \<Rightarrow> JNull | Some t \<Rightarrow> JStr t)"

section \<open>Lists kept to a maximal length\<close>

text \<open>The last \<open>n\<close> elements, as the history logs of the source are trimmed.\<close>

definition keep_last :: "nat \<Rightarrow> 'a list \<Rightarrow> 'a list" where
  "keep_last n xs = drop (length xs - n) xs"

lemma length_keep_last [simp]: "length (keep_last n xs) = min n (length xs)"
  by (simp add: keep_last_def)

lemma keep_last_short: "length xs \<le> n \<Longrightarrow> keep_last n xs = xs"
  by (simp add: keep_last_def)

lemma set_keep_last: "set (keep_last n xs) \<subseteq> set xs"
  by (simp add: keep_last_def set_drop_subset)

lemma keep_last_snoc: "0 < n \<Longrightarrow> keep_last n (xs @ [x]) = keep_last (n - 1) xs @ [x]"
  by (cases n) (simp_all add: keep_last_def)

section \<open>Decimal printing of integers\<close>

fun digit_char :: "nat \<Rightarrow> char" where
  "digit_char n = char_of (48 + n mod 10)"

fun show_nat :: "nat \<Rightarrow> string" where
  "show_nat n = (if n < 10 then [digit_char n] else show_nat (n div 10) @ [digit_char n])"

declare show_nat.simps [simp del]

definition show_int :: "int \<Rightarrow> string" where
  "show_int i = (if i < 0 then CHR ''-'' # show_nat (nat (- i)) else show_nat (nat i))"

text \<open>Reading the digits back gives the number: printing is injective.\<close>

definition digit_value :: "char \<Rightarrow> nat" where
  "digit_value c = of_char c - 48"

definition read_digits :: "string \<Rightarrow> nat" where
  "read_digits s = foldl (\<lambda>a c. 10 * a + digit_value c) 0 s"

lemma digit_value_digit_char [simp]: "digit_value (digit_char n) = n mod 10"
proof -
  have "48 + n mod 10 < 256" by (simp add: order_less_le_trans [of _ 58])
  then show ?thesis by (simp add: digit_value_def)
qed

lemma read_digits_snoc [simp]: "read_digits (s @ [c]) = 10 * read_digits s + digit_value c"
  by (simp add: read_digits_def)

lemma read_digits_show_nat [simp]: "read_digits (show_nat n) = n"
proof (induction n rule: show_nat.induct)
  case (1 n)
  show ?case
  proof (cases "n < 10")
    case True
    then show ?thesis by (simp add: show_nat.simps [of n] read_digits_def del: digit_char.simps)
  next
    case False
    with "1.IH" show ?thesis by (simp add: show_nat.simps [of n] del: digit_char.simps)
  qed
qed

lemma show_nat_inject: "show_nat m = show_nat n \<longleftrightarrow> m = n"
  by (metis read_digits_show_nat)

definition is_digit :: "char \<Rightarrow> bool" where
  "is_digit c \<longleftrightarrow> 48 \<le> (of_char c :: nat) \<and> of_char c \<le> (57 :: nat)"

lemma is_digit_digit_char [simp]: "is_digit (digit_char n)"
proof -
  have "48 + n mod 10 < 256" by (simp add: order_less_le_trans [of _ 58])
  moreover have "n mod 10 \<le> 9" by presburger
  ultimately show ?thesis by (simp add: is_digit_def)
qed

lemma show_nat_digits: "c \<in> set (show_nat n) \<Longrightarrow> is_digit c"
proof (induction n rule: show_nat.induct)
  case (1 n)
  then show ?case
    by (auto simp: show_nat.simps [of n] simp del: digit_char.simps split: if_splits)
qed

lemma show_nat_nonempty [simp]: "show_nat n \<noteq> []"
  by (simp add: show_nat.simps [of n])

lemma show_int_inject: "show_int i = show_int j \<longleftrightarrow> i = j"
proof -
  have minus: "\<not> is_digit (CHR ''-'')" by (simp add: is_digit_def)
  have sign: "show_nat m \<noteq> CHR ''-'' # s" for m s
    using minus show_nat_digits [of "CHR ''-''" m] by (metis list.set_intros(1))
  show ?thesis
    by (auto simp: show_int_def show_nat_inject sign sign [symmetric] split: if_splits)
qed

lemma show_int_chars: "c \<in> set (show_int i) \<Longrightarrow> is_digit c \<or> c = CHR ''-''"
  by (auto simp: show_int_def split: if_splits dest: show_nat_digits)

section \<open>Texts with separators\<close>

lemma split_at_first:
  "c \<notin> set xs \<Longrightarrow> c \<notin> set xs' \<Longrightarrow> xs @ c # ys = xs' @ c # ys' \<longleftrightarrow> xs = xs' \<and> ys = ys'"
proof (induction xs arbitrary: xs')
  case Nil
  then show ?case by (cases xs') auto
next
  case (Cons x xs)
  then show ?case by (cases xs') auto
qed

text \<open>Fields joined by a separator that none of them contains can be told apart.\<close>

fun join_with :: "char \<Rightarrow> string list \<Rightarrow> string" where
  "join_with c [] = []"
| "join_with c [x] = x"
| "join_with c (x # y # xs) = x @ c # join_with c (y # xs)"

lemma join_with_inject:
  assumes "length xs = length ys" "\<forall>x \<in> set xs. c \<notin> set x" "\<forall>y \<in> set ys. c \<notin> set y"
    "join_with c xs = join_with c ys"
  shows "xs = ys"
  using assms
proof (induction xs ys rule: list_induct2)
  case Nil
  then show ?case by simp
next
  case (Cons x xs y ys)
  show ?case
  proof (cases xs)
    case Nil
    with Cons show ?thesis by simp
  next
    case (Cons x' xs')
    then obtain y' ys' where ys: "ys = y' # ys'" using Cons.hyps by (cases ys) auto
    with Cons Cons.prems have "x = y \<and> join_with c xs = join_with c ys"
      by (simp add: split_at_first)
    with Cons.IH Cons.prems show ?thesis by simp
  qed
qed

text \<open>A number padded with zeros to a width.\<close>

definition pad_nat :: "nat \<Rightarrow> nat \<Rightarrow> string" where
  "pad_nat k n = replicate (k - length (show_nat n)) CHR ''0'' @ show_nat n"

lemma read_digits_zeros [simp]: "read_digits (replicate k CHR ''0'' @ s) = read_digits s"
proof -
  have "foldl (\<lambda>a c. 10 * a + digit_value c) 0 (replicate k CHR ''0'') = 0"
    by (induction k) (simp_all add: digit_value_def)
  then show ?thesis by (simp add: read_digits_def)
qed

lemma read_digits_pad [simp]: "read_digits (pad_nat k n) = n"
  by (simp add: pad_nat_def)

lemma pad_nat_inject [simp]: "pad_nat k m = pad_nat k n \<longleftrightarrow> m = n"
  by (metis read_digits_pad)

lemma pad_nat_digits: "c \<in> set (pad_nat k n) \<Longrightarrow> is_digit c"
  by (auto simp: pad_nat_def is_digit_def dest: show_nat_digits [unfolded is_digit_def])

section \<open>Upper and lower case, white space\<close>

definition upper_char :: "char \<Rightarrow> char" where
  "upper_char c =
     (let n = of_char c :: nat in if 97 \<le> n \<and> n \<le> 122 then char_of (n - 32) else c)"

definition upper :: "string \<Rightarrow> string" where
  "upper s = map upper_char s"

definition lower_char :: "char \<Rightarrow> char" where
  "lower_char c =
     (let n = of_char c :: nat in if 65 \<le> n \<and> n \<le> 90 then char_of (n + 32) else c)"

definition lower :: "string \<Rightarrow> string" where
  "lower s = map lower_char s"

definition is_space :: "char \<Rightarrow> bool" where
  "is_space c \<longleftrightarrow>
     (let n = of_char c :: nat in n = 32 \<or> 9 \<le> n \<and> n \<le> 13 \<or> 28 \<le> n \<and> n \<le> 31)"

definition strip :: "string \<Rightarrow> string" where
  "strip s = rev (dropWhile is_space (rev (dropWhile is_space s)))"

end
