(* ===== verification/Risk_Config.thy ===== *)
theory Risk_Config
  imports Prelude
begin

text \<open>
  The limits of \<^verbatim>\<open>libs/trading/risk_management/config.py\<close>: one record per Pydantic model, one
  constructor that performs the model's field validation (\<open>ge\<close> and \<open>le\<close> bounds) and raises when a
  field is out of range, and the defaults.
\<close>

record position_limits =
  max_position_size :: int
  max_position_pct :: rat

record portfolio_limits =
  max_total_notional :: rat
  max_long_exposure :: rat
  max_short_exposure :: rat

record loss_limits =
  daily_loss_limit :: rat
  max_drawdown_pct :: rat

record risk_config =
  rc_position_limits :: position_limits
  rc_portfolio_limits :: portfolio_limits
  rc_loss_limits :: loss_limits
  rc_blacklist :: "string list"

definition position_limits_ok :: "position_limits \<Rightarrow> bool" where
  "position_limits_ok l \<longleftrightarrow>
     1 \<le> max_position_size l \<and> 1 / 100 \<le> max_position_pct l \<and> max_position_pct l \<le> 1"

definition portfolio_limits_ok :: "portfolio_limits \<Rightarrow> bool" where
  "portfolio_limits_ok l \<longleftrightarrow>
     1000 \<le> max_total_notional l \<and> 0 \<le> max_long_exposure l \<and> 0 \<le> max_short_exposure l"

definition loss_limits_ok :: "loss_limits \<Rightarrow> bool" where
  "loss_limits_ok l \<longleftrightarrow>
     0 \<le> daily_loss_limit l \<and> 1 / 100 \<le> max_drawdown_pct l \<and> max_drawdown_pct l \<le> 1 / 2"

definition validated :: "('a \<Rightarrow> bool) \<Rightarrow> 'a \<Rightarrow> 'a result" where
  "validated ok x = (if ok x then Inr x else Inl (ValueError ''validation error''))"

definition mk_position_limits :: "int \<Rightarrow> rat \<Rightarrow> position_limits result" where
  "mk_position_limits shares pct =
     validated position_limits_ok \<lparr>max_position_size = shares, max_position_pct = pct\<rparr>"

definition mk_portfolio_limits :: "rat \<Rightarrow> rat \<Rightarrow> rat \<Rightarrow> portfolio_limits result" where
  "mk_portfolio_limits notional long short =
     validated portfolio_limits_ok
       \<lparr>max_total_notional = notional, max_long_exposure = long, max_short_exposure = short\<rparr>"

definition mk_loss_limits :: "rat \<Rightarrow> rat \<Rightarrow> loss_limits result" where
  "mk_loss_limits loss drawdown =
     validated loss_limits_ok \<lparr>daily_loss_limit = loss, max_drawdown_pct = drawdown\<rparr>"

definition default_risk_config :: risk_config where
  "default_risk_config =
     \<lparr>rc_position_limits = \<lparr>max_position_size = 1000, max_position_pct = 20 / 100\<rparr>,
      rc_portfolio_limits =
        \<lparr>max_total_notional = 100000, max_long_exposure = 80000, max_short_exposure = 20000\<rparr>,
      rc_loss_limits = \<lparr>daily_loss_limit = 5000, max_drawdown_pct = 10 / 100\<rparr>,
      rc_blacklist = []\<rparr>"

definition risk_config_ok :: "risk_config \<Rightarrow> bool" where
  "risk_config_ok c \<longleftrightarrow>
     position_limits_ok (rc_position_limits c) \<and> portfolio_limits_ok (rc_portfolio_limits c) \<and>
     loss_limits_ok (rc_loss_limits c)"

lemma validated_Inr_iff [simp]: "validated ok x = Inr y \<longleftrightarrow> y = x \<and> ok x"
  by (auto simp: validated_def)

lemma default_risk_config_ok: "risk_config_ok default_risk_config"
  by (simp add: risk_config_ok_def default_risk_config_def position_limits_ok_def
      portfolio_limits_ok_def loss_limits_ok_def)

end
