(* ===== verification/Redis_Store.thy ===== *)
theory Redis_Store
  imports Prelude
begin

text \<open>
  The Redis key space the risk components share.  A key holds a string, a list or a sorted set;
  a string is kept in decoded form: \<open>RJson v\<close> is the text of the JSON value \<open>v\<close> (an integer's
  text is \<open>RJson (JInt i)\<close>), \<open>RRaw s\<close> any other text.  Every command of the client class
  (\<^verbatim>\<open>libs/core/redis_client/client.py\<close>) that the source uses is one definition with its documented
  effect on the store; a key may carry a time to live, which \<open>SET\<close> removes.
  Connection failures and their retries are not modelled.
\<close>

datatype rval =
    RJson json
  | RRaw string
  | RList "json list"
  | RZset "(json \<times> rat) list"

record redis =
  r_data :: "string \<Rightarrow> rval option"
  r_ttl :: "string \<Rightarrow> int option"

definition empty_redis :: redis where
  "empty_redis = \<lparr>r_data = (\<lambda>_. None), r_ttl = (\<lambda>_. None)\<rparr>"

section \<open>Strings\<close>

definition redis_get :: "redis \<Rightarrow> string \<Rightarrow> rval option" where
  "redis_get r k = r_data r k"

definition redis_put :: "string \<Rightarrow> rval \<Rightarrow> redis \<Rightarrow> redis" where
  "redis_put k v r = r\<lparr>r_data := (r_data r)(k := Some v), r_ttl := (r_ttl r)(k := None)\<rparr>"

definition redis_delete :: "string \<Rightarrow> redis \<Rightarrow> redis" where
  "redis_delete k r = r\<lparr>r_data := (r_data r)(k := None), r_ttl := (r_ttl r)(k := None)\<rparr>"

text \<open>\<open>EXPIRE\<close>: nothing on an absent key; a timeout that is not positive deletes the key.\<close>

definition redis_expire :: "string \<Rightarrow> int \<Rightarrow> redis \<Rightarrow> redis" where
  "redis_expire k n r =
     (if redis_get r k = None then r
      else if n \<le> 0 then redis_delete k r
      else r\<lparr>r_ttl := (r_ttl r)(k := Some n)\<rparr>)"

text \<open>The client's \<open>set(key, value, ttl, ex)\<close>: \<open>ex\<close> wins over \<open>ttl\<close>, and zero means no expiry.\<close>

definition redis_set :: "string \<Rightarrow> rval \<Rightarrow> int option \<Rightarrow> int option \<Rightarrow> redis \<Rightarrow> redis" where
  "redis_set k v ttl ex r =
     (let expiry = (case ex of Some e \<Rightarrow> Some e | None \<Rightarrow> ttl)
      in case expiry of
           Some e \<Rightarrow> if e \<noteq> 0 then redis_expire k e (redis_put k v r) else redis_put k v r
         | None \<Rightarrow> redis_put k v r)"

text \<open>Time passes: a key with a time to live may disappear at any moment.\<close>

definition redis_evict :: "string \<Rightarrow> redis \<Rightarrow> redis" where
  "redis_evict k r = (if r_ttl r k = None then r else redis_delete k r)"

interpretation rds: key_value_del redis_get redis_put redis_delete
  by unfold_locales (auto simp: redis_get_def redis_put_def redis_delete_def)

lemma redis_get_put [simp, store_simps]:
  "redis_get (redis_put k v r) k' = (if k' = k then Some v else redis_get r k')"
  by (rule rds.get_put)

lemma redis_get_delete [simp, store_simps]:
  "redis_get (redis_delete k r) k' = (if k' = k then None else redis_get r k')"
  by (rule rds.get_del)

lemma redis_get_expire [store_simps]:
  "redis_get (redis_expire k n r) k' =
     (if k' = k \<and> n \<le> 0 then None else redis_get r k')"
  by (auto simp: redis_expire_def redis_delete_def redis_get_def)

lemma redis_set_plain [simp, store_simps]: "redis_set k v None None r = redis_put k v r"
  by (simp add: redis_set_def)

lemma redis_get_evict [store_simps]:
  "redis_get (redis_evict k r) k' =
     (if k' = k \<and> r_ttl r k \<noteq> None then None else redis_get r k')"
  by (auto simp: redis_evict_def)

lemma redis_ttl_simps [simp, store_simps]:
  "r_ttl (redis_put k v r) k' = (if k' = k then None else r_ttl r k')"
  "r_ttl (redis_delete k r) k' = (if k' = k then None else r_ttl r k')"
  by (auto simp: redis_put_def redis_delete_def)

lemma redis_ttl_expire [store_simps]:
  "r_ttl (redis_expire k n r) k' =
     (if k' = k then (if redis_get r k = None then r_ttl r k else if n \<le> 0 then None else Some n)
      else r_ttl r k')"
  by (auto simp: redis_expire_def)

lemma redis_ttl_evict [store_simps]:
  "r_ttl (redis_evict k r) k' = (if k' = k then None else r_ttl r k')"
  by (auto simp: redis_evict_def)

section \<open>Ranges of Redis lists\<close>

text \<open>
  A Redis index that is negative counts from the end; a start below the first element is the
  first element, a stop beyond the last is the last.
\<close>

definition redis_range :: "int \<Rightarrow> int \<Rightarrow> 'a list \<Rightarrow> 'a list" where
  "redis_range start stop xs =
     (let n = int (length xs);
          a = (if start < 0 then max 0 (n + start) else start);
          b = (if stop < 0 then n + stop else min stop (n - 1))
      in if b < a \<or> n \<le> a then [] else take (nat (b - a + 1)) (drop (nat a) xs))"

lemma redis_range_last: "redis_range (- int n) (- 1) xs = (if n = 0 then xs else keep_last n xs)"
proof (cases "n = 0 \<or> xs = []")
  case True
  then show ?thesis by (auto simp: redis_range_def keep_last_def Let_def)
next
  case False
  have eq: "max 0 (int (length xs) - int n) = int (length xs - n)" by simp
  from False have "length xs - n < length xs" by (cases xs) auto
  then have "\<not> int (length xs) - 1 < int (length xs - n)" "\<not> length xs \<le> length xs - n"
    by linarith+
  with False show ?thesis
    by (auto simp: redis_range_def keep_last_def Let_def eq)
qed

lemma redis_range_first: "0 < n \<Longrightarrow> redis_range 0 (int n - 1) xs = take n xs"
  by (auto simp: redis_range_def Let_def min_def)

lemma redis_range_all: "redis_range 0 (- 1) xs = xs"
  using redis_range_last [of 0 xs] by simp

text \<open>\<open>RPUSH\<close>, \<open>LTRIM\<close> and \<open>LRANGE\<close>; an absent key is the empty list.\<close>

definition redis_list :: "redis \<Rightarrow> string \<Rightarrow> json list result" where
  "redis_list r k =
     (case redis_get r k of
        None \<Rightarrow> Inr []
      | Some (RList xs) \<Rightarrow> Inr xs
      | Some _ \<Rightarrow> Inl (ResponseError ''WRONGTYPE''))"

definition redis_rpush :: "string \<Rightarrow> json \<Rightarrow> redis \<Rightarrow> redis result" where
  "redis_rpush k v r = rbind (redis_list r k)
     (\<lambda>xs. Inr (r\<lparr>r_data := (r_data r)(k := Some (RList (xs @ [v])))\<rparr>))"

definition redis_ltrim :: "string \<Rightarrow> int \<Rightarrow> int \<Rightarrow> redis \<Rightarrow> redis result" where
  "redis_ltrim k start stop r = rbind (redis_list r k)
     (\<lambda>xs. let ys = redis_range start stop xs
           in Inr (if ys = [] then redis_delete k r
                   else r\<lparr>r_data := (r_data r)(k := Some (RList ys))\<rparr>))"

definition redis_lrange :: "string \<Rightarrow> int \<Rightarrow> int \<Rightarrow> redis \<Rightarrow> json list result" where
  "redis_lrange k start stop r = rbind (redis_list r k) (\<lambda>xs. Inr (redis_range start stop xs))"

section \<open>Sorted sets\<close>

text \<open>
  A sorted set is a list of members with scores in rank order.  \<open>ZADD\<close> of a member that is there
  moves it to its new score; among equal scores the newer entry comes last (Redis orders them by
  the bytes of the member, which no code of the source relies on).
\<close>

fun zinsert :: "json \<Rightarrow> rat \<Rightarrow> (json \<times> rat) list \<Rightarrow> (json \<times> rat) list" where
  "zinsert m s [] = [(m, s)]"
| "zinsert m s ((m', s') # z) = (if s < s' then (m, s) # (m', s') # z else (m', s') # zinsert m s z)"

definition zrem_list :: "json \<Rightarrow> (json \<times> rat) list \<Rightarrow> (json \<times> rat) list" where
  "zrem_list m z = filter (\<lambda>e. fst e \<noteq> m) z"

definition zadd_list :: "json \<Rightarrow> rat \<Rightarrow> (json \<times> rat) list \<Rightarrow> (json \<times> rat) list" where
  "zadd_list m s z = zinsert m s (zrem_list m z)"

definition zset_ok :: "(json \<times> rat) list \<Rightarrow> bool" where
  "zset_ok z \<longleftrightarrow> sorted (map snd z) \<and> distinct (map fst z)"

definition redis_zset :: "redis \<Rightarrow> string \<Rightarrow> (json \<times> rat) list result" where
  "redis_zset r k =
     (case redis_get r k of
        None \<Rightarrow> Inr []
      | Some (RZset z) \<Rightarrow> Inr z
      | Some _ \<Rightarrow> Inl (ResponseError ''WRONGTYPE''))"

definition redis_zset_put :: "string \<Rightarrow> (json \<times> rat) list \<Rightarrow> redis \<Rightarrow> redis" where
  "redis_zset_put k z r =
     (if z = [] then redis_delete k r else r\<lparr>r_data := (r_data r)(k := Some (RZset z))\<rparr>)"

definition redis_zadd :: "string \<Rightarrow> json \<Rightarrow> rat \<Rightarrow> redis \<Rightarrow> redis result" where
  "redis_zadd k m s r = rbind (redis_zset r k) (\<lambda>z. Inr (redis_zset_put k (zadd_list m s z) r))"

definition redis_zcard :: "string \<Rightarrow> redis \<Rightarrow> int result" where
  "redis_zcard k r = rbind (redis_zset r k) (\<lambda>z. Inr (int (length z)))"

text \<open>\<open>ZREMRANGEBYRANK key 0 stop\<close> for a stop that is not negative, the only use in the source.\<close>

definition redis_zremrangebyrank :: "string \<Rightarrow> nat \<Rightarrow> redis \<Rightarrow> redis result" where
  "redis_zremrangebyrank k stop r =
     rbind (redis_zset r k) (\<lambda>z. Inr (redis_zset_put k (drop (Suc stop) z) r))"

definition redis_zrem :: "string \<Rightarrow> json \<Rightarrow> redis \<Rightarrow> redis result" where
  "redis_zrem k m r = rbind (redis_zset r k) (\<lambda>z. Inr (redis_zset_put k (zrem_list m z) r))"

definition redis_zrevrange :: "string \<Rightarrow> int \<Rightarrow> int \<Rightarrow> redis \<Rightarrow> (json \<times> rat) list result" where
  "redis_zrevrange k start stop r =
     rbind (redis_zset r k) (\<lambda>z. Inr (redis_range start stop (rev z)))"

lemma length_zinsert [simp]: "length (zinsert m s z) = Suc (length z)"
  by (induction z) auto

lemma set_zinsert: "set (zinsert m s z) = insert (m, s) (set z)"
  by (induction m s z rule: zinsert.induct) auto

lemma fst_zinsert: "fst ` set (zinsert m s z) = insert m (fst ` set z)"
  by (simp add: set_zinsert)

lemma sorted_zinsert: "sorted (map snd z) \<Longrightarrow> sorted (map snd (zinsert m s z))"
  by (induction m s z rule: zinsert.induct) (fastforce simp: set_zinsert)+

lemma distinct_zinsert:
  "distinct (map fst z) \<Longrightarrow> m \<notin> fst ` set z \<Longrightarrow> distinct (map fst (zinsert m s z))"
  by (induction z) (auto simp: set_zinsert image_iff)

lemma zinsert_last: "\<forall>e \<in> set z. snd e \<le> s \<Longrightarrow> zinsert m s z = z @ [(m, s)]"
  by (induction z) auto

lemma zset_ok_zrem: "zset_ok z \<Longrightarrow> zset_ok (zrem_list m z)"
  by (auto simp: zset_ok_def zrem_list_def sorted_filter distinct_map_filter)

lemma zset_ok_zadd: "zset_ok z \<Longrightarrow> zset_ok (zadd_list m s z)"
  using zset_ok_zrem [of z m]
  by (auto simp: zset_ok_def zadd_list_def zrem_list_def intro!: sorted_zinsert distinct_zinsert)

lemma zset_ok_drop: "zset_ok z \<Longrightarrow> zset_ok (drop n z)"
  by (auto simp: zset_ok_def drop_map [symmetric] sorted_wrt_drop)

lemma length_zrem_le: "length (zrem_list m z) \<le> length z"
  by (simp add: zrem_list_def)

lemma length_zadd_le: "length (zadd_list m s z) \<le> Suc (length z)"
  by (simp add: zadd_list_def length_zrem_le)

lemma redis_get_zset_put [store_simps]:
  "redis_get (redis_zset_put k z r) k' =
     (if k' = k then (if z = [] then None else Some (RZset z)) else redis_get r k')"
  by (auto simp: redis_zset_put_def redis_get_def redis_delete_def)

lemma redis_zset_of_put [simp, store_simps]:
  "redis_zset (redis_zset_put k z r) k' = (if k' = k then Inr z else redis_zset r k')"
  by (auto simp: redis_zset_def redis_get_zset_put)

lemma redis_zset_put_other [simp]: "k' \<noteq> k \<Longrightarrow> redis_zset (redis_put k v r) k' = redis_zset r k'"
  by (simp add: redis_zset_def)

section \<open>Decoding a JSON object\<close>

text \<open>
  \<open>json.loads\<close> of what \<open>GET\<close> returned: an absent key and the empty text are the falsy results
  the callers test for (\<open>None\<close>), a text that is not JSON raises, and a JSON value that is not an
  object fails at the first use as a dictionary.
\<close>

definition load_obj :: "rval option \<Rightarrow> dict option result" where
  "load_obj v =
     (case v of
        None \<Rightarrow> Inr None
      | Some (RRaw s) \<Rightarrow> if s = [] then Inr None else Inl DecodeError
      | Some (RJson (JObj d)) \<Rightarrow> Inr (Some d)
      | Some (RJson _) \<Rightarrow> Inl (TypeError ''not a JSON object'')
      | Some _ \<Rightarrow> Inl (ResponseError ''WRONGTYPE''))"

lemma load_obj_simps [simp]:
  "load_obj None = Inr None"
  "load_obj (Some (RJson (JObj d))) = Inr (Some d)"
  "load_obj (Some (RRaw [])) = Inr None"
  by (simp_all add: load_obj_def)

lemma load_obj_SomeE:
  assumes "load_obj v = Inr (Some d)"
  shows "v = Some (RJson (JObj d))"
  using assms by (auto simp: load_obj_def split: option.splits rval.splits json.splits if_splits)

text \<open>\<open>bool(client.get(key))\<close>: the key holds a text that is not empty.\<close>

definition redis_present :: "redis \<Rightarrow> string \<Rightarrow> bool" where
  "redis_present r k = (redis_get r k \<noteq> None \<and> redis_get r k \<noteq> Some (RRaw []))"

lemma load_obj_absent: "load_obj (redis_get r k) = Inr None \<longleftrightarrow> \<not> redis_present r k"
  by (auto simp: load_obj_def redis_present_def split: option.splits rval.splits json.splits)

section \<open>Gates\<close>

text \<open>
  The contract between a halt (a component whose state is one key) and the code that asks it
  before trading: the answer depends on the key alone, and a missing key is never an answer.
\<close>

locale halt_gate =
  fixes halted :: "redis \<Rightarrow> bool result" and gate_key :: string
  assumes halted_key: "redis_get r' gate_key = redis_get r gate_key \<Longrightarrow> halted r' = halted r"
    and halted_missing: "\<not> redis_present r gate_key \<Longrightarrow> \<exists>e. halted r = Inl e"
begin

lemma halted_put: "k \<noteq> gate_key \<Longrightarrow> halted (redis_put k v r) = halted r"
  by (rule halted_key) simp

lemma halted_delete: "k \<noteq> gate_key \<Longrightarrow> halted (redis_delete k r) = halted r"
  by (rule halted_key) simp

lemma halted_expire: "k \<noteq> gate_key \<Longrightarrow> halted (redis_expire k n r) = halted r"
  by (rule halted_key) (simp add: redis_get_expire)

lemma answer_present: "halted r = Inr b \<Longrightarrow> redis_present r gate_key"
  using halted_missing [of r] by (cases "redis_present r gate_key") auto

lemma flushed: "\<exists>e. halted empty_redis = Inl e"
  by (rule halted_missing) (simp add: redis_present_def redis_get_def empty_redis_def)

end

end
