(* ===== verification/Watch_Tx.thy ===== *)
theory Watch_Tx
  imports Redis_Store
begin

text \<open>
  Optimistic transactions of Redis.  A client watches a key, reads it, computes what to write and
  executes; the execution fails with \<open>WatchError\<close> when another client wrote the key after the
  watch, and the source's \<open>while True\<close> loops then start again.

  \<open>watch_loop\<close> is that loop as one client sees it: the list of foreign writes is what other
  clients do to the key between this client's watch and its execute, one per failed attempt.
  The inductive relation \<open>step\<close> is the view of the whole system: any number of clients whose
  watch, read and execute steps interleave on one versioned key.  Its main lemma says that the
  key always holds the result of running the committed transactions one after the other.
\<close>

section \<open>The retry loop of one client\<close>

text \<open>
  The body reads the store: it raises, gives up without writing (\<open>Inr None\<close>), or returns the
  store it wants to commit.  The result says whether it committed.
\<close>

fun watch_loop ::
  "(redis \<Rightarrow> redis option result) \<Rightarrow> (redis \<Rightarrow> redis) list \<Rightarrow> redis \<Rightarrow> bool result \<times> redis" where
  "watch_loop body foreign r =
     (case body r of
        Inl e \<Rightarrow> (Inl e, r)
      | Inr None \<Rightarrow> (Inr False, r)
      | Inr (Some r') \<Rightarrow>
          (case foreign of
             [] \<Rightarrow> (Inr True, r')
           | f # fs \<Rightarrow> watch_loop body fs (f r)))"

declare watch_loop.simps [simp del]

lemma watch_loop_quiet:
  "watch_loop body [] r =
     (case body r of Inl e \<Rightarrow> (Inl e, r) | Inr None \<Rightarrow> (Inr False, r) | Inr (Some r') \<Rightarrow> (Inr True, r'))"
  by (simp add: watch_loop.simps split: sum.split option.split)

text \<open>
  Whatever the interference, the loop ends as one undisturbed run of its body on the store after
  some prefix of the foreign writes.
\<close>

lemma watch_loop_serial:
  "\<exists>n \<le> length foreign.
     watch_loop body foreign r = watch_loop body [] (fold (\<lambda>f. f) (take n foreign) r)"
proof (induction foreign arbitrary: r)
  case Nil
  then show ?case by simp
next
  case (Cons f fs)
  show ?case
  proof (cases "\<exists>r'. body r = Inr (Some r')")
    case True
    then have "watch_loop body (f # fs) r = watch_loop body fs (f r)"
      by (auto simp: watch_loop.simps [of body "f # fs"])
    moreover obtain n where "n \<le> length fs"
      "watch_loop body fs (f r) = watch_loop body [] (fold (\<lambda>f. f) (take n fs) (f r))"
      using Cons.IH by blast
    ultimately show ?thesis by (intro exI [of _ "Suc n"]) simp
  next
    case False
    then have "watch_loop body (f # fs) r = watch_loop body [] r"
      by (auto simp: watch_loop.simps split: sum.split option.split)
    then show ?thesis by (intro exI [of _ 0]) simp
  qed
qed

lemma watch_loop_invariant:
  assumes "P r" "\<And>f r. f \<in> set foreign \<Longrightarrow> P r \<Longrightarrow> P (f r)"
    "\<And>r r'. P r \<Longrightarrow> body r = Inr (Some r') \<Longrightarrow> P r'"
  shows "P (snd (watch_loop body foreign r))"
  using assms
proof (induction foreign arbitrary: r)
  case Nil
  then show ?case by (auto simp: watch_loop_quiet split: sum.split option.split)
next
  case (Cons f fs)
  then show ?case by (auto simp: watch_loop.simps [of body "f # fs"] split: sum.split option.split)
qed

section \<open>Interleaved clients on one key\<close>

datatype ('op, 'v) pc =
    Idle
  | Watching 'op nat
  | HasRead 'op nat 'v

record ('c, 'op, 'v) tx_sys =
  s_val :: 'v
  s_ver :: nat
  s_pc :: "'c \<Rightarrow> ('op, 'v) pc"
  s_log :: "'op list"

definition tx_init :: "'v \<Rightarrow> ('c, 'op, 'v) tx_sys" where
  "tx_init v = \<lparr>s_val = v, s_ver = 0, s_pc = (\<lambda>_. Idle), s_log = []\<rparr>"

text \<open>
  The steps of client \<open>c\<close>; \<open>body op v\<close> is what the transaction \<open>op\<close> writes after reading \<open>v\<close>,
  \<open>None\<close> when it raises or returns without writing.  The version counts the writes of the key:
  the execute step succeeds exactly when the version is the one seen by the watch.
\<close>

inductive tx_step ::
  "('op \<Rightarrow> 'v \<Rightarrow> 'v option) \<Rightarrow> ('c, 'op, 'v) tx_sys \<Rightarrow> ('c, 'op, 'v) tx_sys \<Rightarrow> bool"
  for body where
  watch: "s_pc s c = Idle \<Longrightarrow>
    tx_step body s (s\<lparr>s_pc := (s_pc s)(c := Watching op (s_ver s))\<rparr>)"
| read: "s_pc s c = Watching op n \<Longrightarrow>
    tx_step body s (s\<lparr>s_pc := (s_pc s)(c := HasRead op n (s_val s))\<rparr>)"
| unwatch: "s_pc s c = HasRead op n v \<Longrightarrow> body op v = None \<Longrightarrow>
    tx_step body s (s\<lparr>s_pc := (s_pc s)(c := Idle)\<rparr>)"
| exec: "s_pc s c = HasRead op n v \<Longrightarrow> body op v = Some v' \<Longrightarrow> n = s_ver s \<Longrightarrow>
    tx_step body s (s\<lparr>s_val := v', s_ver := Suc (s_ver s), s_pc := (s_pc s)(c := Idle),
                       s_log := s_log s @ [op]\<rparr>)"
| exec_fail: "s_pc s c = HasRead op n v \<Longrightarrow> body op v = Some v' \<Longrightarrow> n \<noteq> s_ver s \<Longrightarrow>
    tx_step body s (s\<lparr>s_pc := (s_pc s)(c := Idle)\<rparr>)"

inductive tx_reach ::
  "('op \<Rightarrow> 'v \<Rightarrow> 'v option) \<Rightarrow> 'v \<Rightarrow> ('c, 'op, 'v) tx_sys \<Rightarrow> bool"
  for body v0 where
  start: "tx_reach body v0 (tx_init v0)"
| more: "tx_reach body v0 s \<Longrightarrow> tx_step body s s' \<Longrightarrow> tx_reach body v0 s'"

text \<open>The serial semantics: every transaction of the log reads what the one before it wrote.\<close>

fun tx_serial :: "('op \<Rightarrow> 'v \<Rightarrow> 'v option) \<Rightarrow> 'op list \<Rightarrow> 'v \<Rightarrow> 'v option" where
  "tx_serial body [] v = Some v"
| "tx_serial body (op # ops) v = Option.bind (body op v) (tx_serial body ops)"

lemma tx_serial_snoc:
  "tx_serial body (ops @ [op]) v = Option.bind (tx_serial body ops v) (body op)"
  by (induction ops arbitrary: v) (auto simp: Option.bind_eq_Some_conv split: option.splits bind_splits)

definition tx_inv :: "('op \<Rightarrow> 'v \<Rightarrow> 'v option) \<Rightarrow> 'v \<Rightarrow> ('c, 'op, 'v) tx_sys \<Rightarrow> bool" where
  "tx_inv body v0 s \<longleftrightarrow>
     tx_serial body (s_log s) v0 = Some (s_val s) \<and>
     s_ver s = length (s_log s) \<and>
     (\<forall>c op n. s_pc s c = Watching op n \<longrightarrow> n \<le> s_ver s) \<and>
     (\<forall>c op n v. s_pc s c = HasRead op n v \<longrightarrow> n \<le> s_ver s \<and> (n = s_ver s \<longrightarrow> v = s_val s))"

lemma tx_inv_init: "tx_inv body v (tx_init v)"
  by (simp add: tx_inv_def tx_init_def)

lemma tx_inv_step:
  assumes "tx_step body s s'" "tx_inv body v0 s"
  shows "tx_inv body v0 s'"
  using assms
proof (cases rule: tx_step.cases)
  case (exec c op n v v')
  with assms(2) have v: "v = s_val s" and log: "tx_serial body (s_log s) v0 = Some (s_val s)"
    by (auto simp: tx_inv_def)
  have "tx_serial body (s_log s @ [op]) v0 = Some v'"
    using exec v log by (simp add: tx_serial_snoc)
  moreover have "n \<le> s_ver s" if "s_pc s c = Watching op n" for c op n
    using assms(2) that by (auto simp: tx_inv_def)
  moreover have "n \<le> s_ver s" if "s_pc s c = HasRead op n v" for c op n v
    using assms(2) that by (auto simp: tx_inv_def)
  moreover have "s_ver s = length (s_log s)" using assms(2) by (simp add: tx_inv_def)
  ultimately show ?thesis using exec(1)
    by (auto simp: tx_inv_def le_Suc_eq) (metis Suc_n_not_le_n)
qed (auto simp: tx_inv_def)

lemma tx_reach_inv: "tx_reach body v0 s \<Longrightarrow> tx_inv body v0 s"
  by (induction rule: tx_reach.induct) (auto intro: tx_inv_init tx_inv_step)

lemma tx_reach_serial: "tx_reach body v0 s \<Longrightarrow> tx_serial body (s_log s) v0 = Some (s_val s)"
  by (drule tx_reach_inv) (simp add: tx_inv_def)

text \<open>
  A contract for the values of a key: what every transaction keeps is kept by every interleaving.
\<close>

locale tx_contract =
  fixes body :: "'op \<Rightarrow> 'v \<Rightarrow> 'v option" and ok :: "'v \<Rightarrow> bool"
  assumes body_ok: "ok v \<Longrightarrow> body op v = Some v' \<Longrightarrow> ok v'"
begin

lemma serial_ok: "tx_serial body ops v = Some v' \<Longrightarrow> ok v \<Longrightarrow> ok v'"
  by (induction ops arbitrary: v) (auto simp: Option.bind_eq_Some_conv intro: body_ok)

lemma reach_ok: "tx_reach body v0 s \<Longrightarrow> ok v0 \<Longrightarrow> ok (s_val s)"
  using tx_reach_serial serial_ok by metis

end

text \<open>A quantity of the value that every transaction changes by a known amount.\<close>

locale tx_measure = tx_contract body ok
  for body :: "'op \<Rightarrow> 'v \<Rightarrow> 'v option" and ok :: "'v \<Rightarrow> bool" +
  fixes amount :: "'v \<Rightarrow> int" and delta :: "'op \<Rightarrow> int"
  assumes body_amount: "ok v \<Longrightarrow> body op v = Some v' \<Longrightarrow> amount v' = amount v + delta op"
begin

lemma serial_amount:
  "tx_serial body ops v = Some v' \<Longrightarrow> ok v \<Longrightarrow> amount v' = amount v + sum_list (map delta ops)"
proof (induction ops arbitrary: v)
  case Nil
  then show ?case by simp
next
  case (Cons op ops)
  then obtain w where w: "body op v = Some w" "tx_serial body ops w = Some v'"
    by (auto simp: Option.bind_eq_Some_conv)
  with Cons show ?case using body_ok [of v op w] body_amount [of v op w] by simp
qed

lemma reach_amount:
  "tx_reach body v0 s \<Longrightarrow> ok v0 \<Longrightarrow> amount (s_val s) = amount v0 + sum_list (map delta (s_log s))"
  using tx_reach_serial serial_amount by metis

end

end
