(* ===== verification/Circuit_Breaker.thy ===== *)
theory Circuit_Breaker
  imports Watch_Tx
begin

text \<open>
  The circuit breaker of \<^verbatim>\<open>libs/trading/risk_management/breaker.py\<close>.  Its state is the JSON object
  at \<open>circuit_breaker:state\<close>, its log the sorted set at \<open>circuit_breaker:trip_history\<close>.  Every
  method of the class is one definition over the Redis store; the three transactions
  (\<open>trip\<close>, \<open>reset\<close>, \<open>_transition_to_open\<close>) and \<open>update_history_with_reset\<close> are bodies run by
  \<open>watch_loop\<close>.  The clock readings \<open>datetime.now(UTC)\<close> are arguments: the ISO text \<open>now\<close> and
  the epoch seconds \<open>ts\<close>.
\<close>

section \<open>States and keys\<close>

datatype breaker_state = OPEN | TRIPPED | QUIET_PERIOD

datatype trip_reason = DAILY_LOSS_EXCEEDED | MAX_DRAWDOWN | DATA_STALE | BROKER_ERRORS | MANUAL

fun breaker_state_value :: "breaker_state \<Rightarrow> string" where
  "breaker_state_value OPEN = ''OPEN''"
| "breaker_state_value TRIPPED = ''TRIPPED''"
| "breaker_state_value QUIET_PERIOD = ''QUIET_PERIOD''"

fun trip_reason_value :: "trip_reason \<Rightarrow> string" where
  "trip_reason_value DAILY_LOSS_EXCEEDED = ''DAILY_LOSS_EXCEEDED''"
| "trip_reason_value MAX_DRAWDOWN = ''MAX_DRAWDOWN''"
| "trip_reason_value DATA_STALE = ''DATA_STALE''"
| "trip_reason_value BROKER_ERRORS = ''BROKER_ERRORS''"
| "trip_reason_value MANUAL = ''MANUAL''"

text \<open>\<open>CircuitBreakerState(v)\<close>: the member with that value, else \<open>ValueError\<close>.\<close>

definition breaker_state_of :: "json \<Rightarrow> breaker_state result" where
  "breaker_state_of v =
     (if v = JStr ''OPEN'' then Inr OPEN
      else if v = JStr ''TRIPPED'' then Inr TRIPPED
      else if v = JStr ''QUIET_PERIOD'' then Inr QUIET_PERIOD
      else Inl (ValueError ''not a valid CircuitBreakerState''))"

definition breaker_state_key :: string where
  "breaker_state_key = ''circuit_breaker:state''"

definition breaker_history_key :: string where
  "breaker_history_key = ''circuit_breaker:trip_history''"

definition breaker_max_history :: nat where
  "breaker_max_history = 1000"

lemma breaker_keys_distinct [simp]:
  "breaker_state_key \<noteq> breaker_history_key" "breaker_history_key \<noteq> breaker_state_key"
  by (simp_all add: breaker_state_key_def breaker_history_key_def)

section \<open>Initialisation and reads\<close>

definition breaker_default_state :: dict where
  "breaker_default_state =
     [(''state'', JStr (breaker_state_value OPEN)), (''tripped_at'', JNull),
      (''trip_reason'', JNull), (''trip_details'', JNull), (''reset_at'', JNull),
      (''reset_by'', JNull), (''trip_count_today'', JInt 0)]"

definition breaker_initialize_state_internal :: "redis \<Rightarrow> redis" where
  "breaker_initialize_state_internal r =
     redis_set breaker_state_key (RJson (JObj breaker_default_state)) None None r"

definition breaker_init :: "bool \<Rightarrow> redis \<Rightarrow> redis" where
  "breaker_init auto_initialize r =
     (if auto_initialize \<and> \<not> redis_present r breaker_state_key
      then breaker_initialize_state_internal r else r)"

definition breaker_initialize_state :: "bool \<Rightarrow> redis \<Rightarrow> bool \<times> redis" where
  "breaker_initialize_state force r =
     (if \<not> force \<and> redis_present r breaker_state_key then (False, r)
      else (True, breaker_initialize_state_internal r))"

definition breaker_migrate_legacy :: "redis \<Rightarrow> bool result \<times> redis" where
  "breaker_migrate_legacy r =
     (case load_obj (redis_get r breaker_state_key) of
        Inl e \<Rightarrow> (Inl e, r)
      | Inr None \<Rightarrow> (Inr False, r)
      | Inr (Some state_data) \<Rightarrow>
          if dict_get state_data ''state'' \<noteq> Some (JStr (breaker_state_value QUIET_PERIOD))
          then (Inr False, r)
          else (Inr True,
                redis_set breaker_state_key
                  (RJson (JObj (dict_put ''state'' (JStr (breaker_state_value OPEN)) state_data)))
                  None None r))"

definition breaker_missing :: "string \<Rightarrow> py_error" where
  "breaker_missing when = RuntimeError (''Circuit breaker state missing from Redis'' @ when)"

definition breaker_get_state :: "redis \<Rightarrow> breaker_state result" where
  "breaker_get_state r =
     rbind (load_obj (redis_get r breaker_state_key)) (\<lambda>state_data.
       case state_data of
         None \<Rightarrow> Inl (breaker_missing [])
       | Some d \<Rightarrow>
           rbind (dict_index d ''state'') (\<lambda>st.
             if st = JStr (breaker_state_value QUIET_PERIOD) then Inr OPEN
             else breaker_state_of st))"

definition breaker_is_tripped :: "redis \<Rightarrow> bool result" where
  "breaker_is_tripped r = rbind (breaker_get_state r) (\<lambda>st. Inr (st = TRIPPED))"

definition breaker_get_trip_reason :: "redis \<Rightarrow> json result" where
  "breaker_get_trip_reason r =
     rbind (load_obj (redis_get r breaker_state_key)) (\<lambda>state_data.
       case state_data of
         None \<Rightarrow> Inr JNull
       | Some d \<Rightarrow> Inr (dict_get_or d ''trip_reason'' JNull))"

definition breaker_get_trip_details :: "redis \<Rightarrow> json result" where
  "breaker_get_trip_details r =
     rbind (load_obj (redis_get r breaker_state_key)) (\<lambda>state_data.
       case state_data of
         None \<Rightarrow> Inr JNull
       | Some d \<Rightarrow> Inr (dict_get_or d ''trip_details'' JNull))"

text \<open>
  \<open>str(state_data.get("state", "")).upper()\<close> decides the reported state.  The text of a value
  that is not a string is never one of the state names.
\<close>

definition breaker_normalize_state :: "json option \<Rightarrow> json" where
  "breaker_normalize_state st =
     (case st of
        Some (JStr s) \<Rightarrow>
          if upper s = breaker_state_value QUIET_PERIOD then JStr (breaker_state_value OPEN)
          else if upper s = breaker_state_value OPEN \<or> upper s = breaker_state_value TRIPPED
          then JStr (upper s)
          else JStr ''UNKNOWN''
      | _ \<Rightarrow> JStr ''UNKNOWN'')"

definition breaker_get_status :: "redis \<Rightarrow> dict result" where
  "breaker_get_status r =
     rbind (load_obj (redis_get r breaker_state_key)) (\<lambda>state_data.
       case state_data of
         None \<Rightarrow> Inl (breaker_missing [])
       | Some d \<Rightarrow> Inr (dict_put ''state'' (breaker_normalize_state (dict_get d ''state'')) d))"

section \<open>The history log\<close>

definition breaker_append_to_history :: "rat \<Rightarrow> dict \<Rightarrow> redis \<Rightarrow> redis result" where
  "breaker_append_to_history ts entry r =
     rbind (redis_zadd breaker_history_key (JObj entry) ts r) (\<lambda>r1.
     rbind (redis_zcard breaker_history_key r1) (\<lambda>current_count.
       if current_count > int breaker_max_history
       then redis_zremrangebyrank breaker_history_key
              (nat (current_count - int breaker_max_history - 1)) r1
       else Inr r1))"

definition breaker_get_history :: "int \<Rightarrow> redis \<Rightarrow> json list result" where
  "breaker_get_history limit r =
     rbind (redis_zrevrange breaker_history_key 0 (limit - 1) r) (\<lambda>es. Inr (map fst es))"

section \<open>Transactions\<close>

text \<open>The writes of the three transactions, as functions of the state object they read.\<close>

definition breaker_trip_write :: "string \<Rightarrow> string \<Rightarrow> json \<Rightarrow> dict \<Rightarrow> dict option result" where
  "breaker_trip_write now reason details d =
     rbind (dict_index d ''state'') (\<lambda>st.
       if st = JStr (breaker_state_value TRIPPED) then Inr None
       else rbind (json_incr (dict_get_or d ''trip_count_today'' (JInt 0))) (\<lambda>count.
         Inr (Some (dict_update
           [(''state'', JStr (breaker_state_value TRIPPED)), (''tripped_at'', JStr now),
            (''trip_reason'', JStr reason), (''trip_details'', details),
            (''trip_count_today'', count)] d))))"

definition breaker_reset_write :: "string \<Rightarrow> string \<Rightarrow> dict \<Rightarrow> dict option result" where
  "breaker_reset_write now reset_by d =
     rbind (dict_index d ''state'') (\<lambda>st.
     rbind (breaker_state_of st) (\<lambda>current_state.
       if current_state \<noteq> TRIPPED
       then Inl (CircuitBreakerError
                   (''Cannot reset: current state is '' @ breaker_state_value current_state))
       else Inr (Some (dict_update
         [(''state'', JStr (breaker_state_value OPEN)), (''tripped_at'', JNull),
          (''trip_reason'', JNull), (''trip_details'', JNull), (''reset_at'', JStr now),
          (''reset_by'', JStr reset_by)] d))))"

definition breaker_open_write :: "dict \<Rightarrow> dict option result" where
  "breaker_open_write d =
     Inr (Some (dict_update
       [(''state'', JStr (breaker_state_value OPEN)), (''tripped_at'', JNull),
        (''trip_reason'', JNull), (''trip_details'', JNull)] d))"

text \<open>Reading the state, failing closed when it is missing, and writing it back.\<close>

definition breaker_tx ::
  "string \<Rightarrow> (dict \<Rightarrow> dict option result) \<Rightarrow> redis \<Rightarrow> redis option result" where
  "breaker_tx when write r =
     rbind (load_obj (redis_get r breaker_state_key)) (\<lambda>state_data.
       case state_data of
         None \<Rightarrow> Inl (breaker_missing when)
       | Some d \<Rightarrow> rbind (write d) (\<lambda>w.
           Inr (map_option
             (\<lambda>d'. redis_set breaker_state_key (RJson (JObj d')) None None r) w)))"

definition breaker_trip ::
  "string \<Rightarrow> rat \<Rightarrow> string \<Rightarrow> json \<Rightarrow> (redis \<Rightarrow> redis) list \<Rightarrow> redis \<Rightarrow> unit result \<times> redis" where
  "breaker_trip now ts reason details foreign r =
     (case watch_loop (breaker_tx '' during trip'' (breaker_trip_write now reason details)) foreign r of
        (Inl e, r1) \<Rightarrow> (Inl e, r1)
      | (Inr False, r1) \<Rightarrow> (Inr (), r1)
      | (Inr True, r1) \<Rightarrow>
          (case breaker_append_to_history ts
                  [(''tripped_at'', JStr now), (''reason'', JStr reason), (''details'', details),
                   (''reset_at'', JNull), (''reset_by'', JNull)] r1 of
             Inl e \<Rightarrow> (Inl e, r1)
           | Inr r2 \<Rightarrow> (Inr (), r2)))"

definition breaker_reset ::
  "string \<Rightarrow> string \<Rightarrow> (redis \<Rightarrow> redis) list \<Rightarrow> redis \<Rightarrow> unit result \<times> redis" where
  "breaker_reset now reset_by foreign r =
     (case watch_loop (breaker_tx '' during reset'' (breaker_reset_write now reset_by)) foreign r of
        (Inl e, r1) \<Rightarrow> (Inl e, r1)
      | (Inr _, r1) \<Rightarrow> (Inr (), r1))"

definition breaker_transition_to_open :: "(redis \<Rightarrow> redis) list \<Rightarrow> redis \<Rightarrow> unit result \<times> redis" where
  "breaker_transition_to_open foreign r =
     (case watch_loop (breaker_tx '' during transition'' breaker_open_write) foreign r of
        (Inl e, r1) \<Rightarrow> (Inl e, r1)
      | (Inr _, r1) \<Rightarrow> (Inr (), r1))"

text \<open>The newest history entry receives the reset; an entry that has one is left alone.\<close>

definition breaker_history_tx ::
  "string \<Rightarrow> string \<Rightarrow> string option \<Rightarrow> redis \<Rightarrow> redis option result" where
  "breaker_history_tx reset_at reset_by reset_reason r =
     rbind (redis_zrevrange breaker_history_key 0 0 r) (\<lambda>entries.
       case entries of
         [] \<Rightarrow> Inr None
       | (JObj entry, score) # _ \<Rightarrow>
           if dict_get_or entry ''reset_at'' JNull \<noteq> JNull then Inr None
           else
             let e1 = dict_put ''reset_by'' (JStr reset_by)
                        (dict_put ''reset_at'' (JStr reset_at) entry);
                 e2 = (case reset_reason of
                         None \<Rightarrow> e1
                       | Some s \<Rightarrow> if s = [] then e1 else dict_put ''reset_reason'' (JStr s) e1)
             in rbind (redis_zrem breaker_history_key (JObj entry) r) (\<lambda>r1.
                rbind (redis_zadd breaker_history_key (JObj e2) score r1) (\<lambda>r2. Inr (Some r2)))
       | _ \<Rightarrow> Inl (TypeError ''history entry is not a JSON object''))"

definition breaker_update_history_with_reset ::
  "string \<Rightarrow> string \<Rightarrow> string option \<Rightarrow> (redis \<Rightarrow> redis) list \<Rightarrow> redis \<Rightarrow> unit result \<times> redis" where
  "breaker_update_history_with_reset reset_at reset_by reset_reason foreign r =
     (case watch_loop (breaker_history_tx reset_at reset_by reset_reason) foreign r of
        (Inl e, r1) \<Rightarrow> (Inl e, r1)
      | (Inr _, r1) \<Rightarrow> (Inr (), r1))"

section \<open>Reads after writes\<close>

lemma breaker_tx_SomeE:
  assumes "breaker_tx when write r = Inr (Some r')"
  obtains d d' where "redis_get r breaker_state_key = Some (RJson (JObj d))"
    "write d = Inr (Some d')" "r' = redis_put breaker_state_key (RJson (JObj d')) r"
  using assms
  by (auto simp: breaker_tx_def rbind_Inr_iff split: option.splits dest!: load_obj_SomeE)

lemma breaker_tx_NoneE:
  assumes "breaker_tx when write r = Inr None"
  obtains d where "redis_get r breaker_state_key = Some (RJson (JObj d))" "write d = Inr None"
  using assms
  by (auto simp: breaker_tx_def rbind_Inr_iff split: option.splits dest!: load_obj_SomeE)

lemma breaker_tx_missing:
  "\<not> redis_present r breaker_state_key \<Longrightarrow> breaker_tx when write r = Inl (breaker_missing when)"
  by (simp add: breaker_tx_def load_obj_absent [THEN iffD2])

lemma breaker_get_state_of_dict:
  "redis_get r breaker_state_key = Some (RJson (JObj d)) \<Longrightarrow>
   dict_get d ''state'' = Some (JStr (breaker_state_value st)) \<Longrightarrow>
   breaker_get_state r = Inr (if st = QUIET_PERIOD then OPEN else st)"
  by (cases st) (simp_all add: breaker_get_state_def dict_index_def breaker_state_of_def)

lemma breaker_trip_write_cases:
  assumes "breaker_trip_write now reason details d = Inr w"
  shows "(w = None \<and> dict_get d ''state'' = Some (JStr ''TRIPPED'')) \<or>
    (\<exists>count d'. w = Some d' \<and> dict_get d ''state'' \<noteq> Some (JStr ''TRIPPED'') \<and>
       json_incr (dict_get_or d ''trip_count_today'' (JInt 0)) = Inr count \<and>
       dict_get d' = (dict_get d)(''state'' \<mapsto> JStr ''TRIPPED'', ''tripped_at'' \<mapsto> JStr now,
         ''trip_reason'' \<mapsto> JStr reason, ''trip_details'' \<mapsto> details, ''trip_count_today'' \<mapsto> count))"
  using assms
  by (auto simp: breaker_trip_write_def rbind_Inr_iff dict_index_get dict_get_update fun_eq_iff
      split: if_splits)

lemma breaker_reset_write_cases:
  assumes "breaker_reset_write now reset_by d = Inr w"
  shows "\<exists>d'. w = Some d' \<and> dict_get d ''state'' = Some (JStr ''TRIPPED'') \<and>
       dict_get d' = (dict_get d)(''state'' \<mapsto> JStr ''OPEN'', ''tripped_at'' \<mapsto> JNull,
         ''trip_reason'' \<mapsto> JNull, ''trip_details'' \<mapsto> JNull, ''reset_at'' \<mapsto> JStr now,
         ''reset_by'' \<mapsto> JStr reset_by)"
  using assms
  by (auto simp: breaker_reset_write_def rbind_Inr_iff dict_index_get dict_get_update fun_eq_iff
      breaker_state_of_def split: if_splits)

lemma breaker_open_write_cases:
  assumes "breaker_open_write d = Inr w"
  shows "\<exists>d'. w = Some d' \<and>
       dict_get d' = (dict_get d)(''state'' \<mapsto> JStr ''OPEN'', ''tripped_at'' \<mapsto> JNull,
         ''trip_reason'' \<mapsto> JNull, ''trip_details'' \<mapsto> JNull)"
  using assms by (auto simp: breaker_open_write_def dict_get_update fun_eq_iff)

lemma redis_zset_put_get_other [simp]:
  "k' \<noteq> k \<Longrightarrow> redis_get (redis_zset_put k z r) k' = redis_get r k'"
  by (simp add: redis_get_zset_put)

text \<open>The history log in closed form, and that writing it leaves every other key alone.\<close>

lemma breaker_append_to_history_eq:
  assumes "redis_zset r breaker_history_key = Inr z"
  shows "\<exists>r'. breaker_append_to_history ts entry r = Inr r' \<and>
     redis_zset r' breaker_history_key =
       Inr (keep_last breaker_max_history (zadd_list (JObj entry) ts z)) \<and>
     (\<forall>k. k \<noteq> breaker_history_key \<longrightarrow> redis_get r' k = redis_get r k)"
proof -
  let ?z = "zadd_list (JObj entry) ts z"
  let ?r1 = "redis_zset_put breaker_history_key ?z r"
  have add: "redis_zadd breaker_history_key (JObj entry) ts r = Inr ?r1"
    using assms by (simp add: redis_zadd_def)
  show ?thesis
  proof (cases "int (length ?z) > int breaker_max_history")
    case True
    then have "Suc (nat (int (length ?z) - int breaker_max_history - 1)) =
        length ?z - breaker_max_history" by linarith
    with True show ?thesis
      by (simp add: breaker_append_to_history_def add redis_zcard_def redis_zremrangebyrank_def
          keep_last_def)
  next
    case False
    then show ?thesis
      by (simp add: breaker_append_to_history_def add redis_zcard_def keep_last_short)
  qed
qed

lemma breaker_append_to_history_other:
  assumes "breaker_append_to_history ts entry r = Inr r'" "k \<noteq> breaker_history_key"
  shows "redis_get r' k = redis_get r k"
proof -
  from assms(1) obtain z where "redis_zset r breaker_history_key = Inr z"
    by (auto simp: breaker_append_to_history_def redis_zadd_def rbind_Inr_iff)
  from breaker_append_to_history_eq [OF this, of ts entry] assms show ?thesis by auto
qed

section \<open>Well-formed states and the abstract breaker\<close>

text \<open>
  A state object the operations of the class build: the state is a member of the enumeration,
  the count is an integer, and exactly a tripped breaker has a reason and a time.
\<close>

definition breaker_wf :: "dict \<Rightarrow> bool" where
  "breaker_wf d \<longleftrightarrow>
     dict_str d ''state'' \<in> {Some ''OPEN'', Some ''TRIPPED'', Some ''QUIET_PERIOD''} \<and>
     (case dict_int d ''trip_count_today'' of None \<Rightarrow> False | Some n \<Rightarrow> 0 \<le> n) \<and>
     dict_get d ''trip_reason'' \<noteq> None \<and> dict_get d ''tripped_at'' \<noteq> None \<and>
     (dict_str d ''state'' = Some ''TRIPPED'' \<longleftrightarrow> dict_get d ''trip_reason'' \<noteq> Some JNull) \<and>
     (dict_str d ''state'' = Some ''TRIPPED'' \<longleftrightarrow> dict_get d ''tripped_at'' \<noteq> Some JNull)"

definition breaker_count :: "dict \<Rightarrow> int" where
  "breaker_count d = (case dict_int d ''trip_count_today'' of Some n \<Rightarrow> n | None \<Rightarrow> 0)"

lemma breaker_wfE:
  assumes "breaker_wf d"
  obtains s n reason trip_time where "dict_get d ''state'' = Some (JStr s)"
    "dict_get d ''trip_count_today'' = Some (JInt n)" "dict_get d ''trip_reason'' = Some reason"
    "dict_get d ''tripped_at'' = Some trip_time"
    "s = ''OPEN'' \<or> s = ''TRIPPED'' \<or> s = ''QUIET_PERIOD''"
    "0 \<le> n" "(s = ''TRIPPED'') = (reason \<noteq> JNull)" "(s = ''TRIPPED'') = (trip_time \<noteq> JNull)"
proof -
  from assms obtain s n where sn: "dict_str d ''state'' = Some s"
    "dict_int d ''trip_count_today'' = Some n" "0 \<le> n"
    by (auto simp: breaker_wf_def split: option.splits)
  with assms that [of s n] show ?thesis
    unfolding breaker_wf_def by (auto simp: dict_str_iff dict_int_iff)
qed

lemma breaker_wf_default: "breaker_wf breaker_default_state"
  by (simp add: breaker_wf_def breaker_default_state_def dict_str_def dict_int_def)

datatype abs_breaker = ABOpen int | ABTripped int json json

text \<open>The contract: a counter and, when tripped, the reason and the details of the trip.\<close>

fun spec_trip :: "string \<Rightarrow> json \<Rightarrow> abs_breaker \<Rightarrow> abs_breaker" where
  "spec_trip reason details (ABOpen n) = ABTripped (n + 1) (JStr reason) details"
| "spec_trip reason details (ABTripped n r d) = ABTripped n r d"

fun spec_reset :: "abs_breaker \<Rightarrow> abs_breaker option" where
  "spec_reset (ABOpen n) = None"
| "spec_reset (ABTripped n r d) = Some (ABOpen n)"

definition breaker_abs :: "dict \<Rightarrow> abs_breaker" where
  "breaker_abs d =
     (if dict_get d ''state'' = Some (JStr ''TRIPPED'')
      then ABTripped (breaker_count d) (dict_get_or d ''trip_reason'' JNull)
             (dict_get_or d ''trip_details'' JNull)
      else ABOpen (breaker_count d))"

lemma breaker_trip_write_refines:
  assumes "breaker_wf d"
  shows "\<exists>w. breaker_trip_write now reason details d = Inr w \<and>
    breaker_wf (case w of None \<Rightarrow> d | Some d' \<Rightarrow> d') \<and>
    breaker_abs (case w of None \<Rightarrow> d | Some d' \<Rightarrow> d') = spec_trip reason details (breaker_abs d)"
  using assms
  by (elim breaker_wfE)
    (auto simp: breaker_trip_write_def dict_index_def breaker_wf_def breaker_abs_def
      breaker_count_def dict_str_def dict_int_def dict_get_or_def dict_get_update)

lemma breaker_reset_write_refines:
  assumes "breaker_wf d"
  shows "case breaker_reset_write now reset_by d of
      Inl e \<Rightarrow> spec_reset (breaker_abs d) = None
    | Inr None \<Rightarrow> False
    | Inr (Some d') \<Rightarrow> breaker_wf d' \<and> spec_reset (breaker_abs d) = Some (breaker_abs d')"
  using assms
  by (elim breaker_wfE)
    (auto simp: breaker_reset_write_def dict_index_def breaker_wf_def breaker_abs_def
      breaker_count_def dict_str_def dict_int_def dict_get_or_def dict_get_update breaker_state_of_def)

section \<open>Concurrent transactions on the state key\<close>

datatype breaker_op =
    OTrip string string json
  | OReset string string
  | OToOpen

text \<open>What each transaction writes after reading a state object; \<open>None\<close> when it raises or returns.\<close>

definition write_of :: "dict option result \<Rightarrow> dict option" where
  "write_of w = (case w of Inl _ \<Rightarrow> None | Inr d \<Rightarrow> d)"

fun breaker_body :: "breaker_op \<Rightarrow> dict \<Rightarrow> dict option" where
  "breaker_body (OTrip now reason details) d = write_of (breaker_trip_write now reason details d)"
| "breaker_body (OReset now reset_by) d = write_of (breaker_reset_write now reset_by d)"
| "breaker_body OToOpen d = write_of (breaker_open_write d)"

fun is_trip :: "breaker_op \<Rightarrow> bool" where
  "is_trip (OTrip _ _ _) = True"
| "is_trip _ = False"

lemma breaker_open_write_refines:
  assumes "breaker_wf d"
  shows "\<exists>d'. breaker_open_write d = Inr (Some d') \<and> breaker_wf d' \<and>
    breaker_abs d' = ABOpen (breaker_count d)"
  using assms
  by (elim breaker_wfE)
    (simp add: breaker_open_write_def breaker_wf_def breaker_abs_def
      breaker_count_def dict_str_def dict_int_def dict_get_update)

fun abs_count :: "abs_breaker \<Rightarrow> int" where
  "abs_count (ABOpen n) = n"
| "abs_count (ABTripped n _ _) = n"

fun abs_tripped :: "abs_breaker \<Rightarrow> bool" where
  "abs_tripped (ABOpen _) = False"
| "abs_tripped (ABTripped _ _ _) = True"

lemma abs_count_breaker [simp]: "abs_count (breaker_abs d) = breaker_count d"
  by (simp add: breaker_abs_def)

lemma breaker_abs_countD:
  "breaker_abs d = ABOpen n \<Longrightarrow> breaker_count d = n"
  "breaker_abs d = ABTripped n reason details \<Longrightarrow> breaker_count d = n"
  by (simp_all add: breaker_abs_def split: if_splits)

lemma breaker_body_trip:
  assumes "breaker_wf d" "breaker_body (OTrip now reason details) d = Some d'"
  shows "breaker_wf d' \<and> \<not> abs_tripped (breaker_abs d) \<and>
    breaker_abs d' = ABTripped (breaker_count d + 1) (JStr reason) details"
proof -
  from assms(2) have w: "breaker_trip_write now reason details d = Inr (Some d')"
    by (auto simp: write_of_def split: sum.splits)
  have "dict_get d ''state'' \<noteq> Some (JStr ''TRIPPED'')"
    using breaker_trip_write_cases [OF w] by auto
  then show ?thesis
    using breaker_trip_write_refines [OF assms(1), of now reason details] w
    by (simp add: breaker_abs_def [of d])
qed

lemma breaker_body_reset:
  assumes "breaker_wf d" "breaker_body (OReset now reset_by) d = Some d'"
  shows "breaker_wf d' \<and> abs_tripped (breaker_abs d) \<and> breaker_abs d' = ABOpen (breaker_count d)"
proof -
  from assms(2) have w: "breaker_reset_write now reset_by d = Inr (Some d')"
    by (auto simp: write_of_def split: sum.splits)
  with breaker_reset_write_refines [OF assms(1), of now reset_by]
  have "breaker_wf d'" "spec_reset (breaker_abs d) = Some (breaker_abs d')" by simp_all
  then show ?thesis
    using abs_count_breaker [of d] by (cases "breaker_abs d") simp_all
qed

interpretation brk: tx_measure breaker_body breaker_wf breaker_count
  "\<lambda>op. if is_trip op then 1 else 0"
proof unfold_locales
  fix d op d'
  assume "breaker_wf d" "breaker_body op d = Some d'"
  then have "breaker_wf d' \<and> breaker_count d' = breaker_count d + (if is_trip op then 1 else 0)"
  proof (cases op)
    case (OTrip now reason details)
    with \<open>breaker_wf d\<close> \<open>breaker_body op d = Some d'\<close> show ?thesis
      using breaker_body_trip [of d now reason details d'] by (auto dest: breaker_abs_countD)
  next
    case (OReset now reset_by)
    with \<open>breaker_wf d\<close> \<open>breaker_body op d = Some d'\<close> show ?thesis
      using breaker_body_reset [of d now reset_by d'] by (auto dest: breaker_abs_countD)
  next
    case OToOpen
    with \<open>breaker_body op d = Some d'\<close> breaker_open_write_refines [OF \<open>breaker_wf d\<close>] show ?thesis
      by (auto simp: write_of_def dest: breaker_abs_countD)
  qed
  then show "breaker_wf d'"
    and "breaker_count d' = breaker_count d + (if is_trip op then 1 else 0)" by auto
qed

text \<open>In a serial run no trip directly follows a trip: the second would have found the state tripped.\<close>

fun no_double_trip :: "bool \<Rightarrow> breaker_op list \<Rightarrow> bool" where
  "no_double_trip tripped [] = True"
| "no_double_trip tripped (op # ops) =
     ((is_trip op \<longrightarrow> \<not> tripped) \<and> no_double_trip (is_trip op) ops)"

lemma breaker_serial_no_double_trip:
  "tx_serial breaker_body ops d = Some d' \<Longrightarrow> breaker_wf d \<Longrightarrow>
   no_double_trip (abs_tripped (breaker_abs d)) ops"
proof (induction ops arbitrary: d)
  case Nil
  then show ?case by simp
next
  case (Cons op ops)
  then obtain w where w: "breaker_body op d = Some w" "tx_serial breaker_body ops w = Some d'"
    by (auto simp: Option.bind_eq_Some_conv)
  then have wf: "breaker_wf w" using Cons.prems(2) brk.body_ok by blast
  have "abs_tripped (breaker_abs w) = is_trip op \<and> (is_trip op \<longrightarrow> \<not> abs_tripped (breaker_abs d))"
  proof (cases op)
    case (OTrip now reason details)
    with breaker_body_trip Cons.prems(2) w(1) show ?thesis by fastforce
  next
    case (OReset now reset_by)
    with breaker_body_reset Cons.prems(2) w(1) show ?thesis by fastforce
  next
    case OToOpen
    with w(1) breaker_open_write_refines [OF Cons.prems(2)] show ?thesis
      by (auto simp: write_of_def)
  qed
  with Cons.IH [OF w(2) wf] show ?case by simp
qed

section \<open>The breaker as a gate\<close>

interpretation breaker_gate: halt_gate breaker_is_tripped breaker_state_key
  by unfold_locales
    (simp_all add: breaker_is_tripped_def breaker_get_state_def load_obj_absent [THEN iffD2])

section \<open>Properties\<close>

lemma watch_loop_True:
  assumes "watch_loop body foreign r = (Inr True, r')"
  shows "\<exists>r0. body r0 = Inr (Some r')"
proof -
  obtain n where "watch_loop body foreign r = watch_loop body [] (fold (\<lambda>f. f) (take n foreign) r)"
    using watch_loop_serial by blast
  with assms show ?thesis by (auto simp: watch_loop_quiet split: sum.splits option.splits)
qed

lemma watch_loop_False:
  assumes "watch_loop body foreign r = (Inr False, r')"
  shows "body r' = Inr None"
proof -
  obtain n where "watch_loop body foreign r = watch_loop body [] (fold (\<lambda>f. f) (take n foreign) r)"
    using watch_loop_serial by blast
  with assms show ?thesis by (auto simp: watch_loop_quiet split: sum.splits option.splits)
qed

lemma breaker_is_tripped_iff:
  "breaker_is_tripped r = Inr True \<longleftrightarrow>
     (\<exists>d. redis_get r breaker_state_key = Some (RJson (JObj d)) \<and>
          dict_get d ''state'' = Some (JStr ''TRIPPED''))"
proof
  assume "breaker_is_tripped r = Inr True"
  then show "\<exists>d. redis_get r breaker_state_key = Some (RJson (JObj d)) \<and>
          dict_get d ''state'' = Some (JStr ''TRIPPED'')"
    by (auto simp: breaker_is_tripped_def breaker_get_state_def rbind_Inr_iff dict_index_get
        breaker_state_of_def split: option.splits if_splits dest!: load_obj_SomeE)
qed (auto simp: breaker_is_tripped_def breaker_get_state_def dict_index_def breaker_state_of_def)

text \<open>A trip that returns leaves the breaker tripped, whatever other clients write to the state
  between its attempts, and in particular when the state was tripped already.\<close>

theorem breaker_trip_safe:
  assumes "breaker_trip now ts reason details foreign r = (Inr (), r')"
  shows "breaker_is_tripped r' = Inr True"
proof -
  let ?body = "breaker_tx '' during trip'' (breaker_trip_write now reason details)"
  obtain b r1 where loop: "watch_loop ?body foreign r = (Inr b, r1)"
    using assms by (auto simp: breaker_trip_def split: prod.splits sum.splits)
  show ?thesis
  proof (cases b)
    case False
    with assms loop have "r' = r1" by (simp add: breaker_trip_def)
    moreover have "?body r1 = Inr None" using watch_loop_False [of ?body foreign r r1] loop False by simp
    ultimately show ?thesis
      by (elim breaker_tx_NoneE) (auto simp: breaker_is_tripped_iff dest: breaker_trip_write_cases)
  next
    case True
    then have "watch_loop ?body foreign r = (Inr True, r1)" using loop by simp
    from watch_loop_True [OF this] obtain r0 where "?body r0 = Inr (Some r1)" by blast
    then have "breaker_is_tripped r1 = Inr True"
      by (elim breaker_tx_SomeE) (auto simp: breaker_is_tripped_iff dest: breaker_trip_write_cases)
    moreover have "redis_get r' breaker_state_key = redis_get r1 breaker_state_key"
      using assms loop True breaker_append_to_history_other
      by (auto simp: breaker_trip_def split: sum.splits)
    ultimately show ?thesis by (simp add: breaker_is_tripped_iff)
  qed
qed

theorem breaker_trip_safe_witness:
  "breaker_is_tripped (snd (breaker_trip ''t1'' 1 ''DATA_STALE'' JNull [] (breaker_init True empty_redis)))
     = Inr True"
proof (rule breaker_trip_safe [of "''t1''" 1 "''DATA_STALE''" JNull "[]" "breaker_init True empty_redis"])
  show "breaker_trip ''t1'' 1 ''DATA_STALE'' JNull [] (breaker_init True empty_redis) =
      (Inr (), snd (breaker_trip ''t1'' 1 ''DATA_STALE'' JNull [] (breaker_init True empty_redis)))"
    by (simp add: breaker_trip_def watch_loop_quiet breaker_tx_def breaker_init_def redis_present_def
        breaker_initialize_state_internal_def breaker_default_state_def breaker_trip_write_def
        dict_index_def dict_get_or_def breaker_append_to_history_def redis_zadd_def redis_zset_def
        redis_zcard_def breaker_max_history_def redis_zset_put_def zadd_list_def zrem_list_def
        redis_get_def empty_redis_def redis_put_def breaker_state_key_def breaker_history_key_def)
qed

text \<open>When the state is missing (a flushed or restarted Redis) every read of it and every
  transition raises the same error and leaves the store as it is: no operation but an explicit
  initialisation brings the breaker back.\<close>

theorem breaker_missing_fails_closed:
  assumes "\<not> redis_present r breaker_state_key"
  shows "breaker_get_state r = Inl (breaker_missing []) \<and>
     breaker_is_tripped r = Inl (breaker_missing []) \<and>
     breaker_get_status r = Inl (breaker_missing []) \<and>
     breaker_trip now ts reason details foreign r = (Inl (breaker_missing '' during trip''), r) \<and>
     breaker_reset now reset_by foreign r = (Inl (breaker_missing '' during reset''), r) \<and>
     breaker_transition_to_open foreign r = (Inl (breaker_missing '' during transition''), r) \<and>
     breaker_migrate_legacy r = (Inr False, r)"
  using assms
  by (simp add: breaker_get_state_def breaker_is_tripped_def breaker_get_status_def breaker_trip_def
      breaker_reset_def breaker_transition_to_open_def breaker_migrate_legacy_def
      load_obj_absent [THEN iffD2] watch_loop.simps breaker_tx_missing)

theorem breaker_missing_fails_closed_witness:
  "breaker_is_tripped empty_redis = Inl (breaker_missing [])"
  using breaker_missing_fails_closed [of empty_redis "''t''" 1 "''r''" JNull "[]" "''ops''"]
  by (simp add: redis_present_def redis_get_def empty_redis_def)

text \<open>Without interference, tripping implements its contract: the count goes up and the reason
  and details are recorded when the breaker was open, nothing changes when it was tripped, and only
  a real trip is logged, the log keeping its thousand newest entries.\<close>

theorem breaker_trip_refines:
  assumes "redis_get r breaker_state_key = Some (RJson (JObj d))" "breaker_wf d"
    and "redis_zset r breaker_history_key = Inr z"
  shows "\<exists>r' d'. breaker_trip now ts reason details [] r = (Inr (), r') \<and>
     redis_get r' breaker_state_key = Some (RJson (JObj d')) \<and> breaker_wf d' \<and>
     breaker_abs d' = spec_trip reason details (breaker_abs d) \<and>
     redis_zset r' breaker_history_key =
       Inr (if abs_tripped (breaker_abs d) then z
            else keep_last breaker_max_history
              (zadd_list (JObj [(''tripped_at'', JStr now), (''reason'', JStr reason),
                 (''details'', details), (''reset_at'', JNull), (''reset_by'', JNull)]) ts z))"
proof -
  let ?body = "breaker_tx '' during trip'' (breaker_trip_write now reason details)"
  let ?entry = "[(''tripped_at'', JStr now), (''reason'', JStr reason),
     (''details'', details), (''reset_at'', JNull), (''reset_by'', JNull)]"
  obtain w where w: "breaker_trip_write now reason details d = Inr w"
    "breaker_wf (case w of None \<Rightarrow> d | Some d' \<Rightarrow> d')"
    "breaker_abs (case w of None \<Rightarrow> d | Some d' \<Rightarrow> d') = spec_trip reason details (breaker_abs d)"
    using breaker_trip_write_refines [OF assms(2)] by blast
  have tripped: "abs_tripped (breaker_abs d) \<longleftrightarrow> w = None"
    using breaker_trip_write_cases [OF w(1)] by (auto simp: breaker_abs_def)
  show ?thesis
  proof (cases w)
    case None
    then have "breaker_trip now ts reason details [] r = (Inr (), r)"
      by (simp add: breaker_trip_def watch_loop_quiet breaker_tx_def assms(1) w(1))
    with None w assms tripped show ?thesis by auto
  next
    case (Some d')
    let ?r1 = "redis_put breaker_state_key (RJson (JObj d')) r"
    have z1: "redis_zset ?r1 breaker_history_key = Inr z" using assms(3) by simp
    obtain r2 where r2: "breaker_append_to_history ts ?entry ?r1 = Inr r2"
      "redis_zset r2 breaker_history_key =
         Inr (keep_last breaker_max_history (zadd_list (JObj ?entry) ts z))"
      "\<forall>k. k \<noteq> breaker_history_key \<longrightarrow> redis_get r2 k = redis_get ?r1 k"
      using breaker_append_to_history_eq [OF z1] by blast
    have "breaker_trip now ts reason details [] r = (Inr (), r2)"
      by (simp add: breaker_trip_def watch_loop_quiet breaker_tx_def assms(1) w(1) Some r2(1))
    with Some w tripped r2 show ?thesis by auto
  qed
qed

theorem breaker_trip_refines_witness:
  "\<exists>r' d'. breaker_trip ''t1'' 1 ''DATA_STALE'' JNull [] (breaker_init True empty_redis) = (Inr (), r') \<and>
     redis_get r' breaker_state_key = Some (RJson (JObj d')) \<and>
     breaker_abs d' = ABTripped 1 (JStr ''DATA_STALE'') JNull"
proof -
  have "redis_get (breaker_init True empty_redis) breaker_state_key =
      Some (RJson (JObj breaker_default_state))"
    "redis_zset (breaker_init True empty_redis) breaker_history_key = Inr []"
    by (simp_all add: breaker_init_def breaker_initialize_state_internal_def redis_present_def
        redis_zset_def redis_get_def empty_redis_def redis_put_def)
  moreover have "breaker_abs breaker_default_state = ABOpen 0"
    by (simp add: breaker_abs_def breaker_default_state_def breaker_count_def dict_int_def)
  ultimately show ?thesis
    using breaker_trip_refines [OF _ breaker_wf_default, of "breaker_init True empty_redis" "[]"
        "''t1''" 1 "''DATA_STALE''" JNull]
    by fastforce
qed

text \<open>A reset succeeds exactly on a tripped breaker, which it opens keeping the count of the day and
  recording who reset it; on any other state it raises and changes nothing.\<close>

theorem breaker_reset_spec:
  assumes "redis_get r breaker_state_key = Some (RJson (JObj d))" "breaker_wf d"
  shows "case breaker_reset now reset_by [] r of
      (Inl e, r') \<Rightarrow> r' = r \<and> \<not> abs_tripped (breaker_abs d)
    | (Inr _, r') \<Rightarrow> abs_tripped (breaker_abs d) \<and>
        (\<exists>d'. redis_get r' breaker_state_key = Some (RJson (JObj d')) \<and> breaker_wf d' \<and>
           breaker_abs d' = ABOpen (breaker_count d) \<and>
           breaker_get_state r' = Inr OPEN \<and>
           dict_get d' ''reset_by'' = Some (JStr reset_by))"
proof (cases "breaker_reset_write now reset_by d")
  case (Inl e)
  have "\<not> abs_tripped (breaker_abs d)"
    using breaker_reset_write_refines [OF assms(2), of now reset_by] Inl
    by (cases "breaker_abs d") auto
  then show ?thesis by (simp add: breaker_reset_def watch_loop_quiet breaker_tx_def assms(1) Inl)
next
  case (Inr w)
  from breaker_reset_write_cases [OF Inr] obtain d' where d': "w = Some d'"
    "dict_get d' ''state'' = Some (JStr (breaker_state_value OPEN))"
    "dict_get d' ''reset_by'' = Some (JStr reset_by)" by auto
  have "breaker_body (OReset now reset_by) d = Some d'" by (simp add: write_of_def Inr d'(1))
  note body = breaker_body_reset [OF assms(2) this]
  let ?r' = "redis_put breaker_state_key (RJson (JObj d')) r"
  have "breaker_reset now reset_by [] r = (Inr (), ?r')"
    by (simp add: breaker_reset_def watch_loop_quiet breaker_tx_def assms(1) Inr d'(1))
  moreover have "breaker_get_state ?r' = Inr OPEN"
    using breaker_get_state_of_dict [of ?r' d' OPEN] d'(2) by simp
  ultimately show ?thesis using body d' by simp
qed

theorem breaker_reset_spec_witness:
  "fst (breaker_reset ''t'' ''ops'' [] (breaker_init True empty_redis)) \<noteq> Inr ()"
proof -
  have get: "redis_get (breaker_init True empty_redis) breaker_state_key =
      Some (RJson (JObj breaker_default_state))"
    by (simp add: breaker_init_def breaker_initialize_state_internal_def redis_present_def
        redis_get_def empty_redis_def redis_put_def)
  have "breaker_abs breaker_default_state = ABOpen 0"
    by (simp add: breaker_abs_def breaker_default_state_def breaker_count_def dict_int_def)
  with breaker_reset_spec [OF get breaker_wf_default, of "''ops''" "''t''"] show ?thesis
    by (auto split: prod.splits sum.splits)
qed

text \<open>C8. However the transactions of any number of clients interleave, the state object stays
  well formed, it is the result of the committed transactions run one after the other, the count
  of the day has grown by the number of committed trips, and between two committed trips there is
  a reset: concurrent trips of an open breaker count once.\<close>

theorem breaker_concurrent:
  assumes "tx_reach breaker_body d s" "breaker_wf d"
  shows "breaker_wf (s_val s) \<and>
     tx_serial breaker_body (s_log s) d = Some (s_val s) \<and>
     breaker_count (s_val s) = breaker_count d + int (length (filter is_trip (s_log s))) \<and>
     no_double_trip (abs_tripped (breaker_abs d)) (s_log s)"
proof -
  have sum: "sum_list (map (\<lambda>op. if is_trip op then 1 else (0 :: int)) ops) =
      int (length (filter is_trip ops))" for ops
    by (induction ops) auto
  show ?thesis
    using brk.reach_ok [OF assms] tx_reach_serial [OF assms(1)] brk.reach_amount [OF assms]
      breaker_serial_no_double_trip [OF tx_reach_serial [OF assms(1)] assms(2)]
    by (simp add: sum)
qed

theorem breaker_concurrent_witness:
  "\<exists>s :: (nat, breaker_op, dict) tx_sys. tx_reach breaker_body breaker_default_state s \<and>
     s_log s = [OTrip ''t'' ''MANUAL'' JNull] \<and> breaker_count (s_val s) = 1"
proof -
  let ?op = "OTrip ''t'' ''MANUAL'' JNull"
  let ?d = breaker_default_state
  let ?s0 = "tx_init ?d :: (nat, breaker_op, dict) tx_sys"
  let ?s1 = "?s0\<lparr>s_pc := (s_pc ?s0)(0 := Watching ?op (s_ver ?s0))\<rparr>"
  let ?s2 = "?s1\<lparr>s_pc := (s_pc ?s1)(0 := HasRead ?op 0 (s_val ?s1))\<rparr>"
  obtain d' where d': "breaker_body ?op ?d = Some d'"
    by (simp add: write_of_def breaker_trip_write_def dict_index_def breaker_default_state_def dict_get_or_def)
  let ?s3 = "?s2\<lparr>s_val := d', s_ver := Suc (s_ver ?s2), s_pc := (s_pc ?s2)(0 := Idle),
    s_log := s_log ?s2 @ [?op]\<rparr>"
  have "tx_reach breaker_body ?d ?s1"
    by (intro tx_reach.more [OF tx_reach.start] tx_step.watch) (simp add: tx_init_def)
  then have "tx_reach breaker_body ?d ?s2"
    by (rule tx_reach.more) (intro tx_step.read, simp add: tx_init_def)
  then have reach: "tx_reach breaker_body ?d ?s3"
    by (rule tx_reach.more) (intro tx_step.exec [where v = ?d and n = 0], use d' in \<open>simp_all add: tx_init_def\<close>)
  have "breaker_count ?d = 0"
    by (simp add: breaker_count_def breaker_default_state_def dict_int_def)
  then show ?thesis
    using breaker_concurrent [OF reach breaker_wf_default] reach
    by (intro exI [of _ ?s3]) (simp add: tx_init_def)
qed

text \<open>Recording a reset rewrites the newest history entry in place of the old one, with its score,
  so the log keeps its length; when the newest entry has a reset already, or the log is empty,
  nothing changes.\<close>

theorem breaker_history_reset:
  assumes "redis_zset r breaker_history_key = Inr (z @ [(JObj entry, score)])"
    and "zset_ok (z @ [(JObj entry, score)])"
    and "reset_reason = None \<or> reset_reason = Some []"
    and "JObj (dict_put ''reset_by'' (JStr reset_by) (dict_put ''reset_at'' (JStr reset_at) entry))
           \<notin> fst ` set z"
  shows "\<exists>r'. breaker_update_history_with_reset reset_at reset_by reset_reason [] r = (Inr (), r') \<and>
     redis_zset r' breaker_history_key =
       Inr (if dict_get_or entry ''reset_at'' JNull \<noteq> JNull then z @ [(JObj entry, score)]
            else z @ [(JObj (dict_put ''reset_by'' (JStr reset_by)
                        (dict_put ''reset_at'' (JStr reset_at) entry)), score)])"
proof -
  let ?z = "z @ [(JObj entry, score)]"
  let ?e = "dict_put ''reset_by'' (JStr reset_by) (dict_put ''reset_at'' (JStr reset_at) entry)"
  have newest: "redis_zrevrange breaker_history_key 0 0 r = Inr [(JObj entry, score)]"
    by (simp add: redis_zrevrange_def assms(1) redis_range_def)
  have fresh: "JObj entry \<notin> fst ` set z" and scores: "\<forall>e \<in> set z. snd e \<le> score"
    using assms(2) by (auto simp: zset_ok_def sorted_append)
  have rem: "zrem_list (JObj entry) ?z = z"
    using fresh by (auto simp: zrem_list_def filter_id_conv image_iff)
  have "zrem_list (JObj ?e) z = z"
    using assms(4) by (auto simp: zrem_list_def filter_id_conv image_iff)
  then have add: "zadd_list (JObj ?e) score z = z @ [(JObj ?e, score)]"
    by (simp add: zadd_list_def zinsert_last [OF scores])
  show ?thesis
  proof (cases "dict_get_or entry ''reset_at'' JNull = JNull")
    case True
    have "(case reset_reason of None \<Rightarrow> ?e | Some s \<Rightarrow> if s = [] then ?e else dict_put ''reset_reason'' (JStr s) ?e) = ?e"
      using assms(3) by auto
    then have "breaker_history_tx reset_at reset_by reset_reason r =
        Inr (Some (redis_zset_put breaker_history_key (z @ [(JObj ?e, score)])
                    (redis_zset_put breaker_history_key z r)))"
      by (simp add: breaker_history_tx_def newest True redis_zrem_def redis_zadd_def assms(1) rem add Let_def)
    with True show ?thesis
      by (simp add: breaker_update_history_with_reset_def watch_loop_quiet)
  next
    case False
    then have "breaker_history_tx reset_at reset_by reset_reason r = Inr None"
      by (simp add: breaker_history_tx_def newest)
    with False assms(1) show ?thesis
      by (simp add: breaker_update_history_with_reset_def watch_loop_quiet)
  qed
qed

theorem breaker_history_reset_witness:
  "\<exists>r'. breaker_update_history_with_reset ''t2'' ''ops'' None []
       (redis_zset_put breaker_history_key [(JObj [(''reset_at'', JNull)], 1)] empty_redis) = (Inr (), r') \<and>
     redis_zset r' breaker_history_key =
       Inr [(JObj [(''reset_at'', JStr ''t2''), (''reset_by'', JStr ''ops'')], 1)]"
  using breaker_history_reset [of
      "redis_zset_put breaker_history_key [(JObj [(''reset_at'', JNull)], 1)] empty_redis" "[]"
      "[(''reset_at'', JNull)]" 1 None "''ops''" "''t2''"]
  by (simp add: zset_ok_def dict_get_or_def dict_put_def)

text \<open>The history reads the newest entries first, at most as many as asked for; a limit of zero,
  though, reads the whole log.\<close>

theorem breaker_get_history_newest:
  assumes "redis_zset r breaker_history_key = Inr z"
  shows "breaker_get_history (int n) r =
     Inr (if n = 0 then map fst (rev z) else take n (map fst (rev z)))"
proof (cases n)
  case 0
  then show ?thesis
    by (simp add: breaker_get_history_def redis_zrevrange_def assms redis_range_all)
next
  case (Suc m)
  then show ?thesis
    using redis_range_first [of n "rev z"]
    by (simp add: breaker_get_history_def redis_zrevrange_def assms take_map)
qed

theorem breaker_get_history_newest_witness:
  "breaker_get_history (int 0) (redis_zset_put breaker_history_key [(JInt 1, 1), (JInt 2, 2)] empty_redis)
     = Inr [JInt 2, JInt 1] \<and>
   breaker_get_history (int 1) (redis_zset_put breaker_history_key [(JInt 1, 1), (JInt 2, 2)] empty_redis)
     = Inr [JInt 2]"
  using breaker_get_history_newest [of
      "redis_zset_put breaker_history_key [(JInt 1, 1), (JInt 2, 2)] empty_redis"
      "[(JInt 1, 1), (JInt 2, 2)]" 0]
    breaker_get_history_newest [of
      "redis_zset_put breaker_history_key [(JInt 1, 1), (JInt 2, 2)] empty_redis"
      "[(JInt 1, 1), (JInt 2, 2)]" 1]
  by simp

end
