(* ===== verification/Kill_Switch.thy ===== *)
theory Kill_Switch
  imports Redis_Store
begin

text \<open>
  The operator's kill switch of \<^verbatim>\<open>libs/trading/risk_management/kill_switch.py\<close>.  The state is the
  JSON object at \<open>kill_switch:state\<close>; \<open>engage\<close> and \<open>disengage\<close> change it with one Lua script each,
  which Redis runs atomically, and then append to the list at \<open>kill_switch:history\<close> and trim it.
  The scripts are modelled branch by branch, with Lua's notion of truth: an empty string is not
  false, an absent field is \<open>nil\<close>.  The script's decoding and encoding of JSON is taken to keep
  values (it does not keep the order of keys, and writes an empty nested array as an object).
\<close>

section \<open>State and reads\<close>

datatype kill_switch_state = ACTIVE | ENGAGED

fun kill_switch_value :: "kill_switch_state \<Rightarrow> string" where
  "kill_switch_value ACTIVE = ''ACTIVE''"
| "kill_switch_value ENGAGED = ''ENGAGED''"

definition kill_switch_state_of :: "json \<Rightarrow> kill_switch_state result" where
  "kill_switch_state_of v =
     (if v = JStr ''ACTIVE'' then Inr ACTIVE
      else if v = JStr ''ENGAGED'' then Inr ENGAGED
      else Inl (ValueError ''not a valid KillSwitchState''))"

definition ks_state_key :: string where
  "ks_state_key = ''kill_switch:state''"

definition ks_history_key :: string where
  "ks_history_key = ''kill_switch:history''"

definition ks_max_history :: nat where
  "ks_max_history = 1000"

lemma ks_keys_distinct [simp]: "ks_state_key \<noteq> ks_history_key" "ks_history_key \<noteq> ks_state_key"
  by (simp_all add: ks_state_key_def ks_history_key_def)

lemma ks_max_history_pos: "0 < ks_max_history"
  by (simp add: ks_max_history_def)

definition ks_default_state :: dict where
  "ks_default_state =
     [(''state'', JStr (kill_switch_value ACTIVE)), (''engaged_at'', JNull), (''engaged_by'', JNull),
      (''engagement_reason'', JNull), (''disengaged_at'', JNull), (''disengaged_by'', JNull),
      (''engagement_count_today'', JInt 0)]"

definition ks_initialize_state :: "redis \<Rightarrow> redis" where
  "ks_initialize_state r = redis_set ks_state_key (RJson (JObj ks_default_state)) None None r"

definition ks_init :: "redis \<Rightarrow> redis" where
  "ks_init r = (if \<not> redis_present r ks_state_key then ks_initialize_state r else r)"

definition ks_missing :: py_error where
  "ks_missing = RuntimeError ''Kill-switch state missing from Redis''"

definition ks_get_state :: "redis \<Rightarrow> kill_switch_state result" where
  "ks_get_state r =
     rbind (load_obj (redis_get r ks_state_key)) (\<lambda>state_data.
       case state_data of
         None \<Rightarrow> Inl ks_missing
       | Some d \<Rightarrow> rbind (dict_index d ''state'') kill_switch_state_of)"

definition ks_is_engaged :: "redis \<Rightarrow> bool result" where
  "ks_is_engaged r = rbind (ks_get_state r) (\<lambda>st. Inr (st = ENGAGED))"

definition ks_get_status :: "redis \<Rightarrow> dict result" where
  "ks_get_status r =
     rbind (load_obj (redis_get r ks_state_key)) (\<lambda>state_data.
       case state_data of None \<Rightarrow> Inl ks_missing | Some d \<Rightarrow> Inr d)"

definition ks_get_history :: "int \<Rightarrow> redis \<Rightarrow> json list result" where
  "ks_get_history limit r =
     rbind (redis_lrange ks_history_key (- limit) (- 1) r) (\<lambda>history. Inr (rev history))"

section \<open>The Lua scripts\<close>

text \<open>\<open>(x or 0) + 1\<close> in Lua: \<open>nil\<close> and \<open>false\<close> count as zero, a string of digits as its number.\<close>

fun lua_incr :: "json option \<Rightarrow> json result" where
  "lua_incr None = Inr (JInt 1)"
| "lua_incr (Some (JBool False)) = Inr (JInt 1)"
| "lua_incr (Some (JInt n)) = Inr (JInt (n + 1))"
| "lua_incr (Some (JDec q)) = Inr (JDec (q + 1))"
| "lua_incr (Some (JStr s)) =
     (if s \<noteq> [] \<and> list_all is_digit s then Inr (JInt (int (read_digits s) + 1))
      else Inl (ResponseError ''attempt to perform arithmetic''))"
| "lua_incr (Some _) = Inl (ResponseError ''attempt to perform arithmetic'')"

text \<open>\<open>GET\<close> and \<open>cjson.decode\<close> inside a script: only an absent key counts as missing.\<close>

definition lua_load_obj :: "string \<Rightarrow> rval option \<Rightarrow> dict result" where
  "lua_load_obj missing v =
     (case v of
        None \<Rightarrow> Inl (ResponseError missing)
      | Some (RJson (JObj d)) \<Rightarrow> Inr d
      | Some _ \<Rightarrow> Inl (ResponseError ''script error''))"

definition ks_engage_script ::
  "string \<Rightarrow> string \<Rightarrow> string \<Rightarrow> json \<Rightarrow> redis \<Rightarrow> redis result" where
  "ks_engage_script engaged_at operator reason details r =
     rbind (lua_load_obj ''Kill-switch state missing'' (redis_get r ks_state_key)) (\<lambda>state_data.
       if dict_get state_data ''state'' = Some (JStr (kill_switch_value ENGAGED))
       then Inl (ResponseError ''Kill-switch already engaged'')
       else rbind (lua_incr (dict_get state_data ''engagement_count_today'')) (\<lambda>count.
         Inr (redis_set ks_state_key (RJson (JObj (dict_update
           [(''state'', JStr (kill_switch_value ENGAGED)), (''engaged_at'', JStr engaged_at),
            (''engaged_by'', JStr operator), (''engagement_reason'', JStr reason),
            (''engagement_details'', details), (''disengaged_at'', JNull),
            (''disengaged_by'', JNull), (''engagement_count_today'', count)] state_data)))
           None None r)))"

definition ks_disengage_script :: "string \<Rightarrow> string \<Rightarrow> json \<Rightarrow> redis \<Rightarrow> redis result" where
  "ks_disengage_script disengaged_at operator notes r =
     rbind (lua_load_obj ''Kill-switch state missing'' (redis_get r ks_state_key)) (\<lambda>state_data.
       if dict_get state_data ''state'' = Some (JStr (kill_switch_value ACTIVE))
       then Inl (ResponseError ''Kill-switch not engaged'')
       else Inr (redis_set ks_state_key (RJson (JObj (dict_update
           [(''state'', JStr (kill_switch_value ACTIVE)), (''disengaged_at'', JStr disengaged_at),
            (''disengaged_by'', JStr operator), (''disengagement_notes'', notes)] state_data)))
           None None r))"

text \<open>The \<open>except\<close> clauses: two messages of the scripts become exceptions of their own.\<close>

definition ks_reraise :: "string \<Rightarrow> py_error \<Rightarrow> py_error" where
  "ks_reraise refused e =
     (if e = ResponseError refused then ValueError refused
      else if e = ResponseError ''Kill-switch state missing''
      then RuntimeError ''Kill-switch state missing from Redis''
      else e)"

definition ks_append_history :: "dict \<Rightarrow> redis \<Rightarrow> unit result \<times> redis" where
  "ks_append_history entry r =
     (case redis_rpush ks_history_key (JObj entry) r of
        Inl e \<Rightarrow> (Inl e, r)
      | Inr r1 \<Rightarrow>
          (case redis_ltrim ks_history_key (- int ks_max_history) (- 1) r1 of
             Inl e \<Rightarrow> (Inl e, r1)
           | Inr r2 \<Rightarrow> (Inr (), r2)))"

definition ks_engage ::
  "string \<Rightarrow> string \<Rightarrow> string \<Rightarrow> json \<Rightarrow> redis \<Rightarrow> unit result \<times> redis" where
  "ks_engage engaged_at reason operator details r =
     (case ks_engage_script engaged_at operator reason
             (if truthy details then details else JNull) r of
        Inl e \<Rightarrow> (Inl (ks_reraise ''Kill-switch already engaged'' e), r)
      | Inr r1 \<Rightarrow>
          ks_append_history
            [(''event'', JStr ''ENGAGED''), (''timestamp'', JStr engaged_at),
             (''operator'', JStr operator), (''reason'', JStr reason), (''details'', details)] r1)"

definition ks_disengage ::
  "string \<Rightarrow> string \<Rightarrow> string option \<Rightarrow> redis \<Rightarrow> unit result \<times> redis" where
  "ks_disengage disengaged_at operator notes r =
     (case ks_disengage_script disengaged_at operator
             (if truthy (opt_str notes) then opt_str notes else JNull) r of
        Inl e \<Rightarrow> (Inl (ks_reraise ''Kill-switch not engaged'' e), r)
      | Inr r1 \<Rightarrow>
          ks_append_history
            [(''event'', JStr ''DISENGAGED''), (''timestamp'', JStr disengaged_at),
             (''operator'', JStr operator), (''notes'', opt_str notes)] r1)"

section \<open>Frame of the history log\<close>

lemma redis_list_simps [simp]:
  "redis_list (r\<lparr>r_data := (r_data r)(k := Some (RList xs))\<rparr>) k' =
     (if k' = k then Inr xs else redis_list r k')"
  "redis_get (r\<lparr>r_data := (r_data r)(k := Some v)\<rparr>) k' =
     (if k' = k then Some v else redis_get r k')"
  by (auto simp: redis_list_def redis_get_def)

lemma redis_list_put_other [simp]: "k' \<noteq> k \<Longrightarrow> redis_list (redis_put k v r) k' = redis_list r k'"
  by (simp add: redis_list_def)

lemma ks_append_history_frame:
  "k \<noteq> ks_history_key \<Longrightarrow> redis_get (snd (ks_append_history entry r)) k = redis_get r k"
  by (auto simp: ks_append_history_def redis_rpush_def redis_ltrim_def Let_def
      split: sum.splits simp flip: rbind_def)
    (auto simp: rbind_def split: sum.splits)

lemma ks_append_history_log:
  assumes "redis_list r ks_history_key = Inr xs"
  shows "fst (ks_append_history entry r) = Inr ()"
    and "redis_list (snd (ks_append_history entry r)) ks_history_key =
           Inr (keep_last ks_max_history (xs @ [JObj entry]))"
proof -
  have ne: "keep_last ks_max_history (xs @ [JObj entry]) \<noteq> []"
    by (simp add: keep_last_snoc ks_max_history_def)
  have tr: "redis_range (- int ks_max_history) (- 1) ys = keep_last ks_max_history ys" for ys :: "json list"
    by (subst redis_range_last) (simp add: ks_max_history_def)
  show "fst (ks_append_history entry r) = Inr ()"
    and "redis_list (snd (ks_append_history entry r)) ks_history_key =
           Inr (keep_last ks_max_history (xs @ [JObj entry]))"
    using assms ne by (simp_all add: ks_append_history_def redis_rpush_def redis_ltrim_def tr)
qed

lemma rev_keep_last: "rev (keep_last n xs) = take n (rev xs)"
  by (cases "length xs \<le> n") (simp_all add: keep_last_def rev_drop)

lemma ks_get_history_newest:
  assumes "redis_list r ks_history_key = Inr xs" "0 < n"
  shows "ks_get_history (int n) r = Inr (take n (rev xs))"
  using assms redis_range_last [of n xs]
  by (simp add: ks_get_history_def redis_lrange_def rev_keep_last)

section \<open>Engaging and disengaging\<close>

lemma ks_is_engaged_iff:
  "ks_is_engaged r = Inr b \<longleftrightarrow>
     (\<exists>d. redis_get r ks_state_key = Some (RJson (JObj d)) \<and>
          dict_get d ''state'' = Some (JStr (kill_switch_value (if b then ENGAGED else ACTIVE))))"
proof
  assume "ks_is_engaged r = Inr b"
  then show "\<exists>d. redis_get r ks_state_key = Some (RJson (JObj d)) \<and>
      dict_get d ''state'' = Some (JStr (kill_switch_value (if b then ENGAGED else ACTIVE)))"
    by (auto simp: ks_is_engaged_def ks_get_state_def rbind_Inr_iff dict_index_get
        kill_switch_state_of_def split: option.splits if_splits dest!: load_obj_SomeE)
qed (auto simp: ks_is_engaged_def ks_get_state_def dict_index_def kill_switch_state_of_def)

lemma ks_is_engaged_frame:
  "redis_get r' ks_state_key = redis_get r ks_state_key \<Longrightarrow> ks_is_engaged r' = ks_is_engaged r"
  by (simp add: ks_is_engaged_def ks_get_state_def)

lemma lua_load_obj_Inr: "lua_load_obj m v = Inr d \<longleftrightarrow> v = Some (RJson (JObj d))"
  by (auto simp: lua_load_obj_def split: option.splits rval.splits json.splits)

lemma ks_engage_script_state:
  assumes "ks_engage_script engaged_at operator reason details r = Inr r'"
  shows "ks_is_engaged r' = Inr True"
  using assms
  by (auto simp: ks_engage_script_def rbind_Inr_iff ks_is_engaged_iff dict_get_update split: if_splits)

lemma ks_disengage_script_state:
  assumes "ks_disengage_script disengaged_at operator notes r = Inr r'"
  shows "ks_is_engaged r' = Inr False"
  using assms
  by (auto simp: ks_disengage_script_def rbind_Inr_iff ks_is_engaged_iff dict_get_update
      split: if_splits)

text \<open>
  A successful engagement leaves the switch engaged, whatever the state held before and even
  when the log write that follows fails; an unsuccessful script leaves the store as it was.
\<close>

lemma ks_engage_cases:
  "ks_is_engaged (snd (ks_engage at' reason operator details r)) = Inr True \<or>
   (\<exists>e. ks_engage at' reason operator details r = (Inl e, r))"
  by (auto simp: ks_engage_def ks_is_engaged_frame [OF ks_append_history_frame]
      dest: ks_engage_script_state split: sum.split)

lemma ks_disengage_frame_engaged:
  assumes "ks_is_engaged r = Inr True" "redis_list r ks_history_key = Inr xs"
  shows "fst (ks_disengage at' operator notes r) = Inr ()"
    and "ks_is_engaged (snd (ks_disengage at' operator notes r)) = Inr False"
proof -
  obtain d where d: "redis_get r ks_state_key = Some (RJson (JObj d))"
    "dict_get d ''state'' = Some (JStr ''ENGAGED'')"
    using assms(1) by (auto simp: ks_is_engaged_iff)
  let ?n = "if truthy (opt_str notes) then opt_str notes else JNull"
  obtain r1 where r1: "ks_disengage_script at' operator ?n r = Inr r1"
    "redis_list r1 ks_history_key = Inr xs"
    using d assms(2) by (simp add: ks_disengage_script_def lua_load_obj_def)
  show "fst (ks_disengage at' operator notes r) = Inr ()"
    and "ks_is_engaged (snd (ks_disengage at' operator notes r)) = Inr False"
    using r1 ks_disengage_script_state [OF r1(1)]
    by (simp_all add: ks_disengage_def ks_append_history_log ks_is_engaged_frame [OF ks_append_history_frame])
qed

text \<open>The operations on the switch, and running a sequence of them.\<close>

datatype ks_op =
    KsInit
  | KsEngage string string string json
  | KsDisengage string string "string option"

fun ks_run_op :: "ks_op \<Rightarrow> redis \<Rightarrow> redis" where
  "ks_run_op KsInit r = ks_init r"
| "ks_run_op (KsEngage now reason operator details) r = snd (ks_engage now reason operator details r)"
| "ks_run_op (KsDisengage now operator notes) r = snd (ks_disengage now operator notes r)"

fun is_disengage :: "ks_op \<Rightarrow> bool" where
  "is_disengage (KsDisengage _ _ _) = True"
| "is_disengage _ = False"

lemma ks_run_op_engaged:
  assumes "ks_is_engaged r = Inr True" "\<not> is_disengage op"
  shows "ks_is_engaged (ks_run_op op r) = Inr True"
proof (cases op)
  case KsInit
  with assms(1) show ?thesis by (auto simp: ks_init_def redis_present_def ks_is_engaged_iff)
next
  case (KsEngage now reason operator details)
  then show ?thesis using ks_engage_cases [of now reason operator details r] assms(1) by auto
qed (use assms(2) in simp)

interpretation ks_gate: halt_gate ks_is_engaged ks_state_key
  by unfold_locales
    (simp_all add: ks_is_engaged_def ks_get_state_def load_obj_absent [THEN iffD2])

section \<open>Properties\<close>

text \<open>Engaging an active switch succeeds: the switch is then engaged, carries the reason, the
  operator and one more engagement in its count, and the log ends with the event, cut to the last
  thousand entries.\<close>

theorem ks_engage_active:
  assumes "redis_get r ks_state_key = Some (RJson (JObj d))"
    and "dict_get d ''state'' = Some (JStr ''ACTIVE'')"
    and "dict_get d ''engagement_count_today'' = Some (JInt n)"
    and "redis_list r ks_history_key = Inr xs"
  shows "\<exists>r' d'. ks_engage now reason operator details r = (Inr (), r') \<and>
     ks_is_engaged r' = Inr True \<and> ks_get_status r' = Inr d' \<and>
     dict_get d' ''engagement_reason'' = Some (JStr reason) \<and>
     dict_get d' ''engaged_by'' = Some (JStr operator) \<and>
     dict_get d' ''engagement_count_today'' = Some (JInt (n + 1)) \<and>
     ks_get_history (int ks_max_history) r' =
       Inr (take ks_max_history
              (JObj [(''event'', JStr ''ENGAGED''), (''timestamp'', JStr now),
                 (''operator'', JStr operator), (''reason'', JStr reason),
                 (''details'', details)] # rev xs))"
proof -
  let ?details = "if truthy details then details else JNull"
  obtain r1 d1 where r1: "ks_engage_script now operator reason ?details r = Inr r1"
    "redis_get r1 ks_state_key = Some (RJson (JObj d1))"
    "dict_get d1 ''engagement_reason'' = Some (JStr reason)"
    "dict_get d1 ''engaged_by'' = Some (JStr operator)"
    "dict_get d1 ''engagement_count_today'' = Some (JInt (n + 1))"
    "redis_list r1 ks_history_key = Inr xs"
    using assms
    by (simp add: ks_engage_script_def lua_load_obj_def dict_get_update del: if_split)
  let ?r2 = "ks_append_history
            [(''event'', JStr ''ENGAGED''), (''timestamp'', JStr now),
             (''operator'', JStr operator), (''reason'', JStr reason), (''details'', details)] r1"
  have eq: "ks_engage now reason operator details r = ?r2"
    by (simp add: ks_engage_def r1(1))
  have "ks_get_status (snd ?r2) = Inr d1"
    by (simp add: ks_get_status_def ks_append_history_frame r1(2))
  moreover have "ks_is_engaged (snd ?r2) = Inr True"
    using ks_engage_script_state [OF r1(1)] by (simp add: ks_is_engaged_frame [OF ks_append_history_frame])
  moreover have "fst ?r2 = Inr ()" by (rule ks_append_history_log [OF r1(6)])
  moreover have "ks_get_history (int ks_max_history) (snd ?r2) =
      Inr (take ks_max_history
              (JObj [(''event'', JStr ''ENGAGED''), (''timestamp'', JStr now),
                 (''operator'', JStr operator), (''reason'', JStr reason),
                 (''details'', details)] # rev xs))"
    by (simp add: ks_get_history_newest [OF ks_append_history_log(2) [OF r1(6)]]
        rev_keep_last ks_max_history_pos del: of_nat_numeral)
  ultimately show ?thesis unfolding eq using r1(3-5)
    by (intro exI [of _ "snd ?r2"] exI [of _ d1] conjI) (simp_all add: prod_eq_iff)
qed

theorem ks_engage_active_witness:
  "\<exists>r' d'. ks_engage ''t1'' ''halt'' ''ops'' JNull (ks_init empty_redis) = (Inr (), r') \<and>
     ks_is_engaged r' = Inr True \<and> ks_get_status r' = Inr d' \<and>
     dict_get d' ''engagement_count_today'' = Some (JInt 1)"
proof -
  have "redis_get (ks_init empty_redis) ks_state_key = Some (RJson (JObj ks_default_state))"
    "redis_list (ks_init empty_redis) ks_history_key = Inr []"
    by (simp_all add: ks_init_def ks_initialize_state_def redis_present_def redis_list_def
        redis_get_def empty_redis_def redis_put_def)
  from ks_engage_active [OF this(1) _ _ this(2), of 0 "''t1''" "''halt''" "''ops''" JNull]
  show ?thesis by (auto simp: ks_default_state_def)
qed

text \<open>An engaged switch stays engaged through any sequence of constructions of new clients and
  further engagements; only a disengagement ends it.\<close>

theorem ks_stays_engaged:
  assumes "ks_is_engaged r = Inr True" "list_all (\<lambda>op. \<not> is_disengage op) ops"
  shows "ks_is_engaged (fold ks_run_op ops r) = Inr True"
  using assms by (induction ops arbitrary: r) (auto intro: ks_run_op_engaged)

theorem ks_stays_engaged_witness:
  "ks_is_engaged (fold ks_run_op [KsInit, KsEngage ''t2'' ''again'' ''ops'' JNull]
     (ks_run_op (KsEngage ''t1'' ''halt'' ''ops'' JNull) (ks_init empty_redis))) = Inr True"
proof (rule ks_stays_engaged)
  show "ks_is_engaged (ks_run_op (KsEngage ''t1'' ''halt'' ''ops'' JNull) (ks_init empty_redis)) = Inr True"
    using ks_engage_cases [of "''t1''" "''halt''" "''ops''" JNull "ks_init empty_redis"]
    by (auto simp: ks_engage_def ks_engage_script_def ks_init_def ks_initialize_state_def
        redis_present_def lua_load_obj_def ks_default_state_def redis_get_def empty_redis_def
        redis_put_def ks_append_history_def redis_rpush_def redis_ltrim_def redis_list_def Let_def)
qed simp

text \<open>A switch whose state is missing blocks: it reads as an error, neither engaging nor
  disengaging recreates the state, and both report the missing state.\<close>

theorem ks_missing_fails_closed:
  assumes "redis_get r ks_state_key = None"
  shows "ks_get_state r = Inl ks_missing \<and> ks_is_engaged r = Inl ks_missing \<and>
     ks_get_status r = Inl ks_missing \<and>
     ks_engage now reason operator details r = (Inl ks_missing, r) \<and>
     ks_disengage now operator notes r = (Inl ks_missing, r)"
  using assms
  by (simp add: ks_get_state_def ks_is_engaged_def ks_get_status_def ks_engage_def ks_disengage_def
      ks_engage_script_def ks_disengage_script_def lua_load_obj_def ks_reraise_def ks_missing_def)

theorem ks_missing_fails_closed_witness:
  "ks_is_engaged empty_redis = Inl ks_missing \<and>
   ks_disengage ''t'' ''ops'' None empty_redis = (Inl ks_missing, empty_redis)"
  using ks_missing_fails_closed [of empty_redis "''t''" "''r''" "''ops''" JNull None]
  by (simp add: redis_get_def empty_redis_def)

end
