(* ===== verification/Position_Reservation.thy ===== *)
theory Position_Reservation
  imports Redis_Store
begin

text \<open>
  The position reservations of \<^verbatim>\<open>libs/trading/risk_management/position_reservation.py\<close>.  A symbol has
  an aggregate key with its reserved position, which never expires, and one token key per open
  reservation, which does.  The three Lua scripts run atomically on the store and are translated
  branch by branch; the methods of the class build their arguments and read their replies.  The
  random token of \<open>reserve\<close> is an argument.  Positions are integers (Lua's numbers hold integers
  below \<open>2^53\<close> exactly); a stored text with a fraction, which no operation writes, is not a number.
\<close>

section \<open>Keys\<close>

definition reservation_prefix :: string where
  "reservation_prefix = ''position_reservation''"

definition reservation_key :: "string \<Rightarrow> string" where
  "reservation_key symbol = reservation_prefix @ '':'' @ symbol"

definition token_key :: "string \<Rightarrow> string \<Rightarrow> string" where
  "token_key key token = key @ '':token:'' @ token"

definition plain_symbol :: "string \<Rightarrow> bool" where
  "plain_symbol s \<longleftrightarrow> CHR '':'' \<notin> set s"

lemma reservation_key_inject [simp]: "reservation_key s = reservation_key s' \<longleftrightarrow> s = s'"
  by (simp add: reservation_key_def)

lemma token_key_inject [simp]:
  assumes "plain_symbol s" "plain_symbol s'"
  shows "token_key (reservation_key s) t = token_key (reservation_key s') t' \<longleftrightarrow> s = s' \<and> t = t'"
  using assms
  by (auto simp: token_key_def reservation_key_def plain_symbol_def split_at_first)

lemma reservation_key_not_token [simp]:
  assumes "plain_symbol s'"
  shows "reservation_key s' \<noteq> token_key (reservation_key s) t"
    and "token_key (reservation_key s) t \<noteq> reservation_key s'"
  using assms by (auto simp: token_key_def reservation_key_def plain_symbol_def)

section \<open>The Lua scripts\<close>

text \<open>\<open>tonumber\<close> of a stored text.\<close>

definition lua_tonumber :: "rval \<Rightarrow> int option" where
  "lua_tonumber v = (case v of RJson (JInt n) \<Rightarrow> Some n | _ \<Rightarrow> None)"

definition is_text :: "rval \<Rightarrow> bool" where
  "is_text v = (case v of RJson _ \<Rightarrow> True | RRaw _ \<Rightarrow> True | _ \<Rightarrow> False)"

text \<open>\<open>stored and tonumber(stored) or fallback_position\<close>; \<open>GET\<close> of a key of another type fails.\<close>

definition lua_current :: "rval option \<Rightarrow> int \<Rightarrow> int result" where
  "lua_current stored fallback =
     (case stored of
        None \<Rightarrow> Inr fallback
      | Some v \<Rightarrow>
          if is_text v then Inr (case lua_tonumber v of Some n \<Rightarrow> n | None \<Rightarrow> fallback)
          else Inl (ResponseError ''WRONGTYPE''))"

definition lua_number :: "rval \<Rightarrow> int result" where
  "lua_number v =
     (case lua_tonumber v of
        Some n \<Rightarrow> Inr n
      | None \<Rightarrow> Inl (ResponseError ''attempt to perform arithmetic on a nil value''))"

datatype lua_reply =
    Reserved string int int
  | LimitExceeded int int
  | Released int int
  | Confirmed
  | TokenNotFound

definition reserve_script ::
  "string \<Rightarrow> int \<Rightarrow> int \<Rightarrow> string \<Rightarrow> int \<Rightarrow> int \<Rightarrow> redis \<Rightarrow> (lua_reply \<times> redis) result" where
  "reserve_script key delta max_limit token ttl fallback_position r =
     rbind (lua_current (redis_get r key) fallback_position) (\<lambda>current.
       let new_position = current + delta in
       if \<bar>new_position\<bar> > max_limit then Inr (LimitExceeded current new_position, r)
       else
         let r1 = redis_put key (RJson (JInt new_position)) r;
             r2 = redis_put (token_key key token) (RJson (JInt delta)) r1;
             r3 = redis_expire (token_key key token) ttl r2
         in Inr (Reserved token current new_position, r3))"

definition release_script :: "string \<Rightarrow> string \<Rightarrow> redis \<Rightarrow> (lua_reply \<times> redis) result" where
  "release_script key token r =
     (case redis_get r (token_key key token) of
        None \<Rightarrow> Inr (TokenNotFound, r)
      | Some d \<Rightarrow>
          rbind (lua_number (case redis_get r key of Some v \<Rightarrow> v | None \<Rightarrow> RJson (JInt 0))) (\<lambda>current.
          rbind (lua_number d) (\<lambda>delta.
            let new_position = current - delta in
            Inr (Released current new_position,
                 redis_delete (token_key key token)
                   (redis_put key (RJson (JInt new_position)) r)))))"

definition confirm_script :: "string \<Rightarrow> string \<Rightarrow> redis \<Rightarrow> (lua_reply \<times> redis) result" where
  "confirm_script key token r =
     (case redis_get r (token_key key token) of
        None \<Rightarrow> Inr (TokenNotFound, r)
      | Some d \<Rightarrow>
          if is_text d then Inr (Confirmed, redis_delete (token_key key token) r)
          else Inl (ResponseError ''WRONGTYPE''))"

section \<open>The class\<close>

record reservation_result =
  rr_success :: bool
  rr_token :: "string option"
  rr_reason :: string
  rr_previous_position :: int
  rr_new_position :: int

record release_result =
  rel_success :: bool
  rel_reason :: string
  rel_previous_position :: "int option"
  rel_new_position :: "int option"

definition side_delta :: "string \<Rightarrow> int \<Rightarrow> int" where
  "side_delta side qty = (if side = ''buy'' then qty else - qty)"

definition reserve ::
  "int \<Rightarrow> string \<Rightarrow> string \<Rightarrow> string \<Rightarrow> int \<Rightarrow> int \<Rightarrow> int \<Rightarrow> redis \<Rightarrow> (reservation_result \<times> redis) result" where
  "reserve ttl token symbol side qty max_limit current_position r =
     rbind (reserve_script (reservation_key symbol) (side_delta side qty) max_limit token ttl
              current_position r) (\<lambda>(reply, r').
       case reply of
         Reserved tok prev_pos new_pos \<Rightarrow>
           Inr (\<lparr>rr_success = True, rr_token = Some token, rr_reason = [],
                 rr_previous_position = prev_pos, rr_new_position = new_pos\<rparr>, r')
       | LimitExceeded prev_pos new_pos \<Rightarrow>
           Inr (\<lparr>rr_success = False, rr_token = None,
                 rr_reason = ''Position limit exceeded: '' @ show_int \<bar>new_pos\<bar> @ '' > '' @ show_int max_limit,
                 rr_previous_position = prev_pos, rr_new_position = new_pos\<rparr>, r')
       | _ \<Rightarrow> Inl (ValueError ''unexpected reply''))"

definition release_result_of :: "lua_reply \<Rightarrow> release_result" where
  "release_result_of reply =
     (case reply of
        Released prev_pos new_pos \<Rightarrow>
          \<lparr>rel_success = True, rel_reason = ''RELEASED'',
           rel_previous_position = Some prev_pos, rel_new_position = Some new_pos\<rparr>
      | Confirmed \<Rightarrow>
          \<lparr>rel_success = True, rel_reason = ''CONFIRMED'',
           rel_previous_position = None, rel_new_position = None\<rparr>
      | _ \<Rightarrow>
          \<lparr>rel_success = False, rel_reason = ''TOKEN_NOT_FOUND'',
           rel_previous_position = None, rel_new_position = None\<rparr>)"

definition release :: "string \<Rightarrow> string \<Rightarrow> redis \<Rightarrow> (release_result \<times> redis) result" where
  "release symbol token r =
     rbind (release_script (reservation_key symbol) token r)
       (\<lambda>(reply, r'). Inr (release_result_of reply, r'))"

definition confirm :: "string \<Rightarrow> string \<Rightarrow> redis \<Rightarrow> (release_result \<times> redis) result" where
  "confirm symbol token r =
     rbind (confirm_script (reservation_key symbol) token r)
       (\<lambda>(reply, r'). Inr (release_result_of reply, r'))"

definition get_reserved_position :: "string \<Rightarrow> redis \<Rightarrow> int result" where
  "get_reserved_position symbol r =
     (if \<not> redis_present r (reservation_key symbol) then Inr 0
      else case redis_get r (reservation_key symbol) of
             Some (RJson (JInt n)) \<Rightarrow> Inr n
           | _ \<Rightarrow> Inl (ValueError ''invalid literal for int()''))"

definition sync_position :: "string \<Rightarrow> int \<Rightarrow> redis \<Rightarrow> redis" where
  "sync_position symbol actual_position r =
     redis_set (reservation_key symbol) (RJson (JInt actual_position)) None None r"

definition clear_all :: "string \<Rightarrow> redis \<Rightarrow> redis" where
  "clear_all symbol r = redis_delete (reservation_key symbol) r"

section \<open>What the store says of a symbol\<close>

definition reserved_of :: "redis \<Rightarrow> string \<Rightarrow> rval option" where
  "reserved_of r symbol = redis_get r (reservation_key symbol)"

definition token_of :: "redis \<Rightarrow> string \<Rightarrow> string \<Rightarrow> rval option" where
  "token_of r symbol token = redis_get r (token_key (reservation_key symbol) token)"

lemmas view_defs = reserved_of_def token_of_def

lemma reserve_script_reserved:
  assumes "reserved_of r symbol = Some (RJson (JInt n))" "plain_symbol symbol" "0 < ttl"
    "\<bar>n + delta\<bar> \<le> max_limit"
  shows "\<exists>r'. reserve_script (reservation_key symbol) delta max_limit token ttl fb r =
      Inr (Reserved token n (n + delta), r') \<and>
    reserved_of r' symbol = Some (RJson (JInt (n + delta))) \<and>
    (\<forall>t. token_of r' symbol t = (if t = token then Some (RJson (JInt delta)) else token_of r symbol t))"
  using assms
  by (simp add: reserve_script_def lua_current_def view_defs is_text_def lua_tonumber_def Let_def
      redis_get_expire)

lemma reserve_script_refused:
  assumes "reserved_of r symbol = Some (RJson (JInt n))" "\<bar>n + delta\<bar> > max_limit"
  shows "reserve_script (reservation_key symbol) delta max_limit token ttl fb r =
      Inr (LimitExceeded n (n + delta), r)"
  using assms
  by (simp add: reserve_script_def lua_current_def view_defs is_text_def lua_tonumber_def Let_def)

text \<open>A refused reservation changes nothing; an accepted one changes its two keys only.\<close>

lemma reserve_refused_unchanged:
  assumes "reserve ttl token symbol side qty max_limit current r = Inr (res, r')" "\<not> rr_success res"
  shows "r' = r"
proof (cases "lua_current (redis_get r (reservation_key symbol)) current")
  case (Inl e)
  with assms(1) show ?thesis by (simp add: reserve_def reserve_script_def)
next
  case (Inr c)
  with assms show ?thesis
    by (cases "\<bar>c + side_delta side qty\<bar> > max_limit") (auto simp: reserve_def reserve_script_def Let_def)
qed

lemma reserve_granted:
  assumes "reserve ttl token symbol side qty max_limit current r = Inr (res, r')" "rr_success res"
  shows "rr_token res = Some token" and "\<bar>rr_new_position res\<bar> \<le> max_limit"
    and "rr_new_position res = rr_previous_position res + side_delta side qty"
proof -
  obtain c where "lua_current (redis_get r (reservation_key symbol)) current = Inr c"
    using assms(1) by (cases "lua_current (redis_get r (reservation_key symbol)) current")
      (simp_all add: reserve_def reserve_script_def)
  with assms show "rr_token res = Some token" and "\<bar>rr_new_position res\<bar> \<le> max_limit"
    and "rr_new_position res = rr_previous_position res + side_delta side qty"
    by (cases "\<bar>c + side_delta side qty\<bar> > max_limit"; auto simp: reserve_def reserve_script_def Let_def)+
qed

lemma reserve_frame:
  assumes "reserve ttl token symbol side qty max_limit current r = Inr (res, r')"
    "k \<noteq> reservation_key symbol" "k \<noteq> token_key (reservation_key symbol) token"
  shows "redis_get r' k = redis_get r k"
proof (cases "lua_current (redis_get r (reservation_key symbol)) current")
  case (Inl e)
  with assms(1) show ?thesis by (simp add: reserve_def reserve_script_def)
next
  case (Inr c)
  with assms show ?thesis
    by (cases "\<bar>c + side_delta side qty\<bar> > max_limit")
      (auto simp: reserve_def reserve_script_def Let_def redis_get_expire)
qed

lemma release_script_found:
  assumes "reserved_of r symbol = Some (RJson (JInt n))" "plain_symbol symbol"
    "token_of r symbol token = Some (RJson (JInt delta))"
  shows "\<exists>r'. release_script (reservation_key symbol) token r = Inr (Released n (n - delta), r') \<and>
    reserved_of r' symbol = Some (RJson (JInt (n - delta))) \<and>
    (\<forall>t. token_of r' symbol t = (if t = token then None else token_of r symbol t))"
  using assms
  by (simp add: release_script_def view_defs lua_number_def lua_tonumber_def Let_def)

lemma release_script_absent:
  "token_of r symbol token = None \<Longrightarrow>
   release_script (reservation_key symbol) token r = Inr (TokenNotFound, r)"
  by (simp add: release_script_def view_defs)

lemma confirm_script_found:
  assumes "token_of r symbol token = Some v" "is_text v" "plain_symbol symbol"
  shows "\<exists>r'. confirm_script (reservation_key symbol) token r = Inr (Confirmed, r') \<and>
    reserved_of r' symbol = reserved_of r symbol \<and>
    (\<forall>t. token_of r' symbol t = (if t = token then None else token_of r symbol t))"
  using assms by (simp add: confirm_script_def view_defs)

lemma confirm_script_absent:
  "token_of r symbol token = None \<Longrightarrow>
   confirm_script (reservation_key symbol) token r = Inr (TokenNotFound, r)"
  by (simp add: confirm_script_def view_defs)

section \<open>Runs with a ledger\<close>

text \<open>
  The operations of any number of clients on one symbol, in the order Redis runs them, with the
  expiry of a token's key as one more event.  Beside the store the run keeps a ledger: what is
  settled (confirmed, or left behind by an expired token) and the open reservations.
\<close>

datatype rsv_op =
    RReserve int string string int int int
  | RRelease string
  | RConfirm string
  | RExpire string

type_synonym ledger = "redis \<times> int \<times> (string \<times> int) list"

definition open_delta :: "(string \<times> int) list \<Rightarrow> string \<Rightarrow> int" where
  "open_delta opn token = (case map_of opn token of Some d \<Rightarrow> d | None \<Rightarrow> 0)"

fun rsv_step :: "string \<Rightarrow> rsv_op \<Rightarrow> ledger \<Rightarrow> ledger" where
  "rsv_step symbol (RReserve ttl token side qty max_limit current) (r, settled, opn) =
     (case reserve ttl token symbol side qty max_limit current r of
        Inl e \<Rightarrow> (r, settled, opn)
      | Inr (res, r') \<Rightarrow>
          (r', settled, if rr_success res then (token, side_delta side qty) # opn else opn))"
| "rsv_step symbol (RRelease token) (r, settled, opn) =
     (case release symbol token r of
        Inl e \<Rightarrow> (r, settled, opn)
      | Inr (res, r') \<Rightarrow> (r', settled, if rel_success res then AList.delete token opn else opn))"
| "rsv_step symbol (RConfirm token) (r, settled, opn) =
     (case confirm symbol token r of
        Inl e \<Rightarrow> (r, settled, opn)
      | Inr (res, r') \<Rightarrow>
          if rel_success res then (r', settled + open_delta opn token, AList.delete token opn)
          else (r', settled, opn))"
| "rsv_step symbol (RExpire token) (r, settled, opn) =
     (if r_ttl r (token_key (reservation_key symbol) token) = None then (r, settled, opn)
      else (redis_evict (token_key (reservation_key symbol) token) r,
            settled + open_delta opn token, AList.delete token opn))"

fun rsv_op_ok :: "string \<Rightarrow> rsv_op \<Rightarrow> ledger \<Rightarrow> bool" where
  "rsv_op_ok symbol (RReserve ttl token side qty max_limit current) (r, settled, opn) =
     (0 < ttl \<and> token \<notin> fst ` set opn)"
| "rsv_op_ok symbol _ _ = True"

fun rsv_trace_ok :: "string \<Rightarrow> rsv_op list \<Rightarrow> ledger \<Rightarrow> bool" where
  "rsv_trace_ok symbol [] st = True"
| "rsv_trace_ok symbol (op # ops) st =
     (rsv_op_ok symbol op st \<and> rsv_trace_ok symbol ops (rsv_step symbol op st))"

definition open_sum :: "(string \<times> int) list \<Rightarrow> int" where
  "open_sum opn = sum_list (map snd opn)"

lemma open_sum_Cons [simp]: "open_sum (x # opn) = snd x + open_sum opn"
  by (simp add: open_sum_def)

lemma delete_absent: "map_of al k = None \<Longrightarrow> AList.delete k al = al"
  by (induction al) (auto split: if_splits)

lemma open_sum_delete:
  "distinct (map fst opn) \<Longrightarrow> open_sum (AList.delete t opn) = open_sum opn - open_delta opn t"
proof (induction opn)
  case Nil
  then show ?case by (simp add: open_sum_def open_delta_def)
next
  case (Cons x opn)
  obtain k v where x: "x = (k, v)" by (cases x)
  show ?case
  proof (cases "k = t")
    case True
    then have "map_of opn t = None" using Cons.prems by (simp add: x map_of_eq_None_iff)
    with True show ?thesis by (simp add: x open_delta_def delete_absent)
  next
    case False
    with Cons show ?thesis by (simp add: x open_delta_def)
  qed
qed

definition rsv_inv :: "string \<Rightarrow> ledger \<Rightarrow> bool" where
  "rsv_inv symbol st = (case st of (r, settled, opn) \<Rightarrow>
     reserved_of r symbol = Some (RJson (JInt (settled + open_sum opn))) \<and>
     distinct (map fst opn) \<and>
     (\<forall>t. token_of r symbol t = map_option (\<lambda>d. RJson (JInt d)) (map_of opn t)))"

lemma map_of_delete_eq: "map_of (AList.delete k al) t = (if t = k then None else map_of al t)"
  by (simp add: delete_conv')

text \<open>The result of each step, from the invariant.\<close>

lemma rsv_step_reserve:
  assumes "rsv_inv symbol (r, settled, opn)" "plain_symbol symbol" "0 < ttl"
  shows "\<exists>r'. rsv_step symbol (RReserve ttl token side qty max_limit current) (r, settled, opn) =
      (if \<bar>settled + open_sum opn + side_delta side qty\<bar> \<le> max_limit
       then (r', settled, (token, side_delta side qty) # opn) else (r, settled, opn)) \<and>
    reserved_of r' symbol = Some (RJson (JInt (settled + open_sum opn + side_delta side qty))) \<and>
    (\<forall>t. token_of r' symbol t =
       (if t = token then Some (RJson (JInt (side_delta side qty))) else token_of r symbol t))"
proof -
  have agg: "reserved_of r symbol = Some (RJson (JInt (settled + open_sum opn)))"
    using assms(1) by (simp add: rsv_inv_def)
  obtain r' where r': "reserved_of r' symbol =
      Some (RJson (JInt (settled + open_sum opn + side_delta side qty)))"
    "\<forall>t. token_of r' symbol t =
       (if t = token then Some (RJson (JInt (side_delta side qty))) else token_of r symbol t)"
    "\<bar>settled + open_sum opn + side_delta side qty\<bar> \<le> max_limit \<longrightarrow>
       reserve_script (reservation_key symbol) (side_delta side qty) max_limit token ttl current r =
         Inr (Reserved token (settled + open_sum opn) (settled + open_sum opn + side_delta side qty), r')"
    using reserve_script_reserved [OF agg assms(2,3), of "side_delta side qty" max_limit]
      reserve_script_reserved [OF agg assms(2,3), of "side_delta side qty"
        "\<bar>settled + open_sum opn + side_delta side qty\<bar>"]
    by (cases "\<bar>settled + open_sum opn + side_delta side qty\<bar> \<le> max_limit") blast+
  then show ?thesis
    using reserve_script_refused [OF agg, of max_limit "side_delta side qty" token ttl current]
    by (intro exI [of _ r']) (auto simp: reserve_def)
qed

lemma rsv_step_release:
  assumes "rsv_inv symbol (r, settled, opn)" "plain_symbol symbol"
  shows "\<exists>r'. rsv_step symbol (RRelease token) (r, settled, opn) =
      (r', settled, AList.delete token opn) \<and>
    reserved_of r' symbol = Some (RJson (JInt (settled + open_sum opn - open_delta opn token))) \<and>
    (\<forall>t. token_of r' symbol t = (if t = token then None else token_of r symbol t))"
proof -
  have agg: "reserved_of r symbol = Some (RJson (JInt (settled + open_sum opn)))"
    and tok: "token_of r symbol token = map_option (\<lambda>d. RJson (JInt d)) (map_of opn token)"
    using assms(1) by (simp_all add: rsv_inv_def)
  show ?thesis
  proof (cases "map_of opn token")
    case None
    then have "AList.delete token opn = opn" by (rule delete_absent)
    with None tok agg release_script_absent [of r symbol token] show ?thesis
      by (auto simp: release_def release_result_of_def open_delta_def)
  next
    case (Some d)
    with release_script_found [OF agg assms(2), of token d] tok show ?thesis
      by (auto simp: release_def release_result_of_def open_delta_def)
  qed
qed

lemma rsv_step_confirm:
  assumes "rsv_inv symbol (r, settled, opn)" "plain_symbol symbol"
  shows "\<exists>r'. rsv_step symbol (RConfirm token) (r, settled, opn) =
      (r', settled + open_delta opn token, AList.delete token opn) \<and>
    reserved_of r' symbol = reserved_of r symbol \<and>
    (\<forall>t. token_of r' symbol t = (if t = token then None else token_of r symbol t))"
proof -
  have tok: "token_of r symbol token = map_option (\<lambda>d. RJson (JInt d)) (map_of opn token)"
    using assms(1) by (simp add: rsv_inv_def)
  show ?thesis
  proof (cases "map_of opn token")
    case None
    then have "AList.delete token opn = opn" by (rule delete_absent)
    with None tok confirm_script_absent [of r symbol token] show ?thesis
      by (auto simp: confirm_def release_result_of_def open_delta_def)
  next
    case (Some d)
    with confirm_script_found [OF _ _ assms(2), of r token "RJson (JInt d)"] tok show ?thesis
      by (auto simp: confirm_def release_result_of_def open_delta_def is_text_def)
  qed
qed

lemma rsv_step_inv:
  assumes "rsv_inv symbol st" "plain_symbol symbol" "rsv_op_ok symbol op st"
  shows "rsv_inv symbol (rsv_step symbol op st)"
proof -
  obtain r settled opn where st: "st = (r, settled, opn)" by (cases st)
  note inv = assms(1) [unfolded st]
  from inv have dist: "distinct (map fst opn)"
    and tok: "token_of r symbol t = map_option (\<lambda>d. RJson (JInt d)) (map_of opn t)" for t
    by (simp_all add: rsv_inv_def)
  show ?thesis
  proof (cases op)
    case (RReserve ttl token side qty max_limit current)
    with assms(3) st have "0 < ttl" "token \<notin> fst ` set opn" by auto
    with rsv_step_reserve [OF inv assms(2), of ttl token side qty max_limit current] obtain r' where
      "rsv_step symbol op st =
        (if \<bar>settled + open_sum opn + side_delta side qty\<bar> \<le> max_limit
         then (r', settled, (token, side_delta side qty) # opn) else (r, settled, opn))"
      "reserved_of r' symbol = Some (RJson (JInt (settled + open_sum opn + side_delta side qty)))"
      "\<forall>t. token_of r' symbol t =
        (if t = token then Some (RJson (JInt (side_delta side qty))) else token_of r symbol t)"
      using RReserve st by blast
    with \<open>token \<notin> fst ` set opn\<close> dist tok inv show ?thesis
      by (simp add: rsv_inv_def add_ac)
  next
    case (RRelease token)
    with rsv_step_release [OF inv assms(2), of token] st dist tok show ?thesis
      by (auto simp: rsv_inv_def map_of_delete_eq open_sum_delete distinct_delete)
  next
    case (RConfirm token)
    with rsv_step_confirm [OF inv assms(2), of token] st dist tok inv show ?thesis
      by (auto simp: rsv_inv_def map_of_delete_eq open_sum_delete distinct_delete)
  next
    case (RExpire token)
    with st dist inv assms(2) show ?thesis
      by (auto simp: rsv_inv_def map_of_delete_eq open_sum_delete distinct_delete view_defs redis_get_evict)
  qed
qed

lemma rsv_run_inv:
  "rsv_inv symbol st \<Longrightarrow> plain_symbol symbol \<Longrightarrow> rsv_trace_ok symbol ops st \<Longrightarrow>
   rsv_inv symbol (fold (rsv_step symbol) ops st)"
proof (induction ops arbitrary: st)
  case Nil
  then show ?case by simp
next
  case (Cons op ops)
  then show ?case using rsv_step_inv [of symbol st op] by simp
qed

section \<open>Properties\<close>

lemma rsv_inv_reads:
  assumes "rsv_inv symbol (r, settled, opn)"
  shows "get_reserved_position symbol r = Inr (settled + open_sum opn)"
    and "distinct (map fst opn)"
    and "(token_of r symbol t \<noteq> None) = (t \<in> fst ` set opn)"
  using assms map_of_eq_None_iff [of opn t]
  by (simp_all add: rsv_inv_def get_reserved_position_def redis_present_def reserved_of_def
      del: not_None_eq)

definition rsv_start :: "string \<Rightarrow> int \<Rightarrow> redis \<Rightarrow> ledger" where
  "rsv_start symbol position r = (sync_position symbol position r, position, [])"

lemma rsv_start_inv:
  assumes "\<forall>t. token_of r symbol t = None" "plain_symbol symbol"
  shows "rsv_inv symbol (rsv_start symbol position r)"
  using assms by (simp add: rsv_inv_def rsv_start_def sync_position_def view_defs open_sum_def)

text \<open>C39. Conservation: after any interleaving of reservations, releases, confirmations and token
  expiries that starts from a synchronised position, the reserved position read for the symbol is
  what has settled plus the open reservations, and exactly the open reservations have a token.\<close>

theorem rsv_conservation:
  assumes "\<forall>t. token_of r symbol t = None" "plain_symbol symbol"
    and "rsv_trace_ok symbol ops (rsv_start symbol position r)"
  shows "case fold (rsv_step symbol) ops (rsv_start symbol position r) of (r', settled, opn) \<Rightarrow>
     get_reserved_position symbol r' = Inr (settled + open_sum opn) \<and>
     distinct (map fst opn) \<and>
     (\<forall>t. (token_of r' symbol t \<noteq> None) = (t \<in> fst ` set opn))"
proof -
  have "rsv_inv symbol (fold (rsv_step symbol) ops (rsv_start symbol position r))"
    using rsv_run_inv [OF rsv_start_inv [OF assms(1,2)] assms(2,3)] .
  then show ?thesis
    by (cases "fold (rsv_step symbol) ops (rsv_start symbol position r)") (simp add: rsv_inv_reads del: not_None_eq)
qed

theorem rsv_conservation_witness:
  "case fold (rsv_step ''AAPL'')
      [RReserve 60 ''a'' ''buy'' 30 100 0, RReserve 60 ''b'' ''sell'' 10 100 0,
       RReserve 60 ''c'' ''buy'' 90 100 0, RConfirm ''a'', RRelease ''b'']
      (rsv_start ''AAPL'' 5 empty_redis) of (r', settled, opn) \<Rightarrow>
     get_reserved_position ''AAPL'' r' = Inr 35"
proof -
  have no: "\<forall>t. token_of empty_redis ''AAPL'' t = None"
    by (simp add: token_of_def redis_get_def empty_redis_def)
  have "plain_symbol ''AAPL''" by (simp add: plain_symbol_def)
  note run = rsv_conservation [OF no this, of
      "[RReserve 60 ''a'' ''buy'' 30 100 0, RReserve 60 ''b'' ''sell'' 10 100 0,
        RReserve 60 ''c'' ''buy'' 90 100 0, RConfirm ''a'', RRelease ''b'']" 5]
  show ?thesis
    using run
    by (simp add: rsv_start_def sync_position_def reserve_def reserve_script_def lua_current_def
        is_text_def lua_tonumber_def side_delta_def Let_def redis_get_expire confirm_def
        confirm_script_def release_def release_script_def lua_number_def release_result_of_def
        open_delta_def open_sum_def reservation_key_def token_key_def)
qed

text \<open>A run of buys under one limit: settled and open quantities are not negative, their sum is in the limit.\<close>

fun buys_within :: "int \<Rightarrow> rsv_op \<Rightarrow> bool" where
  "buys_within limit (RReserve ttl token side qty max_limit current) =
     (side = ''buy'' \<and> 0 \<le> qty \<and> max_limit = limit)"
| "buys_within limit _ = True"

definition long_inv :: "string \<Rightarrow> int \<Rightarrow> ledger \<Rightarrow> bool" where
  "long_inv symbol limit st = (case st of (r, settled, opn) \<Rightarrow>
     rsv_inv symbol st \<and> 0 \<le> settled \<and> (\<forall>d \<in> snd ` set opn. 0 \<le> d) \<and>
     settled + open_sum opn \<le> limit)"

lemma open_sum_nonneg: "\<forall>d \<in> snd ` set opn. 0 \<le> d \<Longrightarrow> 0 \<le> open_sum opn"
  by (induction opn) (auto simp: open_sum_def)

lemma open_delta_nonneg: "\<forall>d \<in> snd ` set opn. 0 \<le> d \<Longrightarrow> 0 \<le> open_delta opn t"
  by (auto simp: open_delta_def image_iff split: option.splits dest!: map_of_SomeD)

lemma long_inv_step:
  assumes "long_inv symbol limit st" "plain_symbol symbol" "rsv_op_ok symbol op st" "buys_within limit op"
  shows "long_inv symbol limit (rsv_step symbol op st)"
proof -
  obtain r settled opn where st: "st = (r, settled, opn)" by (cases st)
  from assms(1) st have inv: "rsv_inv symbol (r, settled, opn)" and nn: "0 \<le> settled"
    and ds: "\<forall>d \<in> snd ` set opn. 0 \<le> d" and le: "settled + open_sum opn \<le> limit"
    by (auto simp: long_inv_def)
  have dist: "distinct (map fst opn)" using inv by (simp add: rsv_inv_def)
  have inv': "rsv_inv symbol (rsv_step symbol op st)"
    using rsv_step_inv [OF _ assms(2,3)] inv st by simp
  have del: "\<forall>d \<in> snd ` set (AList.delete t opn). 0 \<le> d" for t
    using ds by (auto simp: AList.delete_eq)
  show ?thesis
  proof (cases op)
    case (RReserve ttl token side qty max_limit current)
    with assms(3,4) st have "0 < ttl" "0 \<le> side_delta side qty" "max_limit = limit"
      by (auto simp: side_delta_def)
    with rsv_step_reserve [OF inv assms(2), of ttl token side qty max_limit current] obtain r' where
      "rsv_step symbol op st =
        (if \<bar>settled + open_sum opn + side_delta side qty\<bar> \<le> limit
         then (r', settled, (token, side_delta side qty) # opn) else (r, settled, opn))"
      using RReserve st by blast
    with inv' nn ds le \<open>0 \<le> side_delta side qty\<close> show ?thesis
      by (cases "\<bar>settled + open_sum opn + side_delta side qty\<bar> \<le> limit") (simp_all add: long_inv_def)
  next
    case (RRelease token)
    with rsv_step_release [OF inv assms(2), of token] st obtain r' where
      "rsv_step symbol op st = (r', settled, AList.delete token opn)" by blast
    with inv' nn le del open_delta_nonneg [OF ds, of token] show ?thesis
      by (simp add: long_inv_def open_sum_delete [OF dist])
  next
    case (RConfirm token)
    with rsv_step_confirm [OF inv assms(2), of token] st obtain r' where
      "rsv_step symbol op st = (r', settled + open_delta opn token, AList.delete token opn)" by blast
    with inv' nn le del open_delta_nonneg [OF ds, of token] show ?thesis
      by (simp add: long_inv_def open_sum_delete [OF dist])
  next
    case (RExpire token)
    with inv' nn le ds del open_delta_nonneg [OF ds, of token] st show ?thesis
      by (simp add: long_inv_def open_sum_delete [OF dist] split: if_splits)
  qed
qed

text \<open>C6. The limit is never exceeded by concurrent buyers: from a position between zero and the
  limit, any interleaving of reservations to buy under that limit, releases, confirmations and
  expiries keeps the reserved position, and the part of it that settled, between zero and the
  limit.\<close>

theorem rsv_buyers_within_limit:
  assumes "\<forall>t. token_of r symbol t = None" "plain_symbol symbol" "0 \<le> position" "position \<le> limit"
    and "rsv_trace_ok symbol ops (rsv_start symbol position r)" "list_all (buys_within limit) ops"
  shows "case fold (rsv_step symbol) ops (rsv_start symbol position r) of (r', settled, opn) \<Rightarrow>
     (\<exists>n. get_reserved_position symbol r' = Inr n \<and> settled \<le> n \<and> n \<le> limit) \<and> 0 \<le> settled"
proof -
  have run: "long_inv symbol limit st \<Longrightarrow> rsv_trace_ok symbol ops st \<Longrightarrow>
      long_inv symbol limit (fold (rsv_step symbol) ops st)" for st
    using assms(6)
  proof (induction ops arbitrary: st)
    case Nil
    then show ?case by simp
  next
    case (Cons op ops)
    then show ?case using long_inv_step [of symbol limit st op] assms(2) by simp
  qed
  have "long_inv symbol limit (rsv_start symbol position r)"
    using rsv_start_inv [OF assms(1,2), of position] assms(3,4)
    by (simp add: long_inv_def rsv_start_def open_sum_def)
  from run [OF this assms(5)] show ?thesis
    by (cases "fold (rsv_step symbol) ops (rsv_start symbol position r)")
      (auto simp: long_inv_def rsv_inv_reads intro!: open_sum_nonneg)
qed

theorem rsv_buyers_within_limit_witness:
  "case fold (rsv_step ''AAPL'')
      [RReserve 60 ''a'' ''buy'' 60 100 0, RReserve 60 ''b'' ''buy'' 60 100 0, RConfirm ''a'']
      (rsv_start ''AAPL'' 0 empty_redis) of (r', settled, opn) \<Rightarrow>
     (\<exists>n. get_reserved_position ''AAPL'' r' = Inr n \<and> settled \<le> n \<and> n \<le> 100) \<and> 0 \<le> settled"
proof (rule rsv_buyers_within_limit)
  show "\<forall>t. token_of empty_redis ''AAPL'' t = None"
    by (simp add: token_of_def redis_get_def empty_redis_def)
  show "plain_symbol ''AAPL''" by (simp add: plain_symbol_def)
  show "rsv_trace_ok ''AAPL''
      [RReserve 60 ''a'' ''buy'' 60 100 0, RReserve 60 ''b'' ''buy'' 60 100 0, RConfirm ''a'']
      (rsv_start ''AAPL'' 0 empty_redis)"
    by (simp add: rsv_start_def sync_position_def reserve_def reserve_script_def lua_current_def
        is_text_def lua_tonumber_def side_delta_def Let_def redis_get_expire confirm_def
        confirm_script_def release_result_of_def
        reservation_key_def token_key_def)
qed simp_all

text \<open>C40. Rolling back: releasing a reservation restores the reserved position it found and leaves no
  token, and a second release of the token finds nothing and changes nothing.\<close>

theorem rsv_release_roundtrip:
  assumes "reserve ttl token symbol side qty max_limit current r = Inr (res, r1)" "rr_success res"
    and "reserved_of r symbol = Some (RJson (JInt n))" "plain_symbol symbol" "0 < ttl"
  shows "\<exists>rel r2. release symbol token r1 = Inr (rel, r2) \<and> rel_success rel \<and>
     rr_new_position res = n + side_delta side qty \<and> \<bar>rr_new_position res\<bar> \<le> max_limit \<and>
     get_reserved_position symbol r2 = Inr n \<and> token_of r2 symbol token = None \<and>
     (\<exists>rel'. release symbol token r2 = Inr (rel', r2) \<and> \<not> rel_success rel')"
proof -
  let ?d = "side_delta side qty"
  have le: "\<bar>n + ?d\<bar> \<le> max_limit"
  proof (rule ccontr)
    assume "\<not> \<bar>n + ?d\<bar> \<le> max_limit"
    then have "reserve_script (reservation_key symbol) ?d max_limit token ttl current r =
        Inr (LimitExceeded n (n + ?d), r)"
      by (intro reserve_script_refused [OF assms(3)]) simp
    with assms(1,2) show False by (auto simp: reserve_def)
  qed
  from reserve_script_reserved [OF assms(3-5) le, of token current] assms(1)
  have r1: "reserved_of r1 symbol = Some (RJson (JInt (n + ?d)))"
    "token_of r1 symbol token = Some (RJson (JInt ?d))" "rr_new_position res = n + ?d"
    by (auto simp: reserve_def)
  from release_script_found [OF r1(1) assms(4) r1(2)] obtain r2 where r2:
    "release_script (reservation_key symbol) token r1 = Inr (Released (n + ?d) n, r2)"
    "reserved_of r2 symbol = Some (RJson (JInt n))" "token_of r2 symbol token = None"
    by auto
  with r1(3) le show ?thesis
    by (auto simp: release_def release_result_of_def release_script_absent get_reserved_position_def
        redis_present_def reserved_of_def)
qed

theorem rsv_release_roundtrip_witness:
  "\<exists>r1 rel r2. release ''AAPL'' ''a'' r1 = Inr (rel, r2) \<and> rel_success rel \<and>
     get_reserved_position ''AAPL'' r1 = Inr 70 \<and> get_reserved_position ''AAPL'' r2 = Inr 40"
proof -
  let ?r = "sync_position ''AAPL'' 40 empty_redis"
  obtain res r1 where r1: "reserve 60 ''a'' ''AAPL'' ''buy'' 30 100 0 ?r = Inr (res, r1)"
    "rr_success res" "get_reserved_position ''AAPL'' r1 = Inr 70"
    by (simp add: reserve_def reserve_script_def sync_position_def lua_current_def is_text_def
        lua_tonumber_def side_delta_def Let_def get_reserved_position_def redis_present_def
        redis_get_expire token_key_def)
  have "reserved_of ?r ''AAPL'' = Some (RJson (JInt 40))" "plain_symbol ''AAPL''"
    by (simp_all add: reserved_of_def sync_position_def plain_symbol_def)
  from rsv_release_roundtrip [OF r1(1,2) this] r1(3) show ?thesis by auto
qed

text \<open>An expired token leaves its quantity reserved for good: the reserved position is unchanged,
  and releasing or confirming the reservation afterwards finds no token.\<close>

theorem rsv_expiry_keeps_reserved:
  assumes "reserve ttl token symbol side qty max_limit current r = Inr (res, r1)" "rr_success res"
    and "reserved_of r symbol = Some (RJson (JInt n))" "plain_symbol symbol" "0 < ttl"
  shows "let r2 = redis_evict (token_key (reservation_key symbol) token) r1 in
     get_reserved_position symbol r2 = Inr (n + side_delta side qty) \<and>
     release symbol token r2 = Inr (release_result_of TokenNotFound, r2) \<and>
     confirm symbol token r2 = Inr (release_result_of TokenNotFound, r2)"
proof -
  let ?d = "side_delta side qty"
  let ?tk = "token_key (reservation_key symbol) token"
  have r1: "r1 = redis_expire ?tk ttl (redis_put ?tk (RJson (JInt ?d))
      (redis_put (reservation_key symbol) (RJson (JInt (n + ?d))) r))"
    using assms(1-3)
    by (auto simp: reserve_def reserve_script_def lua_current_def reserved_of_def is_text_def
        lua_tonumber_def Let_def split: if_splits)
  have "r_ttl r1 ?tk \<noteq> None"
    using assms(5) by (simp add: r1 redis_ttl_expire)
  then show ?thesis
    using assms(4,5)
    by (simp add: Let_def release_def confirm_def release_script_def confirm_script_def
        get_reserved_position_def redis_present_def redis_get_evict r1 redis_get_expire)
qed

theorem rsv_expiry_keeps_reserved_witness:
  "\<exists>r2. get_reserved_position ''AAPL'' r2 = Inr 70 \<and>
     release ''AAPL'' ''a'' r2 = Inr (release_result_of TokenNotFound, r2)"
proof -
  let ?r = "sync_position ''AAPL'' 40 empty_redis"
  obtain res r1 where r1: "reserve 60 ''a'' ''AAPL'' ''buy'' 30 100 0 ?r = Inr (res, r1)" "rr_success res"
    by (simp add: reserve_def reserve_script_def sync_position_def lua_current_def is_text_def
        lua_tonumber_def side_delta_def Let_def)
  have "reserved_of ?r ''AAPL'' = Some (RJson (JInt 40))" "plain_symbol ''AAPL''"
    by (simp_all add: reserved_of_def sync_position_def plain_symbol_def)
  from rsv_expiry_keeps_reserved [OF r1 this] show ?thesis
    by (auto simp: Let_def side_delta_def)
qed

end
