(* ===== verification/Risk_Checker.thy ===== *)
theory Risk_Checker
  imports Risk_Config Circuit_Breaker Kill_Switch Position_Reservation
begin

text \<open>
  The pre-trade checks of \<^verbatim>\<open>libs/trading/risk_management/checker.py\<close>, over the shared Redis store:
  \<open>validate_order\<close> asks the kill switch and the breaker, then the blacklist and the position limits;
  \<open>validate_order_with_reservation\<close> replaces the limit in shares by an atomic reservation.  The
  text of a reason is a constructor of \<open>risk_reason\<close> with the values it prints.
\<close>

datatype risk_reason =
    NoReason
  | KillSwitchEngaged
  | BreakerTripped json
  | Blacklisted string
  | PositionLimit int int
  | PositionPct rat rat rat
  | TotalExposure rat rat
  | LongExposure rat rat
  | ShortExposure rat rat
  | ReservationRefused string

text \<open>The optional parts of a checker: whether it has a kill switch, and its reservations' TTL.\<close>

record risk_checker =
  rk_config :: risk_config
  rk_kill_switch :: bool
  rk_reservation :: "int option"

definition calculate_new_position :: "int \<Rightarrow> string \<Rightarrow> int \<Rightarrow> int result" where
  "calculate_new_position current_position side qty =
     (if side = ''buy'' then Inr (current_position + qty)
      else if side = ''sell'' then Inr (current_position - qty)
      else Inl (ValueError ''Invalid side''))"

definition validate_order ::
  "risk_checker \<Rightarrow> string \<Rightarrow> string \<Rightarrow> int \<Rightarrow> int \<Rightarrow> rat option \<Rightarrow> rat option \<Rightarrow> bool \<Rightarrow> redis \<Rightarrow>
   (bool \<times> risk_reason) result" where
  "validate_order ck symbol side qty current_position current_price portfolio_value skip_limit r =
     rbind (if rk_kill_switch ck then ks_is_engaged r else Inr False) (\<lambda>engaged.
     if engaged then Inr (False, KillSwitchEngaged)
     else rbind (breaker_is_tripped r) (\<lambda>tripped.
     if tripped then rbind (breaker_get_trip_reason r) (\<lambda>reason. Inr (False, BreakerTripped reason))
     else if symbol \<in> set (rc_blacklist (rk_config ck)) then Inr (False, Blacklisted symbol)
     else rbind (calculate_new_position current_position side qty) (\<lambda>new_position.
       let limits = rc_position_limits (rk_config ck) in
       if \<not> skip_limit \<and> \<bar>new_position\<bar> > max_position_size limits
       then Inr (False, PositionLimit \<bar>new_position\<bar> (max_position_size limits))
       else
         case (current_price, portfolio_value) of
           (Some price, Some pv) \<Rightarrow>
             let position_notional = of_int \<bar>new_position\<bar> * price;
                 max_notional = pv * max_position_pct limits
             in if position_notional > max_notional
                then Inr (False, PositionPct (max_position_pct limits) position_notional max_notional)
                else Inr (True, NoReason)
         | _ \<Rightarrow> Inr (True, NoReason))))"

definition exposure_step :: "(string \<times> int \<times> rat) \<Rightarrow> rat \<times> rat \<times> rat \<Rightarrow> rat \<times> rat \<times> rat" where
  "exposure_step p acc =
     (case p of (_, qty, price) \<Rightarrow> case acc of (total_exposure, long_exposure, short_exposure) \<Rightarrow>
        let notional = of_int \<bar>qty\<bar> * price in
        (total_exposure + notional,
         if qty > 0 then long_exposure + notional else long_exposure,
         if \<not> qty > 0 \<and> qty < 0 then short_exposure + notional else short_exposure))"

definition check_portfolio_exposure ::
  "portfolio_limits \<Rightarrow> (string \<times> int \<times> rat) list \<Rightarrow> bool \<times> risk_reason" where
  "check_portfolio_exposure limits positions =
     (case fold exposure_step positions (0, 0, 0) of
        (total_exposure, long_exposure, short_exposure) \<Rightarrow>
          if total_exposure > max_total_notional limits
          then (False, TotalExposure total_exposure (max_total_notional limits))
          else if long_exposure > max_long_exposure limits
          then (False, LongExposure long_exposure (max_long_exposure limits))
          else if short_exposure > max_short_exposure limits
          then (False, ShortExposure short_exposure (max_short_exposure limits))
          else (True, NoReason))"

definition validate_order_with_reservation ::
  "risk_checker \<Rightarrow> string \<Rightarrow> string \<Rightarrow> string \<Rightarrow> int \<Rightarrow> int \<Rightarrow> rat option \<Rightarrow> rat option \<Rightarrow> redis \<Rightarrow>
   ((bool \<times> risk_reason \<times> reservation_result option) \<times> redis) result" where
  "validate_order_with_reservation ck token symbol side qty current_position current_price
       portfolio_value r =
     rbind (validate_order ck symbol side qty current_position current_price portfolio_value
              (rk_reservation ck \<noteq> None) r) (\<lambda>(is_valid, reason).
       if \<not> is_valid then Inr ((False, reason, None), r)
       else case rk_reservation ck of
         None \<Rightarrow> Inr ((True, NoReason, None), r)
       | Some ttl \<Rightarrow>
           rbind (reserve ttl token symbol side qty
                    (max_position_size (rc_position_limits (rk_config ck))) current_position r)
             (\<lambda>(res, r').
               if \<not> rr_success res
               then Inr ((False, ReservationRefused (rr_reason res), Some res), r')
               else Inr ((True, NoReason, Some res), r')))"

definition confirm_reservation ::
  "risk_checker \<Rightarrow> string \<Rightarrow> string \<Rightarrow> redis \<Rightarrow> (bool \<times> redis) result" where
  "confirm_reservation ck symbol token r =
     (if rk_reservation ck = None then Inr (False, r)
      else rbind (confirm symbol token r) (\<lambda>(res, r'). Inr (rel_success res, r')))"

definition release_reservation ::
  "risk_checker \<Rightarrow> string \<Rightarrow> string \<Rightarrow> redis \<Rightarrow> (bool \<times> redis) result" where
  "release_reservation ck symbol token r =
     (if rk_reservation ck = None then Inr (False, r)
      else rbind (release symbol token r) (\<lambda>(res, r'). Inr (rel_success res, r')))"

section \<open>Lemmas\<close>

lemma calculate_new_position_Inr:
  "calculate_new_position cur side qty = Inr n \<longleftrightarrow>
     (side = ''buy'' \<or> side = ''sell'') \<and> n = cur + side_delta side qty"
  by (auto simp: calculate_new_position_def side_delta_def)

text \<open>What an approval needs of the two gates.\<close>

definition gates_open :: "risk_checker \<Rightarrow> redis \<Rightarrow> bool" where
  "gates_open ck r \<longleftrightarrow>
     (if rk_kill_switch ck then ks_is_engaged r = Inr False else True) \<and>
     breaker_is_tripped r = Inr False"

definition pct_ok :: "position_limits \<Rightarrow> int \<Rightarrow> rat option \<Rightarrow> rat option \<Rightarrow> bool" where
  "pct_ok limits n current_price portfolio_value =
     (case (current_price, portfolio_value) of
        (Some price, Some pv) \<Rightarrow> of_int \<bar>n\<bar> * price \<le> pv * max_position_pct limits
      | _ \<Rightarrow> True)"

lemma validate_order_approval:
  "validate_order ck symbol side qty cur price pv skip r = Inr (True, reason) \<longleftrightarrow>
     reason = NoReason \<and> gates_open ck r \<and> symbol \<notin> set (rc_blacklist (rk_config ck)) \<and>
     (side = ''buy'' \<or> side = ''sell'') \<and>
     (skip \<or> \<bar>cur + side_delta side qty\<bar> \<le> max_position_size (rc_position_limits (rk_config ck))) \<and>
     pct_ok (rc_position_limits (rk_config ck)) (cur + side_delta side qty) price pv"
proof (cases "gates_open ck r \<and> symbol \<notin> set (rc_blacklist (rk_config ck)) \<and>
    (side = ''buy'' \<or> side = ''sell'')")
  case True
  then have "calculate_new_position cur side qty = Inr (cur + side_delta side qty)"
    by (simp add: calculate_new_position_Inr)
  with True show ?thesis
    by (auto simp: validate_order_def gates_open_def pct_ok_def Let_def split: option.splits if_splits)
next
  case False
  have "gates_open ck r" "symbol \<notin> set (rc_blacklist (rk_config ck))" "side = ''buy'' \<or> side = ''sell''"
    if "validate_order ck symbol side qty cur price pv skip r = Inr (True, reason)"
    using that
    by (auto simp: validate_order_def rbind_Inr_iff gates_open_def calculate_new_position_Inr
        split: if_splits)
  with False show ?thesis by blast
qed

section \<open>Exposure as sums\<close>

definition notional_of :: "(string \<times> int \<times> rat) \<Rightarrow> rat" where
  "notional_of p = of_int \<bar>fst (snd p)\<bar> * snd (snd p)"

definition total_of :: "(string \<times> int \<times> rat) list \<Rightarrow> rat" where
  "total_of ps = sum_list (map notional_of ps)"

definition long_of :: "(string \<times> int \<times> rat) list \<Rightarrow> rat" where
  "long_of ps = sum_list (map notional_of (filter (\<lambda>p. 0 < fst (snd p)) ps))"

definition short_of :: "(string \<times> int \<times> rat) list \<Rightarrow> rat" where
  "short_of ps = sum_list (map notional_of (filter (\<lambda>p. fst (snd p) < 0) ps))"

lemma exposure_fold:
  "fold exposure_step ps (t, l, s) = (t + total_of ps, l + long_of ps, s + short_of ps)"
  by (induction ps arbitrary: t l s)
    (auto simp: total_of_def long_of_def short_of_def exposure_step_def notional_of_def Let_def)

lemma total_is_long_plus_short: "total_of ps = long_of ps + short_of ps"
  by (induction ps) (auto simp: total_of_def long_of_def short_of_def notional_of_def)

section \<open>Properties\<close>

text \<open>C7. An order is approved exactly when the kill switch (if configured) and the breaker both answer
  that trading is allowed, the symbol is not blacklisted, the side is a buy or a sell, the new
  position is within the limit in shares (unless a reservation checks it), and, when a price and a
  portfolio value are given, its notional is within the limit in percent.\<close>

theorem validate_order_approves_iff:
  "validate_order ck symbol side qty cur price pv skip r = Inr (True, reason) \<longleftrightarrow>
     reason = NoReason \<and>
     (if rk_kill_switch ck then ks_is_engaged r = Inr False else True) \<and>
     breaker_is_tripped r = Inr False \<and>
     symbol \<notin> set (rc_blacklist (rk_config ck)) \<and> side \<in> {''buy'', ''sell''} \<and>
     (if skip then True
      else \<bar>cur + side_delta side qty\<bar> \<le> max_position_size (rc_position_limits (rk_config ck))) \<and>
     pct_ok (rc_position_limits (rk_config ck)) (cur + side_delta side qty) price pv"
  by (simp add: validate_order_approval gates_open_def conj_ac)

text \<open>The checks fail closed: when the state of the breaker is missing, or the kill switch is
  configured and its state is missing, no order is approved, with or without a reservation.\<close>

theorem validate_order_fails_closed:
  assumes "\<not> redis_present r (if rk_kill_switch ck then ks_state_key else breaker_state_key) \<or>
    \<not> redis_present r breaker_state_key"
  shows "validate_order ck symbol side qty cur price pv skip r \<noteq> Inr (True, reason) \<and>
     validate_order_with_reservation ck token symbol side qty cur price pv r \<noteq>
       Inr ((True, reason, res), r')"
proof -
  have closed: "\<not> gates_open ck r"
    using assms by (auto simp: gates_open_def split: if_splits
        dest: ks_gate.answer_present breaker_gate.answer_present)
  then show ?thesis
    by (auto simp: validate_order_approval validate_order_with_reservation_def rbind_Inr_iff
        split: if_splits option.splits prod.splits)
qed

theorem validate_order_fails_closed_witness:
  "validate_order \<lparr>rk_config = default_risk_config, rk_kill_switch = True, rk_reservation = None\<rparr>
     ''AAPL'' ''buy'' 1 0 None None False empty_redis \<noteq> Inr (True, NoReason)"
  using validate_order_fails_closed [of empty_redis
      "\<lparr>rk_config = default_risk_config, rk_kill_switch = True, rk_reservation = None\<rparr>"]
  by (simp add: redis_present_def redis_get_def empty_redis_def)

text \<open>A portfolio passes the exposure check exactly when the total, the long and the short notional
  are each within their limit, and the total is the long plus the short notional.\<close>

theorem portfolio_exposure_iff:
  "(fst (check_portfolio_exposure limits positions) \<longleftrightarrow>
     total_of positions \<le> max_total_notional limits \<and>
     long_of positions \<le> max_long_exposure limits \<and>
     short_of positions \<le> max_short_exposure limits) \<and>
   total_of positions = long_of positions + short_of positions"
  using total_is_long_plus_short [of positions]
  by (auto simp: check_portfolio_exposure_def exposure_fold)

text \<open>With reservations configured, an approved order has reserved its quantity atomically: the
  gates were open, the reserved position of the symbol moved by the signed quantity and is within
  the limit, the token is there for the rollback, and the gates still answer the same; a refused
  order leaves the store as it was.\<close>

theorem validate_with_reservation_spec:
  assumes "validate_order_with_reservation ck token symbol side qty cur price pv r =
      Inr ((ok, reason, res), r')"
    and "rk_reservation ck = Some ttl" "0 < ttl"
    and "reserved_of r symbol = Some (RJson (JInt n))" "plain_symbol symbol"
  shows "if ok
     then gates_open ck r \<and> gates_open ck r' \<and>
       get_reserved_position symbol r' = Inr (n + side_delta side qty) \<and>
       \<bar>n + side_delta side qty\<bar> \<le> max_position_size (rc_position_limits (rk_config ck)) \<and>
       token_of r' symbol token = Some (RJson (JInt (side_delta side qty)))
     else r' = r"
proof (cases ok)
  case False
  with assms(1,2) show ?thesis
    by (auto simp: validate_order_with_reservation_def rbind_Inr_iff
        split: if_splits prod.splits dest: reserve_refused_unchanged)
next
  case True
  let ?M = "max_position_size (rc_position_limits (rk_config ck))"
  let ?d = "side_delta side qty"
  from True assms(1,2) obtain rr where gates: "gates_open ck r"
    and res: "reserve ttl token symbol side qty ?M cur r = Inr (rr, r')" "rr_success rr"
    by (auto simp: validate_order_with_reservation_def rbind_Inr_iff validate_order_approval
        split: if_splits prod.splits)
  have le: "\<bar>n + ?d\<bar> \<le> ?M"
  proof (rule ccontr)
    assume "\<not> \<bar>n + ?d\<bar> \<le> ?M"
    then have "reserve_script (reservation_key symbol) ?d ?M token ttl cur r =
        Inr (LimitExceeded n (n + ?d), r)"
      by (intro reserve_script_refused [OF assms(4)]) simp
    with res show False by (auto simp: reserve_def)
  qed
  from reserve_script_reserved [OF assms(4,5,3) le, of token cur] res(1)
  have view: "reserved_of r' symbol = Some (RJson (JInt (n + ?d)))"
    "token_of r' symbol token = Some (RJson (JInt ?d))"
    by (auto simp: reserve_def)
  have other: "redis_get r' k = redis_get r k"
    if "k \<noteq> reservation_key symbol" "k \<noteq> token_key (reservation_key symbol) token" for k
    using reserve_frame [OF res(1) that] .
  have "redis_get r' ks_state_key = redis_get r ks_state_key"
    "redis_get r' breaker_state_key = redis_get r breaker_state_key"
    by (rule other; simp add: ks_state_key_def breaker_state_key_def reservation_key_def
        reservation_prefix_def token_key_def)+
  then have "ks_is_engaged r' = ks_is_engaged r \<and> breaker_is_tripped r' = breaker_is_tripped r"
    by (intro conjI ks_gate.halted_key breaker_gate.halted_key)
  then have "gates_open ck r' = gates_open ck r" by (simp add: gates_open_def)
  with True gates le view show ?thesis
    by (simp add: get_reserved_position_def redis_present_def reserved_of_def)
qed

definition demo_store :: "int \<Rightarrow> redis" where
  "demo_store n = sync_position ''AAPL'' n (ks_init (breaker_init True empty_redis))"

definition demo_checker :: risk_checker where
  "demo_checker =
     \<lparr>rk_config = default_risk_config, rk_kill_switch = True, rk_reservation = Some 60\<rparr>"

lemma demo_checker_simps:
  "rk_reservation demo_checker = Some 60"
  "max_position_size (rc_position_limits (rk_config demo_checker)) = 1000"
  by (simp_all add: demo_checker_def default_risk_config_def)

lemma demo_store_gets:
  "redis_get (demo_store n) breaker_state_key = Some (RJson (JObj breaker_default_state))"
  "redis_get (demo_store n) ks_state_key = Some (RJson (JObj ks_default_state))"
  "reserved_of (demo_store n) ''AAPL'' = Some (RJson (JInt n))"
  by (simp_all add: demo_store_def breaker_init_def breaker_initialize_state_internal_def
      redis_present_def empty_redis_def ks_init_def ks_initialize_state_def sync_position_def
      reserved_of_def redis_get_def redis_put_def ks_state_key_def breaker_state_key_def
      reservation_key_def reservation_prefix_def)

lemma demo_gates_open: "gates_open demo_checker (demo_store n)"
  by (simp add: gates_open_def demo_checker_def ks_is_engaged_iff breaker_is_tripped_def
      breaker_get_state_def demo_store_gets ks_default_state_def breaker_default_state_def
      dict_index_def breaker_state_of_def)

theorem validate_with_reservation_spec_witness:
  "\<exists>res r'. validate_order_with_reservation demo_checker ''a'' ''AAPL'' ''buy'' 100 40 None None
       (demo_store 40) = Inr ((True, NoReason, res), r') \<and>
     get_reserved_position ''AAPL'' r' = Inr 140"
proof -
  have v: "validate_order demo_checker ''AAPL'' ''buy'' 100 40 None None True (demo_store 40) =
      Inr (True, NoReason)"
    by (simp add: validate_order_approval demo_gates_open)
      (simp add: demo_checker_def default_risk_config_def pct_ok_def)
  have plain: "plain_symbol ''AAPL''" by (simp add: plain_symbol_def)
  obtain res r' where run: "validate_order_with_reservation demo_checker ''a'' ''AAPL'' ''buy'' 100 40
      None None (demo_store 40) = Inr ((True, NoReason, res), r')"
    using reserve_script_reserved [OF demo_store_gets(3) plain, of 60 40 100 1000 "''a''" 40]
    by (auto simp: validate_order_with_reservation_def v demo_checker_simps reserve_def side_delta_def)
  with validate_with_reservation_spec [OF run _ _ demo_store_gets(3) plain] show ?thesis
    by (simp add: demo_checker_def side_delta_def)
qed

end
