(* ===== verification/Recovery.thy ===== *)
theory Recovery
  imports Kill_Switch Circuit_Breaker
begin

text \<open>
  The recovery manager of \<^verbatim>\<open>apps/execution_gateway/recovery_manager.py\<close>: which of the safety components
  exist, the flags that block trading while one of them is unavailable, their initialisation at
  startup and the recovery the health endpoint (\<^verbatim>\<open>routes/health.py\<close>) attempts.  An instance has no
  state of its own beside Redis (a reservation manager has its time to live), so that an existing
  instance is a truth value; a slice scheduler is its \<open>running\<close> flag.  The factories and the answer of
  the health check are arguments, the locks are left out.
\<close>

section \<open>State\<close>

record recovery_state =
  rv_kill_switch :: bool
  rv_circuit_breaker :: bool
  rv_position_reservation :: "int option"
  rv_slice_scheduler :: "bool option"
  rv_kill_switch_unavailable :: bool
  rv_circuit_breaker_unavailable :: bool
  rv_position_reservation_unavailable :: bool

definition recovery_init :: recovery_state where
  "recovery_init =
     \<lparr>rv_kill_switch = False, rv_circuit_breaker = False, rv_position_reservation = None,
      rv_slice_scheduler = None, rv_kill_switch_unavailable = True,
      rv_circuit_breaker_unavailable = True, rv_position_reservation_unavailable = True\<rparr>"

definition needs_recovery :: "recovery_state \<Rightarrow> bool" where
  "needs_recovery s \<longleftrightarrow>
     rv_kill_switch_unavailable s \<or> rv_circuit_breaker_unavailable s \<or>
     rv_position_reservation_unavailable s \<or>
     \<not> rv_kill_switch s \<or> \<not> rv_circuit_breaker s \<or> rv_position_reservation s = None"

text \<open>
  What surrounds a call: whether a Redis client is configured, what its health check answers, and
  the factories; \<open>re_scheduler_start\<close> is what \<open>running\<close> says after \<open>start()\<close>.
\<close>

type_synonym factory = "redis \<Rightarrow> unit result \<times> redis"

record recovery_env =
  re_redis_client :: bool
  re_health :: bool
  re_kill_switch :: "factory option"
  re_circuit_breaker :: "factory option"
  re_position_reservation :: "int result option"
  re_slice_scheduler :: "bool result option"
  re_scheduler_start :: "bool result"

definition can_recover :: "recovery_env \<Rightarrow> bool" where
  "can_recover e \<longleftrightarrow> re_redis_client e \<and> re_health e"

text \<open>\<open>except (RedisError, TimeoutError, RuntimeError, OSError)\<close>.\<close>

definition caught :: "py_error \<Rightarrow> bool" where
  "caught err = (case err of RuntimeError _ \<Rightarrow> True | ResponseError _ \<Rightarrow> True | _ \<Rightarrow> False)"

section \<open>Recovering the components\<close>

definition validate_kill_switch ::
  "redis \<Rightarrow> recovery_state \<Rightarrow> bool result \<times> redis \<times> recovery_state" where
  "validate_kill_switch r s =
     (case ks_is_engaged r of
        Inr _ \<Rightarrow> (Inr True, r, s\<lparr>rv_kill_switch_unavailable := False\<rparr>)
      | Inl err \<Rightarrow>
          if caught err then (Inr False, r, s\<lparr>rv_kill_switch_unavailable := True\<rparr>)
          else (Inl err, r, s))"

definition recover_kill_switch ::
  "factory option \<Rightarrow> redis \<Rightarrow> recovery_state \<Rightarrow> bool result \<times> redis \<times> recovery_state" where
  "recover_kill_switch fac r s =
     (if rv_kill_switch s then validate_kill_switch r s
      else case fac of
        None \<Rightarrow> (Inr False, r, s\<lparr>rv_kill_switch_unavailable := True\<rparr>)
      | Some f \<Rightarrow>
          (case f r of
             (Inl err, r') \<Rightarrow>
               if caught err then (Inr False, r', s\<lparr>rv_kill_switch_unavailable := True\<rparr>)
               else (Inl err, r', s)
           | (Inr _, r') \<Rightarrow> validate_kill_switch r' (s\<lparr>rv_kill_switch := True\<rparr>)))"

definition validate_circuit_breaker ::
  "redis \<Rightarrow> recovery_state \<Rightarrow> bool result \<times> redis \<times> recovery_state" where
  "validate_circuit_breaker r s =
     (case breaker_is_tripped r of
        Inr _ \<Rightarrow> (Inr True, r, s\<lparr>rv_circuit_breaker_unavailable := False\<rparr>)
      | Inl err \<Rightarrow>
          if caught err then (Inr False, r, s\<lparr>rv_circuit_breaker_unavailable := True\<rparr>)
          else (Inl err, r, s))"

definition recover_circuit_breaker ::
  "factory option \<Rightarrow> redis \<Rightarrow> recovery_state \<Rightarrow> bool result \<times> redis \<times> recovery_state" where
  "recover_circuit_breaker fac r s =
     (if rv_circuit_breaker s then validate_circuit_breaker r s
      else case fac of
        None \<Rightarrow> (Inr False, r, s\<lparr>rv_circuit_breaker_unavailable := True\<rparr>)
      | Some f \<Rightarrow>
          (case f r of
             (Inl err, r') \<Rightarrow>
               if caught err then (Inr False, r', s\<lparr>rv_circuit_breaker_unavailable := True\<rparr>)
               else (Inl err, r', s)
           | (Inr _, r') \<Rightarrow> validate_circuit_breaker r' (s\<lparr>rv_circuit_breaker := True\<rparr>)))"

definition recover_position_reservation ::
  "recovery_env \<Rightarrow> recovery_state \<Rightarrow> bool result \<times> recovery_state" where
  "recover_position_reservation e s =
     (let validated_instance = (\<lambda>s.
            if \<not> can_recover e then (Inr False, s\<lparr>rv_position_reservation_unavailable := True\<rparr>)
            else (Inr True, s\<lparr>rv_position_reservation_unavailable := False\<rparr>))
      in if rv_position_reservation s \<noteq> None then validated_instance s
         else case re_position_reservation e of
           None \<Rightarrow> (Inr False, s\<lparr>rv_position_reservation_unavailable := True\<rparr>)
         | Some (Inl err) \<Rightarrow>
             if caught err then (Inr False, s\<lparr>rv_position_reservation_unavailable := True\<rparr>)
             else (Inl err, s)
         | Some (Inr ttl) \<Rightarrow> validated_instance (s\<lparr>rv_position_reservation := Some ttl\<rparr>))"

definition should_recover_slice_scheduler :: "recovery_state \<Rightarrow> bool" where
  "should_recover_slice_scheduler s \<longleftrightarrow>
     \<not> rv_kill_switch_unavailable s \<and> \<not> rv_circuit_breaker_unavailable s \<and>
     rv_kill_switch s \<and> rv_circuit_breaker s \<and> rv_slice_scheduler s \<noteq> Some True"

text \<open>\<open>except (RuntimeError, AttributeError, OSError)\<close>: another error of the factory is raised.\<close>

definition start_scheduler :: "recovery_env \<Rightarrow> recovery_state \<Rightarrow> bool result \<times> recovery_state" where
  "start_scheduler e s =
     (case re_scheduler_start e of
        Inr running \<Rightarrow> (Inr running, s\<lparr>rv_slice_scheduler := Some running\<rparr>)
      | Inl (RuntimeError m) \<Rightarrow> (Inr False, s)
      | Inl err \<Rightarrow> (Inl err, s))"

definition recover_slice_scheduler :: "recovery_env \<Rightarrow> recovery_state \<Rightarrow> bool result \<times> recovery_state" where
  "recover_slice_scheduler e s =
     (case rv_slice_scheduler s of
        Some running \<Rightarrow> if running then (Inr True, s) else start_scheduler e s
      | None \<Rightarrow>
          (case re_slice_scheduler e of
             None \<Rightarrow> (Inr False, s)
           | Some (Inl (RuntimeError m)) \<Rightarrow> (Inr False, s)
           | Some (Inl err) \<Rightarrow> (Inl err, s)
           | Some (Inr running) \<Rightarrow>
               let s' = s\<lparr>rv_slice_scheduler := Some running\<rparr>
               in if running then (Inr True, s') else start_scheduler e s'))"

section \<open>The recovery\<close>

record recovery_result =
  vr_kill_switch_recovered :: bool
  vr_circuit_breaker_recovered :: bool
  vr_position_reservation_recovered :: bool
  vr_slice_scheduler_recovered :: bool
  vr_all_recovered :: bool

text \<open>The three components that need Redis, each recovered when its flag is set or it is missing.\<close>

definition recover_safety ::
  "recovery_env \<Rightarrow> redis \<Rightarrow> recovery_state \<Rightarrow> (bool \<times> bool \<times> bool) result \<times> redis \<times> recovery_state" where
  "recover_safety e r s =
     (case (if rv_kill_switch_unavailable s \<or> \<not> rv_kill_switch s
            then recover_kill_switch (re_kill_switch e) r s else (Inr False, r, s)) of
        (Inl err, r1, s1) \<Rightarrow> (Inl err, r1, s1)
      | (Inr a, r1, s1) \<Rightarrow>
         (case (if rv_circuit_breaker_unavailable s1 \<or> \<not> rv_circuit_breaker s1
                then recover_circuit_breaker (re_circuit_breaker e) r1 s1 else (Inr False, r1, s1)) of
            (Inl err, r2, s2) \<Rightarrow> (Inl err, r2, s2)
          | (Inr b, r2, s2) \<Rightarrow>
             (case (if rv_position_reservation_unavailable s2 \<or> rv_position_reservation s2 = None
                    then recover_position_reservation e s2 else (Inr False, s2)) of
                (Inl err, s3) \<Rightarrow> (Inl err, r2, s3)
              | (Inr c, s3) \<Rightarrow> (Inr (a, b, c), r2, s3))))"

definition attempt_recovery ::
  "recovery_env \<Rightarrow> redis \<Rightarrow> recovery_state \<Rightarrow> recovery_result result \<times> redis \<times> recovery_state" where
  "attempt_recovery e r s =
     (if \<not> needs_recovery s \<and> \<not> should_recover_slice_scheduler s
      then (Inr \<lparr>vr_kill_switch_recovered = False, vr_circuit_breaker_recovered = False,
                 vr_position_reservation_recovered = False, vr_slice_scheduler_recovered = False,
                 vr_all_recovered = True\<rparr>, r, s)
      else case (if can_recover e then recover_safety e r s
                 else (Inr (False, False, False), r, s)) of
        (Inl err, r1, s1) \<Rightarrow> (Inl err, r1, s1)
      | (Inr (a, b, c), r1, s1) \<Rightarrow>
         (case (if should_recover_slice_scheduler s1 then recover_slice_scheduler e s1
                else (Inr False, s1)) of
            (Inl err, s2) \<Rightarrow> (Inl err, r1, s2)
          | (Inr d, s2) \<Rightarrow>
             (Inr \<lparr>vr_kill_switch_recovered = a, vr_circuit_breaker_recovered = b,
                   vr_position_reservation_recovered = c, vr_slice_scheduler_recovered = d,
                   vr_all_recovered = (\<not> needs_recovery s2)\<rparr>, r1, s2)))"

section \<open>Startup\<close>

definition initialize_kill_switch ::
  "bool \<Rightarrow> factory \<Rightarrow> redis \<Rightarrow> recovery_state \<Rightarrow> bool result \<times> redis \<times> recovery_state" where
  "initialize_kill_switch redis_client f r s =
     (if \<not> redis_client then (Inr False, r, s\<lparr>rv_kill_switch_unavailable := True\<rparr>)
      else case f r of
        (Inl err, r') \<Rightarrow>
          if caught err then (Inr False, r', s\<lparr>rv_kill_switch_unavailable := True\<rparr>)
          else (Inl err, r', s)
      | (Inr _, r') \<Rightarrow>
          (case ks_is_engaged r' of
             Inl err \<Rightarrow>
               if caught err
               then (Inr False, r', s\<lparr>rv_kill_switch := True, rv_kill_switch_unavailable := True\<rparr>)
               else (Inl err, r', s)
           | Inr _ \<Rightarrow>
               (Inr True, r', s\<lparr>rv_kill_switch := True, rv_kill_switch_unavailable := False\<rparr>)))"

definition initialize_circuit_breaker ::
  "bool \<Rightarrow> factory \<Rightarrow> redis \<Rightarrow> recovery_state \<Rightarrow> bool result \<times> redis \<times> recovery_state" where
  "initialize_circuit_breaker redis_client f r s =
     (if \<not> redis_client then (Inr False, r, s\<lparr>rv_circuit_breaker_unavailable := True\<rparr>)
      else case f r of
        (Inl err, r') \<Rightarrow>
          if caught err then (Inr False, r', s\<lparr>rv_circuit_breaker_unavailable := True\<rparr>)
          else (Inl err, r', s)
      | (Inr _, r') \<Rightarrow>
          (case breaker_is_tripped r' of
             Inl err \<Rightarrow>
               if caught err
               then (Inr False, r', s\<lparr>rv_circuit_breaker := True, rv_circuit_breaker_unavailable := True\<rparr>)
               else (Inl err, r', s)
           | Inr _ \<Rightarrow>
               (Inr True, r', s\<lparr>rv_circuit_breaker := True, rv_circuit_breaker_unavailable := False\<rparr>)))"

definition initialize_position_reservation ::
  "bool \<Rightarrow> bool \<Rightarrow> int result \<Rightarrow> recovery_state \<Rightarrow> bool result \<times> recovery_state" where
  "initialize_position_reservation redis_client health f s =
     (if \<not> redis_client then (Inr False, s\<lparr>rv_position_reservation_unavailable := True\<rparr>)
      else case f of
        Inl err \<Rightarrow>
          if caught err then (Inr False, s\<lparr>rv_position_reservation_unavailable := True\<rparr>)
          else (Inl err, s)
      | Inr ttl \<Rightarrow>
          if \<not> health
          then (Inr False, s\<lparr>rv_position_reservation := Some ttl,
                             rv_position_reservation_unavailable := True\<rparr>)
          else (Inr True, s\<lparr>rv_position_reservation := Some ttl,
                            rv_position_reservation_unavailable := False\<rparr>))"

text \<open>
  The constructors the service passes as factories, at startup (\<^verbatim>\<open>lifespan.py\<close>) and in the health
  endpoint, where \<open>sched\<close> is the scheduler's constructor.
\<close>

definition DEFAULT_RESERVATION_TTL :: int where
  "DEFAULT_RESERVATION_TTL = 60"

definition kill_switch_factory :: factory where
  "kill_switch_factory r = (Inr (), ks_init r)"

definition circuit_breaker_factory :: factory where
  "circuit_breaker_factory r = (Inr (), breaker_init False r)"

definition health_env :: "bool \<Rightarrow> bool result \<Rightarrow> bool result \<Rightarrow> recovery_env" where
  "health_env health sched start =
     \<lparr>re_redis_client = True, re_health = health, re_kill_switch = Some kill_switch_factory,
      re_circuit_breaker = Some circuit_breaker_factory,
      re_position_reservation = Some (Inr DEFAULT_RESERVATION_TTL),
      re_slice_scheduler = Some sched, re_scheduler_start = start\<rparr>"

definition health_recovery ::
  "bool \<Rightarrow> bool result \<Rightarrow> bool result \<Rightarrow> redis \<Rightarrow> recovery_state \<Rightarrow>
   recovery_result option result \<times> redis \<times> recovery_state" where
  "health_recovery health sched start r s =
     (if \<not> health then (Inr None, r, s)
      else case attempt_recovery (health_env health sched start) r s of
        (Inl err, st) \<Rightarrow> (Inl err, st)
      | (Inr res, st) \<Rightarrow> (Inr (Some res), st))"

section \<open>Lemmas\<close>

text \<open>A component is usable when it exists and is not flagged: what the order routes ask.\<close>

definition kill_switch_usable :: "recovery_state \<Rightarrow> bool" where
  "kill_switch_usable s \<longleftrightarrow> \<not> rv_kill_switch_unavailable s \<and> rv_kill_switch s"

definition circuit_breaker_usable :: "recovery_state \<Rightarrow> bool" where
  "circuit_breaker_usable s \<longleftrightarrow> \<not> rv_circuit_breaker_unavailable s \<and> rv_circuit_breaker s"

definition position_reservation_usable :: "recovery_state \<Rightarrow> bool" where
  "position_reservation_usable s \<longleftrightarrow>
     \<not> rv_position_reservation_unavailable s \<and> rv_position_reservation s \<noteq> None"

lemmas usable_defs = kill_switch_usable_def circuit_breaker_usable_def position_reservation_usable_def

lemma needs_recovery_usable:
  "\<not> needs_recovery s \<longleftrightarrow>
     kill_switch_usable s \<and> circuit_breaker_usable s \<and> position_reservation_usable s"
  by (auto simp: needs_recovery_def usable_defs)

lemma ks_is_engaged_init:
  assumes "ks_is_engaged r = Inr b"
  shows "ks_init r = r"
  using assms
  by (auto simp: ks_is_engaged_iff ks_init_def redis_present_def)

lemma ks_init_breaker: "breaker_is_tripped (ks_init r) = breaker_is_tripped r"
  by (simp add: ks_init_def ks_initialize_state_def breaker_is_tripped_def breaker_get_state_def
      breaker_state_key_def ks_state_key_def)

lemma breaker_init_False [simp]: "breaker_init False r = r"
  by (simp add: breaker_init_def)

text \<open>A flag is cleared only when the instance exists: the invariant of the manager's state.\<close>

definition recovery_wf :: "recovery_state \<Rightarrow> bool" where
  "recovery_wf s \<longleftrightarrow>
     (rv_kill_switch_unavailable s \<or> rv_kill_switch s) \<and>
     (rv_circuit_breaker_unavailable s \<or> rv_circuit_breaker s) \<and>
     (rv_position_reservation_unavailable s \<or> rv_position_reservation s \<noteq> None)"

lemma recovery_wf_init: "recovery_wf recovery_init"
  by (simp add: recovery_wf_def recovery_init_def)

lemma initialize_wf:
  assumes "recovery_wf s"
  shows "recovery_wf (snd (snd (initialize_kill_switch c f r s)))"
    and "recovery_wf (snd (snd (initialize_circuit_breaker c f r s)))"
    and "recovery_wf (snd (initialize_position_reservation c h g s))"
  using assms
  by (auto simp: recovery_wf_def initialize_kill_switch_def initialize_circuit_breaker_def
      initialize_position_reservation_def split: prod.splits sum.splits)

text \<open>Each step of a recovery, from one state of Redis and the manager to the next.\<close>

definition recovery_step :: "bool \<Rightarrow> redis \<Rightarrow> recovery_state \<Rightarrow> redis \<Rightarrow> recovery_state \<Rightarrow> bool" where
  "recovery_step health r s r' s' \<longleftrightarrow>
     recovery_wf s' \<and> (r' = r \<or> r' = ks_init r) \<and>
     (kill_switch_usable s' \<longrightarrow> kill_switch_usable s \<or> (\<exists>b. ks_is_engaged r' = Inr b)) \<and>
     (circuit_breaker_usable s' \<longrightarrow> circuit_breaker_usable s \<or> (\<exists>b. breaker_is_tripped r' = Inr b)) \<and>
     (position_reservation_usable s' \<longrightarrow> position_reservation_usable s \<or> health)"

lemma recovery_step_refl: "recovery_wf s \<Longrightarrow> recovery_step h r s r s"
  by (simp add: recovery_step_def)

lemma recovery_step_trans:
  assumes "recovery_step h r s r1 s1" "recovery_step h r1 s1 r2 s2"
  shows "recovery_step h r s r2 s2"
proof -
  have r1: "r1 = r \<or> r1 = ks_init r" and r2: "r2 = r1 \<or> r2 = ks_init r1"
    using assms by (simp_all add: recovery_step_def)
  have ii: "ks_init (ks_init q) = ks_init q" for q
    by (simp add: ks_init_def ks_initialize_state_def redis_present_def)
  from r1 r2 ii have r: "r2 = r \<or> r2 = ks_init r" by metis
  have "ks_is_engaged r1 = Inr b \<Longrightarrow> \<exists>b. ks_is_engaged r2 = Inr b" for b
    using r2 ks_is_engaged_init [of r1 b] by auto
  moreover have "breaker_is_tripped r2 = breaker_is_tripped r1"
    using r2 ks_init_breaker by auto
  ultimately show ?thesis
    using assms r unfolding recovery_step_def by metis
qed

lemma recover_kill_switch_step:
  assumes "recover_kill_switch (Some kill_switch_factory) r s = (x, r', s')" "recovery_wf s"
    "rv_kill_switch_unavailable s \<or> \<not> rv_kill_switch s"
  shows "recovery_step h r s r' s'"
  using assms
  by (auto simp: recover_kill_switch_def validate_kill_switch_def kill_switch_factory_def
      recovery_step_def recovery_wf_def usable_defs split: if_splits sum.splits)

lemma recover_circuit_breaker_step:
  assumes "recover_circuit_breaker (Some circuit_breaker_factory) r s = (x, r', s')" "recovery_wf s"
    "rv_circuit_breaker_unavailable s \<or> \<not> rv_circuit_breaker s"
  shows "recovery_step h r s r' s'"
  using assms
  by (auto simp: recover_circuit_breaker_def validate_circuit_breaker_def circuit_breaker_factory_def
      recovery_step_def recovery_wf_def usable_defs split: if_splits sum.splits)

lemma recover_position_reservation_step:
  assumes "recover_position_reservation e s = (x, s')" "recovery_wf s" "re_health e = h"
  shows "recovery_step h r s r s'"
  using assms
  by (auto simp: recover_position_reservation_def can_recover_def Let_def
      recovery_step_def recovery_wf_def usable_defs split: if_splits sum.splits option.splits)

lemma recover_slice_scheduler_step:
  assumes "recover_slice_scheduler e s = (x, s')" "recovery_wf s"
  shows "recovery_step h r s r s'"
proof -
  have "s' = s\<lparr>rv_slice_scheduler := rv_slice_scheduler s'\<rparr>"
    using assms(1)
    by (auto simp: recover_slice_scheduler_def start_scheduler_def Let_def
        split: if_splits sum.splits option.splits py_error.splits)
  then show ?thesis
    using assms(2) by (cases s, cases s') (simp add: recovery_step_def recovery_wf_def usable_defs)
qed

lemma recover_safety_step:
  assumes "recover_safety (health_env h sched start) r s = (x, r', s')" "recovery_wf s"
  shows "recovery_step h r s r' s'"
proof -
  obtain x1 r1 s1 where 1: "(if rv_kill_switch_unavailable s \<or> \<not> rv_kill_switch s
      then recover_kill_switch (Some kill_switch_factory) r s else (Inr False, r, s)) = (x1, r1, s1)"
    by (metis prod_cases3)
  have st1: "recovery_step h r s r1 s1"
    using 1 recover_kill_switch_step [OF _ assms(2)] recovery_step_refl [OF assms(2)]
    by (auto split: if_splits)
  then have wf1: "recovery_wf s1" by (simp add: recovery_step_def)
  obtain x2 r2 s2 where 2: "(if rv_circuit_breaker_unavailable s1 \<or> \<not> rv_circuit_breaker s1
      then recover_circuit_breaker (Some circuit_breaker_factory) r1 s1 else (Inr False, r1, s1)) = (x2, r2, s2)"
    by (metis prod_cases3)
  have "recovery_step h r1 s1 r2 s2"
    using 2 recover_circuit_breaker_step [OF _ wf1] recovery_step_refl [OF wf1]
    by (auto split: if_splits)
  with st1 have st2: "recovery_step h r s r2 s2" by (rule recovery_step_trans)
  then have wf2: "recovery_wf s2" by (simp add: recovery_step_def)
  obtain x3 s3 where 3: "(if rv_position_reservation_unavailable s2 \<or> rv_position_reservation s2 = None
      then recover_position_reservation (health_env h sched start) s2 else (Inr False, s2)) = (x3, s3)"
    by (metis prod.exhaust)
  have "re_health (health_env h sched start) = h" by (simp add: health_env_def)
  then have "recovery_step h r2 s2 r2 s3"
    using 3 recover_position_reservation_step [OF _ wf2] recovery_step_refl [OF wf2]
    by (auto split: if_splits)
  with st2 have st3: "recovery_step h r s r2 s3" by (rule recovery_step_trans)
  have env: "re_kill_switch (health_env h sched start) = Some kill_switch_factory"
    "re_circuit_breaker (health_env h sched start) = Some circuit_breaker_factory"
    by (simp_all add: health_env_def)
  show ?thesis
    using assms(1) st1 st2 st3 unfolding recover_safety_def env 1
    by (cases x1; cases x2; cases x3) (simp_all add: 2 3)
qed

lemma attempt_recovery_step:
  assumes "attempt_recovery (health_env h sched start) r s = (x, r', s')" "recovery_wf s"
  shows "recovery_step h r s r' s'"
    and "x = Inr res \<Longrightarrow> vr_all_recovered res = (\<not> needs_recovery s')"
proof -
  obtain x1 r1 s1 where 1: "(if can_recover (health_env h sched start)
      then recover_safety (health_env h sched start) r s
      else (Inr (False, False, False), r, s)) = (x1, r1, s1)"
    by (metis prod_cases3)
  have st1: "recovery_step h r s r1 s1"
    using 1 recover_safety_step [OF _ assms(2)] recovery_step_refl [OF assms(2)]
    by (auto split: if_splits)
  then have wf1: "recovery_wf s1" by (simp add: recovery_step_def)
  obtain x2 s2 where 2: "(if should_recover_slice_scheduler s1
      then recover_slice_scheduler (health_env h sched start) s1 else (Inr False, s1)) = (x2, s2)"
    by (metis prod.exhaust)
  have "recovery_step h r1 s1 r1 s2"
    using 2 recover_slice_scheduler_step [OF _ wf1] recovery_step_refl [OF wf1]
    by (auto split: if_splits)
  with st1 have st2: "recovery_step h r s r1 s2" by (rule recovery_step_trans)
  show "recovery_step h r s r' s'"
    using assms(1) st1 st2 recovery_step_refl [OF assms(2)] unfolding attempt_recovery_def 1
    by (cases x1; cases x2) (auto simp: 2 split: if_splits prod.splits)
  show "vr_all_recovered res = (\<not> needs_recovery s')" if "x = Inr res"
    using assms(1) that unfolding attempt_recovery_def 1
    by (cases x1; cases x2) (auto simp: 2 split: if_splits prod.splits)
qed

section \<open>Properties\<close>

text \<open>C38. Recovery fails closed: whatever the health endpoint's attempt answers, the manager's invariant
  holds, no engaged kill switch is released and no trip is reset, a component that becomes usable
  is one whose state was just read (the reservations: whose Redis just answered), and the answer
  says that all is recovered exactly when nothing is unavailable.\<close>

theorem recovery_fail_closed:
  assumes "recovery_wf s" "health_recovery health sched start r s = (x, r', s')"
  shows "recovery_wf s' \<and>
     (\<forall>b. ks_is_engaged r = Inr b \<longrightarrow> ks_is_engaged r' = Inr b) \<and>
     breaker_is_tripped r' = breaker_is_tripped r \<and>
     (kill_switch_usable s' \<longrightarrow> kill_switch_usable s \<or> (\<exists>b. ks_is_engaged r' = Inr b)) \<and>
     (circuit_breaker_usable s' \<longrightarrow> circuit_breaker_usable s \<or> (\<exists>b. breaker_is_tripped r' = Inr b)) \<and>
     (position_reservation_usable s' \<longrightarrow> position_reservation_usable s \<or> health) \<and>
     (\<forall>res. x = Inr (Some res) \<longrightarrow> vr_all_recovered res = (\<not> needs_recovery s'))"
proof -
  have st: "recovery_step health r s r' s'"
    using assms attempt_recovery_step(1) [OF _ assms(1)] recovery_step_refl [OF assms(1)]
    by (auto simp: health_recovery_def split: if_splits sum.splits prod.splits)
  have all: "\<forall>res. x = Inr (Some res) \<longrightarrow> vr_all_recovered res = (\<not> needs_recovery s')"
    using assms attempt_recovery_step(2) [OF _ assms(1)]
    by (auto simp: health_recovery_def split: if_splits sum.splits prod.splits)
  have "\<forall>b. ks_is_engaged r = Inr b \<longrightarrow> ks_is_engaged r' = Inr b"
    using st ks_is_engaged_init by (auto simp: recovery_step_def)
  moreover have "breaker_is_tripped r' = breaker_is_tripped r"
    using st ks_init_breaker by (auto simp: recovery_step_def)
  ultimately show ?thesis
    using st all by (simp add: recovery_step_def)
qed

text \<open>The breaker of an initialised system, everything else at startup.\<close>

definition initialised_redis :: redis where
  "initialised_redis = snd (breaker_initialize_state True empty_redis)"

lemma initialised_redis_tripped: "breaker_is_tripped initialised_redis = Inr False"
  by (simp add: initialised_redis_def breaker_initialize_state_def breaker_initialize_state_internal_def
      breaker_is_tripped_def breaker_get_state_def load_obj_def breaker_default_state_def dict_index_def
      breaker_state_of_def)

theorem recovery_fail_closed_witness:
  "recovery_wf (snd (snd (health_recovery True (Inr True) (Inr True) initialised_redis recovery_init)))"
proof -
  obtain x r' s' where h:
    "health_recovery True (Inr True) (Inr True) initialised_redis recovery_init = (x, r', s')"
    by (metis prod_cases3)
  show ?thesis
    using recovery_fail_closed [OF recovery_wf_init h] h by simp
qed

lemma ks_is_engaged_fresh: "\<not> redis_present r ks_state_key \<Longrightarrow> ks_is_engaged (ks_init r) = Inr False"
  by (simp add: ks_init_def ks_initialize_state_def ks_is_engaged_iff ks_default_state_def)

definition quiet :: "'a result \<Rightarrow> bool" where
  "quiet x = (case x of Inl (RuntimeError m) \<Rightarrow> True | Inl e \<Rightarrow> False | Inr a \<Rightarrow> True)"

lemma recover_slice_scheduler_quiet:
  assumes "quiet sched" "quiet start"
  shows "\<exists>b k. recover_slice_scheduler (health_env h sched start) s = (Inr b, s\<lparr>rv_slice_scheduler := k\<rparr>)"
proof -
  have st: "\<exists>b k. start_scheduler (health_env h sched start) q = (Inr b, q\<lparr>rv_slice_scheduler := k\<rparr>)" for q
  proof (cases "start")
    case (Inl e)
    with assms(2) obtain m where "start = Inl (RuntimeError m)"
      by (auto simp: quiet_def split: py_error.splits)
    then show ?thesis
      by (intro exI [of _ False] exI [of _ "rv_slice_scheduler q"])
        (simp add: start_scheduler_def health_env_def)
  next
    case (Inr b)
    then show ?thesis by (auto simp: start_scheduler_def health_env_def)
  qed
  consider (running) b where "rv_slice_scheduler s = Some b"
    | (failed) m where "rv_slice_scheduler s = None" "sched = Inl (RuntimeError m)"
    | (made) b where "rv_slice_scheduler s = None" "sched = Inr b"
    using assms(1) by (cases "rv_slice_scheduler s"; cases sched) (auto simp: quiet_def split: py_error.splits)
  then show ?thesis
  proof cases
    case running
    then show ?thesis
      using st [of s] by (cases b) (auto simp: recover_slice_scheduler_def intro: exI [of _ "Some True"])
  next
    case failed
    then show ?thesis
      by (intro exI [of _ False] exI [of _ None]) (simp add: recover_slice_scheduler_def health_env_def)
  next
    case made
    then show ?thesis
      using st [of "s\<lparr>rv_slice_scheduler := Some b\<rparr>"]
      by (cases b) (auto simp: recover_slice_scheduler_def health_env_def Let_def)
  qed
qed

lemma recover_safety_live:
  assumes "breaker_is_tripped r = Inr t"
    and "ks_is_engaged r = Inr b \<or> \<not> redis_present r ks_state_key \<and> \<not> rv_kill_switch s"
  shows "\<exists>y r1 s1. recover_safety (health_env True sched start) r s = (Inr y, r1, s1) \<and> \<not> needs_recovery s1"
proof -
  let ?e = "health_env True sched start"
  have env: "re_kill_switch ?e = Some kill_switch_factory"
    "re_circuit_breaker ?e = Some circuit_breaker_factory" "can_recover ?e"
    "re_position_reservation ?e = Some (Inr DEFAULT_RESERVATION_TTL)"
    by (simp_all add: health_env_def can_recover_def)
  have br: "breaker_is_tripped (ks_init r) = Inr t"
    using assms(1) by (simp add: ks_init_breaker)
  have "\<exists>x1 r1 s1. (if rv_kill_switch_unavailable s \<or> \<not> rv_kill_switch s
      then recover_kill_switch (Some kill_switch_factory) r s else (Inr False, r, s)) = (Inr x1, r1, s1) \<and>
      breaker_is_tripped r1 = Inr t \<and> kill_switch_usable s1"
    using assms br ks_is_engaged_fresh [of r] ks_is_engaged_init [of r b]
    by (auto simp: recover_kill_switch_def validate_kill_switch_def kill_switch_factory_def usable_defs)
  then obtain x1 r1 s1 where 1: "(if rv_kill_switch_unavailable s \<or> \<not> rv_kill_switch s
      then recover_kill_switch (Some kill_switch_factory) r s else (Inr False, r, s)) = (Inr x1, r1, s1)"
    and br1: "breaker_is_tripped r1 = Inr t" and u1: "kill_switch_usable s1" by blast
  have "\<exists>x2 r2 s2. (if rv_circuit_breaker_unavailable s1 \<or> \<not> rv_circuit_breaker s1
      then recover_circuit_breaker (Some circuit_breaker_factory) r1 s1 else (Inr False, r1, s1)) =
      (Inr x2, r2, s2) \<and> kill_switch_usable s2 \<and> circuit_breaker_usable s2"
    using br1 u1
    by (auto simp: recover_circuit_breaker_def validate_circuit_breaker_def circuit_breaker_factory_def
        usable_defs)
  then obtain x2 r2 s2 where 2: "(if rv_circuit_breaker_unavailable s1 \<or> \<not> rv_circuit_breaker s1
      then recover_circuit_breaker (Some circuit_breaker_factory) r1 s1 else (Inr False, r1, s1)) =
      (Inr x2, r2, s2)" and u2: "kill_switch_usable s2" "circuit_breaker_usable s2" by blast
  have "\<exists>x3 s3. (if rv_position_reservation_unavailable s2 \<or> rv_position_reservation s2 = None
      then recover_position_reservation ?e s2 else (Inr False, s2)) = (Inr x3, s3) \<and> \<not> needs_recovery s3"
    using u2 by (auto simp: recover_position_reservation_def env needs_recovery_usable usable_defs Let_def)
  then obtain x3 s3 where 3: "(if rv_position_reservation_unavailable s2 \<or> rv_position_reservation s2 = None
      then recover_position_reservation ?e s2 else (Inr False, s2)) = (Inr x3, s3)"
    and u3: "\<not> needs_recovery s3" by blast
  show ?thesis
    unfolding recover_safety_def env 1 using u3 by (simp add: 2 3)
qed

text \<open>Recovery is live: when Redis answers, the breaker's state can be read and the kill switch's can
  be read (or was never written and the switch does not exist yet), one attempt makes every safety component usable, from any state
  of the manager, even when the slice scheduler cannot be created or started.\<close>

theorem recovery_succeeds:
  assumes "breaker_is_tripped r = Inr t"
    and "ks_is_engaged r = Inr b \<or> \<not> redis_present r ks_state_key \<and> \<not> rv_kill_switch s"
    and "quiet sched" "quiet start"
  shows "\<exists>res r' s'. health_recovery True sched start r s = (Inr (Some res), r', s') \<and>
     vr_all_recovered res \<and> \<not> needs_recovery s'"
proof -
  let ?e = "health_env True sched start"
  have can: "can_recover ?e" by (simp add: health_env_def can_recover_def)
  obtain y r1 s1 where safety: "recover_safety ?e r s = (Inr y, r1, s1)" and ok: "\<not> needs_recovery s1"
    using recover_safety_live [OF assms(1,2)] by blast
  obtain d k where sl: "recover_slice_scheduler ?e s1 = (Inr d, s1\<lparr>rv_slice_scheduler := k\<rparr>)"
    using recover_slice_scheduler_quiet [OF assms(3,4)] by blast
  have ok': "\<not> needs_recovery (s1\<lparr>rv_slice_scheduler := k\<rparr>)"
    using ok by (simp add: needs_recovery_def)
  show ?thesis
    using ok ok' by (cases y) (simp add: health_recovery_def attempt_recovery_def can safety sl)
qed

theorem recovery_succeeds_witness:
  "\<exists>res r' s'. health_recovery True (Inl (RuntimeError ''no executor'')) (Inr True) initialised_redis
       recovery_init = (Inr (Some res), r', s') \<and> vr_all_recovered res \<and> \<not> needs_recovery s'"
  by (rule recovery_succeeds [OF initialised_redis_tripped, of False])
    (simp_all add: quiet_def recovery_init_def initialised_redis_def breaker_initialize_state_def
      breaker_initialize_state_internal_def redis_present_def empty_redis_def redis_get_def redis_put_def
      ks_state_key_def breaker_state_key_def)

text \<open>
  A restart of the gateway on a flushed Redis: the kill switch's constructor writes the active state
  (the breaker's writes none), so that an engagement before the flush is forgotten and the switch is
  usable again.
\<close>

lemma restart_forgets_engagement:
  assumes "\<not> redis_present r ks_state_key"
  shows "initialize_kill_switch True kill_switch_factory r s =
     (Inr True, ks_init r, s\<lparr>rv_kill_switch := True, rv_kill_switch_unavailable := False\<rparr>)"
    and "ks_is_engaged (ks_init r) = Inr False"
  using ks_is_engaged_fresh [OF assms]
  by (simp_all add: initialize_kill_switch_def kill_switch_factory_def)

end
