(* ===== verification/Position_Pnl.thy ===== *)
theory Position_Pnl
  imports Prelude
begin

text \<open>
  Profit and loss: the position update of \<^verbatim>\<open>apps/execution_gateway/database.py\<close>, in its integer and
  its decimal version, and the calculations of \<^verbatim>\<open>services/pnl_calculator.py\<close>.  Decimal values are
  exact rationals; dates of the daily series are day numbers.
\<close>

section \<open>Position update\<close>

record position_state =
  ps_qty :: int
  ps_avg :: rat
  ps_realized :: rat

definition realized_pnl :: "string \<Rightarrow> int \<Rightarrow> rat \<Rightarrow> rat \<Rightarrow> int \<Rightarrow> rat" where
  "realized_pnl side old_qty old_avg_price fill_price qty_closed =
     (if side = ''sell'' \<and> old_qty > 0 then (fill_price - old_avg_price) * of_int qty_closed
      else if side = ''buy'' \<and> old_qty < 0 then (old_avg_price - fill_price) * of_int qty_closed
      else 0)"

definition calculate_position_update ::
  "int \<Rightarrow> rat \<Rightarrow> rat \<Rightarrow> int \<Rightarrow> rat \<Rightarrow> string \<Rightarrow> int \<times> rat \<times> rat" where
  "calculate_position_update old_qty old_avg_price old_realized_pl fill_qty fill_price side =
     (let signed_fill_qty = (if side = ''buy'' then fill_qty else - fill_qty);
          new_qty = old_qty + signed_fill_qty;
          is_adding_to_position = (old_qty > 0 \<and> side = ''buy'' \<or> old_qty < 0 \<and> side = ''sell'');
          pnl = realized_pnl side old_qty old_avg_price fill_price
      in if new_qty = 0 then (new_qty, 0, old_realized_pl + pnl \<bar>signed_fill_qty\<bar>)
         else if old_qty = 0 then (new_qty, fill_price, old_realized_pl)
         else if is_adding_to_position then
           (new_qty,
            (old_avg_price * of_int \<bar>old_qty\<bar> + fill_price * of_int \<bar>signed_fill_qty\<bar>) / of_int \<bar>new_qty\<bar>,
            old_realized_pl)
         else if old_qty * new_qty < 0 then
           (new_qty, fill_price, old_realized_pl + pnl \<bar>old_qty\<bar>)
         else (new_qty, old_avg_price, old_realized_pl + pnl \<bar>signed_fill_qty\<bar>))"

definition realized_pnl_decimal :: "string \<Rightarrow> rat \<Rightarrow> rat \<Rightarrow> rat \<Rightarrow> rat \<Rightarrow> rat" where
  "realized_pnl_decimal side old_qty old_avg_price fill_price qty_closed =
     (if side = ''sell'' \<and> old_qty > 0 then (fill_price - old_avg_price) * qty_closed
      else if side = ''buy'' \<and> old_qty < 0 then (old_avg_price - fill_price) * qty_closed
      else 0)"

definition calculate_position_update_decimal ::
  "rat \<Rightarrow> rat \<Rightarrow> rat \<Rightarrow> rat \<Rightarrow> string \<Rightarrow> rat \<times> rat \<times> rat" where
  "calculate_position_update_decimal old_qty old_avg_price fill_qty fill_price side =
     (let signed_fill_qty = (if side = ''buy'' then fill_qty else - fill_qty);
          new_qty = old_qty + signed_fill_qty;
          is_adding_to_position = (old_qty > 0 \<and> side = ''buy'' \<or> old_qty < 0 \<and> side = ''sell'');
          pnl = realized_pnl_decimal side old_qty old_avg_price fill_price
      in if new_qty = 0 then (new_qty, 0, pnl \<bar>signed_fill_qty\<bar>)
         else if old_qty = 0 then (new_qty, fill_price, 0)
         else if is_adding_to_position then
           (new_qty, (old_avg_price * \<bar>old_qty\<bar> + fill_price * \<bar>signed_fill_qty\<bar>) / \<bar>new_qty\<bar>, 0)
         else if old_qty * new_qty < 0 then (new_qty, fill_price, pnl \<bar>old_qty\<bar>)
         else (new_qty, old_avg_price, pnl \<bar>signed_fill_qty\<bar>))"

section \<open>Unrealised profit and loss\<close>

datatype price_source = RealTime | Database | Fallback

record pnl_position =
  pp_symbol :: string
  pp_qty :: int
  pp_avg_entry_price :: rat
  pp_current_price :: "rat option"

record realtime_pnl =
  rp_symbol :: string
  rp_qty :: int
  rp_avg_entry_price :: rat
  rp_current_price :: rat
  rp_price_source :: price_source
  rp_unrealized_pl :: rat
  rp_unrealized_pl_pct :: rat
  rp_last_price_update :: "rat option"

definition calculate_position_pnl ::
  "pnl_position \<Rightarrow> rat \<Rightarrow> price_source \<Rightarrow> rat option \<Rightarrow> realtime_pnl" where
  "calculate_position_pnl pos current_price price_source last_price_update =
     (let unrealized_pl = (current_price - pp_avg_entry_price pos) * of_int (pp_qty pos);
          unrealized_pl_pct =
            (if pp_avg_entry_price pos > 0 \<and> pp_qty pos \<noteq> 0
             then unrealized_pl / (pp_avg_entry_price pos * of_int \<bar>pp_qty pos\<bar>) * 100 else 0)
      in \<lparr>rp_symbol = pp_symbol pos, rp_qty = pp_qty pos, rp_avg_entry_price = pp_avg_entry_price pos,
          rp_current_price = current_price, rp_price_source = price_source,
          rp_unrealized_pl = unrealized_pl, rp_unrealized_pl_pct = unrealized_pl_pct,
          rp_last_price_update = last_price_update\<rparr>)"

definition resolve_and_calculate_pnl ::
  "pnl_position \<Rightarrow> rat option \<times> rat option \<Rightarrow> realtime_pnl \<times> bool" where
  "resolve_and_calculate_pnl pos realtime_price_data =
     (case realtime_price_data of
        (Some price, last_price_update) \<Rightarrow>
          (calculate_position_pnl pos price RealTime last_price_update, True)
      | (None, _) \<Rightarrow>
          (case pp_current_price pos of
             Some price \<Rightarrow> (calculate_position_pnl pos price Database None, False)
           | None \<Rightarrow> (calculate_position_pnl pos (pp_avg_entry_price pos) Fallback None, False)))"

section \<open>The daily series\<close>

text \<open>A database row; a trade date that is not a date and absent numbers are \<open>None\<close>.\<close>

record pnl_row =
  row_trade_date :: "int option"
  row_realized :: "rat option"
  row_count :: "int option"

record daily_pnl =
  dp_date :: int
  dp_realized_pl :: rat
  dp_cumulative_realized_pl :: rat
  dp_peak_equity :: rat
  dp_drawdown_pct :: rat
  dp_closing_trade_count :: int

definition row_dates :: "pnl_row list \<Rightarrow> int list" where
  "row_dates rows = List.map_filter row_trade_date rows"

definition rows_by_date :: "pnl_row list \<Rightarrow> (int \<times> rat \<times> int) list" where
  "rows_by_date rows =
     fold (\<lambda>r al. case row_trade_date r of
            None \<Rightarrow> al
          | Some d \<Rightarrow> AList.update d
              ((case row_realized r of Some x \<Rightarrow> x | None \<Rightarrow> 0),
               (case row_count r of Some n \<Rightarrow> n | None \<Rightarrow> 0)) al) rows []"

definition drawdown_pct :: "rat \<Rightarrow> rat \<Rightarrow> rat" where
  "drawdown_pct cumulative peak = (if peak \<noteq> 0 then (cumulative - peak) / \<bar>peak\<bar> * 100 else 0)"

function daily_loop ::
  "(int \<times> rat \<times> int) list \<Rightarrow> int \<Rightarrow> int \<Rightarrow> rat \<Rightarrow> rat option \<Rightarrow> rat \<Rightarrow> daily_pnl list \<times> rat \<times> rat" where
  "daily_loop by_date current end_date cumulative peak max_drawdown =
     (if current \<le> end_date then
        let (realized, closing_count) =
              (case map_of by_date current of Some x \<Rightarrow> x | None \<Rightarrow> (0, 0));
            cumulative' = cumulative + realized;
            peak' = (case peak of None \<Rightarrow> cumulative' | Some p \<Rightarrow> if cumulative' > p then cumulative' else p);
            drawdown = drawdown_pct cumulative' peak';
            (rest, total, dd) = daily_loop by_date (current + 1) end_date cumulative' (Some peak')
              (if drawdown < max_drawdown then drawdown else max_drawdown)
        in (\<lparr>dp_date = current, dp_realized_pl = realized, dp_cumulative_realized_pl = cumulative',
             dp_peak_equity = peak', dp_drawdown_pct = drawdown,
             dp_closing_trade_count = closing_count\<rparr> # rest, total, dd)
      else ([], cumulative, max_drawdown))"
  by pat_completeness auto

termination
  by (relation "measure (\<lambda>(by_date, current, end_date, _). nat (end_date + 1 - current))") auto

declare daily_loop.simps [simp del]

definition compute_daily_performance ::
  "pnl_row list \<Rightarrow> int \<Rightarrow> int \<Rightarrow> daily_pnl list \<times> rat \<times> rat" where
  "compute_daily_performance rows start_date end_date =
     (if rows = [] then ([], 0, 0)
      else
        let trade_dates = row_dates rows;
            start' = (if trade_dates \<noteq> [] \<and> Min (set trade_dates) < start_date
                      then Min (set trade_dates) else start_date);
            end' = (if trade_dates \<noteq> [] \<and> Max (set trade_dates) > end_date
                    then Max (set trade_dates) else end_date);
            by_date = rows_by_date rows;
            first_trade_date = (if by_date \<noteq> [] then Min (fst ` set by_date) else start')
        in daily_loop by_date (max start' first_trade_date) end' 0 None 0)"

section \<open>Position update: lemmas\<close>

definition signed_qty :: "string \<Rightarrow> int \<Rightarrow> int" where
  "signed_qty side qty = (if side = ''buy'' then qty else - qty)"

text \<open>What the account is worth at the mark price \<open>m\<close>.\<close>

definition equity :: "rat \<Rightarrow> int \<times> rat \<times> rat \<Rightarrow> rat" where
  "equity m p = (case p of (q, avg, realized) \<Rightarrow> realized + (m - avg) * of_int q)"

text \<open>The five cases of the update, with the signed quantity of the fill.\<close>

lemma update_cases:
  assumes "0 < fill_qty" "side = ''buy'' \<or> side = ''sell''"
  obtains
    (closes) "q \<noteq> 0" "signed_qty side fill_qty = - q"
      "calculate_position_update q avg rl fill_qty price side =
         (0, 0, rl + (price - avg) * of_int q)"
  | (opens) "q = 0" "signed_qty side fill_qty \<noteq> 0"
      "calculate_position_update q avg rl fill_qty price side =
         (signed_qty side fill_qty, price, rl)"
  | (adds) "0 < q * signed_qty side fill_qty"
      "calculate_position_update q avg rl fill_qty price side =
         (q + signed_qty side fill_qty,
          (avg * of_int q + price * of_int (signed_qty side fill_qty)) /
            of_int (q + signed_qty side fill_qty), rl)"
  | (flips) "q * (q + signed_qty side fill_qty) < 0"
      "calculate_position_update q avg rl fill_qty price side =
         (q + signed_qty side fill_qty, price, rl + (price - avg) * of_int q)"
  | (reduces) "0 < q * (q + signed_qty side fill_qty)" "q * signed_qty side fill_qty < 0"
      "calculate_position_update q avg rl fill_qty price side =
         (q + signed_qty side fill_qty, avg,
          rl + (avg - price) * of_int (signed_qty side fill_qty))"
proof -
  have buy: "calculate_position_update q avg rl f price ''buy'' =
      (if q + f = 0 then (0, 0, rl + (if q < 0 then (avg - price) * of_int f else 0))
       else if q = 0 then (f, price, rl)
       else if 0 < q then (q + f, (avg * of_int q + price * of_int f) / of_int (q + f), rl)
       else if 0 < q + f then (q + f, price, rl + (avg - price) * of_int (- q))
       else (q + f, avg, rl + (avg - price) * of_int f))" if "0 < f" for f q
    using that by (simp add: calculate_position_update_def realized_pnl_def Let_def mult_less_0_iff)
  have sell: "calculate_position_update q avg rl f price ''sell'' =
      (if q - f = 0 then (0, 0, rl + (if 0 < q then (price - avg) * of_int f else 0))
       else if q = 0 then (- f, price, rl)
       else if q < 0 then (q - f, (avg * of_int (- q) + price * of_int f) / of_int (f - q), rl)
       else if q - f < 0 then (q - f, price, rl + (price - avg) * of_int q)
       else (q - f, avg, rl + (price - avg) * of_int f))" if "0 < f" for f q
    using that by (simp add: calculate_position_update_def realized_pnl_def Let_def mult_less_0_iff)
  have neg: "- ((avg - price) * x) = (price - avg) * x" "(price - avg) * x = - ((avg - price) * x)" for x
    by (simp_all add: algebra_simps)
  from assms(2) show thesis
  proof
    assume side: "side = ''buy''"
    have s: "signed_qty ''buy'' f = f" for f by (simp add: signed_qty_def)
    note simps = side s
    consider "q = 0" | "fill_qty = - q" "q < 0" | "0 < q" | "q < 0" "0 < q + fill_qty"
      | "q < 0" "q + fill_qty < 0" using assms(1) by linarith
    then show thesis
    proof cases
      case 1
      with assms(1) show thesis by (intro opens) (simp_all add: simps buy)
    next
      case 2
      with assms(1) show thesis by (intro closes) (simp_all add: simps buy neg(1))
    next
      case 3
      with assms(1) show thesis by (intro adds) (simp_all add: simps buy)
    next
      case 4
      with assms(1) show thesis by (intro flips) (simp_all add: simps buy neg(1) mult_less_0_iff)
    next
      case 5
      with assms(1) show thesis
        by (intro reduces) (simp_all add: simps buy mult_less_0_iff zero_less_mult_iff)
    qed
  next
    assume side: "side = ''sell''"
    have s: "signed_qty ''sell'' f = - f" for f by (simp add: signed_qty_def)
    note simps = side s
    consider "q = 0" | "fill_qty = q" "0 < q" | "q < 0" | "0 < q" "q - fill_qty < 0"
      | "0 < q" "0 < q - fill_qty" using assms(1) by linarith
    then show thesis
    proof cases
      case 1
      with assms(1) show thesis by (intro opens) (simp_all add: simps sell)
    next
      case 2
      with assms(1) show thesis by (intro closes) (simp_all add: simps sell)
    next
      case 3
      have "(avg * of_int (- q) + price * of_int fill_qty) / of_int (fill_qty - q) =
          (avg * of_int q + price * of_int (- fill_qty)) / (of_int (q - fill_qty) :: rat)"
        using minus_divide_divide [of "avg * of_int q + price * of_int (- fill_qty)"
            "of_int (q - fill_qty) :: rat"] by simp
      with 3 assms(1) show thesis by (intro adds) (simp_all add: simps sell mult_neg_pos)
    next
      case 4
      with assms(1) show thesis by (intro flips) (simp_all add: simps sell mult_less_0_iff)
    next
      case 5
      with assms(1) show thesis
        by (intro reduces) (simp_all add: simps sell neg(2) mult_less_0_iff zero_less_mult_iff)
    qed
  qed
qed

lemma update_equity:
  assumes "0 < fill_qty" "side = ''buy'' \<or> side = ''sell''"
  shows "equity m (calculate_position_update q avg rl fill_qty price side) =
    equity m (q, avg, rl) + (m - price) * of_int (signed_qty side fill_qty)"
  using assms
proof (cases rule: update_cases [of fill_qty side q avg rl price])
  case adds
  let ?s = "signed_qty side fill_qty"
  let ?S = "of_int (q + ?s) :: rat"
  let ?X = "avg * of_int q + price * of_int ?s"
  have "?S \<noteq> 0" using adds(1) by (auto simp: zero_less_mult_iff simp del: of_int_add)
  then obtain D where D: "?X / ?S = D" "D * ?S = ?X" by simp
  show ?thesis unfolding adds(2) equity_def D(1) using D(2) by (simp add: algebra_simps)
qed (simp_all add: equity_def algebra_simps)

section \<open>Runs of fills\<close>

record fill =
  fl_qty :: int
  fl_price :: rat
  fl_side :: string

definition fill_ok :: "fill \<Rightarrow> bool" where
  "fill_ok f \<longleftrightarrow> 0 < fl_qty f \<and> (fl_side f = ''buy'' \<or> fl_side f = ''sell'') \<and> 0 < fl_price f"

definition apply_fill :: "fill \<Rightarrow> int \<times> rat \<times> rat \<Rightarrow> int \<times> rat \<times> rat" where
  "apply_fill f p = (case p of (q, avg, rl) \<Rightarrow>
     calculate_position_update q avg rl (fl_qty f) (fl_price f) (fl_side f))"

definition signed_fill :: "fill \<Rightarrow> int" where
  "signed_fill f = signed_qty (fl_side f) (fl_qty f)"

text \<open>The cash a run of fills brings in: sales minus purchases.\<close>

definition cash_of :: "fill list \<Rightarrow> rat" where
  "cash_of fs = - sum_list (map (\<lambda>f. fl_price f * of_int (signed_fill f)) fs)"

lemma apply_fill_qty: "fst (apply_fill f p) = fst p + signed_fill f"
  by (cases p) (simp add: apply_fill_def calculate_position_update_def signed_fill_def signed_qty_def Let_def)

lemma apply_fills_qty: "fst (fold apply_fill fs p) = fst p + sum_list (map signed_fill fs)"
  by (induction fs arbitrary: p) (simp_all add: apply_fill_qty)

lemma apply_fill_equity:
  "fill_ok f \<Longrightarrow> equity m (apply_fill f p) = equity m p + (m - fl_price f) * of_int (signed_fill f)"
  by (cases p) (simp add: apply_fill_def fill_ok_def update_equity signed_fill_def)

lemma apply_fills_equity:
  "list_all fill_ok fs \<Longrightarrow>
   equity m (fold apply_fill fs p) = equity m p + m * of_int (sum_list (map signed_fill fs)) + cash_of fs"
  by (induction fs arbitrary: p) (simp_all add: apply_fill_equity cash_of_def algebra_simps)

text \<open>A position has an entry price exactly when it is open.\<close>

definition position_wf :: "int \<times> rat \<times> rat \<Rightarrow> bool" where
  "position_wf p = (case p of (q, avg, rl) \<Rightarrow> if q = 0 then avg = 0 else 0 < avg)"

lemma apply_fill_wf:
  assumes "fill_ok f" "position_wf p"
  shows "position_wf (apply_fill f p)"
proof -
  obtain q avg rl where p: "p = (q, avg, rl)" by (cases p)
  have f: "0 < fl_qty f" "fl_side f = ''buy'' \<or> fl_side f = ''sell''" "0 < fl_price f"
    using assms(1) by (auto simp: fill_ok_def)
  show ?thesis
    using f(1,2)
  proof (cases rule: update_cases [of "fl_qty f" "fl_side f" q avg rl "fl_price f"])
    case adds
    let ?s = "signed_qty (fl_side f) (fl_qty f)"
    have avg: "0 < avg" using assms(2) adds(1) by (auto simp: p position_wf_def split: if_splits)
    have "0 < (avg * of_int q + fl_price f * of_int ?s) / of_int (q + ?s)"
    proof (cases "0 < q")
      case True
      with adds(1) have "0 < ?s" by (simp add: zero_less_mult_iff)
      with True avg f(3) show ?thesis by (simp add: add_pos_pos)
    next
      case False
      with adds(1) have neg: "q < 0" "?s < 0" by (auto simp: zero_less_mult_iff)
      then have "avg * of_int q < 0" "fl_price f * of_int ?s < 0"
        using avg f(3) by (simp_all add: mult_pos_neg)
      with neg show ?thesis by (intro divide_neg_neg) (simp_all add: add_neg_neg)
    qed
    moreover have "q + ?s \<noteq> 0" using adds(1) by (auto simp: zero_less_mult_iff)
    ultimately show ?thesis by (simp add: p apply_fill_def adds(2) position_wf_def)
  qed (use assms(2) f(3) in \<open>auto simp: p apply_fill_def position_wf_def split: if_splits\<close>)
qed

section \<open>Properties\<close>

text \<open>C9. A fill neither creates nor destroys value: whatever the mark price, the equity of the position
  (realised profit plus open quantity against its average price) changes by the filled quantity at
  the mark price minus what it cost, in every case of the update: opening, adding, reducing,
  closing and crossing through flat.\<close>

theorem position_update_conserves_equity:
  assumes "0 < fill_qty" "side = ''buy'' \<or> side = ''sell''"
  shows "case calculate_position_update q avg rl fill_qty price side of (q', avg', rl') \<Rightarrow>
     q' = q + signed_qty side fill_qty \<and>
     rl' + (m - avg') * of_int q' =
       rl + (m - avg) * of_int q + (m - price) * of_int (signed_qty side fill_qty)"
proof -
  have "fst (calculate_position_update q avg rl fill_qty price side) = q + signed_qty side fill_qty"
    by (simp add: calculate_position_update_def signed_qty_def Let_def)
  with update_equity [OF assms, of m q avg rl price] show ?thesis
    by (simp add: equity_def split: prod.splits)
qed

theorem position_update_conserves_equity_witness:
  "case calculate_position_update 50 100 0 100 120 ''sell'' of (q', avg', rl') \<Rightarrow>
     q' = - 50 \<and> rl' + (130 - avg') * of_int q' = 500"
  using position_update_conserves_equity [where fill_qty = 100 and side = "''sell''" and q = 50
      and avg = 100 and rl = 0 and price = 120 and m = 130]
  by (simp add: signed_qty_def)

text \<open>Over any run of fills that ends flat, starting flat, the realised profit has grown by exactly
  the cash the fills brought in, the entry price is reset, and the quantity is the sum of the
  signed fills throughout.\<close>

theorem flat_to_flat_realizes_cash:
  assumes "list_all fill_ok fs" "fold apply_fill fs (0, 0, rl) = (0, avg, rl')"
  shows "rl' = rl + cash_of fs \<and> avg = 0 \<and> sum_list (map signed_fill fs) = 0"
proof -
  have qty: "sum_list (map signed_fill fs) = 0"
    using apply_fills_qty [of fs "(0, 0, rl)"] assms(2) by simp
  have "position_wf (fold apply_fill fs p)" if "position_wf p" for p
    using assms(1) that by (induction fs arbitrary: p) (simp_all add: apply_fill_wf)
  from this [of "(0, 0, rl)"] have "avg = 0" by (simp add: assms(2) position_wf_def)
  with apply_fills_equity [OF assms(1), of 0 "(0, 0, rl)"] qty assms(2) show ?thesis
    by (simp add: equity_def)
qed

theorem flat_to_flat_realizes_cash_witness:
  "cash_of [\<lparr>fl_qty = 100, fl_price = 10, fl_side = ''buy''\<rparr>, \<lparr>fl_qty = 150, fl_price = 12, fl_side = ''sell''\<rparr>,
            \<lparr>fl_qty = 50, fl_price = 11, fl_side = ''buy''\<rparr>] = 250"
proof -
  let ?fs = "[\<lparr>fl_qty = 100, fl_price = 10, fl_side = ''buy''\<rparr>, \<lparr>fl_qty = 150, fl_price = 12, fl_side = ''sell''\<rparr>,
            \<lparr>fl_qty = 50, fl_price = 11, fl_side = ''buy''\<rparr>]"
  have "fold apply_fill ?fs (0, 0, 0) = (0, 0, 250)"
    by (simp add: apply_fill_def calculate_position_update_def realized_pnl_def Let_def)
  from flat_to_flat_realizes_cash [OF _ this] show ?thesis by (simp add: fill_ok_def)
qed

text \<open>The decimal version used to rebuild trades agrees with the integer version used on live fills:
  same quantity and average price, and the realised profit it reports is the change of the other.\<close>

theorem decimal_update_agrees:
  "calculate_position_update_decimal (of_int q) avg (of_int fill_qty) price side =
     (case calculate_position_update q avg rl fill_qty price side of
        (q', avg', rl') \<Rightarrow> (of_int q', avg', rl' - rl))"
proof -
  have zero: "(of_int a + of_int b = (0 :: rat)) = (a + b = 0)" "(of_int a - of_int b = (0 :: rat)) = (a = b)"
    and less: "(of_int a * (of_int a + of_int b) < (0 :: rat)) = (a * (a + b) < 0)"
      "(of_int a * (of_int a - of_int b) < (0 :: rat)) = (a * (a - b) < 0)" for a b :: int
    by (simp_all flip: of_int_add of_int_mult of_int_diff)
  show ?thesis
    by (simp add: calculate_position_update_decimal_def calculate_position_update_def
        realized_pnl_decimal_def realized_pnl_def Let_def zero less)
qed

section \<open>The daily series: lemmas\<close>

definition day_realized :: "(int \<times> rat \<times> int) list \<Rightarrow> int \<Rightarrow> rat" where
  "day_realized by_date d = (case map_of by_date d of Some x \<Rightarrow> fst x | None \<Rightarrow> 0)"

lemma daily_loop_empty: "end_date < current \<Longrightarrow>
    daily_loop by_date current end_date cumulative peak md = ([], cumulative, md)"
  by (simp add: daily_loop.simps)

lemma drawdown_nonpos: "c \<le> p \<Longrightarrow> drawdown_pct c p \<le> 0"
  by (simp add: drawdown_pct_def divide_le_0_iff)

lemma daily_loop_spec:
  assumes "daily_loop by_date current end_date cumulative peak md = (ds, tot, dd)"
  shows "map dp_date ds = [current..end_date] \<and>
    map dp_realized_pl ds = map (day_realized by_date) [current..end_date] \<and>
    tot = cumulative + sum_list (map dp_realized_pl ds) \<and>
    dd = fold min (map dp_drawdown_pct ds) md \<and>
    (\<forall>d \<in> set ds. dp_cumulative_realized_pl d \<le> dp_peak_equity d \<and> dp_drawdown_pct d \<le> 0 \<and>
       dp_drawdown_pct d = drawdown_pct (dp_cumulative_realized_pl d) (dp_peak_equity d))"
  using assms
proof (induction by_date current end_date cumulative peak md arbitrary: ds tot dd
    rule: daily_loop.induct)
  case (1 by_date current end_date cumulative peak md)
  show ?case
  proof (cases "current \<le> end_date")
    case False
    with "1.prems" show ?thesis by (simp add: daily_loop_empty)
  next
    case True
    obtain realized count where day: "(case map_of by_date current of Some x \<Rightarrow> x | None \<Rightarrow> (0, 0)) = (realized, count)"
      by (cases "case map_of by_date current of Some x \<Rightarrow> x | None \<Rightarrow> (0, 0)")
    let ?c = "cumulative + realized"
    let ?p = "case peak of None \<Rightarrow> ?c | Some p \<Rightarrow> if ?c > p then ?c else p"
    let ?d = "drawdown_pct ?c ?p"
    obtain rest tot' dd' where rec: "daily_loop by_date (current + 1) end_date ?c (Some ?p)
        (if ?d < md then ?d else md) = (rest, tot', dd')"
      by (cases "daily_loop by_date (current + 1) end_date ?c (Some ?p) (if ?d < md then ?d else md)") auto
    have ds: "ds = \<lparr>dp_date = current, dp_realized_pl = realized, dp_cumulative_realized_pl = ?c,
             dp_peak_equity = ?p, dp_drawdown_pct = ?d, dp_closing_trade_count = count\<rparr> # rest"
      "tot = tot'" "dd = dd'"
      using "1.prems" True day rec
      by (simp_all add: daily_loop.simps [of by_date current] Let_def)
    note IH = "1.IH" [OF True day [symmetric] refl refl refl refl rec]
    obtain p where p: "?p = p" by simp
    have cp: "?c \<le> p" unfolding p [symmetric] by (auto split: option.split)
    have min: "(if drawdown_pct ?c p < md then drawdown_pct ?c p else md) = min (drawdown_pct ?c p) md"
      by simp
    have "day_realized by_date current = realized"
      using day by (auto simp: day_realized_def split: option.splits)
    then show ?thesis
      using IH True cp drawdown_nonpos [OF cp] unfolding ds p min
      by (elim conjE) (simp only: list.map list.set fold_simps upto_rec1 daily_pnl.simps sum_list.Cons
          ball_simps(7) add.assoc simp_thms)
  qed
qed

lemma fold_min_lower: "fold min xs (a :: rat) \<le> a \<and> (\<forall>x \<in> set xs. fold min xs a \<le> x)"
proof (induction xs arbitrary: a)
  case Nil
  then show ?case by simp
next
  case (Cons x xs)
  from Cons [of "min x a"] show ?case by auto
qed

lemma fold_min_in: "fold min xs (a :: rat) = a \<or> fold min xs a \<in> set xs"
proof (induction xs arbitrary: a)
  case Nil
  then show ?case by simp
next
  case (Cons x xs)
  from Cons [of "min x a"] show ?case by (auto simp: min_def split: if_splits)
qed

text \<open>Summing a table over a range that holds all its dates gives the sum of the table.\<close>

lemma sum_day_realized:
  assumes "distinct (map fst al)" "\<forall>k \<in> fst ` set al. a \<le> k \<and> k \<le> b"
  shows "sum_list (map (day_realized al) [a..b]) = sum_list (map (fst \<circ> snd) al)"
proof -
  have "sum_list (map (day_realized al) [a..b]) = (\<Sum>d \<in> {a..b}. day_realized al d)"
    by (simp add: sum_list_distinct_conv_sum_set)
  also have "\<dots> = (\<Sum>d \<in> fst ` set al. day_realized al d)"
    using assms(2)
    by (intro sum.mono_neutral_right) (auto simp: day_realized_def map_of_eq_None_iff [THEN iffD2])
  also have "\<dots> = sum_list (map (day_realized al \<circ> fst) al)"
    using sum_list_distinct_conv_sum_set [OF assms(1), of "day_realized al"] by simp
  also have "map (day_realized al \<circ> fst) al = map (fst \<circ> snd) al"
    using assms(1) by (auto simp: day_realized_def)
  finally show ?thesis .
qed

definition row_amount :: "pnl_row \<Rightarrow> rat" where
  "row_amount r = (case row_realized r of Some x \<Rightarrow> x | None \<Rightarrow> 0)"

definition row_entry :: "pnl_row \<Rightarrow> rat \<times> int" where
  "row_entry r = (row_amount r, case row_count r of Some n \<Rightarrow> n | None \<Rightarrow> 0)"

lemma update_fresh: "k \<notin> fst ` set al \<Longrightarrow> AList.update k v al = al @ [(k, v)]"
  by (induction al) auto

lemma rows_fold:
  assumes "distinct (map fst al @ row_dates rows)"
  shows "fold (\<lambda>r al. case row_trade_date r of None \<Rightarrow> al | Some d \<Rightarrow> AList.update d (row_entry r) al) rows al =
    al @ List.map_filter (\<lambda>r. map_option (\<lambda>d. (d, row_entry r)) (row_trade_date r)) rows"
  using assms
proof (induction rows arbitrary: al)
  case Nil
  then show ?case by (simp add: List.map_filter_def)
next
  case (Cons r rows)
  show ?case
  proof (cases "row_trade_date r")
    case None
    with Cons show ?thesis by (simp add: row_dates_def List.map_filter_def)
  next
    case (Some d)
    with Cons.prems have "d \<notin> fst ` set al" by (auto simp: row_dates_def List.map_filter_def)
    then have "AList.update d (row_entry r) al = al @ [(d, row_entry r)]" by (rule update_fresh)
    moreover have "distinct (map fst (al @ [(d, row_entry r)]) @ row_dates rows)"
      using Cons.prems Some by (auto simp: row_dates_def List.map_filter_def)
    ultimately show ?thesis
      using Cons.IH [of "al @ [(d, row_entry r)]"] Some by (simp add: List.map_filter_def)
  qed
qed

lemma rows_by_date_eq:
  assumes "distinct (row_dates rows)"
  shows "rows_by_date rows =
    List.map_filter (\<lambda>r. map_option (\<lambda>d. (d, row_entry r)) (row_trade_date r)) rows"
proof -
  have "rows_by_date rows = fold (\<lambda>r al. case row_trade_date r of None \<Rightarrow> al
      | Some d \<Rightarrow> AList.update d (row_entry r) al) rows []"
    by (simp only: rows_by_date_def row_entry_def row_amount_def)
  with rows_fold [of "[]" rows] assms show ?thesis by simp
qed

lemma rows_by_date_facts:
  assumes "distinct (row_dates rows)"
  shows "map fst (rows_by_date rows) = row_dates rows"
    and "map (fst \<circ> snd) (rows_by_date rows) =
      map row_amount (filter (\<lambda>r. row_trade_date r \<noteq> None) rows)"
  unfolding rows_by_date_eq [OF assms] row_dates_def
  by (induction rows) (auto simp: List.map_filter_def row_entry_def)

text \<open>The daily series of a period: one entry for every day without gaps, starting at the first
  trading day; the total is the sum of all rows; the cumulative value never exceeds the peak beside
  it, no drawdown is positive, and the reported maximum is the lowest drawdown of the series.\<close>

theorem daily_performance_series:
  assumes "compute_daily_performance rows start_date end_date = (daily, tot, max_drawdown)"
    and "distinct (row_dates rows)" "row_dates rows \<noteq> []"
  shows "(\<exists>first last. map dp_date daily = [first..last] \<and> first \<in> set (row_dates rows)) \<and>
     tot = sum_list (map row_amount (filter (\<lambda>r. row_trade_date r \<noteq> None) rows)) \<and>
     tot = sum_list (map dp_realized_pl daily) \<and>
     (\<forall>d \<in> set daily. dp_cumulative_realized_pl d \<le> dp_peak_equity d \<and>
        dp_drawdown_pct d \<le> 0 \<and> max_drawdown \<le> dp_drawdown_pct d) \<and>
     (max_drawdown = 0 \<or> max_drawdown \<in> dp_drawdown_pct ` set daily)"
proof -
  have rows: "rows \<noteq> []" using assms(3) by (auto simp: row_dates_def List.map_filter_def)
  note facts = rows_by_date_facts [OF assms(2)]
  let ?al = "rows_by_date rows"
  let ?ds = "set (row_dates rows)"
  have keys: "fst ` set ?al = ?ds" using facts(1) by (metis list.set_map)
  have ne: "?al \<noteq> []" using facts(1) assms(3) by auto
  let ?s = "if Min ?ds < start_date then Min ?ds else start_date"
  let ?e = "if Max ?ds > end_date then Max ?ds else end_date"
  have fin: "finite ?ds" "?ds \<noteq> {}" using assms(3) by auto
  have start: "max ?s (Min ?ds) = Min ?ds"
    by auto
  have run: "daily_loop ?al (Min ?ds) ?e 0 None 0 = (daily, tot, max_drawdown)"
    using assms(1,3) rows ne start by (simp add: compute_daily_performance_def keys Let_def)
  note spec = daily_loop_spec [OF run]
  have "sum_list (map (day_realized ?al) [Min ?ds..?e]) = sum_list (map (fst \<circ> snd) ?al)"
  proof (rule sum_day_realized)
    show "distinct (map fst ?al)" using facts(1) assms(2) by simp
    show "\<forall>k \<in> fst ` set ?al. Min ?ds \<le> k \<and> k \<le> ?e"
      unfolding keys
    proof
      fix k assume "k \<in> ?ds"
      then have "Min ?ds \<le> k" "k \<le> Max ?ds" using fin(1) by (rule Min_le [rotated], intro Max_ge)
      then show "Min ?ds \<le> k \<and> k \<le> ?e" by simp
    qed
  qed
  then have total: "tot = sum_list (map row_amount (filter (\<lambda>r. row_trade_date r \<noteq> None) rows))"
    using spec facts(2) by simp
  have "Min ?ds \<in> ?ds" using fin by simp
  moreover have "max_drawdown \<le> dp_drawdown_pct d" if "d \<in> set daily" for d
    using fold_min_lower [of "map dp_drawdown_pct daily" 0] spec that by simp
  moreover have "max_drawdown = 0 \<or> max_drawdown \<in> dp_drawdown_pct ` set daily"
    using fold_min_in [of "map dp_drawdown_pct daily" 0] spec by simp
  moreover have "tot = sum_list (map dp_realized_pl daily)" using spec by simp
  moreover have "map dp_date daily = [Min ?ds..?e]" using spec by simp
  ultimately show ?thesis using total spec by blast
qed

theorem daily_performance_series_witness:
  "\<exists>daily dd. compute_daily_performance
     [\<lparr>row_trade_date = Some 1, row_realized = Some 100, row_count = Some 2\<rparr>,
      \<lparr>row_trade_date = Some 3, row_realized = Some (- 50), row_count = Some 1\<rparr>] 1 3 = (daily, 50, dd)"
proof -
  let ?rows = "[\<lparr>row_trade_date = Some 1, row_realized = Some 100, row_count = Some 2\<rparr>,
      \<lparr>row_trade_date = Some 3, row_realized = Some (- 50), row_count = Some 1\<rparr>]"
  obtain daily tot dd where run: "compute_daily_performance ?rows 1 3 = (daily, tot, dd)"
    by (cases "compute_daily_performance ?rows 1 3") auto
  with daily_performance_series [OF run] show ?thesis
    by (simp add: row_dates_def List.map_filter_def row_amount_def)
qed

end
