(* ===== verification/Order_Db.thy ===== *)
theory Order_Db
  imports Position_Pnl "HOL-Library.List_Lexorder" "HOL-Library.Char_ord" "HOL-Library.Product_Lexorder"
begin

text \<open>
  The database client of \<^verbatim>\<open>apps/execution_gateway/database.py\<close>: the tables of orders, positions and
  trades as one state, and the SQL statements of the client as functions of it.  A WHERE clause is
  evaluated in SQL's three-valued logic (\<open>None\<close> is NULL) and a row is touched only when it is
  true.  \<open>NOW()\<close> is an argument; a statement that fails inside a transaction leaves the state as
  it was.  Of the constraints the tables declare, the primary keys and those an update can break
  are modelled: the sign of an order's filled quantity and price here, of a position's prices in
  \<^verbatim>\<open>Order_Fills\<close>.
\<close>

section \<open>Statuses\<close>

definition TERMINAL_STATUSES :: "string list" where
  "TERMINAL_STATUSES =
     [''filled'', ''canceled'', ''expired'', ''failed'', ''rejected'', ''replaced'', ''done_for_day'',
      ''blocked_kill_switch'', ''blocked_circuit_breaker'']"

definition STATUS_RANKS :: "(string \<times> int) list" where
  "STATUS_RANKS =
     [(''pending_new'', 1), (''dry_run'', 1),
      (''submitted'', 2), (''submitted_unconfirmed'', 2), (''new'', 2), (''accepted'', 2),
      (''pending_cancel'', 3), (''pending_replace'', 3), (''calculated'', 3), (''stopped'', 3),
      (''suspended'', 3), (''partially_filled'', 3),
      (''canceled'', 4), (''expired'', 4), (''failed'', 4), (''rejected'', 4), (''replaced'', 4),
      (''done_for_day'', 4), (''blocked_kill_switch'', 4), (''blocked_circuit_breaker'', 4),
      (''filled'', 5)]"

definition status_rank_for :: "string \<Rightarrow> int" where
  "status_rank_for status = (case map_of STATUS_RANKS status of Some r \<Rightarrow> r | None \<Rightarrow> 0)"

definition ORDER_STATUSES :: "string list" where
  "ORDER_STATUSES =
     [''pending_new'', ''new'', ''accepted'', ''partially_filled'', ''filled'', ''canceled'',
      ''rejected'', ''expired'', ''replaced'', ''done_for_day'', ''stopped'', ''suspended'',
      ''pending_cancel'', ''pending_replace'', ''calculated'', ''submitted'',
      ''submitted_unconfirmed'', ''dry_run'', ''failed'', ''scheduled'', ''blocked_kill_switch'',
      ''blocked_circuit_breaker'']"

section \<open>Rows\<close>

text \<open>
  A fill of an order's metadata.  An absent \<open>fill_id\<close> is the empty text; quantity and price are
  \<open>None\<close> when their text is not a number, the timestamp when it is absent or not a date.
\<close>

record order_fill =
  f_id :: string
  f_qty :: "rat option"
  f_price :: "rat option"
  f_realized_pl :: rat
  f_timestamp :: "rat option"
  f_synthetic :: bool
  f_superseded :: bool
  f_source :: "string option"

record order_row =
  o_client_order_id :: string
  o_strategy_id :: string
  o_symbol :: string
  o_side :: string
  o_qty :: int
  o_order_type :: string
  o_limit_price :: "rat option"
  o_stop_price :: "rat option"
  o_time_in_force :: string
  o_execution_style :: "string option"
  o_status :: string
  o_broker_order_id :: "string option"
  o_error_message :: "string option"
  o_submitted_at :: "rat option"
  o_created_at :: rat
  o_updated_at :: rat
  o_filled_at :: "rat option"
  o_filled_qty :: rat
  o_filled_avg_price :: "rat option"
  o_last_updated_at :: "rat option"
  o_status_rank :: "int option"
  o_source_priority :: int
  o_broker_event_id :: "string option"
  o_is_terminal :: bool
  o_parent_order_id :: "string option"
  o_replaced_order_id :: "string option"
  o_slice_num :: "int option"
  o_total_slices :: "int option"
  o_scheduled_time :: "rat option"
  o_fills :: "order_fill list"
  o_total_realized_pl :: rat

record position_row =
  p_qty :: rat
  p_avg_entry_price :: rat
  p_current_price :: "rat option"
  p_realized_pl :: rat
  p_updated_at :: rat
  p_last_trade_at :: "rat option"

record trade_row =
  t_trade_id :: string
  t_client_order_id :: string
  t_broker_order_id :: "string option"
  t_strategy_id :: string
  t_symbol :: string
  t_side :: string
  t_qty :: rat
  t_price :: rat
  t_executed_at :: rat
  t_realized_pnl :: rat
  t_source :: "string option"
  t_synthetic :: bool
  t_superseded :: bool

record orphan_row =
  orp_client_order_id :: "string option"
  orp_symbol :: string
  orp_strategy_id :: string
  orp_side :: string
  orp_qty :: int
  orp_estimated_notional :: rat
  orp_status :: string
  orp_resolved_at :: "rat option"

text \<open>
  A modification of an order.  A recorded change is a pair of the old and the new value; only the
  new value is kept here, \<open>None\<close> where the field is not changed.
\<close>

record mod_changes =
  mc_qty :: "int option"
  mc_limit_price :: "rat option option"
  mc_stop_price :: "rat option option"
  mc_time_in_force :: "string option"

record modification_row =
  md_id :: string
  md_original_broker_order_id :: "string option"
  md_modification_seq :: int
  md_idempotency_key :: string
  md_modified_by :: string
  md_reason :: "string option"
  md_original_client_order_id :: string
  md_new_client_order_id :: string
  md_new_broker_order_id :: "string option"
  md_status :: string
  md_error_message :: "string option"
  md_modified_at :: rat
  md_changes :: mod_changes

record db =
  db_orders :: "(string \<times> order_row) list"
  db_positions :: "(string \<times> position_row) list"
  db_trades :: "trade_row list"
  db_orphans :: "(string \<times> orphan_row) list"
  db_high_water :: "(string \<times> rat) list"
  db_modifications :: "modification_row list"

text \<open>\<open>SELECT * FROM orders WHERE client_order_id = \<dots>\<close> and the row's replacement.\<close>

definition db_order :: "db \<Rightarrow> string \<Rightarrow> order_row option" where
  "db_order d cid = map_of (db_orders d) cid"

definition db_set_order :: "string \<Rightarrow> order_row \<Rightarrow> db \<Rightarrow> db" where
  "db_set_order cid row d = d\<lparr>db_orders := AList.update cid row (db_orders d)\<rparr>"

definition db_position :: "db \<Rightarrow> string \<Rightarrow> position_row option" where
  "db_position d s = map_of (db_positions d) s"

definition db_set_position :: "string \<Rightarrow> position_row \<Rightarrow> db \<Rightarrow> db" where
  "db_set_position s row d = d\<lparr>db_positions := AList.update s row (db_positions d)\<rparr>"

interpretation ord: key_value db_order db_set_order
  by unfold_locales (auto simp: db_order_def db_set_order_def al.get_put)

interpretation pos: key_value db_position db_set_position
  by unfold_locales (auto simp: db_position_def db_set_position_def al.get_put)

lemma db_order_simps [simp]:
  "db_order (db_set_order c r d) c' = (if c' = c then Some r else db_order d c')"
  "db_order (db_set_position s p d) c' = db_order d c'"
  "db_order (d\<lparr>db_trades := ts\<rparr>) c' = db_order d c'"
  by (rule ord.get_put) (simp_all add: db_order_def db_set_position_def)

lemma db_position_simps [simp]:
  "db_position (db_set_position s p d) s' = (if s' = s then Some p else db_position d s')"
  "db_position (db_set_order c r d) s' = db_position d s'"
  "db_position (d\<lparr>db_trades := ts\<rparr>) s' = db_position d s'"
  by (rule pos.get_put) (simp_all add: db_position_def db_set_order_def)

lemma db_trades_simps [simp]:
  "db_trades (db_set_order c r d) = db_trades d"
  "db_trades (db_set_position s p d) = db_trades d"
  by (simp_all add: db_set_order_def db_set_position_def)

text \<open>
  \<open>OrderDetail(**row)\<close>: the schema's literal type of the status is checked; the other columns have
  been checked when the order was created.
\<close>

definition order_detail :: "order_row \<Rightarrow> order_row result" where
  "order_detail row =
     (if o_status row \<in> set ORDER_STATUSES then Inr row
      else Inl (ValueError ''1 validation error for OrderDetail''))"

section \<open>Three-valued logic\<close>

definition and3 :: "bool option \<Rightarrow> bool option \<Rightarrow> bool option" where
  "and3 a b =
     (if a = Some False \<or> b = Some False then Some False
      else if a = None \<or> b = None then None else Some True)"

definition or3 :: "bool option \<Rightarrow> bool option \<Rightarrow> bool option" where
  "or3 a b =
     (if a = Some True \<or> b = Some True then Some True
      else if a = None \<or> b = None then None else Some False)"

definition cmp3 :: "('a \<Rightarrow> 'b \<Rightarrow> bool) \<Rightarrow> 'a option \<Rightarrow> 'b \<Rightarrow> bool option" where
  "cmp3 f a b = (case a of None \<Rightarrow> None | Some x \<Rightarrow> Some (f x b))"

lemma and3_true [simp]: "and3 a b = Some True \<longleftrightarrow> a = Some True \<and> b = Some True"
  by (auto simp: and3_def)

lemma or3_true [simp]: "or3 a b = Some True \<longleftrightarrow> a = Some True \<or> b = Some True"
  by (auto simp: or3_def)

lemma cmp3_true [simp]: "cmp3 f a b = Some True \<longleftrightarrow> (\<exists>x. a = Some x \<and> f x b)"
  by (auto simp: cmp3_def split: option.splits)

definition coalesce :: "'a option \<Rightarrow> 'a option \<Rightarrow> 'a option" where
  "coalesce a b = (case a of Some x \<Rightarrow> Some x | None \<Rightarrow> b)"

text \<open>\<open>UPDATE orders SET \<dots> WHERE client_order_id = cid AND c RETURNING *\<close>.\<close>

definition update_order_where ::
  "string \<Rightarrow> (order_row \<Rightarrow> bool option) \<Rightarrow> (order_row \<Rightarrow> order_row) \<Rightarrow> db \<Rightarrow> order_row option \<times> db" where
  "update_order_where cid c f d =
     (case db_order d cid of
        None \<Rightarrow> (None, d)
      | Some row \<Rightarrow> if c row = Some True then (Some (f row), db_set_order cid (f row) d) else (None, d))"

section \<open>Creating and reading orders\<close>

record db_order_request =
  q_symbol :: string
  q_side :: string
  q_qty :: int
  q_order_type :: string
  q_limit_price :: "rat option"
  q_stop_price :: "rat option"
  q_time_in_force :: string

definition create_order ::
  "rat \<Rightarrow> string \<Rightarrow> string \<Rightarrow> db_order_request \<Rightarrow> string \<Rightarrow> string option \<Rightarrow> string option \<Rightarrow> db \<Rightarrow>
   order_row result \<times> db" where
  "create_order now cid strategy_id q status broker_order_id error_message d =
     (case db_order d cid of
        Some _ \<Rightarrow> (Inl (IntegrityError cid), d)
      | None \<Rightarrow>
          let row = \<lparr>o_client_order_id = cid, o_strategy_id = strategy_id, o_symbol = q_symbol q,
                o_side = q_side q, o_qty = q_qty q, o_order_type = q_order_type q,
                o_limit_price = q_limit_price q, o_stop_price = q_stop_price q,
                o_time_in_force = q_time_in_force q,
                o_execution_style = Some ''instant'', o_status = status,
                o_broker_order_id = broker_order_id, o_error_message = error_message,
                o_submitted_at = (if status \<noteq> ''dry_run'' then Some now else None),
                o_created_at = now, o_updated_at = now, o_filled_at = None, o_filled_qty = 0,
                o_filled_avg_price = None, o_last_updated_at = None, o_status_rank = None,
                o_source_priority = 2, o_broker_event_id = None, o_is_terminal = False,
                o_parent_order_id = None, o_replaced_order_id = None, o_slice_num = None,
                o_total_slices = None, o_scheduled_time = None, o_fills = [], o_total_realized_pl = 0\<rparr>
          in (order_detail row, db_set_order cid row d))"

definition get_order_by_client_id :: "string \<Rightarrow> db \<Rightarrow> order_row option result" where
  "get_order_by_client_id cid d =
     (case db_order d cid of None \<Rightarrow> Inr None | Some row \<Rightarrow> rbind (order_detail row) (\<lambda>r. Inr (Some r)))"

text \<open>The row lock of \<open>FOR UPDATE\<close> serialises the transactions; it does not change what is read.\<close>

definition get_order_for_update :: "string \<Rightarrow> db \<Rightarrow> order_row option result" where
  "get_order_for_update cid d =
     (case db_order d cid of None \<Rightarrow> Inr None | Some row \<Rightarrow> rbind (order_detail row) (\<lambda>r. Inr (Some r)))"

definition get_non_terminal_orders :: "rat option \<Rightarrow> db \<Rightarrow> order_row list" where
  "get_non_terminal_orders created_before d =
     sort_key o_created_at
       (filter (\<lambda>r. \<not> o_is_terminal r \<and>
                    (case created_before of None \<Rightarrow> True | Some t \<Rightarrow> o_created_at r \<le> t))
          (map snd (db_orders d)))"

definition cancel_pending_slices :: "rat \<Rightarrow> string \<Rightarrow> db \<Rightarrow> nat \<times> db" where
  "cancel_pending_slices now parent d =
     (let hit = (\<lambda>r. o_parent_order_id r = Some parent \<and> o_status r = ''pending_new'') in
      (length (filter (hit \<circ> snd) (db_orders d)),
       d\<lparr>db_orders := map (\<lambda>(c, r). (c, if hit r
            then r\<lparr>o_status := ''canceled'', o_updated_at := now\<rparr> else r)) (db_orders d)\<rparr>))"

definition count_non_terminal_children :: "string \<Rightarrow> db \<Rightarrow> nat" where
  "count_non_terminal_children parent d =
     length (filter (\<lambda>r. o_parent_order_id r = Some parent \<and> \<not> o_is_terminal r) (map snd (db_orders d)))"

section \<open>Orphan orders and high-water marks\<close>

text \<open>A \<open>DECIMAL(18, 2)\<close> column rounds halves away from zero.\<close>

definition round_cents :: "rat \<Rightarrow> rat" where
  "round_cents x =
     (let c = of_int \<lfloor>\<bar>x\<bar> * 100 + 1 / 2\<rfloor> / 100 in if x < 0 then - c else c)"

definition create_orphan_order ::
  "string \<Rightarrow> string option \<Rightarrow> string \<Rightarrow> string \<Rightarrow> string \<Rightarrow> int \<Rightarrow> rat \<Rightarrow> string \<Rightarrow> db \<Rightarrow> db" where
  "create_orphan_order bid cid symbol strategy_id side qty notional status d =
     (case map_of (db_orphans d) bid of
        Some _ \<Rightarrow> d
      | None \<Rightarrow> d\<lparr>db_orphans := AList.update bid
          \<lparr>orp_client_order_id = cid, orp_symbol = symbol, orp_strategy_id = strategy_id,
           orp_side = side, orp_qty = qty, orp_estimated_notional = round_cents notional,
           orp_status = status, orp_resolved_at = None\<rparr> (db_orphans d)\<rparr>)"

definition update_orphan_order_status :: "string \<Rightarrow> string \<Rightarrow> rat option \<Rightarrow> db \<Rightarrow> db" where
  "update_orphan_order_status bid status resolved_at d =
     (case map_of (db_orphans d) bid of
        None \<Rightarrow> d
      | Some r \<Rightarrow> d\<lparr>db_orphans := AList.update bid
          (r\<lparr>orp_status := status, orp_resolved_at := coalesce resolved_at (orp_resolved_at r)\<rparr>)
          (db_orphans d)\<rparr>)"

definition get_orphan_exposure :: "string \<Rightarrow> string \<Rightarrow> db \<Rightarrow> rat" where
  "get_orphan_exposure symbol strategy_id d =
     sum_list (map orp_estimated_notional
       (filter (\<lambda>r. orp_resolved_at r = None \<and> orp_symbol r = symbol \<and>
                    (orp_strategy_id r = strategy_id \<or> orp_strategy_id r = ''external''))
          (map snd (db_orphans d))))"

definition get_high_water_mark :: "string \<Rightarrow> db \<Rightarrow> rat option" where
  "get_high_water_mark name d = map_of (db_high_water d) name"

definition set_high_water_mark :: "rat \<Rightarrow> string \<Rightarrow> db \<Rightarrow> db" where
  "set_high_water_mark t name d = d\<lparr>db_high_water := AList.update name t (db_high_water d)\<rparr>"

definition get_order_ids_by_client_ids :: "string list \<Rightarrow> db \<Rightarrow> string list" where
  "get_order_ids_by_client_ids ids d = filter (\<lambda>c. c \<noteq> [] \<and> db_order d c \<noteq> None) (remdups ids)"

text \<open>
  \<open>get_orders_by_broker_ids\<close> as a lookup: the order a broker identifier names (the last such row; the
  column is unique).
\<close>

definition order_by_broker_id :: "string \<Rightarrow> db \<Rightarrow> order_row option" where
  "order_by_broker_id bid d =
     (if bid = [] then None
      else map_of (rev (map (\<lambda>(c, r). (o_broker_order_id r, r)) (db_orders d))) (Some bid))"

definition get_filled_orders_missing_fills :: "int \<Rightarrow> db \<Rightarrow> order_row list" where
  "get_filled_orders_missing_fills cap d =
     take (nat (max 1 (min cap 500)))
       (sort_key (\<lambda>r. - o_updated_at r)
         (filter (\<lambda>r. o_status r \<in> {''filled'', ''partially_filled''} \<and> o_filled_qty r > 0 \<and>
              o_filled_avg_price r \<noteq> None \<and> o_fills r = []) (map snd (db_orders d))))"

section \<open>Modifications\<close>

definition get_pending_modifications_older_than :: "rat \<Rightarrow> db \<Rightarrow> modification_row list" where
  "get_pending_modifications_older_than cutoff d =
     sort_key md_modified_at
       (filter (\<lambda>m. md_status m = ''pending'' \<and> md_modified_at m < cutoff) (db_modifications d))"

definition update_modification_status :: "rat \<Rightarrow> string \<Rightarrow> string \<Rightarrow> string option \<Rightarrow> db \<Rightarrow> db" where
  "update_modification_status now mid status error_message d =
     d\<lparr>db_modifications := map (\<lambda>m. if md_id m = mid
         then m\<lparr>md_status := status, md_error_message := error_message, md_modified_at := now\<rparr> else m)
       (db_modifications d)\<rparr>"

definition finalize_modification ::
  "rat \<Rightarrow> string \<Rightarrow> string option \<Rightarrow> string \<Rightarrow> string option \<Rightarrow> db \<Rightarrow> db" where
  "finalize_modification now mid new_broker_order_id status new_client_order_id d =
     d\<lparr>db_modifications := map (\<lambda>m. if md_id m = mid
         then m\<lparr>md_new_broker_order_id := new_broker_order_id,
                md_new_client_order_id := (case new_client_order_id of Some c \<Rightarrow> c
                  | None \<Rightarrow> md_new_client_order_id m),
                md_status := status, md_modified_at := now, md_error_message := None\<rparr> else m)
       (db_modifications d)\<rparr>"

definition insert_replacement_order ::
  "rat \<Rightarrow> string \<Rightarrow> string \<Rightarrow> string \<Rightarrow> db_order_request \<Rightarrow> string \<Rightarrow> string option \<Rightarrow> db \<Rightarrow>
   order_row result \<times> db" where
  "insert_replacement_order now cid replaced_order_id strategy_id q status broker_order_id d =
     (case db_order d cid of
        Some _ \<Rightarrow> (Inl (IntegrityError cid), d)
      | None \<Rightarrow>
          let row = \<lparr>o_client_order_id = cid, o_strategy_id = strategy_id, o_symbol = q_symbol q,
                o_side = q_side q, o_qty = q_qty q, o_order_type = q_order_type q,
                o_limit_price = q_limit_price q, o_stop_price = q_stop_price q,
                o_time_in_force = q_time_in_force q,
                o_execution_style = Some ''instant'', o_status = status,
                o_broker_order_id = broker_order_id, o_error_message = None,
                o_submitted_at = Some now, o_created_at = now, o_updated_at = now,
                o_filled_at = None, o_filled_qty = 0, o_filled_avg_price = None,
                o_last_updated_at = None, o_status_rank = None, o_source_priority = 2,
                o_broker_event_id = None, o_is_terminal = False, o_parent_order_id = None,
                o_replaced_order_id = Some replaced_order_id, o_slice_num = None,
                o_total_slices = None, o_scheduled_time = None,
                o_fills = [], o_total_realized_pl = 0\<rparr>
          in (case order_detail row of
                Inl e \<Rightarrow> (Inl e, d)
              | Inr r \<Rightarrow> (Inr r, db_set_order cid row d)))"

text \<open>
  The modifications of an order.  \<open>modification_id\<close> is made by the database and is an argument; the
  identifiers and the keys are \<open>UUID\<close>s in canonical form.  The foreign key and the two \<open>UNIQUE\<close>
  constraints of the table are checked.
\<close>

definition get_modification_by_idempotency_key :: "string \<Rightarrow> string \<Rightarrow> db \<Rightarrow> modification_row option" where
  "get_modification_by_idempotency_key cid key d =
     find (\<lambda>m. md_original_client_order_id m = cid \<and> md_idempotency_key m = key) (db_modifications d)"

text \<open>\<open>FOR UPDATE NOWAIT\<close>: \<open>None\<close> is \<open>LockNotAvailable\<close>, raised when another transaction has the row.\<close>

definition get_next_modification_seq :: "bool \<Rightarrow> string \<Rightarrow> db \<Rightarrow> int option" where
  "get_next_modification_seq locked cid d =
     (if locked \<and> db_order d cid \<noteq> None then None
      else Some (foldr max (map md_modification_seq
        (filter (\<lambda>m. md_original_client_order_id m = cid) (db_modifications d))) 0 + 1))"

definition insert_pending_modification :: "modification_row \<Rightarrow> db \<Rightarrow> string result \<times> db" where
  "insert_pending_modification m d =
     (if db_order d (md_original_client_order_id m) = None \<or>
         (\<exists>m' \<in> set (db_modifications d).
            md_id m' = md_id m \<or>
            md_original_client_order_id m' = md_original_client_order_id m \<and>
            (md_modification_seq m' = md_modification_seq m \<or>
             md_idempotency_key m' = md_idempotency_key m))
      then (Inl (IntegrityError (md_id m)), d)
      else (Inr (md_id m), d\<lparr>db_modifications := db_modifications d @ [m]\<rparr>))"

definition get_modifications_for_order :: "string \<Rightarrow> db \<Rightarrow> modification_row list" where
  "get_modifications_for_order cid d =
     sort_key md_modified_at (filter (\<lambda>m. md_original_client_order_id m = cid \<or>
        md_new_client_order_id m = cid) (db_modifications d))"

section \<open>Status updates\<close>

definition update_order_status ::
  "rat \<Rightarrow> string \<Rightarrow> string \<Rightarrow> string option \<Rightarrow> rat option \<Rightarrow> rat option \<Rightarrow> string option \<Rightarrow> db \<Rightarrow>
   order_row option result \<times> db" where
  "update_order_status now cid status broker_order_id filled_qty filled_avg_price error_message d =
     (let filled_at = (if status = ''filled'' \<and> filled_qty \<noteq> None then Some now else None);
          (row, d') = update_order_where cid (\<lambda>r. Some True)
            (\<lambda>r. r\<lparr>o_status := status,
                   o_broker_order_id := coalesce broker_order_id (o_broker_order_id r),
                   o_filled_qty := (case filled_qty of Some q \<Rightarrow> q | None \<Rightarrow> o_filled_qty r),
                   o_filled_avg_price := coalesce filled_avg_price (o_filled_avg_price r),
                   o_error_message := error_message,
                   o_filled_at := coalesce filled_at (o_filled_at r),
                   o_last_updated_at := Some now,
                   o_status_rank := Some (status_rank_for status),
                   o_is_terminal := (status \<in> set TERMINAL_STATUSES),
                   o_updated_at := now\<rparr>) d
      in (case row of None \<Rightarrow> (Inr None, d')
          | Some r \<Rightarrow> (rbind (order_detail r) (\<lambda>r. Inr (Some r)), d')))"

record cas_update =
  c_client_order_id :: string
  c_status :: string
  c_broker_updated_at :: rat
  c_status_rank :: int
  c_source_priority :: int
  c_filled_qty :: "rat option"
  c_filled_avg_price :: "rat option"
  c_filled_at :: "rat option"
  c_broker_order_id :: "string option"
  c_broker_event_id :: "string option"
  c_error_message :: "string option"

definition new_filled_qty :: "cas_update \<Rightarrow> rat" where
  "new_filled_qty u = (case c_filled_qty u of Some q \<Rightarrow> q | None \<Rightarrow> 0)"

definition cas_where :: "cas_update \<Rightarrow> order_row \<Rightarrow> bool option" where
  "cas_where u r =
     and3 (Some (\<not> o_is_terminal r \<or> o_status r = ''filled''))
       (or3 (Some (o_last_updated_at r = None))
       (or3 (cmp3 (<) (o_last_updated_at r) (c_broker_updated_at u))
       (or3 (and3 (cmp3 (=) (o_last_updated_at r) (c_broker_updated_at u))
                  (cmp3 (<) (o_status_rank r) (c_status_rank u)))
       (or3 (and3 (cmp3 (=) (o_last_updated_at r) (c_broker_updated_at u))
            (and3 (cmp3 (=) (o_status_rank r) (c_status_rank u))
                  (Some (o_filled_qty r < new_filled_qty u))))
            (and3 (cmp3 (=) (o_last_updated_at r) (c_broker_updated_at u))
            (and3 (cmp3 (=) (o_status_rank r) (c_status_rank u))
            (and3 (Some (o_filled_qty r = new_filled_qty u))
                  (Some (o_source_priority r > c_source_priority u)))))))))"

definition cas_set :: "rat \<Rightarrow> cas_update \<Rightarrow> order_row \<Rightarrow> order_row" where
  "cas_set now u r =
     r\<lparr>o_status := c_status u,
       o_last_updated_at := Some (c_broker_updated_at u),
       o_status_rank := Some (c_status_rank u),
       o_source_priority := c_source_priority u,
       o_broker_event_id := coalesce (c_broker_event_id u) (o_broker_event_id r),
       o_broker_order_id := coalesce (c_broker_order_id u) (o_broker_order_id r),
       o_filled_qty := max (o_filled_qty r) (new_filled_qty u),
       o_filled_avg_price := coalesce (c_filled_avg_price u) (o_filled_avg_price r),
       o_filled_at := coalesce (c_filled_at u) (o_filled_at r),
       o_error_message := c_error_message u,
       o_is_terminal := (c_status u \<in> set TERMINAL_STATUSES),
       o_updated_at := now\<rparr>"

text \<open>
  The constraint \<open>filled_avg_price IS NULL OR filled_avg_price > 0\<close>: every row of the table meets it,
  so that a statement fails when it writes a price that is neither positive nor the row's own.  The
  constraint on the filled quantity never fails here, since \<open>GREATEST\<close> does not lower it.
\<close>

definition filled_price_violates :: "cas_update \<Rightarrow> order_row \<Rightarrow> bool" where
  "filled_price_violates u r =
     (case c_filled_avg_price u of
        None \<Rightarrow> False
      | Some p \<Rightarrow> p \<le> 0 \<and> o_filled_avg_price r \<noteq> Some p)"

text \<open>
  \<open>update_order_status_cas\<close>: the row the statement returns is validated before the commit, so
  that a status outside the schema rolls the update back.
\<close>

definition update_order_status_cas :: "rat \<Rightarrow> cas_update \<Rightarrow> db \<Rightarrow> order_row option result \<times> db" where
  "update_order_status_cas now u d =
     (if (case db_order d (c_client_order_id u) of
            None \<Rightarrow> False
          | Some r \<Rightarrow> cas_where u r = Some True \<and> filled_price_violates u r)
      then (Inl (IntegrityError ''orders_filled_avg_price_check''), d)
      else case update_order_where (c_client_order_id u) (cas_where u) (cas_set now u) d of
        (None, d') \<Rightarrow> (Inr None, d')
      | (Some r, d') \<Rightarrow>
          (case order_detail r of Inl e \<Rightarrow> (Inl e, d) | Inr r' \<Rightarrow> (Inr (Some r'), d')))"

definition update_order_status_with_conn ::
  "rat \<Rightarrow> string \<Rightarrow> string \<Rightarrow> rat \<Rightarrow> rat \<Rightarrow> rat option \<Rightarrow> string option \<Rightarrow> rat option \<Rightarrow> int option \<Rightarrow>
   int option \<Rightarrow> string option \<Rightarrow> db \<Rightarrow> order_row option result \<times> db" where
  "update_order_status_with_conn now cid status filled_qty filled_avg_price filled_at broker_order_id
       broker_updated_at status_rank source_priority broker_event_id d =
     (case (broker_updated_at, status_rank, source_priority) of
        (Some t, Some rank, Some priority) \<Rightarrow>
          update_order_status_cas now
            \<lparr>c_client_order_id = cid, c_status = status, c_broker_updated_at = t,
             c_status_rank = rank, c_source_priority = priority, c_filled_qty = Some filled_qty,
             c_filled_avg_price = Some filled_avg_price, c_filled_at = filled_at,
             c_broker_order_id = broker_order_id, c_broker_event_id = broker_event_id,
             c_error_message = None\<rparr> d
      | _ \<Rightarrow>
          if db_order d cid \<noteq> None \<and> (filled_qty < 0 \<or> filled_avg_price \<le> 0)
          then (Inl (IntegrityError ''orders_filled_check''), d)
          else (case update_order_where cid (\<lambda>r. Some True)
              (\<lambda>r. r\<lparr>o_status := status, o_filled_qty := filled_qty,
                     o_filled_avg_price := Some filled_avg_price,
                     o_filled_at := coalesce filled_at (o_filled_at r),
                     o_broker_order_id := coalesce broker_order_id (o_broker_order_id r),
                     o_updated_at := now\<rparr>) d of
             (None, d') \<Rightarrow> (Inr None, d')
           | (Some r, d') \<Rightarrow>
               (case order_detail r of Inl e \<Rightarrow> (Inl e, d) | Inr r' \<Rightarrow> (Inr (Some r'), d'))))"

definition update_order_status_simple_with_conn ::
  "rat \<Rightarrow> string \<Rightarrow> string \<Rightarrow> db \<Rightarrow> order_row option result \<times> db" where
  "update_order_status_simple_with_conn now cid status d =
     (case update_order_where cid (\<lambda>r. Some True)
        (\<lambda>r. r\<lparr>o_status := status, o_status_rank := Some (status_rank_for status),
               o_is_terminal := (status \<in> set TERMINAL_STATUSES), o_updated_at := now\<rparr>) d of
        (None, d') \<Rightarrow> (Inr None, d')
      | (Some r, d') \<Rightarrow>
          (case order_detail r of Inl e \<Rightarrow> (Inl e, d) | Inr r' \<Rightarrow> (Inr (Some r'), d')))"

section \<open>The conditional update: lemmas\<close>

lemma cas_where_true:
  "cas_where u r = Some True \<longleftrightarrow>
     (\<not> o_is_terminal r \<or> o_status r = ''filled'') \<and>
     (case o_last_updated_at r of
        None \<Rightarrow> True
      | Some t \<Rightarrow> t < c_broker_updated_at u \<or>
          t = c_broker_updated_at u \<and>
          (case o_status_rank r of
             None \<Rightarrow> False
           | Some k \<Rightarrow> k < c_status_rank u \<or>
               k = c_status_rank u \<and>
               (o_filled_qty r < new_filled_qty u \<or>
                o_filled_qty r = new_filled_qty u \<and> c_source_priority u < o_source_priority r)))"
  by (auto simp: cas_where_def split: option.splits)

text \<open>The update as a function of the row, for a status of the schema.\<close>

definition cas_row :: "rat \<Rightarrow> cas_update \<Rightarrow> order_row \<Rightarrow> order_row" where
  "cas_row now u r = (if cas_where u r = Some True then cas_set now u r else r)"

lemma cas_set_fields [simp]:
  "o_status (cas_set now u r) = c_status u"
  "o_last_updated_at (cas_set now u r) = Some (c_broker_updated_at u)"
  "o_status_rank (cas_set now u r) = Some (c_status_rank u)"
  "o_source_priority (cas_set now u r) = c_source_priority u"
  "o_filled_qty (cas_set now u r) = max (o_filled_qty r) (new_filled_qty u)"
  "o_is_terminal (cas_set now u r) \<longleftrightarrow> c_status u \<in> set TERMINAL_STATUSES"
  "o_symbol (cas_set now u r) = o_symbol r"
  "o_side (cas_set now u r) = o_side r"
  "o_fills (cas_set now u r) = o_fills r"
  by (simp_all add: cas_set_def)

lemma cas_cases:
  obtains
    (missing) "db_order d (c_client_order_id u) = None"
      "update_order_status_cas now u d = (Inr None, d)"
  | (skipped) r where "db_order d (c_client_order_id u) = Some r" "cas_where u r \<noteq> Some True"
      "update_order_status_cas now u d = (Inr None, d)"
  | (applied) r where "db_order d (c_client_order_id u) = Some r" "cas_where u r = Some True"
      "c_status u \<in> set ORDER_STATUSES" "\<not> filled_price_violates u r"
      "update_order_status_cas now u d =
         (Inr (Some (cas_set now u r)), db_set_order (c_client_order_id u) (cas_set now u r) d)"
  | (invalid) r e where "db_order d (c_client_order_id u) = Some r" "cas_where u r = Some True"
      "c_status u \<notin> set ORDER_STATUSES \<or> filled_price_violates u r"
      "update_order_status_cas now u d = (Inl e, d)"
proof (cases "db_order d (c_client_order_id u)")
  case None
  then show ?thesis
    by (intro missing) (simp_all add: update_order_status_cas_def update_order_where_def)
next
  case (Some r)
  note row = this
  show ?thesis
  proof (cases "cas_where u r = Some True")
    case False
    with row show ?thesis
      by (intro skipped [of r]) (simp_all add: update_order_status_cas_def update_order_where_def)
  next
    case True
    show ?thesis
    proof (cases "c_status u \<in> set ORDER_STATUSES \<and> \<not> filled_price_violates u r")
      case status: True
      with row True show ?thesis
        by (intro applied [of r])
          (simp_all add: update_order_status_cas_def update_order_where_def order_detail_def)
    next
      case status: False
      then have bad: "c_status u \<notin> set ORDER_STATUSES \<or> filled_price_violates u r" by blast
      have "\<exists>e. update_order_status_cas now u d = (Inl e, d)"
        using row True bad
        by (simp add: update_order_status_cas_def update_order_where_def order_detail_def)
      with row True bad show ?thesis using invalid by blast
    qed
  qed
qed

text \<open>
  An update the statement can apply: a status of the schema and no price that is not positive.  What
  a delivery does to the row: nothing when the statement fails.
\<close>

definition storable :: "cas_update \<Rightarrow> bool" where
  "storable u \<longleftrightarrow> c_status u \<in> set ORDER_STATUSES \<and> (\<forall>p. c_filled_avg_price u = Some p \<longrightarrow> 0 < p)"

definition cas_effect :: "rat \<Rightarrow> cas_update \<Rightarrow> order_row \<Rightarrow> order_row" where
  "cas_effect now u r =
     (if c_status u \<in> set ORDER_STATUSES \<and> \<not> filled_price_violates u r then cas_row now u r else r)"

lemma storable_ok: "storable u \<Longrightarrow> c_status u \<in> set ORDER_STATUSES \<and> \<not> filled_price_violates u r"
  by (auto simp: storable_def filled_price_violates_def split: option.splits)

lemma cas_effect_storable: "storable u \<Longrightarrow> cas_effect now u r = cas_row now u r"
  using storable_ok [of u r] by (simp add: cas_effect_def)

lemma cas_effect_cases: "cas_effect now u r = cas_row now u r \<or> cas_effect now u r = r"
  by (simp add: cas_effect_def)

lemma cas_db_order:
  "db_order (snd (update_order_status_cas now u d)) cid =
    (if cid = c_client_order_id u then map_option (cas_effect now u) (db_order d cid) else db_order d cid)"
  by (rule cas_cases [of d u now]) (auto simp: cas_row_def cas_effect_def)

lemma cas_position [simp]:
  "db_position (snd (update_order_status_cas now u d)) s = db_position d s"
  by (rule cas_cases [of d u now]) auto

text \<open>What an accepted update strictly increases.\<close>

definition cas_newer :: "order_row \<Rightarrow> order_row \<Rightarrow> bool" where
  "cas_newer r r' \<longleftrightarrow>
     (case o_last_updated_at r of
        None \<Rightarrow> o_last_updated_at r' \<noteq> None
      | Some t \<Rightarrow>
          (case o_last_updated_at r' of
             None \<Rightarrow> False
           | Some t' \<Rightarrow> t < t' \<or>
               t = t' \<and>
               (case (o_status_rank r, o_status_rank r') of
                  (Some k, Some k') \<Rightarrow> k < k' \<or>
                    k = k' \<and>
                    (o_filled_qty r < o_filled_qty r' \<or>
                     o_filled_qty r = o_filled_qty r' \<and> o_source_priority r' < o_source_priority r)
                | _ \<Rightarrow> False)))"

lemma cas_newer_trans: "cas_newer r r' \<Longrightarrow> cas_newer r' r'' \<Longrightarrow> cas_newer r r''"
  by (auto simp: cas_newer_def split: option.splits)

lemma cas_newer_irrefl: "\<not> cas_newer r r"
  by (auto simp: cas_newer_def split: option.splits)

lemma cas_set_newer: "cas_where u r = Some True \<Longrightarrow> cas_newer r (cas_set now u r)"
  by (auto simp: cas_where_true cas_newer_def max_def split: option.splits)

lemma cas_set_rejects_again: "cas_where u (cas_set now u r) \<noteq> Some True"
  by (auto simp: cas_where_true max_def)

section \<open>Deliveries in any order\<close>

text \<open>The updates of a sequence of deliveries, each with the time of its statement.\<close>

definition deliver :: "(rat \<times> cas_update) list \<Rightarrow> db \<Rightarrow> db" where
  "deliver us d = fold (\<lambda>(now, u) d. snd (update_order_status_cas now u d)) us d"

lemma deliver_simps [simp]:
  "deliver [] d = d"
  "deliver ((now, u) # us) d = deliver us (snd (update_order_status_cas now u d))"
  by (simp_all add: deliver_def)

text \<open>The update \<open>u\<close> precedes \<open>w\<close> in the order of the timestamps and ranks.\<close>

definition precedes :: "cas_update \<Rightarrow> cas_update \<Rightarrow> bool" where
  "precedes u w \<longleftrightarrow>
     c_broker_updated_at u < c_broker_updated_at w \<or>
     c_broker_updated_at u = c_broker_updated_at w \<and> c_status_rank u < c_status_rank w"

definition row_precedes :: "order_row \<Rightarrow> cas_update \<Rightarrow> bool" where
  "row_precedes r w \<longleftrightarrow>
     (case o_last_updated_at r of
        None \<Rightarrow> True
      | Some t \<Rightarrow> t < c_broker_updated_at w \<or>
          t = c_broker_updated_at w \<and> (\<exists>k. o_status_rank r = Some k \<and> k < c_status_rank w))"

definition unlocked :: "order_row \<Rightarrow> bool" where
  "unlocked r \<longleftrightarrow> (\<not> o_is_terminal r \<or> o_status r = ''filled'')"

definition shows_update :: "cas_update \<Rightarrow> order_row \<Rightarrow> bool" where
  "shows_update w r \<longleftrightarrow>
     o_status r = c_status w \<and> o_last_updated_at r = Some (c_broker_updated_at w) \<and>
     o_status_rank r = Some (c_status_rank w) \<and> o_filled_qty r = new_filled_qty w"

text \<open>An update other than the last one: older, not a final non-filled status, no larger quantity.\<close>

definition earlier_update :: "cas_update \<Rightarrow> cas_update \<Rightarrow> bool" where
  "earlier_update w u \<longleftrightarrow>
     precedes u w \<and> (c_status u \<in> set TERMINAL_STATUSES \<longrightarrow> c_status u = ''filled'') \<and>
     new_filled_qty u \<le> new_filled_qty w"

lemma cas_set_earlier:
  assumes "earlier_update w u"
  shows "row_precedes (cas_set now u r) w" "unlocked (cas_set now u r)"
  using assms
  unfolding row_precedes_def unlocked_def earlier_update_def precedes_def cas_set_fields
  by (simp, blast)

lemma cas_row_earlier:
  assumes "earlier_update w u" "row_precedes r w" "unlocked r" "o_filled_qty r \<le> new_filled_qty w"
  shows "row_precedes (cas_row now u r) w" "unlocked (cas_row now u r)"
    "o_filled_qty (cas_row now u r) \<le> new_filled_qty w"
proof -
  have "new_filled_qty u \<le> new_filled_qty w"
    using assms(1) by (simp add: earlier_update_def)
  with assms(4) have "o_filled_qty (cas_set now u r) \<le> new_filled_qty w"
    by simp
  with assms(2-4) cas_set_earlier [OF assms(1)]
  show "row_precedes (cas_row now u r) w" "unlocked (cas_row now u r)"
    "o_filled_qty (cas_row now u r) \<le> new_filled_qty w"
    by (simp_all add: cas_row_def)
qed

lemma cas_row_late:
  assumes "earlier_update w u" "shows_update w r"
  shows "cas_row now u r = r"
proof -
  note r = assms(2) [unfolded shows_update_def]
  from assms(1) have le: "precedes u w" by (simp add: earlier_update_def)
  have "cas_where u r \<noteq> Some True"
  proof
    assume "cas_where u r = Some True"
    then have "c_broker_updated_at w < c_broker_updated_at u \<or>
        c_broker_updated_at w = c_broker_updated_at u \<and> c_status_rank w \<le> c_status_rank u"
      using r unfolding cas_where_true by auto
    with le show False unfolding precedes_def by linarith
  qed
  then show ?thesis by (simp add: cas_row_def)
qed

lemma cas_row_last:
  "row_precedes r w \<Longrightarrow> unlocked r \<Longrightarrow> o_filled_qty r \<le> new_filled_qty w \<Longrightarrow>
     shows_update w (cas_row now w r)"
  "shows_update w r \<Longrightarrow> shows_update w (cas_row now w r)"
  by (auto simp: cas_row_def row_precedes_def unlocked_def shows_update_def cas_where_true max_def
      split: option.splits)

lemma deliver_order:
  assumes "\<forall>(now, u) \<in> set us. c_client_order_id u = cid" "db_order d cid = Some r"
  shows "db_order (deliver us d) cid = Some (fold (\<lambda>(now, u). cas_effect now u) us r)"
  using assms
proof (induction us arbitrary: d r)
  case Nil
  then show ?case by simp
next
  case (Cons nu us)
  obtain now u where nu: "nu = (now, u)" by (cases nu)
  have "db_order (snd (update_order_status_cas now u d)) cid = Some (cas_effect now u r)"
    using Cons.prems by (subst cas_db_order) (auto simp: nu)
  from Cons.IH [OF _ this] Cons.prems(1) show ?case by (simp add: nu)
qed

lemma cas_fold_shows:
  assumes "\<forall>(now, u) \<in> set us. u = w \<or> earlier_update w u" "storable w"
  shows "shows_update w r \<Longrightarrow> shows_update w (fold (\<lambda>(now, u). cas_effect now u) us r)"
    and "row_precedes r w \<Longrightarrow> unlocked r \<Longrightarrow> o_filled_qty r \<le> new_filled_qty w \<Longrightarrow>
      w \<in> snd ` set us \<Longrightarrow> shows_update w (fold (\<lambda>(now, u). cas_effect now u) us r)"
  using assms(1)
proof (induction us arbitrary: r)
  case Nil
  { case 1 then show ?case by simp }
  { case 2 then show ?case by simp }
next
  case (Cons nu us)
  obtain now u where nu: "nu = (now, u)" by (cases nu)
  have rest: "\<forall>(now, u) \<in> set us. u = w \<or> earlier_update w u" if "\<forall>(now, u) \<in> set (nu # us). u = w \<or> earlier_update w u"
    using that by simp
  { case 1
    then have "shows_update w (cas_row now u r)"
      using cas_row_late [of w u r now] cas_row_last(2) [of w r now] by (auto simp: nu)
    with cas_effect_cases [of now u r] 1(1) have "shows_update w (cas_effect now u r)" by metis
    from Cons.IH(1) [OF this rest [OF 1(2)]] show ?case by (simp add: nu) }
  { case 2
    show ?case
    proof (cases "u = w")
      case True
      from cas_row_last(1) [OF 2(1-3), of now]
      have "shows_update w (cas_effect now u r)" by (simp add: True cas_effect_storable assms(2))
      from Cons.IH(1) [OF this rest [OF 2(5)]] show ?thesis by (simp add: nu)
    next
      case False
      then have early: "earlier_update w u" using 2(5) by (simp add: nu)
      have "row_precedes (cas_effect now u r) w" "unlocked (cas_effect now u r)"
        "o_filled_qty (cas_effect now u r) \<le> new_filled_qty w"
        using cas_row_earlier [OF early 2(1-3), of now] 2(1-3) cas_effect_cases [of now u r] by metis+
      moreover have "w \<in> snd ` set us" using 2(4) False by (auto simp: nu)
      ultimately show ?thesis using Cons.IH(2) [of "cas_effect now u r"] rest [OF 2(5)] by (simp add: nu)
    qed }
qed

section \<open>Properties of the order updates\<close>

text \<open>C5. Updates of one order converge to the newest under any order and number of deliveries, provided
  that none of the others locks the row or reports more: the row is unlocked, older than w and filled
  no further; w has a status of the schema, no price that is not positive, and the largest timestamp
  and rank; the others carry no final status but filled and no larger filled quantity, and may
  otherwise be anything, updates the database refuses included.  Then any sequence that contains w
  leaves the row with the status, timestamp, rank and filled quantity of w.  (A final status
  delivered first does lock the row for good: lemma cas_terminal_lock.)\<close>

theorem cas_convergence:
  assumes "db_order d cid = Some r" "row_precedes r w" "unlocked r"
    "o_filled_qty r \<le> new_filled_qty w"
    "\<forall>(now, u) \<in> set us. c_client_order_id u = cid" "storable w"
    "\<forall>(now, u) \<in> set us. u = w \<or> earlier_update w u"
    "w \<in> snd ` set us"
  shows "\<exists>r'. db_order (deliver us d) cid = Some r' \<and> shows_update w r'"
  using deliver_order [OF assms(5,1)] cas_fold_shows(2) [OF assms(7,6,2-4,8)] by blast

definition sample_order :: order_row where
  "sample_order =
     \<lparr>o_client_order_id = ''a1'', o_strategy_id = ''s'', o_symbol = ''AAPL'', o_side = ''buy'',
      o_qty = 10, o_order_type = ''market'', o_limit_price = None, o_stop_price = None,
      o_time_in_force = ''day'', o_execution_style = Some ''instant'',
      o_status = ''pending_new'', o_broker_order_id = None, o_error_message = None, o_submitted_at = Some 0, o_created_at = 0, o_updated_at = 0,
      o_filled_at = None, o_filled_qty = 0, o_filled_avg_price = None, o_last_updated_at = None,
      o_status_rank = None, o_source_priority = 2, o_broker_event_id = None,
      o_is_terminal = False, o_parent_order_id = None, o_replaced_order_id = None, o_slice_num = None,
      o_total_slices = None, o_scheduled_time = None, o_fills = [], o_total_realized_pl = 0\<rparr>"

definition sample_db :: db where
  "sample_db = \<lparr>db_orders = [(''a1'', sample_order)], db_positions = [], db_trades = [],
     db_orphans = [], db_high_water = [], db_modifications = []\<rparr>"

definition sample_update :: "string \<Rightarrow> rat \<Rightarrow> rat \<Rightarrow> cas_update" where
  "sample_update status t q =
     \<lparr>c_client_order_id = ''a1'', c_status = status, c_broker_updated_at = t,
      c_status_rank = status_rank_for status, c_source_priority = 3, c_filled_qty = Some q,
      c_filled_avg_price = Some 100, c_filled_at = None, c_broker_order_id = Some ''b1'',
      c_broker_event_id = None, c_error_message = None\<rparr>"

lemmas sample_simps = sample_order_def sample_db_def sample_update_def db_order_def
  status_rank_for_def STATUS_RANKS_def TERMINAL_STATUSES_def ORDER_STATUSES_def

lemma cas_convergence_witness:
  "\<exists>r'. db_order (deliver
      [(5, sample_update ''filled'' 3 10), (6, sample_update ''partially_filled'' 2 4),
       (7, sample_update ''filled'' 3 10), (8, sample_update ''new'' 1 0)] sample_db) ''a1'' = Some r' \<and>
     shows_update (sample_update ''filled'' 3 10) r'"
  by (rule cas_convergence [of _ _ sample_order])
    (simp_all add: sample_simps row_precedes_def unlocked_def new_filled_qty_def
      earlier_update_def precedes_def storable_def)

text \<open>An accepted conditional update found the row, found it unlocked, strictly advances the order
  of timestamps, ranks, filled quantities and source priorities, never lowers the filled quantity,
  and is rejected without effect when it is delivered again.\<close>

theorem cas_accepted_newer:
  assumes "update_order_status_cas now u d = (Inr (Some r'), d')"
  shows "\<exists>r. db_order d (c_client_order_id u) = Some r \<and> unlocked r \<and> cas_newer r r' \<and>
      o_filled_qty r \<le> o_filled_qty r' \<and> db_order d' (c_client_order_id u) = Some r' \<and>
      update_order_status_cas now' u d' = (Inr None, d')"
proof (rule cas_cases [of d u now])
  fix r
  assume row: "db_order d (c_client_order_id u) = Some r" and ok: "cas_where u r = Some True"
    and eq: "update_order_status_cas now u d =
      (Inr (Some (cas_set now u r)), db_set_order (c_client_order_id u) (cas_set now u r) d)"
  have r': "r' = cas_set now u r" and d': "d' = db_set_order (c_client_order_id u) r' d"
    using assms eq by auto
  have row': "db_order d' (c_client_order_id u) = Some r'" by (simp add: d')
  have again: "update_order_status_cas now' u d' = (Inr None, d')"
    using row' cas_set_rejects_again [of u now r]
    by (simp add: update_order_status_cas_def update_order_where_def r')
  have "unlocked r" using ok by (simp add: cas_where_true unlocked_def)
  with row row' again cas_set_newer [OF ok, of now] show ?thesis by (simp add: r')
qed (use assms in auto)

lemma cas_accepted_newer_witness:
  "\<exists>r. db_order sample_db ''a1'' = Some r \<and> unlocked r \<and>
      cas_newer r (cas_set 5 (sample_update ''new'' 1 0) sample_order) \<and>
      o_filled_qty r \<le> o_filled_qty (cas_set 5 (sample_update ''new'' 1 0) sample_order) \<and>
      db_order (db_set_order ''a1'' (cas_set 5 (sample_update ''new'' 1 0) sample_order) sample_db) ''a1'' =
        Some (cas_set 5 (sample_update ''new'' 1 0) sample_order) \<and>
      update_order_status_cas 9 (sample_update ''new'' 1 0)
        (db_set_order ''a1'' (cas_set 5 (sample_update ''new'' 1 0) sample_order) sample_db) =
      (Inr None, db_set_order ''a1'' (cas_set 5 (sample_update ''new'' 1 0) sample_order) sample_db)"
proof -
  have "update_order_status_cas 5 (sample_update ''new'' 1 0) sample_db =
    (Inr (Some (cas_set 5 (sample_update ''new'' 1 0) sample_order)),
     db_set_order ''a1'' (cas_set 5 (sample_update ''new'' 1 0) sample_order) sample_db)"
    by (simp add: update_order_status_cas_def update_order_where_def cas_where_true order_detail_def
        sample_simps filled_price_violates_def)
  from cas_accepted_newer [OF this, of 9] show ?thesis by (simp add: sample_update_def)
qed

text \<open>The terminal lock: a row that is terminal with a status other than filled keeps every
  column under any sequence of conditional updates, of this and of other orders.\<close>

theorem cas_terminal_lock:
  assumes "db_order d cid = Some r" "o_is_terminal r" "o_status r \<noteq> ''filled''"
  shows "db_order (deliver us d) cid = Some r"
  using assms(1)
proof (induction us arbitrary: d)
  case Nil
  then show ?case by simp
next
  case (Cons nu us)
  obtain now u where nu: "nu = (now, u)" by (cases nu)
  have "db_order (snd (update_order_status_cas now u d)) cid = Some r"
    by (rule cas_cases [of d u now]) (use Cons.prems assms in \<open>auto simp: cas_where_true\<close>)
  from Cons.IH [OF this] show ?case by (simp add: nu)
qed

lemma cas_terminal_lock_witness:
  "db_order (deliver [(5, sample_update ''new'' 9 0), (6, sample_update ''filled'' 10 5)]
      (sample_db\<lparr>db_orders :=
         [(''a1'', sample_order\<lparr>o_status := ''canceled'', o_is_terminal := True\<rparr>)]\<rparr>)) ''a1'' =
    Some (sample_order\<lparr>o_status := ''canceled'', o_is_terminal := True\<rparr>)"
  by (rule cas_terminal_lock) (simp_all add: sample_simps)

section \<open>Two limits of the lock\<close>

text \<open>
  A filled order is not locked: a later update of any status of the schema, an active one included,
  is applied to it.
\<close>

lemma cas_reopens_filled:
  assumes "db_order d (c_client_order_id u) = Some r" "o_status r = ''filled''"
    "o_last_updated_at r = Some t" "t < c_broker_updated_at u" "storable u"
  shows "map_option o_status (db_order (snd (update_order_status_cas now u d)) (c_client_order_id u)) =
    Some (c_status u)"
  using assms by (simp add: cas_db_order cas_effect_storable cas_row_def cas_where_true)

text \<open>
  Canceling the pending slices of a parent sets their status and not their terminal flag: they
  still count as children that are not terminal.
\<close>

lemma cancel_pending_still_live:
  "count_non_terminal_children parent (snd (cancel_pending_slices now parent d)) =
     count_non_terminal_children parent d"
proof -
  have "length (filter (\<lambda>r. o_parent_order_id r = Some parent \<and> \<not> o_is_terminal r)
      (map snd (map (\<lambda>(c, r). (c, if o_parent_order_id r = Some parent \<and> o_status r = ''pending_new''
        then r\<lparr>o_status := ''canceled'', o_updated_at := now\<rparr> else r)) xs))) =
    length (filter (\<lambda>r. o_parent_order_id r = Some parent \<and> \<not> o_is_terminal r) (map snd xs))" for xs
    by (induction xs) (auto split: if_splits)
  then show ?thesis
    by (simp add: count_non_terminal_children_def cancel_pending_slices_def Let_def)
qed

lemma cancel_pending_slices_spec:
  "fst (cancel_pending_slices now parent d) =
     length (filter (\<lambda>r. o_parent_order_id r = Some parent \<and> o_status r = ''pending_new'')
       (map snd (db_orders d)))"
  "db_order (snd (cancel_pending_slices now parent d)) cid =
     map_option (\<lambda>r. if o_parent_order_id r = Some parent \<and> o_status r = ''pending_new''
       then r\<lparr>o_status := ''canceled'', o_updated_at := now\<rparr> else r) (db_order d cid)"
proof -
  show "fst (cancel_pending_slices now parent d) =
      length (filter (\<lambda>r. o_parent_order_id r = Some parent \<and> o_status r = ''pending_new'')
       (map snd (db_orders d)))"
    by (simp add: cancel_pending_slices_def filter_map o_def Let_def)
  have "map_of (map (\<lambda>(c, r). (c, f r)) xs) cid = map_option f (map_of xs cid)"
    for f :: "order_row \<Rightarrow> order_row" and xs :: "(string \<times> order_row) list"
    by (induction xs) auto
  then show "db_order (snd (cancel_pending_slices now parent d)) cid =
     map_option (\<lambda>r. if o_parent_order_id r = Some parent \<and> o_status r = ''pending_new''
       then r\<lparr>o_status := ''canceled'', o_updated_at := now\<rparr> else r) (db_order d cid)"
    by (simp add: cancel_pending_slices_def db_order_def)
qed

text \<open>Creating an order twice fails on the key and changes nothing.\<close>

lemma create_order_twice:
  "create_order now cid s q st b e d = (Inr r, d') \<Longrightarrow>
     create_order now' cid s' q' st' b' e' d' = (Inl (IntegrityError cid), d')"
  by (auto simp: create_order_def Let_def split: option.splits)

end
