(* ===== verification/Order_Fills.thy ===== *)
theory Order_Fills
  imports Order_Db "HOL-Library.Multiset"
begin

text \<open>
  Fills and positions of \<^verbatim>\<open>apps/execution_gateway/database.py\<close>: appending a fill to the metadata of
  its order, the trade row made from it, the recalculation of the trades' realised profit, the
  position update of a fill and the broker's position snapshot, both under the constraints of the
  table of positions.  Each runs in the transaction of
  its caller; a raised error leaves the state as it was.
\<close>

section \<open>Patterns\<close>

text \<open>
  \<open>LIKE '%_recon_%'\<close> and \<open>LIKE '%_recon_db_%'\<close>.  In a pattern the underscore stands for any one
  character.
\<close>

definition like_recon :: "string \<Rightarrow> bool" where
  "like_recon s = list_ex (\<lambda>i. take 5 (drop i s) = ''recon'' \<and> i + 5 < length s) [1..<length s]"

definition like_recon_db :: "string \<Rightarrow> bool" where
  "like_recon_db s =
     list_ex (\<lambda>i. take 5 (drop i s) = ''recon'' \<and> take 2 (drop (i + 6) s) = ''db'' \<and> i + 8 < length s)
       [1..<length s]"

section \<open>Trades\<close>

definition insert_trade_from_fill :: "order_row \<Rightarrow> order_fill \<Rightarrow> db \<Rightarrow> db" where
  "insert_trade_from_fill order f d =
     (let fill_id = strip (f_id f) in
      if fill_id = [] then d
      else case (f_qty f, f_price f) of
        (Some qty, Some price) \<Rightarrow>
          if qty \<le> 0 \<or> price \<le> 0 then d
          else
            let executed_at = (case f_timestamp f of Some t \<Rightarrow> t | None \<Rightarrow>
                  (case o_filled_at order of Some t \<Rightarrow> t | None \<Rightarrow> o_updated_at order));
                row = \<lparr>t_trade_id = fill_id, t_client_order_id = o_client_order_id order,
                  t_broker_order_id = o_broker_order_id order, t_strategy_id = o_strategy_id order,
                  t_symbol = o_symbol order, t_side = o_side order, t_qty = qty, t_price = price,
                  t_executed_at = executed_at, t_realized_pnl = f_realized_pl f,
                  t_source = f_source f, t_synthetic = f_synthetic f, t_superseded = f_superseded f\<rparr>;
                trades = (if fill_id \<in> set (map t_trade_id (db_trades d)) then db_trades d
                          else db_trades d @ [row])
            in d\<lparr>db_trades :=
                 (if f_synthetic f then trades
                  else map (\<lambda>t. if t_client_order_id t = o_client_order_id order \<and> \<not> t_superseded t \<and>
                          (t_synthetic t \<or> like_recon (t_trade_id t) \<or> like_recon_db (t_trade_id t))
                        then t\<lparr>t_superseded := True\<rparr> else t) trades)\<rparr>
      | _ \<Rightarrow> d)"

section \<open>Fills\<close>

definition supersede :: "order_fill \<Rightarrow> order_fill" where
  "supersede f = (if f_synthetic f then f\<lparr>f_superseded := True\<rparr> else f)"

definition append_fill_row :: "rat \<Rightarrow> order_fill \<Rightarrow> order_row \<Rightarrow> order_row" where
  "append_fill_row now f row =
     (let fills = o_fills row @ [f] in
      row\<lparr>o_fills := (if f_synthetic f then fills else map supersede fills),
          o_total_realized_pl := o_total_realized_pl row + f_realized_pl f,
          o_updated_at := now\<rparr>)"

definition append_fill_to_order_metadata ::
  "rat \<Rightarrow> string \<Rightarrow> order_fill \<Rightarrow> db \<Rightarrow> order_row option \<times> db" where
  "append_fill_to_order_metadata now cid f d =
     (if f_id f = [] then (None, d)
      else
        case db_order d cid of
          None \<Rightarrow> (None, d)
        | Some row \<Rightarrow>
            if f_id f \<in> set (map f_id (o_fills row)) then (None, d)
            else
              let row' = append_fill_row now f row; d' = db_set_order cid row' d in
              (case order_detail row' of
                 Inl e \<Rightarrow> (None, d')
               | Inr detail \<Rightarrow> (Some detail, insert_trade_from_fill detail f d')))"

section \<open>Realised profit of the trades\<close>

definition trade_live :: "string \<Rightarrow> string \<Rightarrow> trade_row \<Rightarrow> bool" where
  "trade_live strategy_id symbol t \<longleftrightarrow>
     t_strategy_id t = strategy_id \<and> t_symbol t = symbol \<and> \<not> t_superseded t"

text \<open>
  The rows in the order of the query, ties of the time broken by the bytes of the trade id (the
  collation of the database), and the loop over them: the updates it collects.
\<close>

definition trade_rows :: "string \<Rightarrow> string \<Rightarrow> db \<Rightarrow> trade_row list" where
  "trade_rows strategy_id symbol d =
     sort_key (\<lambda>t. (t_executed_at t, t_trade_id t)) (filter (trade_live strategy_id symbol) (db_trades d))"

fun recalc_loop ::
  "(trade_row \<Rightarrow> bool) \<Rightarrow> rat \<Rightarrow> rat \<Rightarrow> trade_row list \<Rightarrow> (string \<times> rat) list" where
  "recalc_loop should_update position_qty avg_price [] = []"
| "recalc_loop should_update position_qty avg_price (t # ts) =
     (let side = lower (t_side t) in
      if side \<noteq> ''buy'' \<and> side \<noteq> ''sell'' then recalc_loop should_update position_qty avg_price ts
      else if t_qty t \<le> 0 \<or> t_price t \<le> 0 then recalc_loop should_update position_qty avg_price ts
      else
        let (q, a, realized_delta) =
              calculate_position_update_decimal position_qty avg_price (t_qty t) (t_price t) side
        in (if should_update t then (t_trade_id t, realized_delta) # recalc_loop should_update q a ts
            else recalc_loop should_update q a ts))"

definition default_update_sources :: "string list" where
  "default_update_sources =
     [''alpaca_activity'', ''reconciliation_backfill'', ''reconciliation_db_backfill'']"

definition recalculate_trade_realized_pnl ::
  "string \<Rightarrow> string \<Rightarrow> bool \<Rightarrow> string list option \<Rightarrow> db \<Rightarrow> (nat \<times> nat) \<times> db" where
  "recalculate_trade_realized_pnl strategy_id symbol update_all update_sources d =
     (let sources = (case update_sources of None \<Rightarrow> default_update_sources | Some s \<Rightarrow> s);
          rows = trade_rows strategy_id symbol d;
          should_update = (\<lambda>t. update_all \<or> t_synthetic t \<or>
            (case t_source t of None \<Rightarrow> False | Some s \<Rightarrow> s \<in> set sources));
          updates = recalc_loop should_update 0 0 rows
      in ((length rows, length updates),
          d\<lparr>db_trades := map (\<lambda>t. case map_of (rev updates) (t_trade_id t) of
               None \<Rightarrow> t | Some r \<Rightarrow> t\<lparr>t_realized_pnl := r\<rparr>) (db_trades d)\<rparr>))"

section \<open>Positions\<close>

text \<open>\<open>int(x)\<close> of a decimal truncates towards zero.\<close>

definition py_int :: "rat \<Rightarrow> int" where
  "py_int x = (if 0 \<le> x then \<lfloor>x\<rfloor> else \<lceil>x\<rceil>)"

definition position_or_flat :: "position_row option \<Rightarrow> int \<times> rat \<times> rat" where
  "position_or_flat p =
     (case p of None \<Rightarrow> (0, 0, 0)
      | Some r \<Rightarrow> (py_int (p_qty r), p_avg_entry_price r, p_realized_pl r))"

text \<open>
  The constraints of the table, \<open>avg_entry_price > 0 OR qty = 0\<close> (\<^verbatim>\<open>db/migrations/0010\<close>) and
  \<open>current_price IS NULL OR current_price > 0\<close>, and the write of a row, which fails on them.
\<close>

definition positions_check :: "position_row \<Rightarrow> bool" where
  "positions_check r \<longleftrightarrow>
     (p_avg_entry_price r > 0 \<or> p_qty r = 0) \<and>
     (case p_current_price r of None \<Rightarrow> True | Some p \<Rightarrow> p > 0)"

definition write_position :: "string \<Rightarrow> position_row \<Rightarrow> db \<Rightarrow> position_row result \<times> db" where
  "write_position symbol row d =
     (if positions_check row then (Inr row, db_set_position symbol row d)
      else (Inl (IntegrityError ''positions_avg_entry_price_nonnegative''), d))"

definition update_position_on_fill_with_conn ::
  "rat \<Rightarrow> string \<Rightarrow> int \<Rightarrow> rat \<Rightarrow> string \<Rightarrow> db \<Rightarrow> position_row result \<times> db" where
  "update_position_on_fill_with_conn now symbol fill_qty fill_price side d =
     (let (old_qty, old_avg_price, old_realized_pl) = position_or_flat (db_position d symbol);
          (new_qty, new_avg_price, new_realized_pl) =
            calculate_position_update old_qty old_avg_price old_realized_pl fill_qty fill_price side;
          row = (case db_position d symbol of
             None \<Rightarrow> \<lparr>p_qty = of_int new_qty, p_avg_entry_price = new_avg_price, p_current_price = None,
                      p_realized_pl = new_realized_pl, p_updated_at = now, p_last_trade_at = Some now\<rparr>
           | Some r \<Rightarrow> r\<lparr>p_qty := of_int new_qty, p_avg_entry_price := new_avg_price,
                        p_realized_pl := new_realized_pl, p_updated_at := now,
                        p_last_trade_at := Some now\<rparr>)
      in write_position symbol row d)"

text \<open>The same statements in a connection of their own.\<close>

definition update_position_on_fill ::
  "rat \<Rightarrow> string \<Rightarrow> int \<Rightarrow> rat \<Rightarrow> string \<Rightarrow> db \<Rightarrow> position_row result \<times> db" where
  "update_position_on_fill now symbol qty price side d =
     update_position_on_fill_with_conn now symbol qty price side d"

definition upsert_position_snapshot ::
  "string \<Rightarrow> rat \<Rightarrow> rat \<Rightarrow> rat option \<Rightarrow> rat \<Rightarrow> db \<Rightarrow> position_row result \<times> db" where
  "upsert_position_snapshot symbol qty avg_entry_price current_price updated_at d =
     (let row = (case db_position d symbol of
             None \<Rightarrow> \<lparr>p_qty = qty, p_avg_entry_price = avg_entry_price, p_current_price = current_price,
                      p_realized_pl = 0, p_updated_at = updated_at, p_last_trade_at = Some updated_at\<rparr>
           | Some r \<Rightarrow> r\<lparr>p_qty := qty, p_avg_entry_price := avg_entry_price,
                        p_current_price := current_price, p_updated_at := updated_at,
                        p_last_trade_at := Some updated_at\<rparr>)
      in write_position symbol row d)"

definition get_position_by_symbol :: "string \<Rightarrow> db \<Rightarrow> int" where
  "get_position_by_symbol symbol d =
     (case db_position d symbol of None \<Rightarrow> 0 | Some r \<Rightarrow> py_int (p_qty r))"

definition get_all_positions :: "db \<Rightarrow> (string \<times> position_row) list" where
  "get_all_positions d = sort_key fst (filter (\<lambda>(s, r). p_qty r \<noteq> 0) (db_positions d))"

lemma write_position_cases:
  obtains (written) "positions_check row" "write_position s row d = (Inr row, db_set_position s row d)"
  | (refused) "\<not> positions_check row"
      "write_position s row d = (Inl (IntegrityError ''positions_avg_entry_price_nonnegative''), d)"
  by (cases "positions_check row") (simp_all add: write_position_def)

lemma write_position_order [simp]: "db_order (snd (write_position s row d)) c = db_order d c"
  by (simp add: write_position_def)

section \<open>Fills: lemmas\<close>

lemma insert_trade_order [simp]:
  "db_order (insert_trade_from_fill r f d) c = db_order d c"
  "db_position (insert_trade_from_fill r f d) s = db_position d s"
  by (simp_all add: insert_trade_from_fill_def Let_def split: option.splits)

lemma f_id_supersede [simp]: "f_id (supersede f) = f_id f" "f_realized_pl (supersede f) = f_realized_pl f"
  by (simp_all add: supersede_def)

lemma append_fill_row_fields [simp]:
  "map f_id (o_fills (append_fill_row now f row)) = map f_id (o_fills row) @ [f_id f]"
  "o_total_realized_pl (append_fill_row now f row) = o_total_realized_pl row + f_realized_pl f"
  "sum_list (map f_realized_pl (o_fills (append_fill_row now f row))) =
     sum_list (map f_realized_pl (o_fills row)) + f_realized_pl f"
  "o_status (append_fill_row now f row) = o_status row"
  "o_filled_qty (append_fill_row now f row) = o_filled_qty row"
  "o_symbol (append_fill_row now f row) = o_symbol row"
  "o_side (append_fill_row now f row) = o_side row"
  "o_is_terminal (append_fill_row now f row) = o_is_terminal row"
  "o_last_updated_at (append_fill_row now f row) = o_last_updated_at row"
  "o_status_rank (append_fill_row now f row) = o_status_rank row"
  by (simp_all add: append_fill_row_def Let_def o_def)

text \<open>The effect on the row of the order: append once, skip a known or a missing identifier.\<close>

definition fill_step :: "rat \<Rightarrow> order_fill \<Rightarrow> order_row \<Rightarrow> order_row" where
  "fill_step now f row =
     (if f_id f = [] \<or> f_id f \<in> set (map f_id (o_fills row)) then row else append_fill_row now f row)"

lemma append_fill_order:
  "db_order (snd (append_fill_to_order_metadata now cid f d)) c =
     (if c = cid then map_option (fill_step now f) (db_order d c) else db_order d c)"
  by (simp add: append_fill_to_order_metadata_def fill_step_def Let_def
      split: option.splits sum.splits)

lemma append_fill_position [simp]:
  "db_position (snd (append_fill_to_order_metadata now cid f d)) s = db_position d s"
  by (simp add: append_fill_to_order_metadata_def Let_def split: option.splits sum.splits)

lemma fill_step_idem: "fill_step now' f (fill_step now f row) = fill_step now f row"
proof -
  have "f_id f \<in> set (map f_id (o_fills (append_fill_row now f row)))"
    unfolding append_fill_row_fields by simp
  then show ?thesis by (simp add: fill_step_def del: append_fill_row_fields)
qed

text \<open>The ledger of an order: identifiers present and distinct, the total the sum of the fills.\<close>

definition fills_ok :: "order_row \<Rightarrow> bool" where
  "fills_ok row \<longleftrightarrow>
     distinct (map f_id (o_fills row)) \<and> [] \<notin> set (map f_id (o_fills row)) \<and>
     o_total_realized_pl row = sum_list (map f_realized_pl (o_fills row))"

lemma fills_ok_step: "fills_ok row \<Longrightarrow> fills_ok (fill_step now f row)"
  unfolding fill_step_def fills_ok_def
  by (cases "f_id f = [] \<or> f_id f \<in> set (map f_id (o_fills row))")
    (simp_all only: if_True if_False append_fill_row_fields distinct_append set_append, auto)

lemma fill_step_ids:
  "set (map f_id (o_fills (fill_step now f row))) = set (map f_id (o_fills row)) \<union> ({f_id f} - {[]})"
  unfolding fill_step_def
  by (cases "f_id f = [] \<or> f_id f \<in> set (map f_id (o_fills row))")
    (simp_all only: if_True if_False append_fill_row_fields set_append, auto)

lemma append_fills_order:
  "db_order d cid = Some row \<Longrightarrow>
   db_order (fold (\<lambda>(now, f) d. snd (append_fill_to_order_metadata now cid f d)) fs d) cid =
     Some (fold (\<lambda>(now, f). fill_step now f) fs row)"
  by (induction fs arbitrary: d row) (auto simp: append_fill_order)

lemma fill_steps_ok:
  "fills_ok row \<Longrightarrow> fills_ok (fold (\<lambda>(now, f). fill_step now f) fs row)"
  by (induction fs arbitrary: row) (auto simp: fills_ok_step)

lemma fill_steps_ids:
  "set (map f_id (o_fills (fold (\<lambda>(now, f). fill_step now f) fs row))) =
     set (map f_id (o_fills row)) \<union> (f_id ` snd ` set fs - {[]})"
proof (induction fs arbitrary: row)
  case Nil
  then show ?case by simp
next
  case (Cons nf fs)
  obtain now f where nf: "nf = (now, f)" by (cases nf)
  show ?case
    using Cons.IH [of "fill_step now f row"] fill_step_ids [of now f row] by (auto simp: nf)
qed

section \<open>Properties of the fills\<close>

text \<open>C11. Fills are recorded exactly once: over any sequence of appends to an order, repeated and
  unidentified fills included, every identified fill is in the metadata, none twice, and the
  total realised profit of the order is the sum over its fills.\<close>

theorem append_fills_exactly_once:
  assumes "db_order d cid = Some row" "fills_ok row"
  shows "\<exists>row'. db_order (fold (\<lambda>(now, f) d. snd (append_fill_to_order_metadata now cid f d)) fs d) cid =
        Some row' \<and>
      distinct (map f_id (o_fills row')) \<and>
      set (map f_id (o_fills row')) = set (map f_id (o_fills row)) \<union> (f_id ` snd ` set fs - {[]}) \<and>
      o_total_realized_pl row' = sum_list (map f_realized_pl (o_fills row'))"
  using append_fills_order [OF assms(1), of fs] fill_steps_ok [OF assms(2), of fs]
    fill_steps_ids [of fs row]
  unfolding fills_ok_def by blast

definition sample_fill :: "string \<Rightarrow> rat \<Rightarrow> bool \<Rightarrow> order_fill" where
  "sample_fill i pl syn =
     \<lparr>f_id = i, f_qty = Some 5, f_price = Some 100, f_realized_pl = pl, f_timestamp = Some 7,
      f_synthetic = syn, f_superseded = False, f_source = None\<rparr>"

lemma append_fills_exactly_once_witness:
  "\<exists>row'. db_order (fold (\<lambda>(now, f) d. snd (append_fill_to_order_metadata now ''a1'' f d))
        [(1, sample_fill ''x'' 3 False), (2, sample_fill ''x'' 3 False), (3, sample_fill [] 4 False)]
        sample_db) ''a1'' = Some row' \<and>
      distinct (map f_id (o_fills row')) \<and> set (map f_id (o_fills row')) = {''x''} \<and>
      o_total_realized_pl row' = sum_list (map f_realized_pl (o_fills row'))"
proof -
  let ?fs = "[(1, sample_fill ''x'' 3 False), (2, sample_fill ''x'' 3 False), (3, sample_fill [] 4 False)]"
  have ids: "set (map f_id (o_fills sample_order)) \<union> (f_id ` snd ` set ?fs - {[]}) = {''x''}"
    by (auto simp: sample_fill_def sample_order_def)
  have "db_order sample_db ''a1'' = Some sample_order" "fills_ok sample_order"
    by (simp_all add: sample_simps fills_ok_def)
  from append_fills_exactly_once [OF this, of ?fs] show ?thesis unfolding ids .
qed

text \<open>
  The pattern that finds the reconciliation's trades also matches identifiers of real fills: the
  fill of an order whose identifier has \<open>recon\<close> inside supersedes its own trade, which the
  recalculation then leaves out.
\<close>

lemma real_fill_supersedes_itself:
  "map t_superseded (db_trades (insert_trade_from_fill
     (sample_order\<lparr>o_client_order_id := ''x-recon-1''\<rparr>) (sample_fill ''x-recon-1_5'' 0 False) sample_db)) =
   [True]"
  by code_simp

section \<open>Recalculation: lemmas\<close>

text \<open>Value of a position with a decimal quantity at the mark price \<open>m\<close>.\<close>

definition signed_dec :: "string \<Rightarrow> rat \<Rightarrow> rat" where
  "signed_dec side q = (if side = ''buy'' then q else - q)"

lemma decimal_update_equity:
  assumes "0 < f" "side = ''buy'' \<or> side = ''sell''"
    "calculate_position_update_decimal q a f p side = (q', a', delta)"
  shows "q' = q + signed_dec side f \<and>
    delta + (m - a') * q' = (m - a) * q + (m - p) * signed_dec side f"
proof -
  have buy: "calculate_position_update_decimal q a f p ''buy'' =
      (if q + f = 0 then (0, 0, if q < 0 then (a - p) * f else 0)
       else if q = 0 then (f, p, 0)
       else if 0 < q then (q + f, (a * q + p * f) / (q + f), 0)
       else if 0 < q + f then (q + f, p, (a - p) * - q)
       else (q + f, a, (a - p) * f))"
    using assms(1)
    by (simp add: calculate_position_update_decimal_def realized_pnl_decimal_def Let_def mult_less_0_iff)
  have sell: "calculate_position_update_decimal q a f p ''sell'' =
      (if q - f = 0 then (0, 0, if 0 < q then (p - a) * f else 0)
       else if q = 0 then (- f, p, 0)
       else if q < 0 then (q - f, (a * - q + p * f) / (f - q), 0)
       else if q - f < 0 then (q - f, p, (p - a) * q)
       else (q - f, a, (p - a) * f))"
    using assms(1)
    by (simp add: calculate_position_update_decimal_def realized_pnl_decimal_def Let_def mult_less_0_iff)
  from assms(2) show ?thesis
  proof
    assume side: "side = ''buy''"
    note eq = assms(3) [unfolded side buy]
    consider "q + f = 0" "q < 0" | "q = 0" | "0 < q" | "q < 0" "0 < q + f" | "q < 0" "q + f < 0"
      using assms(1) by linarith
    then show ?thesis
    proof cases
      case 1
      then have "f = - q" by simp
      with eq 1 show ?thesis by (auto simp: side signed_dec_def algebra_simps)
    next
      case 3
      with assms(1) have "q + f \<noteq> 0" by simp
      with eq 3 show ?thesis by (auto simp: side signed_dec_def field_simps)
    qed (use eq assms(1) in \<open>auto simp: side signed_dec_def algebra_simps\<close>)
  next
    assume side: "side = ''sell''"
    note eq = assms(3) [unfolded side sell]
    consider "q = f" "0 < q" | "q = 0" | "q < 0" | "0 < q" "q - f < 0" | "0 < q" "0 < q - f"
      using assms(1) by linarith
    then show ?thesis
    proof cases
      case 1
      with eq show ?thesis by (auto simp: side signed_dec_def algebra_simps)
    next
      case 3
      with assms(1) have nz: "q - f \<noteq> 0" "f - q \<noteq> 0" by simp_all
      have q': "q' = q - f" and delta: "delta = 0" and a': "a' = (a * - q + p * f) / (f - q)"
        using eq 3 assms(1) by auto
      have "a' * (q - f) = a * q - p * f" using nz by (simp add: a' field_simps)
      then show ?thesis by (simp add: q' delta side signed_dec_def algebra_simps)
    qed (use eq assms(1) in \<open>auto simp: side signed_dec_def algebra_simps\<close>)
  qed
qed

definition trade_ok :: "trade_row \<Rightarrow> bool" where
  "trade_ok t \<longleftrightarrow> (t_side t = ''buy'' \<or> t_side t = ''sell'') \<and> 0 < t_qty t \<and> 0 < t_price t"

definition trade_signed :: "trade_row \<Rightarrow> rat" where
  "trade_signed t = signed_dec (t_side t) (t_qty t)"

lemma lower_sides [simp]: "lower ''buy'' = ''buy''" "lower ''sell'' = ''sell''"
  by (simp_all add: lower_def lower_char_def)

lemma recalc_loop_all:
  assumes "\<forall>t \<in> set ts. trade_ok t"
  shows "map fst (recalc_loop (\<lambda>t. True) q a ts) = map t_trade_id ts \<and>
    (\<exists>a'. sum_list (map snd (recalc_loop (\<lambda>t. True) q a ts)) +
          (m - a') * (q + sum_list (map trade_signed ts)) =
        (m - a) * q + sum_list (map (\<lambda>t. (m - t_price t) * trade_signed t) ts))"
  using assms
proof (induction ts arbitrary: q a)
  case Nil
  then show ?case by auto
next
  case (Cons t ts)
  have t: "t_side t = ''buy'' \<or> t_side t = ''sell''" "0 < t_qty t" "0 < t_price t"
    using Cons.prems by (auto simp: trade_ok_def)
  obtain q1 a1 dl where up:
    "calculate_position_update_decimal q a (t_qty t) (t_price t) (t_side t) = (q1, a1, dl)"
    by (cases "calculate_position_update_decimal q a (t_qty t) (t_price t) (t_side t)")
  have low: "lower (t_side t) = t_side t" using t(1) by auto
  have loop: "recalc_loop (\<lambda>t. True) q a (t # ts) = (t_trade_id t, dl) # recalc_loop (\<lambda>t. True) q1 a1 ts"
    using t up by (auto simp: low)
  have step: "q1 = q + trade_signed t"
    "dl + (m - a1) * q1 = (m - a) * q + (m - t_price t) * trade_signed t"
    using decimal_update_equity [OF t(2,1) up, of m] unfolding trade_signed_def by blast+
  have ok: "\<forall>t \<in> set ts. trade_ok t" using Cons.prems by simp
  from Cons.IH [OF ok, of q1 a1] obtain a' where
    ids: "map fst (recalc_loop (\<lambda>t. True) q1 a1 ts) = map t_trade_id ts"
    and eq: "sum_list (map snd (recalc_loop (\<lambda>t. True) q1 a1 ts)) +
          (m - a') * (q1 + sum_list (map trade_signed ts)) =
        (m - a1) * q1 + sum_list (map (\<lambda>t. (m - t_price t) * trade_signed t) ts)"
    by blast
  have "dl + sum_list (map snd (recalc_loop (\<lambda>t. True) q1 a1 ts)) +
      (m - a') * (q + (trade_signed t + sum_list (map trade_signed ts))) =
    (m - a) * q + ((m - t_price t) * trade_signed t + sum_list (map (\<lambda>t. (m - t_price t) * trade_signed t) ts))"
    using eq step by (simp add: add.assoc)
  with ids show ?case unfolding loop by auto
qed

lemma sum_list_sort_key: "sum_list (map f (sort_key k xs)) = (sum_list (map f xs) :: rat)"
  by (metis mset_map mset_sort sum_mset_sum_list)

lemma lookup_snd:
  assumes "distinct (map fst us)"
  shows "map (\<lambda>i. the (map_of us i)) (map fst us) = map snd us"
proof -
  have "the (map_of us (fst u)) = snd u" if "u \<in> set us" for u
    using map_of_is_SomeI [OF assms, of "fst u" "snd u"] that by simp
  then show ?thesis by simp
qed

text \<open>Rebuilt realised profit adds up: when the live trades of a strategy and symbol buy and sell
  the same total quantity, recalculating all of them makes their realised profits sum to the cash
  they brought in, and touches every one of them.\<close>

theorem recalculated_trades_realize_cash:
  assumes "distinct (map t_trade_id (db_trades d))"
    "\<forall>t \<in> set (db_trades d). trade_live s y t \<longrightarrow> trade_ok t"
    "sum_list (map trade_signed (filter (trade_live s y) (db_trades d))) = 0"
    "recalculate_trade_realized_pnl s y True sources d = ((n, k), d')"
  shows "n = k \<and> k = length (filter (trade_live s y) (db_trades d)) \<and>
    sum_list (map t_realized_pnl (filter (trade_live s y) (db_trades d'))) =
      - sum_list (map (\<lambda>t. t_price t * trade_signed t) (filter (trade_live s y) (db_trades d)))"
proof -
  let ?live = "filter (trade_live s y) (db_trades d)"
  let ?rows = "trade_rows s y d"
  let ?us = "recalc_loop (\<lambda>t. True) 0 0 ?rows"
  let ?put = "\<lambda>t. case map_of (rev ?us) (t_trade_id t) of None \<Rightarrow> t | Some r \<Rightarrow> t\<lparr>t_realized_pnl := r\<rparr>"
  have rows: "set ?rows = set ?live" "length ?rows = length ?live"
    by (auto simp: trade_rows_def)
  have ok: "\<forall>t \<in> set ?rows. trade_ok t" using assms(2) rows by auto
  note loop = recalc_loop_all [OF ok, of 0 0 0]
  have ids: "map fst ?us = map t_trade_id ?rows" using loop by blast
  have "distinct (map t_trade_id ?live)" using assms(1) by (simp add: distinct_map_filter)
  moreover have "mset (map t_trade_id ?rows) = mset (map t_trade_id ?live)"
    by (simp add: trade_rows_def)
  ultimately have "distinct (map t_trade_id ?rows)"
    by (blast dest: mset_eq_imp_distinct_iff)
  then have dist: "distinct (map fst ?us)" by (simp add: ids)
  have rev: "map_of (rev ?us) = map_of ?us"
    using dist by (subst map_of_inject_set) (simp_all add: rev_map flip: rev_map)
  have d': "db_trades d' = map ?put (db_trades d)" "n = length ?rows" "k = length ?us"
    using assms(4) by (auto simp: recalculate_trade_realized_pnl_def Let_def)
  have live: "trade_live s y (?put t) = trade_live s y t" for t
    by (auto simp: trade_live_def split: option.splits)
  have "map_of ?us (t_trade_id t) \<noteq> None" if "t \<in> set ?live" for t
    using that ids rows(1) by (metis image_eqI map_of_eq_None_iff set_map)
  then have "t_realized_pnl (?put t) = the (map_of ?us (t_trade_id t))" if "t \<in> set ?live" for t
    using that by (fastforce simp: rev split: option.splits)
  then have "map t_realized_pnl (map ?put ?live) = map (\<lambda>t. the (map_of ?us (t_trade_id t))) ?live"
    unfolding map_map o_def by (rule map_cong [OF refl])
  moreover have "filter (trade_live s y) (db_trades d') = map ?put ?live"
    by (simp add: d' filter_map o_def live)
  ultimately have "sum_list (map t_realized_pnl (filter (trade_live s y) (db_trades d'))) =
      sum_list (map (\<lambda>t. the (map_of ?us (t_trade_id t))) ?live)"
    by (simp only:)
  also have "\<dots> = sum_list (map (\<lambda>t. the (map_of ?us (t_trade_id t))) ?rows)"
    unfolding trade_rows_def by (simp add: sum_list_sort_key)
  also have "\<dots> = sum_list (map snd ?us)"
    using lookup_snd [OF dist] unfolding ids map_map o_def by (rule arg_cong)
  also have "\<dots> = - sum_list (map (\<lambda>t. t_price t * trade_signed t) ?live)"
  proof -
    obtain a' where "sum_list (map snd ?us) + (0 - a') * (0 + sum_list (map trade_signed ?rows)) =
        (0 - 0) * 0 + sum_list (map (\<lambda>t. (0 - t_price t) * trade_signed t) ?rows)"
      using loop by blast
    moreover have "sum_list (map trade_signed ?rows) = 0"
      using assms(3) unfolding trade_rows_def sum_list_sort_key .
    ultimately have "sum_list (map snd ?us) = sum_list (map (\<lambda>t. - (t_price t * trade_signed t)) ?live)"
      unfolding trade_rows_def by (simp add: sum_list_sort_key)
    then show ?thesis by (simp add: uminus_sum_list_map o_def)
  qed
  finally show ?thesis using d' rows ids by (metis length_map)
qed

definition sample_trade :: "string \<Rightarrow> string \<Rightarrow> rat \<Rightarrow> rat \<Rightarrow> rat \<Rightarrow> trade_row" where
  "sample_trade i side q p t =
     \<lparr>t_trade_id = i, t_client_order_id = ''a1'', t_broker_order_id = None, t_strategy_id = ''s'',
      t_symbol = ''AAPL'', t_side = side, t_qty = q, t_price = p, t_executed_at = t,
      t_realized_pnl = 0, t_source = None, t_synthetic = False, t_superseded = False\<rparr>"

lemma recalculated_trades_realize_cash_witness:
  "sum_list (map t_realized_pnl (filter (trade_live ''s'' ''AAPL'') (db_trades (snd
      (recalculate_trade_realized_pnl ''s'' ''AAPL'' True None
        (sample_db\<lparr>db_trades := [sample_trade ''t2'' ''sell'' 3 12 2, sample_trade ''t1'' ''buy'' 3 10 1]\<rparr>)))))) = 6"
proof -
  let ?d = "sample_db\<lparr>db_trades := [sample_trade ''t2'' ''sell'' 3 12 2, sample_trade ''t1'' ''buy'' 3 10 1]\<rparr>"
  obtain n k d' where eq: "recalculate_trade_realized_pnl ''s'' ''AAPL'' True None ?d = ((n, k), d')"
    by (metis prod.collapse)
  have "sum_list (map t_realized_pnl (filter (trade_live ''s'' ''AAPL'') (db_trades d'))) =
      - sum_list (map (\<lambda>t. t_price t * trade_signed t) (filter (trade_live ''s'' ''AAPL'') (db_trades ?d)))"
    using recalculated_trades_realize_cash [OF _ _ _ eq]
    by (simp add: sample_trade_def trade_live_def trade_ok_def trade_signed_def signed_dec_def)
  then show ?thesis
    unfolding eq by (simp add: sample_trade_def trade_live_def trade_signed_def signed_dec_def)
qed

end
