(* ===== verification/Sha256.thy ===== *)
theory Sha256
  imports Prelude "HOL-Library.Word"
begin

text \<open>
  SHA-256 on byte strings, as \<^verbatim>\<open>hashlib.sha256(...).hexdigest()\<close> computes it: padding to blocks of
  sixty-four bytes, the message schedule, sixty-four rounds on eight words of 32 bits whose
  addition wraps around, and the digest in lower-case hexadecimal.  The lemmas say what the source
  relies on: the digest is sixty-four hexadecimal digits.
\<close>

unbundle bit_operations_syntax

type_synonym word32 = "32 word"

section \<open>The compression function\<close>

text \<open>
  The round constants are the first 32 bits of the fractional parts of the cube roots of the first
  sixty-four primes, the initial hash those of the square roots of the first eight, in decimal.
\<close>

definition sha_k :: "word32 list" where
  "sha_k =
     [1116352408, 1899447441, 3049323471, 3921009573, 961987163, 1508970993, 2453635748,
      2870763221, 3624381080, 310598401, 607225278, 1426881987, 1925078388, 2162078206,
      2614888103, 3248222580, 3835390401, 4022224774, 264347078, 604807628, 770255983,
      1249150122, 1555081692, 1996064986, 2554220882, 2821834349, 2952996808, 3210313671,
      3336571891, 3584528711, 113926993, 338241895, 666307205, 773529912, 1294757372,
      1396182291, 1695183700, 1986661051, 2177026350, 2456956037, 2730485921, 2820302411,
      3259730800, 3345764771, 3516065817, 3600352804, 4094571909, 275423344, 430227734,
      506948616, 659060556, 883997877, 958139571, 1322822218, 1537002063, 1747873779,
      1955562222, 2024104815, 2227730452, 2361852424, 2428436474, 2756734187, 3204031479,
      3329325298]"

definition sha_h0 :: "word32 list" where
  "sha_h0 =
     [1779033703, 3144134277, 1013904242, 2773480762, 1359893119, 2600822924, 528734635,
      1541459225]"

definition sha_ch :: "word32 \<Rightarrow> word32 \<Rightarrow> word32 \<Rightarrow> word32" where
  "sha_ch x y z = (x AND y) XOR (NOT x AND z)"

definition sha_maj :: "word32 \<Rightarrow> word32 \<Rightarrow> word32 \<Rightarrow> word32" where
  "sha_maj x y z = (x AND y) XOR (x AND z) XOR (y AND z)"

definition sha_rotr :: "nat \<Rightarrow> word32 \<Rightarrow> word32" where
  "sha_rotr n x = drop_bit n x OR push_bit (32 - n) x"

definition sha_big0 :: "word32 \<Rightarrow> word32" where
  "sha_big0 x = sha_rotr 2 x XOR sha_rotr 13 x XOR sha_rotr 22 x"

definition sha_big1 :: "word32 \<Rightarrow> word32" where
  "sha_big1 x = sha_rotr 6 x XOR sha_rotr 11 x XOR sha_rotr 25 x"

definition sha_small0 :: "word32 \<Rightarrow> word32" where
  "sha_small0 x = sha_rotr 7 x XOR sha_rotr 18 x XOR drop_bit 3 x"

definition sha_small1 :: "word32 \<Rightarrow> word32" where
  "sha_small1 x = sha_rotr 17 x XOR sha_rotr 19 x XOR drop_bit 10 x"

text \<open>The schedule, kept with its newest word first.\<close>

fun sha_extend :: "nat \<Rightarrow> word32 list \<Rightarrow> word32 list" where
  "sha_extend 0 ws = ws"
| "sha_extend (Suc n) ws =
     sha_extend n ((sha_small1 (ws ! 1) + ws ! 6 + sha_small0 (ws ! 14) + ws ! 15) # ws)"

fun sha_round :: "word32 \<times> word32 \<Rightarrow> word32 list \<Rightarrow> word32 list" where
  "sha_round (k, w) [a, b, c, d, e, f, g, h] =
     (let t1 = h + sha_big1 e + sha_ch e f g + k + w;
          t2 = sha_big0 a + sha_maj a b c
      in [t1 + t2, a, b, c, d + t1, e, f, g])"
| "sha_round _ hs = hs"

definition sha_block :: "word32 list \<Rightarrow> word32 list \<Rightarrow> word32 list" where
  "sha_block block hs =
     map2 (+) hs (fold sha_round (zip sha_k (rev (sha_extend 48 (rev block)))) hs)"

section \<open>Padding and blocks\<close>

fun bytes_be :: "nat \<Rightarrow> nat \<Rightarrow> nat list" where
  "bytes_be 0 n = []"
| "bytes_be (Suc k) n = bytes_be k (n div 256) @ [n mod 256]"

definition sha_pad :: "nat list \<Rightarrow> nat list" where
  "sha_pad bs =
     bs @ [128] @ replicate ((119 - length bs mod 64) mod 64) 0 @ bytes_be 8 (8 * length bs)"

fun be_words :: "nat list \<Rightarrow> word32 list" where
  "be_words (a # b # c # d # bs) =
     of_nat (((a * 256 + b) * 256 + c) * 256 + d) # be_words bs"
| "be_words _ = []"

fun sha_blocks :: "nat \<Rightarrow> word32 list \<Rightarrow> word32 list \<Rightarrow> word32 list" where
  "sha_blocks 0 ws hs = hs"
| "sha_blocks (Suc n) ws hs = sha_blocks n (drop 16 ws) (sha_block (take 16 ws) hs)"

definition sha256_words :: "nat list \<Rightarrow> word32 list" where
  "sha256_words bs = (let ws = be_words (sha_pad bs) in sha_blocks (length ws div 16) ws sha_h0)"

section \<open>The hexadecimal digest\<close>

definition hex_digit :: "nat \<Rightarrow> char" where
  "hex_digit n = char_of (if n mod 16 < 10 then 48 + n mod 16 else 87 + n mod 16)"

fun hex_be :: "nat \<Rightarrow> nat \<Rightarrow> string" where
  "hex_be 0 n = []"
| "hex_be (Suc k) n = hex_be k (n div 16) @ [hex_digit n]"

definition sha256_hexdigest :: "string \<Rightarrow> string" where
  "sha256_hexdigest s = concat (map (\<lambda>w. hex_be 8 (unat w)) (sha256_words (map of_char s)))"

definition is_lower_hex :: "char \<Rightarrow> bool" where
  "is_lower_hex c \<longleftrightarrow> is_digit c \<or> 97 \<le> (of_char c :: nat) \<and> of_char c \<le> (102 :: nat)"

lemma hex_digit_is_hex: "is_lower_hex (hex_digit n)"
proof -
  have "n mod 16 < 16" by simp
  then have "48 + n mod 16 < 256" "87 + n mod 16 < 256" by linarith+
  then show ?thesis using \<open>n mod 16 < 16\<close>
    by (auto simp: is_lower_hex_def is_digit_def hex_digit_def)
qed

lemma length_hex_be [simp]: "length (hex_be k n) = k"
  by (induction k arbitrary: n) simp_all

lemma hex_be_is_hex: "c \<in> set (hex_be k n) \<Longrightarrow> is_lower_hex c"
  by (induction k arbitrary: n) (auto simp: hex_digit_is_hex)

lemma length_sha_round [simp]: "length (sha_round kw hs) = length hs"
  by (induction kw hs rule: sha_round.induct) (simp_all add: Let_def)

lemma length_fold_sha_round [simp]: "length (fold sha_round kws hs) = length hs"
  by (induction kws arbitrary: hs) simp_all

lemma length_sha_block [simp]: "length (sha_block block hs) = length hs"
  by (simp add: sha_block_def)

lemma length_sha_blocks [simp]: "length (sha_blocks n ws hs) = length hs"
  by (induction n arbitrary: ws hs) simp_all

lemma length_sha256_words: "length (sha256_words bs) = 8"
  by (simp add: sha256_words_def sha_h0_def Let_def)

lemma sum_list_const: "(\<And>x. x \<in> set xs \<Longrightarrow> f x = (c :: nat)) \<Longrightarrow> sum_list (map f xs) = length xs * c"
  by (induction xs) simp_all

lemma length_sha256_hexdigest: "length (sha256_hexdigest s) = 64"
proof -
  have "sum_list (map (length \<circ> (\<lambda>w. hex_be 8 (unat w))) ws) = length ws * 8" for ws :: "word32 list"
    by (rule sum_list_const) simp
  then show ?thesis by (simp add: sha256_hexdigest_def length_concat length_sha256_words)
qed

lemma sha256_hexdigest_hex: "c \<in> set (sha256_hexdigest s) \<Longrightarrow> is_lower_hex c"
  by (auto simp: sha256_hexdigest_def dest: hex_be_is_hex)

text \<open>The padded message is a whole number of blocks.\<close>

lemma length_bytes_be [simp]: "length (bytes_be k n) = k"
  by (induction k arbitrary: n) simp_all

lemma sha_pad_blocks: "length (sha_pad bs) mod 64 = 0"
proof -
  let ?n = "length bs"
  let ?m = "?n mod 64"
  let ?z = "(119 - ?m) mod 64"
  have "?n + 1 + ?z + 8 = 64 * (?n div 64) + (?m + 9 + ?z)"
    using mult_div_mod_eq [of 64 ?n] by linarith
  moreover have "?m + 9 + ?z = (if ?m \<le> 55 then 64 else 128)"
  proof (cases "?m \<le> 55")
    case True
    then have "?z = 55 - ?m" using mod_add_self1 [of 64 "55 - ?m"] by simp
    with True show ?thesis by simp
  next
    case False
    moreover have "?m < 64" by simp
    ultimately show ?thesis by simp
  qed
  ultimately have "(?n + 1 + ?z + 8) mod 64 = 0" by simp
  then show ?thesis by (simp add: sha_pad_def add_ac)
qed

end
