(* ===== verification/Webhook.thy ===== *)
theory Webhook
  imports Order_Fills Sha256
begin

text \<open>
  The order webhook of \<^verbatim>\<open>apps/execution_gateway/routes/webhooks.py\<close> with its signature check
  (\<^verbatim>\<open>webhook_security.py\<close>) and its helper for timestamps (\<^verbatim>\<open>services/order_helpers.py\<close>).  The body is
  bytes; the JSON decoder and the parser of ISO dates are parameters.  A number of the payload is
  absent, the empty text, a text that is no number, or a number.  The transaction of a fill either
  commits all its statements or, on an error, none.  The invalidation of the performance cache and
  the metrics are left out.
\<close>

section \<open>The signature\<close>

definition sha256_bytes :: "nat list \<Rightarrow> nat list" where
  "sha256_bytes bs = concat (map (\<lambda>w. bytes_be 4 (unat w)) (sha256_words bs))"

definition hmac_key :: "nat list \<Rightarrow> nat list" where
  "hmac_key key =
     (let k = (if length key > 64 then sha256_bytes key else key) in k @ replicate (64 - length k) 0)"

definition xor_bytes :: "nat \<Rightarrow> nat list \<Rightarrow> nat list" where
  "xor_bytes m bs = map (\<lambda>b. unat ((of_nat b :: 8 word) XOR of_nat m)) bs"

text \<open>\<open>hmac.new(key, msg, hashlib.sha256).hexdigest()\<close>, the pads being 0x36 and 0x5c.\<close>

definition hmac_sha256_hexdigest :: "string \<Rightarrow> string \<Rightarrow> string" where
  "hmac_sha256_hexdigest key msg =
     (let k = hmac_key (map of_char key);
          inner = sha256_bytes (xor_bytes 54 k @ map of_char msg)
      in sha256_hexdigest (map char_of (xor_bytes 92 k @ inner)))"

definition verify_webhook_signature :: "string \<Rightarrow> string \<Rightarrow> string \<Rightarrow> bool" where
  "verify_webhook_signature payload signature secret =
     (if payload = [] \<or> signature = [] \<or> secret = [] then False
      else hmac_sha256_hexdigest secret payload = lower signature)"

definition generate_webhook_signature :: "string \<Rightarrow> string \<Rightarrow> string" where
  "generate_webhook_signature payload secret = hmac_sha256_hexdigest secret payload"

definition extract_signature_from_header :: "string option \<Rightarrow> string option" where
  "extract_signature_from_header header =
     (case header of
        None \<Rightarrow> None
      | Some h \<Rightarrow>
          if h = [] then None
          else if take 7 h = ''sha256='' then Some (drop 7 h) else Some h)"

definition webhook_auth :: "string option \<Rightarrow> string \<Rightarrow> string option \<Rightarrow> string \<Rightarrow> unit result" where
  "webhook_auth secret environment header body =
     (case secret of
        Some s \<Rightarrow>
          if s \<noteq> [] then
            (case extract_signature_from_header header of
               None \<Rightarrow> Inl (HTTPException 401 ''Missing webhook signature'')
             | Some sg \<Rightarrow>
                 if sg = [] then Inl (HTTPException 401 ''Missing webhook signature'')
                 else if verify_webhook_signature body sg s then Inr ()
                 else Inl (HTTPException 401 ''Invalid webhook signature''))
          else if environment \<notin> {''dev'', ''test''}
          then Inl (HTTPException 503 ''Webhook verification unavailable - secret not configured'')
          else Inr ()
      | None \<Rightarrow>
          if environment \<notin> {''dev'', ''test''}
          then Inl (HTTPException 503 ''Webhook verification unavailable - secret not configured'')
          else Inr ())"

section \<open>The payload\<close>

datatype num_field = NumAbsent | NumEmpty | NumBad | Num rat

record webhook_payload =
  w_event :: "string option"
  w_client_order_id :: "string option"
  w_broker_order_id :: "string option"
  w_status :: string
  w_filled_qty :: num_field
  w_filled_avg_price :: num_field
  w_price :: num_field
  w_execution_id :: "string option"
  w_timestamp :: "string option"
  w_filled_at :: "string option"
  w_order_updated_at :: "string option"
  w_order_created_at :: "string option"
  w_order_filled_at :: "string option"

datatype webhook_reply = Processed string | Ignored string

definition replace_z :: "string \<Rightarrow> string" where
  "replace_z s = concat (map (\<lambda>c. if c = CHR ''Z'' then ''+00:00'' else [c]) s)"

fun parse_webhook_timestamp ::
  "(string \<Rightarrow> rat option) \<Rightarrow> string option list \<Rightarrow> rat \<Rightarrow> rat" where
  "parse_webhook_timestamp fromiso [] dflt = dflt"
| "parse_webhook_timestamp fromiso (None # ts) dflt = parse_webhook_timestamp fromiso ts dflt"
| "parse_webhook_timestamp fromiso (Some s # ts) dflt =
     (if s = [] then parse_webhook_timestamp fromiso ts dflt
      else case fromiso (replace_z s) of
        Some t \<Rightarrow> t
      | None \<Rightarrow> parse_webhook_timestamp fromiso ts dflt)"

definition SOURCE_PRIORITY_WEBHOOK :: int where
  "SOURCE_PRIORITY_WEBHOOK = 3"

section \<open>The handler\<close>

definition bad_request :: "'a result" where
  "bad_request = Inl (HTTPException 400 ''Webhook processing failed'')"

text \<open>The \<open>except\<close> clauses: an integrity error of the database is none of them.\<close>

fun webhook_error :: "py_error \<Rightarrow> 'a result" where
  "webhook_error (ValueError m) = bad_request"
| "webhook_error (KeyError m) = bad_request"
| "webhook_error (TypeError m) = bad_request"
| "webhook_error DecodeError = bad_request"
| "webhook_error InvalidOperation = bad_request"
| "webhook_error e = Inl e"

definition handle_status_update ::
  "(string \<Rightarrow> rat option) \<Rightarrow> rat \<Rightarrow> webhook_payload \<Rightarrow> string \<Rightarrow> db \<Rightarrow> webhook_reply result \<times> db" where
  "handle_status_update fromiso now p cid d =
     (case get_order_by_client_id cid d of
        Inl e \<Rightarrow> (bad_request, d)
      | Inr existing \<Rightarrow>
          if (case existing of Some r \<Rightarrow> o_status r = ''replaced'' | None \<Rightarrow> False)
          then (Inr (Ignored ''order_replaced''), d)
          else if w_filled_qty p = NumBad \<or> w_filled_avg_price p = NumBad then (bad_request, d)
          else
            (case update_order_status_cas now
                \<lparr>c_client_order_id = cid, c_status = w_status p,
                 c_broker_updated_at = parse_webhook_timestamp fromiso
                   [w_order_updated_at p, w_timestamp p, w_order_created_at p] now,
                 c_status_rank = status_rank_for (w_status p),
                 c_source_priority = SOURCE_PRIORITY_WEBHOOK,
                 c_filled_qty = Some (case w_filled_qty p of Num q \<Rightarrow> q | _ \<Rightarrow> 0),
                 c_filled_avg_price = (case w_filled_avg_price p of Num q \<Rightarrow> Some q | _ \<Rightarrow> None),
                 c_filled_at = None, c_broker_order_id = w_broker_order_id p,
                 c_broker_event_id = w_execution_id p, c_error_message = None\<rparr> d of
               (Inl e, d') \<Rightarrow> (webhook_error e, d')
             | (Inr None, d') \<Rightarrow> (Inr (Ignored ''order_not_found''), d')
             | (Inr (Some r), d') \<Rightarrow> (Inr (Processed cid), d')))"

definition webhook_fill :: "string \<Rightarrow> rat \<Rightarrow> int \<Rightarrow> rat \<Rightarrow> rat \<Rightarrow> rat \<Rightarrow> order_fill" where
  "webhook_fill cid filled_qty increment price realized_delta fill_timestamp =
     \<lparr>f_id = cid @ ''_'' @ show_int (py_int filled_qty), f_qty = Some (of_int increment),
      f_price = Some price, f_realized_pl = realized_delta, f_timestamp = Some fill_timestamp,
      f_synthetic = False, f_superseded = False, f_source = None\<rparr>"

definition apply_increment ::
  "rat \<Rightarrow> string \<Rightarrow> order_row \<Rightarrow> rat \<Rightarrow> int \<Rightarrow> rat \<Rightarrow> rat \<Rightarrow> db \<Rightarrow> unit result \<times> db" where
  "apply_increment now cid order filled_qty increment price fill_timestamp d =
     (let old_realized = (case db_position d (o_symbol order) of Some r \<Rightarrow> p_realized_pl r | None \<Rightarrow> 0)
      in case update_position_on_fill_with_conn now (o_symbol order) increment price (o_side order) d of
           (Inl e, d1) \<Rightarrow> (Inl e, d1)
         | (Inr position, d1) \<Rightarrow>
             let realized_delta = p_realized_pl position - old_realized
             in (Inr (), snd (append_fill_to_order_metadata now cid
                  (webhook_fill cid filled_qty increment price realized_delta fill_timestamp) d1)))"

definition handle_fill ::
  "(string \<Rightarrow> rat option) \<Rightarrow> rat \<Rightarrow> webhook_payload \<Rightarrow> string \<Rightarrow> rat \<Rightarrow> rat \<Rightarrow> db \<Rightarrow>
   webhook_reply result \<times> db" where
  "handle_fill fromiso now p cid filled_qty filled_avg_price d =
     (let price = (case w_price p of Num x \<Rightarrow> x | _ \<Rightarrow> filled_avg_price);
          fill_timestamp = parse_webhook_timestamp fromiso
            [w_timestamp p, w_filled_at p, w_order_filled_at p] now;
          broker_updated_at = parse_webhook_timestamp fromiso
            [w_order_updated_at p, w_timestamp p, w_order_filled_at p] fill_timestamp
      in case get_order_for_update cid d of
           Inl e \<Rightarrow> (bad_request, d)
         | Inr None \<Rightarrow> (Inr (Ignored ''order_not_found''), d)
         | Inr (Some order) \<Rightarrow>
             if o_status order = ''replaced'' then (Inr (Ignored ''order_replaced''), d)
             else
               let increment = py_int filled_qty - py_int (o_filled_qty order)
               in case (if increment > 0
                        then apply_increment now cid order filled_qty increment price fill_timestamp d
                        else (Inr (), d)) of
                    (Inl e, _) \<Rightarrow> (webhook_error e, d)
                  | (Inr _, d1) \<Rightarrow>
                    (case update_order_status_with_conn now cid (w_status p) filled_qty filled_avg_price
                      (if w_status p = ''filled'' then Some fill_timestamp else None)
                      (w_broker_order_id p) (Some broker_updated_at)
                      (Some (status_rank_for (w_status p))) (Some SOURCE_PRIORITY_WEBHOOK)
                      (w_execution_id p) d1 of
                    (Inl e, _) \<Rightarrow> (webhook_error e, d)
                  | (Inr _, d2) \<Rightarrow> (Inr (Processed cid), d2)))"

definition process_webhook ::
  "(string \<Rightarrow> rat option) \<Rightarrow> rat \<Rightarrow> webhook_payload \<Rightarrow> db \<Rightarrow> webhook_reply result \<times> db" where
  "process_webhook fromiso now p d =
     (case w_client_order_id p of
        None \<Rightarrow> (Inr (Ignored ''missing_client_order_id''), d)
      | Some cid \<Rightarrow>
          if cid = [] then (Inr (Ignored ''missing_client_order_id''), d)
          else if w_event p \<notin> {Some ''fill'', Some ''partial_fill''} \<or> w_filled_qty p = NumAbsent \<or>
            w_filled_avg_price p = NumAbsent
          then handle_status_update fromiso now p cid d
          else (case (w_filled_qty p, w_filled_avg_price p) of
                  (Num q, Num a) \<Rightarrow> handle_fill fromiso now p cid q a d
                | _ \<Rightarrow> (bad_request, d)))"

definition handle_order_webhook ::
  "(string \<Rightarrow> webhook_payload option) \<Rightarrow> (string \<Rightarrow> rat option) \<Rightarrow> string option \<Rightarrow> string \<Rightarrow>
   string option \<Rightarrow> string \<Rightarrow> rat \<Rightarrow> db \<Rightarrow> webhook_reply result \<times> db" where
  "handle_order_webhook decode fromiso secret environment header body now d =
     (case webhook_auth secret environment header body of
        Inl e \<Rightarrow> (Inl e, d)
      | Inr _ \<Rightarrow>
          (case decode body of
             None \<Rightarrow> (bad_request, d)
           | Some p \<Rightarrow> process_webhook fromiso now p d))"

text \<open>\<open>handle_idempotency_race\<close>: the stored order answers a submission that lost the race.\<close>

definition handle_idempotency_race :: "string \<Rightarrow> db \<Rightarrow> order_row result" where
  "handle_idempotency_race cid d =
     (case get_order_by_client_id cid d of
        Inl e \<Rightarrow> Inl e
      | Inr (Some r) \<Rightarrow> Inr r
      | Inr None \<Rightarrow> Inl (HTTPException 500 ''Database inconsistency: order not found after UniqueViolation''))"

section \<open>Lemmas\<close>

lemma hmac_hex: "c \<in> set (hmac_sha256_hexdigest k m) \<Longrightarrow> is_lower_hex c"
  by (auto simp: hmac_sha256_hexdigest_def Let_def dest: sha256_hexdigest_hex)

lemma length_hmac: "length (hmac_sha256_hexdigest k m) = 64"
  by (simp add: hmac_sha256_hexdigest_def Let_def length_sha256_hexdigest)

lemma lower_hex_id: "\<forall>c \<in> set s. is_lower_hex c \<Longrightarrow> lower s = s"
  by (induction s) (auto simp: lower_def lower_char_def is_lower_hex_def is_digit_def Let_def)

text \<open>A generated signature is accepted for its own payload, in either case and with the prefix.\<close>

lemma signature_roundtrip:
  assumes "payload \<noteq> []" "secret \<noteq> []"
  shows "verify_webhook_signature payload (generate_webhook_signature payload secret) secret"
proof -
  have "hmac_sha256_hexdigest secret payload \<noteq> []"
    using length_hmac [of secret payload] by auto
  with assms show ?thesis
    by (simp add: verify_webhook_signature_def generate_webhook_signature_def lower_hex_id hmac_hex)
qed

lemma py_int_mono:
  assumes "x \<le> y"
  shows "py_int x \<le> py_int y"
proof (cases "0 \<le> y")
  case True
  have "\<lceil>x\<rceil> \<le> \<lfloor>y\<rfloor>" if "\<not> 0 \<le> x"
  proof -
    have "\<lceil>x\<rceil> \<le> 0" using that by (simp add: ceiling_le_iff)
    also have "0 \<le> \<lfloor>y\<rfloor>" using True by simp
    finally show ?thesis .
  qed
  with True floor_mono [OF assms] show ?thesis by (simp add: py_int_def)
next
  case False
  with assms have "\<not> 0 \<le> x" by simp
  with False ceiling_mono [OF assms] show ?thesis by (simp only: py_int_def if_False)
qed

lemma py_int_of_int [simp]: "py_int (of_int i) = i"
  by (simp add: py_int_def)

lemma update_qty: "fst (calculate_position_update q avg rl f price side) = q + signed_qty side f"
  by (simp add: calculate_position_update_def signed_qty_def Let_def)

lemma update_position_cases:
  obtains
    (written) row where
      "update_position_on_fill_with_conn now s q price side d = (Inr row, db_set_position s row d)"
      "p_qty row = of_int (get_position_by_symbol s d + signed_qty side q)"
  | (refused) "update_position_on_fill_with_conn now s q price side d =
      (Inl (IntegrityError ''positions_avg_entry_price_nonnegative''), d)"
proof -
  obtain row where row: "update_position_on_fill_with_conn now s q price side d = write_position s row d"
    "p_qty row = of_int (fst (position_or_flat (db_position d s)) + signed_qty side q)"
    by (simp add: update_position_on_fill_with_conn_def case_prod_beta Let_def update_qty
        split: option.splits)
  have "fst (position_or_flat (db_position d s)) = get_position_by_symbol s d"
    by (simp add: get_position_by_symbol_def position_or_flat_def split: option.splits)
  with row show thesis
    by (cases s row d rule: write_position_cases) (auto intro: written refused)
qed

lemma update_position_order [simp]:
  "db_order (snd (update_position_on_fill_with_conn now s q price side d)) c = db_order d c"
  by (simp add: update_position_on_fill_with_conn_def Let_def split: prod.splits option.splits)

lemma get_position_cong:
  "db_position d' s = db_position d s \<Longrightarrow> get_position_by_symbol s d' = get_position_by_symbol s d"
  by (simp add: get_position_by_symbol_def)

text \<open>
  What an increment does: the position moves by it and the order gets a fill, or the position's
  constraint refuses the row and nothing changes.
\<close>

lemma apply_increment_cases:
  obtains
    (applied) d1 f where "apply_increment now cid r q i price t d = (Inr (), d1)"
      "get_position_by_symbol (o_symbol r) d1 = get_position_by_symbol (o_symbol r) d + signed_qty (o_side r) i"
      "db_order d1 cid = map_option (fill_step now f) (db_order d cid)"
  | (refused) "apply_increment now cid r q i price t d =
      (Inl (IntegrityError ''positions_avg_entry_price_nonnegative''), d)"
proof (cases rule: update_position_cases [of now "o_symbol r" i price "o_side r" d])
  case (written row)
  let ?d1 = "db_set_position (o_symbol r) row d"
  let ?f = "webhook_fill cid q i price (p_realized_pl row -
      (case db_position d (o_symbol r) of Some p \<Rightarrow> p_realized_pl p | None \<Rightarrow> 0)) t"
  have run: "apply_increment now cid r q i price t d =
      (Inr (), snd (append_fill_to_order_metadata now cid ?f ?d1))"
    by (simp add: apply_increment_def written(1) Let_def)
  have "get_position_by_symbol (o_symbol r) (snd (append_fill_to_order_metadata now cid ?f ?d1)) =
      py_int (of_int (get_position_by_symbol (o_symbol r) d + signed_qty (o_side r) i))"
    by (simp add: get_position_by_symbol_def written(2))
  also have "\<dots> = get_position_by_symbol (o_symbol r) d + signed_qty (o_side r) i" by (rule py_int_of_int)
  finally show thesis using run by (intro applied) (auto simp: append_fill_order)
next
  case refused
  then show thesis using that(2) by (simp add: apply_increment_def)
qed

lemma fill_step_filled [simp]:
  "o_filled_qty (fill_step now f r) = o_filled_qty r" "o_symbol (fill_step now f r) = o_symbol r"
  "o_side (fill_step now f r) = o_side r" "o_status (fill_step now f r) = o_status r"
  "o_is_terminal (fill_step now f r) = o_is_terminal r"
  by (simp_all add: fill_step_def)

text \<open>The state before the status update of a fill, and the update of that state.\<close>

definition after_increment ::
  "(string \<Rightarrow> rat option) \<Rightarrow> rat \<Rightarrow> webhook_payload \<Rightarrow> string \<Rightarrow> rat \<Rightarrow> rat \<Rightarrow> order_row \<Rightarrow> db \<Rightarrow>
   unit result \<times> db" where
  "after_increment fromiso now p cid q a r d =
     (if py_int q - py_int (o_filled_qty r) > 0
      then apply_increment now cid r q (py_int q - py_int (o_filled_qty r))
        (case w_price p of Num x \<Rightarrow> x | _ \<Rightarrow> a)
        (parse_webhook_timestamp fromiso [w_timestamp p, w_filled_at p, w_order_filled_at p] now) d
      else (Inr (), d))"

definition fill_cas ::
  "(string \<Rightarrow> rat option) \<Rightarrow> rat \<Rightarrow> webhook_payload \<Rightarrow> string \<Rightarrow> rat \<Rightarrow> rat \<Rightarrow> cas_update" where
  "fill_cas fromiso now p cid q a =
     (let t = parse_webhook_timestamp fromiso [w_timestamp p, w_filled_at p, w_order_filled_at p] now in
      \<lparr>c_client_order_id = cid, c_status = w_status p,
       c_broker_updated_at = parse_webhook_timestamp fromiso
         [w_order_updated_at p, w_timestamp p, w_order_filled_at p] t,
       c_status_rank = status_rank_for (w_status p), c_source_priority = SOURCE_PRIORITY_WEBHOOK,
       c_filled_qty = Some q, c_filled_avg_price = Some a,
       c_filled_at = (if w_status p = ''filled'' then Some t else None),
       c_broker_order_id = w_broker_order_id p, c_broker_event_id = w_execution_id p,
       c_error_message = None\<rparr>)"

lemma handle_fill_eq:
  assumes "db_order d cid = Some r"
  shows "handle_fill fromiso now p cid q a d =
    (if o_status r \<notin> set ORDER_STATUSES then (bad_request, d)
     else if o_status r = ''replaced'' then (Inr (Ignored ''order_replaced''), d)
     else (case after_increment fromiso now p cid q a r d of
             (Inl e, _) \<Rightarrow> (webhook_error e, d)
           | (Inr _, d1) \<Rightarrow>
               (case update_order_status_cas now (fill_cas fromiso now p cid q a) d1 of
                  (Inl e, _) \<Rightarrow> (webhook_error e, d)
                | (Inr _, d2) \<Rightarrow> (Inr (Processed cid), d2))))"
  using assms
  by (simp add: handle_fill_def get_order_for_update_def order_detail_def Let_def
      update_order_status_with_conn_def after_increment_def fill_cas_def
      cong del: sum.case_cong_weak prod.case_cong_weak)

lemma webhook_error_not_Inr [simp]: "webhook_error e \<noteq> Inr x"
  by (cases e) (simp_all add: bad_request_def)

lemma handle_fill_cases:
  assumes "db_order d cid = Some r" "handle_fill fromiso now p cid q a d = (Inr (Processed c), d')"
  obtains d1 x where "c = cid" "o_status r \<in> set ORDER_STATUSES" "o_status r \<noteq> ''replaced''"
    "after_increment fromiso now p cid q a r d = (Inr (), d1)"
    "update_order_status_cas now (fill_cas fromiso now p cid q a) d1 = (Inr x, d')"
  using assms(2) unfolding handle_fill_eq [OF assms(1)]
  by (auto simp: bad_request_def split: if_splits prod.splits sum.splits)

lemma after_increment_effect:
  assumes "db_order d cid = Some r" "after_increment fromiso now p cid q a r d = (Inr (), d1)"
  shows "\<exists>r1. db_order d1 cid = Some r1 \<and>
    o_filled_qty r1 = o_filled_qty r \<and> o_symbol r1 = o_symbol r \<and> o_side r1 = o_side r \<and>
    o_status r1 = o_status r \<and> o_is_terminal r1 = o_is_terminal r"
    and "get_position_by_symbol (o_symbol r) d1 = get_position_by_symbol (o_symbol r) d +
       signed_qty (o_side r) (max 0 (py_int q - py_int (o_filled_qty r)))"
proof -
  let ?i = "py_int q - py_int (o_filled_qty r)"
  have "(\<exists>r1. db_order d1 cid = Some r1 \<and>
    o_filled_qty r1 = o_filled_qty r \<and> o_symbol r1 = o_symbol r \<and> o_side r1 = o_side r \<and>
    o_status r1 = o_status r \<and> o_is_terminal r1 = o_is_terminal r) \<and>
    get_position_by_symbol (o_symbol r) d1 = get_position_by_symbol (o_symbol r) d +
       signed_qty (o_side r) (max 0 ?i)"
  proof (cases "?i > 0")
    case True
    then have run: "apply_increment now cid r q ?i (case w_price p of Num x \<Rightarrow> x | _ \<Rightarrow> a)
        (parse_webhook_timestamp fromiso [w_timestamp p, w_filled_at p, w_order_filled_at p] now) d = (Inr (), d1)"
      using assms(2) by (simp add: after_increment_def)
    show ?thesis
      by (rule apply_increment_cases [of now cid r q ?i "case w_price p of Num x \<Rightarrow> x | _ \<Rightarrow> a"
            "parse_webhook_timestamp fromiso [w_timestamp p, w_filled_at p, w_order_filled_at p] now" d])
        (use run True assms(1) in auto)
  next
    case False
    then show ?thesis using assms by (simp add: after_increment_def signed_qty_def)
  qed
  then show "\<exists>r1. db_order d1 cid = Some r1 \<and>
    o_filled_qty r1 = o_filled_qty r \<and> o_symbol r1 = o_symbol r \<and> o_side r1 = o_side r \<and>
    o_status r1 = o_status r \<and> o_is_terminal r1 = o_is_terminal r"
    and "get_position_by_symbol (o_symbol r) d1 = get_position_by_symbol (o_symbol r) d +
       signed_qty (o_side r) (max 0 ?i)" by simp_all
qed

text \<open>What the handler of a fill does to the order and its position, accepted or rejected.\<close>

lemma handle_fill_effect:
  assumes "db_order d cid = Some r" "handle_fill fromiso now p cid q a d = (Inr (Processed c), d')"
  obtains r' where "db_order d' cid = Some r'" "o_symbol r' = o_symbol r" "o_side r' = o_side r"
    "o_filled_qty r' = o_filled_qty r \<or> o_filled_qty r' = max (o_filled_qty r) q"
    "\<not> unlocked r \<Longrightarrow> o_filled_qty r' = o_filled_qty r \<and> \<not> unlocked r' \<and> o_status r' = o_status r"
    "get_position_by_symbol (o_symbol r) d' = get_position_by_symbol (o_symbol r) d +
       signed_qty (o_side r) (max 0 (py_int q - py_int (o_filled_qty r)))"
proof -
  let ?u = "fill_cas fromiso now p cid q a"
  obtain d1 x where inc: "after_increment fromiso now p cid q a r d = (Inr (), d1)"
    and cas: "update_order_status_cas now ?u d1 = (Inr x, d')"
    using handle_fill_cases [OF assms] by metis
  obtain r1 where r1: "db_order d1 cid = Some r1" "o_filled_qty r1 = o_filled_qty r"
    "o_symbol r1 = o_symbol r" "o_side r1 = o_side r" "o_status r1 = o_status r"
    "o_is_terminal r1 = o_is_terminal r"
    using after_increment_effect(1) [OF assms(1) inc] by blast
  have u: "c_client_order_id ?u = cid" "new_filled_qty ?u = q"
    by (simp_all add: fill_cas_def new_filled_qty_def Let_def)
  have "db_position d' (o_symbol r) = db_position d1 (o_symbol r)"
    using cas_position [of now ?u d1 "o_symbol r"] by (simp add: cas)
  from get_position_cong [OF this] have pos: "get_position_by_symbol (o_symbol r) d' =
      get_position_by_symbol (o_symbol r) d +
        signed_qty (o_side r) (max 0 (py_int q - py_int (o_filled_qty r)))"
    by (simp add: after_increment_effect(2) [OF assms(1) inc])
  have lock: "unlocked r1 = unlocked r" using r1 by (simp add: unlocked_def)
  show thesis
  proof (rule cas_cases [of d1 ?u now])
    fix r2
    assume "db_order d1 (c_client_order_id ?u) = Some r2" and ok: "cas_where ?u r2 = Some True"
      and up: "update_order_status_cas now ?u d1 =
        (Inr (Some (cas_set now ?u r2)), db_set_order (c_client_order_id ?u) (cas_set now ?u r2) d1)"
    then have r2: "r2 = r1" using r1(1) u by simp
    have "unlocked r" using ok lock by (simp add: r2 cas_where_true unlocked_def)
    moreover have "d' = db_set_order cid (cas_set now ?u r1) d1" using up cas by (simp add: r2 u)
    ultimately show thesis
      using pos r1 by (intro that [of "cas_set now ?u r1"]) (simp_all add: u)
  qed (use that [of r1] pos r1 cas lock u in auto)
qed

section \<open>Properties\<close>

text \<open>C35. A fill moves the position by what it moves the order, or the order is left behind: processing a
  fill moves the position of the order's symbol by the growth of the whole part of the filled quantity
  over what the order's row had recorded, with the sign of the side.  When the row then shows the
  reported quantity, that is exactly the change of the row, fractions included; when its conditional
  update was rejected, the row keeps its filled quantity although the position has moved (lemma
  locked_fill_counts_twice shows the consequence).  Any other answer has changed nothing.\<close>

theorem fill_position_tracks_order:
  assumes "db_order d cid = Some r" "handle_fill fromiso now p cid q a d = (reply, d')"
  shows "(\<forall>c. reply = Inr (Processed c) \<longrightarrow>
      (\<exists>r'. db_order d' cid = Some r' \<and>
        get_position_by_symbol (o_symbol r) d' = get_position_by_symbol (o_symbol r) d +
          signed_qty (o_side r) (max 0 (py_int q - py_int (o_filled_qty r))) \<and>
        (if q \<le> o_filled_qty r'
         then max 0 (py_int q - py_int (o_filled_qty r)) = py_int (o_filled_qty r') - py_int (o_filled_qty r)
         else o_filled_qty r' = o_filled_qty r))) \<and>
    ((\<forall>c. reply \<noteq> Inr (Processed c)) \<longrightarrow> d' = d)"
proof (cases "\<exists>c. reply = Inr (Processed c)")
  case True
  then obtain c where c: "reply = Inr (Processed c)" by blast
  show ?thesis
  proof (rule handle_fill_effect [OF assms(1) assms(2) [unfolded c]])
    fix r2
    assume r2: "db_order d' cid = Some r2" "o_filled_qty r2 = o_filled_qty r \<or> o_filled_qty r2 = max (o_filled_qty r) q"
      and pos: "get_position_by_symbol (o_symbol r) d' = get_position_by_symbol (o_symbol r) d +
         signed_qty (o_side r) (max 0 (py_int q - py_int (o_filled_qty r)))"
    have whole: "max 0 (py_int q - py_int x) = py_int (max x q) - py_int x" for x
      using py_int_mono [of x q] py_int_mono [of q x] by (cases "x \<le> q") (auto simp: max_def)
    have "if q \<le> o_filled_qty r2
         then max 0 (py_int q - py_int (o_filled_qty r)) = py_int (o_filled_qty r2) - py_int (o_filled_qty r)
         else o_filled_qty r2 = o_filled_qty r"
      using r2(2) whole [of "o_filled_qty r"] by (auto simp: max_def split: if_splits)
    with r2(1) pos c show ?thesis by auto
  qed
next
  case False
  then have "d' = d"
    using assms(2) unfolding handle_fill_eq [OF assms(1)] by (auto split: if_splits prod.splits sum.splits)
  with False show ?thesis by blast
qed

definition sample_payload :: webhook_payload where
  "sample_payload =
     \<lparr>w_event = Some ''fill'', w_client_order_id = Some ''a1'', w_broker_order_id = Some ''b1'',
      w_status = ''partially_filled'', w_filled_qty = Num 4, w_filled_avg_price = Num 100,
      w_price = NumAbsent, w_execution_id = None, w_timestamp = None, w_filled_at = None,
      w_order_updated_at = None, w_order_created_at = None, w_order_filled_at = None\<rparr>"

lemma sample_fill_processed:
  "fst (handle_fill (\<lambda>s. None) 5 sample_payload ''a1'' 4 100 sample_db) = Inr (Processed ''a1'')"
  by code_simp

lemma fill_position_tracks_order_witness:
  "get_position_by_symbol ''AAPL'' (snd (handle_fill (\<lambda>s. None) 5 sample_payload ''a1'' 4 100 sample_db)) = 4"
proof -
  let ?h = "handle_fill (\<lambda>s. None) 5 sample_payload ''a1'' 4 100 sample_db"
  have h: "?h = (Inr (Processed ''a1''), snd ?h)"
    using sample_fill_processed(1) by (metis prod.collapse)
  have d: "db_order sample_db ''a1'' = Some sample_order" by (simp add: sample_simps)
  have "py_int 4 = 4" "py_int 0 = 0" by (simp_all add: py_int_def)
  then have fields: "o_symbol sample_order = ''AAPL''"
    "signed_qty (o_side sample_order) (max 0 (py_int 4 - py_int (o_filled_qty sample_order))) = 4"
    by (simp_all add: sample_order_def signed_qty_def)
  have "get_position_by_symbol ''AAPL'' sample_db = 0"
    by (simp add: sample_db_def get_position_by_symbol_def db_position_def)
  with fill_position_tracks_order [OF d h] show ?thesis by (auto simp: fields split del: if_split)
qed

text \<open>
  A fill at a price that is not positive is refused by the table of the positions: the handler has no
  clause for the error of the constraint, which leaves it, and the fill is recorded nowhere.
\<close>

lemma free_fill_refused:
  "handle_fill (\<lambda>s. None) 5 sample_payload ''a1'' 4 0 sample_db =
     (Inl (IntegrityError ''positions_avg_entry_price_nonnegative''), sample_db)"
  by code_simp

text \<open>Replays are harmless once recorded: a fill that reports no more than the order's filled
  quantity changes no position and no fill of the order, whatever the handler answers.\<close>

theorem fill_replay_no_effect:
  assumes "db_order d cid = Some r" "q \<le> o_filled_qty r"
    "handle_fill fromiso now p cid q a d = (reply, d')"
  shows "db_position d' s = db_position d s \<and>
    map_option o_fills (db_order d' cid) = Some (o_fills r)"
proof -
  let ?u = "fill_cas fromiso now p cid q a"
  have skip: "\<not> py_int (o_filled_qty r) < py_int q"
    using py_int_mono [OF assms(2)] by simp
  have u: "c_client_order_id ?u = cid" by (simp add: fill_cas_def Let_def)
  have inc: "after_increment fromiso now p cid q a r d = (Inr (), d)" using skip by (simp add: after_increment_def)
  have "d' = d \<or> d' = snd (update_order_status_cas now ?u d)"
    using assms(3) unfolding handle_fill_eq [OF assms(1)] inc
    by (auto split: if_splits prod.splits sum.splits)
  then show ?thesis
  proof
    assume "d' = d"
    with assms(1) show ?thesis by simp
  next
    assume d': "d' = snd (update_order_status_cas now ?u d)"
    have "map_option o_fills (db_order d' cid) = Some (o_fills r)"
      by (rule cas_cases [of d ?u now]) (use assms(1) d' u in auto)
    with d' show ?thesis by simp
  qed
qed

lemma fill_replay_no_effect_witness:
  "db_position (snd (handle_fill (\<lambda>s. None) 9 sample_payload ''a1'' 4 100
       (db_set_order ''a1'' (sample_order\<lparr>o_filled_qty := 4\<rparr>) sample_db))) ''AAPL'' =
     db_position (db_set_order ''a1'' (sample_order\<lparr>o_filled_qty := 4\<rparr>) sample_db) ''AAPL''"
  using fill_replay_no_effect [of "db_set_order ''a1'' (sample_order\<lparr>o_filled_qty := 4\<rparr>) sample_db"
      "''a1''" "sample_order\<lparr>o_filled_qty := 4\<rparr>" 4 "\<lambda>s. None" 9 sample_payload 100 _ _ "''AAPL''",
      OF _ _ prod.collapse [symmetric]]
  by simp

text \<open>
  The case the previous properties leave out: when the conditional update is rejected (here because
  the order is terminal, a cancellation having arrived first), the position is moved and the filled
  quantity stays behind, so that the same fill moves the position again.
\<close>

lemma locked_fill_counts_twice:
  assumes "db_order d cid = Some r" "\<not> unlocked r"
    "handle_fill fromiso now p cid q a d = (Inr (Processed c), d')"
    "handle_fill fromiso now' p cid q a d' = (Inr (Processed c'), d'')"
  shows "get_position_by_symbol (o_symbol r) d'' = get_position_by_symbol (o_symbol r) d +
      2 * signed_qty (o_side r) (max 0 (py_int q - py_int (o_filled_qty r)))"
proof (rule handle_fill_effect [OF assms(1,3)])
  fix r'
  assume r': "db_order d' cid = Some r'" "o_symbol r' = o_symbol r" "o_side r' = o_side r"
    and lock: "\<not> unlocked r \<Longrightarrow> o_filled_qty r' = o_filled_qty r \<and> \<not> unlocked r' \<and> o_status r' = o_status r"
    and pos: "get_position_by_symbol (o_symbol r) d' = get_position_by_symbol (o_symbol r) d +
       signed_qty (o_side r) (max 0 (py_int q - py_int (o_filled_qty r)))"
  from handle_fill_effect [OF r'(1) assms(4)]
  have "get_position_by_symbol (o_symbol r') d'' = get_position_by_symbol (o_symbol r') d' +
       signed_qty (o_side r') (max 0 (py_int q - py_int (o_filled_qty r')))" by blast
  with pos r' lock [OF assms(2)] show ?thesis by simp
qed

text \<open>With a secret configured, a request changes the database or is answered without an error only
  when its signature header carries the keyed hash of its body under that secret.\<close>

theorem webhook_needs_signature:
  assumes "handle_order_webhook decode fromiso (Some s) environment header body now d = (reply, d')"
    "s \<noteq> []" "d' \<noteq> d \<or> reply = Inr x"
  shows "\<exists>sg. extract_signature_from_header header = Some sg \<and>
    lower sg = hmac_sha256_hexdigest s body \<and> body \<noteq> []"
  using assms
  by (auto simp: handle_order_webhook_def webhook_auth_def verify_webhook_signature_def
      split: option.splits if_splits)

lemma webhook_needs_signature_witness:
  "\<exists>sg. extract_signature_from_header
       (Some (''sha256='' @ generate_webhook_signature ''body'' ''key'')) = Some sg \<and>
     lower sg = hmac_sha256_hexdigest ''key'' ''body'' \<and> ''body'' \<noteq> []"
proof -
  have "generate_webhook_signature ''body'' ''key'' \<noteq> []"
    using length_hmac [of "''key''" "''body''"] by (auto simp: generate_webhook_signature_def)
  then have "handle_order_webhook (\<lambda>b. Some (sample_payload\<lparr>w_client_order_id := None\<rparr>)) (\<lambda>s. None)
      (Some ''key'') ''production'' (Some (''sha256='' @ generate_webhook_signature ''body'' ''key''))
      ''body'' 5 sample_db = (Inr (Ignored ''missing_client_order_id''), sample_db)"
    using signature_roundtrip [of "''body''" "''key''"]
    by (simp add: handle_order_webhook_def webhook_auth_def extract_signature_from_header_def
        process_webhook_def)
  from webhook_needs_signature [OF this] show ?thesis by blast
qed

end
