(* ===== verification/Recon_Orders.thy ===== *)
theory Recon_Orders
  imports Webhook
begin

text \<open>
  Reconciliation of orders, fills and positions with the broker: \<^verbatim>\<open>helpers.py\<close>, \<^verbatim>\<open>orders.py\<close>,
  \<^verbatim>\<open>fills.py\<close> and \<^verbatim>\<open>positions.py\<close> of \<^verbatim>\<open>apps/execution_gateway/reconciliation\<close>.  What the broker
  answers is an argument; its timestamps are points of time and its numbers decimals.  The text of
  a decimal depends on the exponent it was written with, which exact rationals do not keep: the
  printing is an argument of the identifiers made from it.
\<close>

section \<open>The broker's records\<close>

record broker_order =
  b_id :: "string option"
  b_client_order_id :: "string option"
  b_symbol :: "string option"
  b_side :: "string option"
  b_qty :: "rat option"
  b_status :: "string option"
  b_created_at :: "rat option"
  b_updated_at :: "rat option"
  b_filled_qty :: "rat option"
  b_filled_avg_price :: "rat option"
  b_filled_at :: "rat option"
  b_limit_price :: "rat option"
  b_notional :: "rat option"

record broker_position =
  bp_symbol :: string
  bp_qty :: "rat option"
  bp_avg_entry_price :: "rat option"
  bp_current_price :: "rat option"

text \<open>An activity of the account; the fields are the texts of the API, empty when absent.\<close>

record activity =
  a_id :: string
  a_order_id :: string
  a_symbol :: string
  a_side :: string
  a_qty :: string
  a_price :: string
  a_transaction_time :: string
  a_activity_time :: string

definition or_none :: "'a option \<Rightarrow> 'a option \<Rightarrow> 'a option" where
  "or_none a b = (case a of Some x \<Rightarrow> Some x | None \<Rightarrow> b)"

definition b_stamp :: "broker_order \<Rightarrow> rat option" where
  "b_stamp o1 = or_none (b_updated_at o1) (b_created_at o1)"

section \<open>Pure helpers\<close>

definition fill_sum :: "(order_fill \<Rightarrow> bool) \<Rightarrow> order_fill list \<Rightarrow> rat" where
  "fill_sum P fs =
     sum_list (map (\<lambda>f. case f_qty f of Some q \<Rightarrow> q | None \<Rightarrow> 0)
       (filter (\<lambda>f. \<not> f_superseded f \<and> P f) fs))"

definition dots_to_underscores :: "string \<Rightarrow> string" where
  "dots_to_underscores s = map (\<lambda>c. if c = CHR ''.'' then CHR ''_'' else c) s"

definition calculate_synthetic_fill ::
  "(rat \<Rightarrow> string) \<Rightarrow> string \<Rightarrow> rat \<Rightarrow> rat \<Rightarrow> rat \<Rightarrow> order_fill list \<Rightarrow> string \<Rightarrow> order_fill option" where
  "calculate_synthetic_fill dec_str cid filled_qty filled_avg_price timestamp existing_fills source =
     (let real_fill_qty = fill_sum (\<lambda>f. \<not> f_synthetic f) existing_fills;
          synthetic_fill_qty = fill_sum f_synthetic existing_fills
      in if filled_qty \<le> real_fill_qty then None
         else
           let missing_qty = filled_qty - real_fill_qty - synthetic_fill_qty in
           if missing_qty \<le> 0 then None
           else Some
             \<lparr>f_id = cid @ ''_'' @ source @ ''_'' @ dots_to_underscores (dec_str filled_qty) @ ''_'' @
                dots_to_underscores (dec_str missing_qty),
              f_qty = Some missing_qty, f_price = Some filled_avg_price, f_realized_pl = 0,
              f_timestamp = Some timestamp, f_synthetic = True, f_superseded = False,
              f_source = Some source\<rparr>)"

definition estimate_notional :: "broker_order \<Rightarrow> rat" where
  "estimate_notional bo =
     (case b_notional bo of
        Some n \<Rightarrow> n
      | None \<Rightarrow>
          let qty = (case b_qty bo of Some q \<Rightarrow> q | None \<Rightarrow> 0) in
          case b_limit_price bo of
            Some p \<Rightarrow> qty * p
          | None \<Rightarrow> (case b_filled_avg_price bo of Some p \<Rightarrow> qty * p | None \<Rightarrow> 0))"

definition generate_fill_id_from_activity :: "activity \<Rightarrow> string" where
  "generate_fill_id_from_activity f =
     take 32 (sha256_hexdigest (join_with CHR ''|''
       [''activity_time='' @ a_activity_time f, ''broker_order_id='' @ a_order_id f,
        ''id_hint='' @ a_id f, ''price='' @ a_price f, ''qty='' @ a_qty f, ''side='' @ a_side f,
        ''symbol='' @ a_symbol f, ''transaction_time='' @ a_transaction_time f]))"

definition merge_step ::
  "broker_order \<Rightarrow> (string \<times> broker_order) list \<Rightarrow> (string \<times> broker_order) list" where
  "merge_step bo m =
     (case b_client_order_id bo of
        None \<Rightarrow> m
      | Some cid \<Rightarrow>
          if cid = [] then m
          else case map_of m cid of
            None \<Rightarrow> AList.update cid bo m
          | Some existing \<Rightarrow>
              (case (b_stamp bo, b_stamp existing) of
                 (Some t, None) \<Rightarrow> AList.update cid bo m
               | (Some t, Some t') \<Rightarrow> if t > t' then AList.update cid bo m else m
               | (None, _) \<Rightarrow> m))"

definition merge_broker_orders ::
  "broker_order list \<Rightarrow> broker_order list \<Rightarrow> (string \<times> broker_order) list" where
  "merge_broker_orders open_orders recent_orders = fold merge_step (open_orders @ recent_orders) []"

definition extract_broker_client_ids :: "broker_order list \<Rightarrow> string list" where
  "extract_broker_client_ids orders = List.map_filter b_client_order_id orders"

section \<open>Backfilling fills\<close>

definition rename_source :: "string \<Rightarrow> order_fill \<Rightarrow> order_fill" where
  "rename_source s f = f\<lparr>f_source := Some s\<rparr>"

text \<open>
  Both functions catch every exception and answer false; the transaction they run in is then rolled
  back.  The cached order, when there is one, is read instead of the locked row.
\<close>

definition backfill_fill_metadata ::
  "(rat \<Rightarrow> string) \<Rightarrow> rat \<Rightarrow> string \<Rightarrow> broker_order \<Rightarrow> rat option \<Rightarrow> order_row option \<Rightarrow> db \<Rightarrow> bool \<times> db" where
  "backfill_fill_metadata dec_str now cid bo updated_at cached d =
     (let t = (case or_none updated_at (b_stamp bo) of Some t \<Rightarrow> t | None \<Rightarrow> now) in
      case b_filled_avg_price bo of
        None \<Rightarrow> (False, d)
      | Some price \<Rightarrow>
          (case (case cached of Some r \<Rightarrow> Inr (Some r) | None \<Rightarrow> get_order_for_update cid d) of
             Inl e \<Rightarrow> (False, d)
           | Inr None \<Rightarrow> (False, d)
           | Inr (Some order) \<Rightarrow>
               (case calculate_synthetic_fill dec_str cid
                   (case b_filled_qty bo of Some q \<Rightarrow> q | None \<Rightarrow> 0) price t (o_fills order) ''recon'' of
                  None \<Rightarrow> (False, d)
                | Some f \<Rightarrow>
                    (True, snd (append_fill_to_order_metadata now cid
                       (rename_source ''reconciliation_backfill'' f) d)))))"

definition backfill_fill_metadata_from_order ::
  "(rat \<Rightarrow> string) \<Rightarrow> rat \<Rightarrow> order_row \<Rightarrow> db \<Rightarrow> bool \<times> db" where
  "backfill_fill_metadata_from_order dec_str now order d =
     (case o_filled_avg_price order of
        None \<Rightarrow> (False, d)
      | Some price \<Rightarrow>
          let t = (case o_filled_at order of Some t \<Rightarrow> t | None \<Rightarrow> o_updated_at order) in
          (case get_order_for_update (o_client_order_id order) d of
             Inl e \<Rightarrow> (False, d)
           | Inr None \<Rightarrow> (False, d)
           | Inr (Some locked) \<Rightarrow>
               (case calculate_synthetic_fill dec_str (o_client_order_id order) (o_filled_qty order)
                   price t (o_fills locked) ''recon_db'' of
                  None \<Rightarrow> (False, d)
                | Some f \<Rightarrow>
                    (True, snd (append_fill_to_order_metadata now (o_client_order_id order)
                       (rename_source ''reconciliation_db_backfill'' f) d)))))"

definition backfill_missing_fills_scan :: "(rat \<Rightarrow> string) \<Rightarrow> rat \<Rightarrow> int \<Rightarrow> db \<Rightarrow> nat \<times> db" where
  "backfill_missing_fills_scan dec_str now cap d =
     (let rows = get_filled_orders_missing_fills cap d in
      if \<exists>r \<in> set rows. o_status r \<notin> set ORDER_STATUSES then (0, d)
      else fold (\<lambda>r (n, d).
             let (ok, d') = backfill_fill_metadata_from_order dec_str now r d
             in (if ok then Suc n else n, d')) rows (0, d))"

section \<open>Orders\<close>

definition SOURCE_PRIORITY_RECONCILIATION :: int where
  "SOURCE_PRIORITY_RECONCILIATION = 2"

definition broker_cas :: "rat \<Rightarrow> string \<Rightarrow> broker_order \<Rightarrow> cas_update" where
  "broker_cas now cid bo =
     (let status = (case b_status bo of Some s \<Rightarrow> s | None \<Rightarrow> []) in
      \<lparr>c_client_order_id = cid, c_status = status,
       c_broker_updated_at = (case b_stamp bo of Some t \<Rightarrow> t | None \<Rightarrow> now),
       c_status_rank = status_rank_for status,
       c_source_priority = SOURCE_PRIORITY_RECONCILIATION,
       c_filled_qty = Some (case b_filled_qty bo of Some q \<Rightarrow> q | None \<Rightarrow> 0),
       c_filled_avg_price = b_filled_avg_price bo,
       c_filled_at = (if status = ''filled'' then b_filled_at bo else None),
       c_broker_order_id = b_id bo, c_broker_event_id = None, c_error_message = None\<rparr>)"

definition apply_broker_update ::
  "(rat \<Rightarrow> string) \<Rightarrow> rat \<Rightarrow> string \<Rightarrow> broker_order \<Rightarrow> db \<Rightarrow> bool result \<times> db" where
  "apply_broker_update dec_str now cid bo d =
     (let u = broker_cas now cid bo in
      case update_order_status_cas now u d of
        (Inl e, d') \<Rightarrow> (Inl e, d')
      | (Inr None, d') \<Rightarrow> (Inr False, d')
      | (Inr (Some updated), d') \<Rightarrow>
          (Inr True,
           if c_status u \<in> {''filled'', ''partially_filled''}
           then snd (backfill_fill_metadata dec_str now cid bo (Some (c_broker_updated_at u)) (Some updated) d')
           else d'))"

fun reconcile_known_orders ::
  "(rat \<Rightarrow> string) \<Rightarrow> rat \<Rightarrow> order_row list \<Rightarrow> (string \<times> broker_order) list \<Rightarrow> db \<Rightarrow> nat result \<times> db" where
  "reconcile_known_orders dec_str now [] orders_by_client d = (Inr 0, d)"
| "reconcile_known_orders dec_str now (r # rs) orders_by_client d =
     (case map_of orders_by_client (o_client_order_id r) of
        None \<Rightarrow> reconcile_known_orders dec_str now rs orders_by_client d
      | Some bo \<Rightarrow>
          (case apply_broker_update dec_str now (o_client_order_id r) bo d of
             (Inl e, d') \<Rightarrow> (Inl e, d')
           | (Inr ok, d') \<Rightarrow>
               (case reconcile_known_orders dec_str now rs orders_by_client d' of
                  (Inl e, d'') \<Rightarrow> (Inl e, d'')
                | (Inr n, d'') \<Rightarrow> (Inr (if ok then Suc n else n), d''))))"

record missing_counts =
  m_lookups :: nat
  m_updated :: nat
  m_marked_failed :: nat

definition failed_cas :: "order_row \<Rightarrow> cas_update" where
  "failed_cas r =
     \<lparr>c_client_order_id = o_client_order_id r, c_status = ''failed'',
      c_broker_updated_at = o_created_at r, c_status_rank = status_rank_for ''failed'',
      c_source_priority = SOURCE_PRIORITY_RECONCILIATION, c_filled_qty = Some 0,
      c_filled_avg_price = None, c_filled_at = None, c_broker_order_id = o_broker_order_id r,
      c_broker_event_id = None, c_error_message = None\<rparr>"

text \<open>The loop over the orders the bulk query did not return; the broker's lookup is an argument.\<close>

fun missing_loop ::
  "(rat \<Rightarrow> string) \<Rightarrow> rat \<Rightarrow> (string \<Rightarrow> broker_order option result) \<Rightarrow> rat option \<Rightarrow> nat \<Rightarrow> rat \<Rightarrow>
   order_row list \<Rightarrow> missing_counts \<Rightarrow> db \<Rightarrow> missing_counts result \<times> db" where
  "missing_loop dec_str now lookup after_time max_lookups grace [] c d = (Inr c, d)"
| "missing_loop dec_str now lookup after_time max_lookups grace (r # rs) c d =
     (if o_status r \<noteq> ''submitted_unconfirmed'' \<and>
         (case after_time of None \<Rightarrow> False | Some t \<Rightarrow> o_created_at r \<ge> t)
      then missing_loop dec_str now lookup after_time max_lookups grace rs c d
      else if m_lookups c \<ge> max_lookups then (Inr c, d)
      else
        let c1 = c\<lparr>m_lookups := Suc (m_lookups c)\<rparr> in
        case lookup (o_client_order_id r) of
          Inl e \<Rightarrow> (Inl e, d)
        | Inr (Some bo) \<Rightarrow>
            (case apply_broker_update dec_str now (o_client_order_id r) bo d of
               (Inl e, d') \<Rightarrow> (Inl e, d')
             | (Inr ok, d') \<Rightarrow>
                 missing_loop dec_str now lookup after_time max_lookups grace rs
                   (if ok then c1\<lparr>m_updated := Suc (m_updated c1)\<rparr> else c1) d')
        | Inr None \<Rightarrow>
            if o_status r = ''submitted_unconfirmed'' \<and> \<not> now - o_created_at r < grace then
              (case update_order_status_cas now (failed_cas r) d of
                 (Inl e, d') \<Rightarrow> (Inl e, d')
               | (Inr None, d') \<Rightarrow> missing_loop dec_str now lookup after_time max_lookups grace rs c1 d'
               | (Inr (Some _), d') \<Rightarrow>
                   missing_loop dec_str now lookup after_time max_lookups grace rs
                     (c1\<lparr>m_marked_failed := Suc (m_marked_failed c1)\<rparr>) d')
            else missing_loop dec_str now lookup after_time max_lookups grace rs c1 d)"

definition reconcile_missing_orders ::
  "(rat \<Rightarrow> string) \<Rightarrow> rat \<Rightarrow> (string \<Rightarrow> broker_order option result) \<Rightarrow> rat option \<Rightarrow> nat \<Rightarrow> rat \<Rightarrow>
   order_row list \<Rightarrow> db \<Rightarrow> missing_counts result \<times> db" where
  "reconcile_missing_orders dec_str now lookup after_time max_lookups grace rows d =
     missing_loop dec_str now lookup after_time max_lookups grace rows
       \<lparr>m_lookups = 0, m_updated = 0, m_marked_failed = 0\<rparr> d"

definition backfill_terminal_fills ::
  "(rat \<Rightarrow> string) \<Rightarrow> rat \<Rightarrow> (string \<times> broker_order) list \<Rightarrow> string list \<Rightarrow> db \<Rightarrow> nat \<times> db" where
  "backfill_terminal_fills dec_str now orders_by_client known d =
     fold (\<lambda>(cid, bo) (n, d).
        if cid \<notin> set known then (n, d)
        else if lower (case b_status bo of Some s \<Rightarrow> s | None \<Rightarrow> []) \<in> {''filled'', ''partially_filled''}
        then (Suc n, snd (backfill_fill_metadata dec_str now cid bo None None d))
        else (n, d)) orders_by_client (0, d)"

section \<open>Positions\<close>

text \<open>
  The dictionary by symbol keeps the last record of a symbol.  The set of the local symbols that the
  broker does not have is visited in the order of the query; each symbol is written once.
\<close>

definition broker_by_symbol :: "broker_position list \<Rightarrow> (string \<times> broker_position) list" where
  "broker_by_symbol ps = fold (\<lambda>p m. AList.update (bp_symbol p) p m) ps []"

definition dec_or_zero :: "rat option \<Rightarrow> rat" where
  "dec_or_zero x = (case x of Some q \<Rightarrow> q | None \<Rightarrow> 0)"

text \<open>
  Every snapshot is committed by itself; the first one the table refuses ends the reconciliation with
  its error, and the ones before it stay.
\<close>

fun upsert_positions :: "rat \<Rightarrow> (string \<times> rat \<times> rat \<times> rat option) list \<Rightarrow> db \<Rightarrow> unit result \<times> db" where
  "upsert_positions now [] d = (Inr (), d)"
| "upsert_positions now ((s, qty, avg_entry_price, current_price) # xs) d =
     (case upsert_position_snapshot s qty avg_entry_price current_price now d of
        (Inl e, d') \<Rightarrow> (Inl e, d')
      | (Inr _, d') \<Rightarrow> upsert_positions now xs d')"

definition broker_snapshots :: "(string \<times> broker_position) list \<Rightarrow> (string \<times> rat \<times> rat \<times> rat option) list" where
  "broker_snapshots by_symbol =
     map (\<lambda>(s, p). (s, dec_or_zero (bp_qty p), dec_or_zero (bp_avg_entry_price p), bp_current_price p)) by_symbol"

definition reconcile_positions ::
  "rat \<Rightarrow> broker_position list result \<Rightarrow> db \<Rightarrow> (nat \<times> nat) result \<times> db" where
  "reconcile_positions now broker_positions d =
     (case broker_positions of
        Inl e \<Rightarrow> (Inl e, d)
      | Inr ps \<Rightarrow>
          let by_symbol = broker_by_symbol ps;
              gone = filter (\<lambda>s. map_of by_symbol s = None) (remdups (map fst (get_all_positions d)))
          in case upsert_positions now (broker_snapshots by_symbol) d of
               (Inl e, d1) \<Rightarrow> (Inl e, d1)
             | (Inr _, d1) \<Rightarrow>
                 (case upsert_positions now (map (\<lambda>s. (s, 0, 0, None)) gone) d1 of
                    (Inl e, d2) \<Rightarrow> (Inl e, d2)
                  | (Inr _, d2) \<Rightarrow> (Inr (length by_symbol, length gone), d2)))"

section \<open>Merging: lemmas\<close>

text \<open>The record \<open>o1\<close> is no newer than \<open>o2\<close>; a record without a timestamp is the oldest.\<close>

definition no_newer :: "broker_order \<Rightarrow> broker_order \<Rightarrow> bool" where
  "no_newer o1 o2 \<longleftrightarrow>
     (case b_stamp o1 of None \<Rightarrow> True | Some t \<Rightarrow> (\<exists>t'. b_stamp o2 = Some t' \<and> t \<le> t'))"

lemma no_newer_refl: "no_newer x x"
  by (simp add: no_newer_def split: option.splits)

lemma no_newer_trans: "no_newer x y \<Longrightarrow> no_newer y z \<Longrightarrow> no_newer x z"
  by (force simp: no_newer_def split: option.splits)

definition named :: "broker_order \<Rightarrow> string \<Rightarrow> bool" where
  "named bo cid \<longleftrightarrow> b_client_order_id bo = Some cid \<and> cid \<noteq> []"

lemma merge_step_cases:
  obtains
    (unnamed) "\<forall>cid. \<not> named bo cid" "merge_step bo m = m"
  | (kept) cid e where "named bo cid" "map_of m cid = Some e" "no_newer bo e" "merge_step bo m = m"
  | (put) cid where "named bo cid" "map_of (merge_step bo m) = (map_of m)(cid \<mapsto> bo)"
      "\<forall>e. map_of m cid = Some e \<longrightarrow> no_newer e bo"
proof (cases "b_client_order_id bo")
  case None
  then show thesis by (intro unnamed) (auto simp: named_def merge_step_def)
next
  case (Some cid)
  note cid = this
  show thesis
  proof (cases "cid = []")
    case True
    with cid show thesis by (intro unnamed) (auto simp: named_def merge_step_def)
  next
    case False
    then have named: "named bo cid" using cid by (simp add: named_def)
    show thesis
    proof (cases "map_of m cid")
      case None
      then show thesis
        using cid False named by (intro put [of cid]) (auto simp: merge_step_def update_conv')
    next
      case (Some e)
      show thesis
      proof (cases "no_newer bo e")
        case True
        with Some cid False named show thesis
          by (intro kept [of cid e]) (auto simp: merge_step_def no_newer_def split: option.splits)
      next
        case newer: False
        with Some cid False named show thesis
          by (intro put [of cid])
            (auto simp: merge_step_def no_newer_def update_conv' split: option.splits)
      qed
    qed
  qed
qed

definition merged_ok :: "broker_order list \<Rightarrow> (string \<times> broker_order) list \<Rightarrow> bool" where
  "merged_ok xs m \<longleftrightarrow>
     (\<forall>cid bo. map_of m cid = Some bo \<longrightarrow>
        bo \<in> set xs \<and> named bo cid \<and> (\<forall>x \<in> set xs. named x cid \<longrightarrow> no_newer x bo)) \<and>
     (\<forall>x \<in> set xs. \<forall>cid. named x cid \<longrightarrow> map_of m cid \<noteq> None)"

lemma merged_ok_step:
  assumes "merged_ok xs m"
  shows "merged_ok (xs @ [x]) (merge_step x m)"
proof (rule merge_step_cases [of x m])
  assume "\<forall>cid. \<not> named x cid" "merge_step x m = m"
  with assms show ?thesis by (auto simp: merged_ok_def)
next
  fix cid e
  assume x: "named x cid" "map_of m cid = Some e" "no_newer x e" "merge_step x m = m"
  have uniq: "c = cid" if "named x c" for c using that x(1) by (simp add: named_def)
  show ?thesis
    using assms x unfolding merged_ok_def by (auto dest: uniq)
next
  fix cid
  assume x: "named x cid" "map_of (merge_step x m) = (map_of m)(cid \<mapsto> x)"
    and newer: "\<forall>e. map_of m cid = Some e \<longrightarrow> no_newer e x"
  have uniq: "c = cid" if "named x c" for c using that x(1) by (simp add: named_def)
  have old: "no_newer y x" if y: "y \<in> set xs" "named y cid" for y
  proof -
    obtain e where e: "map_of m cid = Some e" using assms y by (force simp: merged_ok_def)
    with assms y have "no_newer y e" by (simp add: merged_ok_def)
    with newer e show ?thesis by (blast intro: no_newer_trans)
  qed
  show ?thesis
    using assms x(1) old no_newer_refl [of x] unfolding merged_ok_def x(2) by (auto dest: uniq)
qed

lemma merged_ok_fold: "merged_ok xs (fold merge_step xs [])"
proof (induction xs rule: rev_induct)
  case Nil
  then show ?case by (simp add: merged_ok_def)
next
  case (snoc x xs)
  from merged_ok_step [OF this] show ?case by simp
qed

section \<open>Synthetic fills: lemmas\<close>

lemma fill_sum_append: "fill_sum P (fs @ gs) = fill_sum P fs + fill_sum P gs"
  by (simp add: fill_sum_def)

lemma fill_sum_split:
  "fill_sum (\<lambda>f. True) fs = fill_sum (\<lambda>f. \<not> f_synthetic f) fs + fill_sum f_synthetic fs"
  by (induction fs) (simp_all add: fill_sum_def)

text \<open>A real fill supersedes the synthetic ones: none of them counts any more.\<close>

lemma real_fill_supersedes_synthetic:
  assumes "\<not> f_synthetic f"
  shows "fill_sum f_synthetic (o_fills (append_fill_row now f row)) = 0"
proof -
  have "filter (\<lambda>f. \<not> f_superseded f \<and> f_synthetic f) (map supersede fs) = []" for fs
    by (induction fs) (auto simp: supersede_def)
  from this [of "o_fills row @ [f]"] assms show ?thesis
    by (simp add: fill_sum_def append_fill_row_def Let_def)
qed

section \<open>Updates from the broker: lemmas\<close>

lemma backfill_other:
  "c \<noteq> cid \<Longrightarrow> db_order (snd (backfill_fill_metadata dec_str now cid bo t r d)) c = db_order d c"
  by (simp add: backfill_fill_metadata_def append_fill_order Let_def split: option.splits sum.splits)

lemma shows_update_fill_step: "shows_update u (fill_step now f r) = shows_update u r"
  by (simp add: fill_step_def shows_update_def)

lemma backfill_shows:
  assumes "db_order d cid = Some r" "shows_update u r"
  shows "\<exists>r'. db_order (snd (backfill_fill_metadata dec_str now cid bo t c d)) cid = Some r' \<and>
    shows_update u r'"
  using assms
  by (auto simp: backfill_fill_metadata_def append_fill_order shows_update_fill_step Let_def
      split: option.splits sum.splits)

lemma cas_other:
  "c \<noteq> c_client_order_id u \<Longrightarrow> db_order (snd (update_order_status_cas now u d)) c = db_order d c"
  by (rule cas_cases [of d u now]) auto

lemma broker_cas_client [simp]: "c_client_order_id (broker_cas now cid bo) = cid"
  by (simp add: broker_cas_def Let_def)

lemma apply_broker_update_other:
  assumes "c \<noteq> cid"
  shows "db_order (snd (apply_broker_update dec_str now cid bo d)) c = db_order d c"
  using cas_other [of c "broker_cas now cid bo" now d] assms
  by (auto simp: apply_broker_update_def Let_def backfill_other split: prod.splits sum.splits option.splits)

lemma apply_broker_update_shows:
  assumes "db_order d cid = Some r" "row_precedes r (broker_cas now cid bo)" "unlocked r"
    "o_filled_qty r \<le> new_filled_qty (broker_cas now cid bo)"
    "apply_broker_update dec_str now cid bo d = (Inr ok, d')"
  shows "ok \<and> (\<exists>r'. db_order d' cid = Some r' \<and> shows_update (broker_cas now cid bo) r')"
proof -
  let ?u = "broker_cas now cid bo"
  have shown: "shows_update ?u (cas_row now ?u r)"
    by (rule cas_row_last(1) [OF assms(2-4)])
  have ok: "cas_where ?u r = Some True"
  proof (rule ccontr)
    assume "cas_where ?u r \<noteq> Some True"
    with shown have "shows_update ?u r" by (simp add: cas_row_def)
    with assms(2) show False by (simp add: shows_update_def row_precedes_def)
  qed
  with shown have after: "shows_update ?u (cas_set now ?u r)" by (simp add: cas_row_def)
  show ?thesis
  proof (rule cas_cases [of d ?u now])
    fix r2
    assume "db_order d (c_client_order_id ?u) = Some r2" and up: "update_order_status_cas now ?u d =
        (Inr (Some (cas_set now ?u r2)), db_set_order (c_client_order_id ?u) (cas_set now ?u r2) d)"
    then have r2: "r2 = r" using assms(1) by simp
    let ?d1 = "db_set_order cid (cas_set now ?u r) d"
    have d1: "db_order ?d1 cid = Some (cas_set now ?u r)" by simp
    have "ok" "d' = ?d1 \<or> (\<exists>t c. d' = snd (backfill_fill_metadata dec_str now cid bo t c ?d1))"
      using assms(5) up by (auto simp: apply_broker_update_def Let_def r2 split: if_splits)
    with d1 after backfill_shows [OF d1 after, of dec_str now bo] show ?thesis by metis
  qed (use assms ok in \<open>auto simp: apply_broker_update_def Let_def\<close>)
qed

lemma known_loop_keeps:
  assumes "reconcile_known_orders dec_str now rs m d = (Inr n, d')" "cid \<notin> o_client_order_id ` set rs"
  shows "db_order d' cid = db_order d cid"
  using assms
proof (induction rs arbitrary: d n)
  case Nil
  then show ?case by simp
next
  case (Cons r rs)
  show ?case
  proof (cases "map_of m (o_client_order_id r)")
    case None
    with Cons show ?thesis by simp
  next
    case (Some bo)
    obtain x d1 where up: "apply_broker_update dec_str now (o_client_order_id r) bo d = (x, d1)"
      by (cases "apply_broker_update dec_str now (o_client_order_id r) bo d")
    have "db_order d1 cid = db_order d cid"
      using apply_broker_update_other [of cid "o_client_order_id r" dec_str now bo d] up Cons.prems(2) by simp
    moreover obtain n' where "reconcile_known_orders dec_str now rs m d1 = (Inr n', d')"
      using Cons.prems(1) Some up by (auto split: sum.splits prod.splits)
    ultimately show ?thesis using Cons.IH [of d1 n'] Cons.prems(2) by simp
  qed
qed

section \<open>Positions: lemmas\<close>

definition qty_of :: "db \<Rightarrow> string \<Rightarrow> rat" where
  "qty_of d s = (case db_position d s of None \<Rightarrow> 0 | Some r \<Rightarrow> p_qty r)"

definition realized_of :: "db \<Rightarrow> string \<Rightarrow> rat" where
  "realized_of d s = (case db_position d s of None \<Rightarrow> 0 | Some r \<Rightarrow> p_realized_pl r)"

text \<open>The constraints of the table on a snapshot, and what an accepted snapshot does.\<close>

definition snapshot_ok :: "rat \<Rightarrow> rat \<Rightarrow> rat option \<Rightarrow> bool" where
  "snapshot_ok qty avg_entry_price current_price \<longleftrightarrow>
     (0 < avg_entry_price \<or> qty = 0) \<and> (case current_price of None \<Rightarrow> True | Some p \<Rightarrow> 0 < p)"

lemma broker_snapshots_lookup:
  "map_of (broker_snapshots m) s = map_option (\<lambda>p. (dec_or_zero (bp_qty p), dec_or_zero (bp_avg_entry_price p),
      bp_current_price p)) (map_of m s)"
  unfolding broker_snapshots_def by (induction m) auto

lemma snapshot_cases:
  obtains
    (written) row where "snapshot_ok q a c" "upsert_position_snapshot s q a c t d = (Inr row, db_set_position s row d)"
      "\<And>s'. qty_of (db_set_position s row d) s' = (if s' = s then q else qty_of d s')"
      "\<And>s'. realized_of (db_set_position s row d) s' = realized_of d s'"
  | (refused) "\<not> snapshot_ok q a c" "upsert_position_snapshot s q a c t d =
      (Inl (IntegrityError ''positions_avg_entry_price_nonnegative''), d)"
proof -
  obtain row where up: "upsert_position_snapshot s q a c t d = write_position s row d"
    and row: "p_qty row = q" "p_realized_pl row = realized_of d s" "positions_check row = snapshot_ok q a c"
    by (simp add: upsert_position_snapshot_def positions_check_def snapshot_ok_def realized_of_def Let_def
        split: option.splits)
  show thesis
  proof (cases "positions_check row")
    case True
    then have "upsert_position_snapshot s q a c t d = (Inr row, db_set_position s row d)"
      using up by (simp add: write_position_def)
    moreover have "qty_of (db_set_position s row d) s' = (if s' = s then q else qty_of d s')"
      "realized_of (db_set_position s row d) s' = realized_of d s'" for s'
      using row(1,2) by (simp_all add: qty_of_def realized_of_def)
    moreover have "snapshot_ok q a c" using True row(3) by simp
    ultimately show thesis using written by blast
  next
    case False
    then show thesis using up row(3) refused by (simp add: write_position_def)
  qed
qed

lemma upsert_positions_effect:
  assumes "upsert_positions now xs d = (x, d')" "distinct (map fst xs)"
  shows "realized_of d' s = realized_of d s \<and>
    (case x of
       Inr _ \<Rightarrow> (\<forall>(s, q, a, c) \<in> set xs. snapshot_ok q a c) \<and>
         qty_of d' s = (case map_of xs s of Some (q, _) \<Rightarrow> q | None \<Rightarrow> qty_of d s)
     | Inl e \<Rightarrow> e = IntegrityError ''positions_avg_entry_price_nonnegative'' \<and>
         \<not> (\<forall>(s, q, a, c) \<in> set xs. snapshot_ok q a c) \<and>
         (qty_of d' s = qty_of d s \<or> (\<exists>q z. map_of xs s = Some (q, z) \<and> qty_of d' s = q)))"
  using assms
proof (induction xs arbitrary: d)
  case Nil
  then show ?case by auto
next
  case (Cons y xs)
  obtain s0 q a c where y: "y = (s0, q, a, c)" by (metis prod.exhaust)
  have fresh: "map_of xs s0 = None" "distinct (map fst xs)"
    using Cons.prems(2) by (auto simp: y map_of_eq_None_iff image_iff)
  show ?case
  proof (cases rule: snapshot_cases [of q a c s0 now d])
    case (written row)
    let ?d1 = "db_set_position s0 row d"
    have "upsert_positions now xs ?d1 = (x, d')" using Cons.prems(1) written(2) by (simp add: y)
    note IH = Cons.IH [OF this fresh(2)]
    show ?thesis
    proof (cases x)
      case (Inl e)
      with IH written(1,3,4) fresh(1) show ?thesis by (auto simp: y split: if_splits)
    next
      case (Inr u)
      with IH written(1,3,4) fresh(1) show ?thesis by (auto simp: y split: option.splits)
    qed
  next
    case refused
    with Cons.prems(1) show ?thesis by (auto simp: y)
  qed
qed

lemma broker_by_symbol_eq:
  "distinct (map fst (broker_by_symbol ps))"
  "map_of (broker_by_symbol ps) s = map_of (rev (map (\<lambda>p. (bp_symbol p, p)) ps)) s"
proof -
  have "distinct (map fst (fold (\<lambda>p m. AList.update (bp_symbol p) p m) ps m))"
    if "distinct (map fst m)" for m
    using that by (induction ps arbitrary: m) (simp_all add: distinct_update)
  from this [of "[]"] show "distinct (map fst (broker_by_symbol ps))"
    by (simp add: broker_by_symbol_def)
  have "map_of (fold (\<lambda>p m. AList.update (bp_symbol p) p m) ps m) s =
      (case map_of (rev (map (\<lambda>p. (bp_symbol p, p)) ps)) s of Some p \<Rightarrow> Some p | None \<Rightarrow> map_of m s)" for m
    by (induction ps arbitrary: m) (auto simp: update_conv' map_add_def split: option.splits)
  from this [of "[]"] show "map_of (broker_by_symbol ps) s = map_of (rev (map (\<lambda>p. (bp_symbol p, p)) ps)) s"
    by (simp add: broker_by_symbol_def split: option.splits)
qed

text \<open>A flat snapshot is never refused.\<close>

lemma flatten_ok:
  assumes "distinct ss"
  obtains d' where "upsert_positions now (map (\<lambda>s. (s, 0, 0, None)) ss) d = (Inr (), d')"
    "\<And>s. qty_of d' s = (if s \<in> set ss then 0 else qty_of d s)" "\<And>s. realized_of d' s = realized_of d s"
proof -
  let ?xs = "map (\<lambda>s. (s, 0 :: rat, 0 :: rat, None :: rat option)) ss"
  obtain x d' where run: "upsert_positions now ?xs d = (x, d')" by (metis prod.exhaust)
  have dist: "distinct (map fst ?xs)" using assms by (simp add: o_def)
  note effect = upsert_positions_effect [OF run dist]
  have x: "x = Inr ()"
    using effect by (cases x) (auto simp: snapshot_ok_def)
  have lookup: "map_of ?xs s = (if s \<in> set ss then Some (0, 0, None) else None)" for s
    by (induction ss) auto
  have "qty_of d' s = (if s \<in> set ss then 0 else qty_of d s)" for s
    using effect [of s] by (simp add: x lookup split: if_splits)
  moreover have "realized_of d' s = realized_of d s" for s using effect [of s] by simp
  ultimately show thesis using run x that by blast
qed

lemma open_in_all_positions:
  "qty_of d s \<noteq> 0 \<Longrightarrow> s \<in> fst ` set (get_all_positions d)"
  by (force simp: qty_of_def get_all_positions_def db_position_def split: option.splits
      dest: map_of_SomeD)

section \<open>Properties\<close>

text \<open>The broker's last record of a symbol.\<close>

definition broker_record :: "broker_position list \<Rightarrow> string \<Rightarrow> broker_position option" where
  "broker_record ps s = map_of (rev (map (\<lambda>p. (bp_symbol p, p)) ps)) s"

text \<open>C36. Reconciliation makes the positions the broker's, as far as the table accepts them.  It succeeds
  exactly when the broker's last record of every symbol has a positive average price or no quantity,
  and no current price that is not positive; then every symbol has the broker's quantity, and zero
  when the broker has none.  Otherwise it ends with the error of the constraint, each symbol left with
  its old quantity or given the broker's.  No realised profit changes either way.\<close>

theorem reconcile_positions_match_broker:
  assumes "reconcile_positions now (Inr ps) d = (x, d')"
  shows "((\<exists>n. x = Inr n) \<longleftrightarrow>
      (\<forall>s p. broker_record ps s = Some p \<longrightarrow>
        (0 < dec_or_zero (bp_avg_entry_price p) \<or> dec_or_zero (bp_qty p) = 0) \<and>
        (\<forall>c. bp_current_price p = Some c \<longrightarrow> 0 < c))) \<and>
    (\<forall>s. realized_of d' s = realized_of d s \<and>
      (case x of
         Inr _ \<Rightarrow> qty_of d' s = (case broker_record ps s of Some p \<Rightarrow> dec_or_zero (bp_qty p) | None \<Rightarrow> 0)
       | Inl e \<Rightarrow> e = IntegrityError ''positions_avg_entry_price_nonnegative'' \<and>
           (qty_of d' s = qty_of d s \<or>
            (\<exists>p. broker_record ps s = Some p \<and> qty_of d' s = dec_or_zero (bp_qty p)))))"
proof -
  let ?m = "broker_by_symbol ps"
  let ?xs = "broker_snapshots ?m"
  let ?gone = "filter (\<lambda>s. map_of ?m s = None) (remdups (map fst (get_all_positions d)))"
  let ?b = "broker_record ps"
  have broker: "?b s = map_of ?m s" for s by (simp add: broker_record_def broker_by_symbol_eq(2))
  have dist: "distinct (map fst ?xs)"
    using broker_by_symbol_eq(1) [of ps] by (simp add: broker_snapshots_def o_def case_prod_beta)
  note lookup = broker_snapshots_lookup [of ?m, folded broker]
  have ok: "(\<forall>(s, q, a, c) \<in> set ?xs. snapshot_ok q a c) \<longleftrightarrow>
      (\<forall>s p. ?b s = Some p \<longrightarrow>
        (0 < dec_or_zero (bp_avg_entry_price p) \<or> dec_or_zero (bp_qty p) = 0) \<and>
        (\<forall>c. bp_current_price p = Some c \<longrightarrow> 0 < c))"
    using broker_by_symbol_eq(1) [of ps]
    by (force simp: broker broker_snapshots_def snapshot_ok_def split: option.splits)
  obtain y d1 where up: "upsert_positions now ?xs d = (y, d1)" by (metis prod.exhaust)
  note effect = upsert_positions_effect [OF up dist]
  show ?thesis
  proof (cases y)
    case (Inl e)
    then have "x = Inl e" "d' = d1" using assms(1) up by (simp_all add: reconcile_positions_def Let_def)
    moreover have "\<not> (\<forall>(s, q, a, c) \<in> set ?xs. snapshot_ok q a c)" using effect by (auto simp: Inl)
    moreover have "e = IntegrityError ''positions_avg_entry_price_nonnegative''"
      "realized_of d1 s = realized_of d s"
      "qty_of d1 s = qty_of d s \<or> (\<exists>p. ?b s = Some p \<and> qty_of d1 s = dec_or_zero (bp_qty p))" for s
      using effect [of s] by (auto simp: Inl lookup)
    ultimately show ?thesis unfolding ok [symmetric] by simp
  next
    case (Inr u)
    obtain d2 where flat: "upsert_positions now (map (\<lambda>s. (s, 0, 0, None)) ?gone) d1 = (Inr (), d2)"
      "\<And>s. qty_of d2 s = (if s \<in> set ?gone then 0 else qty_of d1 s)" "\<And>s. realized_of d2 s = realized_of d1 s"
      by (rule flatten_ok [of ?gone now d1]) simp_all
    have out: "\<exists>n. x = Inr n" "d' = d2"
      using assms(1) up flat(1) Inr by (auto simp: reconcile_positions_def Let_def)
    have "qty_of d2 s = (case ?b s of Some p \<Rightarrow> dec_or_zero (bp_qty p) | None \<Rightarrow> 0)" for s
      using effect [of s] open_in_all_positions [of d s]
      by (auto simp: Inr flat(2) lookup broker split: option.splits)
    moreover have "\<forall>(s, q, a, c) \<in> set ?xs. snapshot_ok q a c" "realized_of d1 s = realized_of d s" for s
      using effect [of s] by (simp_all add: Inr)
    ultimately show ?thesis using out flat(3) unfolding ok [symmetric] by auto
  qed
qed

definition sample_broker_position :: "string \<Rightarrow> rat \<Rightarrow> rat \<Rightarrow> broker_position" where
  "sample_broker_position s q a =
     \<lparr>bp_symbol = s, bp_qty = Some q, bp_avg_entry_price = Some a, bp_current_price = None\<rparr>"

lemma reconcile_positions_match_broker_witness:
  "(\<exists>n. fst (reconcile_positions 5 (Inr [sample_broker_position ''AAPL'' 7 100]) sample_db) = Inr n) \<and>
   qty_of (snd (reconcile_positions 5 (Inr [sample_broker_position ''AAPL'' 7 100]) sample_db)) ''AAPL'' = 7"
proof -
  let ?ps = "[sample_broker_position ''AAPL'' 7 100]"
  have run: "reconcile_positions 5 (Inr ?ps) sample_db =
      (fst (reconcile_positions 5 (Inr ?ps) sample_db), snd (reconcile_positions 5 (Inr ?ps) sample_db))" by simp
  note fact = reconcile_positions_match_broker [OF run]
  have one: "broker_record ?ps s = (if s = ''AAPL'' then Some (sample_broker_position ''AAPL'' 7 100) else None)" for s
    by (simp add: broker_record_def sample_broker_position_def)
  have good: "\<exists>n. fst (reconcile_positions 5 (Inr ?ps) sample_db) = Inr n"
  proof -
    have "\<forall>s p. broker_record ?ps s = Some p \<longrightarrow>
        (0 < dec_or_zero (bp_avg_entry_price p) \<or> dec_or_zero (bp_qty p) = 0) \<and>
        (\<forall>c. bp_current_price p = Some c \<longrightarrow> 0 < c)"
      unfolding one by (simp add: sample_broker_position_def dec_or_zero_def)
    with fact show ?thesis by blast
  qed
  then obtain n where n: "fst (reconcile_positions 5 (Inr ?ps) sample_db) = Inr n" by blast
  have "qty_of (snd (reconcile_positions 5 (Inr ?ps) sample_db)) ''AAPL'' =
      (case broker_record ?ps ''AAPL'' of Some p \<Rightarrow> dec_or_zero (bp_qty p) | None \<Rightarrow> 0)"
    using fact [THEN conjunct2, THEN spec, of "''AAPL''", unfolded n sum.case] by blast
  with good show ?thesis unfolding one by (simp add: sample_broker_position_def dec_or_zero_def)
qed

text \<open>One record without an average price stops the reconciliation before the symbols after it.\<close>

lemma missing_average_stops_positions:
  "fst (reconcile_positions 5 (Inr [sample_broker_position ''AAPL'' 7 0, sample_broker_position ''MSFT'' 3 50])
     sample_db) = Inl (IntegrityError ''positions_avg_entry_price_nonnegative'')"
  "qty_of (snd (reconcile_positions 5 (Inr [sample_broker_position ''AAPL'' 7 0,
     sample_broker_position ''MSFT'' 3 50]) sample_db)) ''MSFT'' = 0"
  by code_simp+

text \<open>Merging the two answers of the broker loses no order and keeps the newest record of each:
  every client identifier in either list is in the result, with a record of that identifier from
  the lists that no other one is newer than.\<close>

theorem merge_broker_orders_newest:
  "\<forall>x \<in> set (open_orders @ recent_orders). \<forall>cid. named x cid \<longrightarrow>
     (\<exists>bo. map_of (merge_broker_orders open_orders recent_orders) cid = Some bo \<and>
       bo \<in> set (open_orders @ recent_orders) \<and> named bo cid \<and> no_newer x bo)"
  using merged_ok_fold [of "open_orders @ recent_orders"]
  unfolding merge_broker_orders_def merged_ok_def by blast

definition sample_broker_order :: "string \<Rightarrow> rat \<Rightarrow> rat \<Rightarrow> broker_order" where
  "sample_broker_order status t q =
     \<lparr>b_id = Some ''b1'', b_client_order_id = Some ''a1'', b_symbol = Some ''AAPL'',
      b_side = Some ''buy'', b_qty = Some 10, b_status = Some status, b_created_at = Some 0,
      b_updated_at = Some t, b_filled_qty = Some q, b_filled_avg_price = Some 100,
      b_filled_at = None, b_limit_price = None, b_notional = None\<rparr>"

lemma merge_broker_orders_newest_witness:
  "map_of (merge_broker_orders [sample_broker_order ''new'' 1 0] [sample_broker_order ''filled'' 2 10]) ''a1'' =
     Some (sample_broker_order ''filled'' 2 10)"
proof -
  have "\<exists>bo. map_of (merge_broker_orders [sample_broker_order ''new'' 1 0]
        [sample_broker_order ''filled'' 2 10]) ''a1'' = Some bo \<and>
      bo \<in> set ([sample_broker_order ''new'' 1 0] @ [sample_broker_order ''filled'' 2 10]) \<and>
      named bo ''a1'' \<and> no_newer (sample_broker_order ''filled'' 2 10) bo"
    using merge_broker_orders_newest [of "[sample_broker_order ''new'' 1 0]"
        "[sample_broker_order ''filled'' 2 10]"]
    by (simp add: named_def sample_broker_order_def)
  then show ?thesis by (auto simp: no_newer_def sample_broker_order_def b_stamp_def or_none_def)
qed

text \<open>A synthetic fill closes the gap to the broker's quantity exactly: it is positive, with it the
  fills that count sum to the broker's filled quantity, and no second one is made, from whichever
  source.\<close>

theorem synthetic_fill_closes_gap:
  assumes "calculate_synthetic_fill dec_str cid q price t fs source = Some f"
  shows "0 < dec_or_zero (f_qty f) \<and> fill_sum (\<lambda>f. True) (fs @ [f]) = q \<and>
    calculate_synthetic_fill dec_str cid q price' t' (fs @ [f]) source' = None"
proof -
  have f: "f_qty f = Some (q - fill_sum (\<lambda>f. \<not> f_synthetic f) fs - fill_sum f_synthetic fs)"
    "f_synthetic f" "\<not> f_superseded f"
    "0 < q - fill_sum (\<lambda>f. \<not> f_synthetic f) fs - fill_sum f_synthetic fs"
    using assms by (auto simp: calculate_synthetic_fill_def Let_def split: if_splits)
  have sums: "fill_sum (\<lambda>f. \<not> f_synthetic f) [f] = 0"
    "fill_sum f_synthetic [f] = q - fill_sum (\<lambda>f. \<not> f_synthetic f) fs - fill_sum f_synthetic fs"
    using f by (simp_all add: fill_sum_def)
  have "fill_sum (\<lambda>f. True) (fs @ [f]) = q"
    using fill_sum_split [of fs] fill_sum_split [of "[f]"] sums by (simp add: fill_sum_append)
  with f sums show ?thesis
    by (simp add: calculate_synthetic_fill_def fill_sum_append dec_or_zero_def Let_def)
qed

lemma synthetic_fill_closes_gap_witness:
  "\<exists>f. calculate_synthetic_fill (\<lambda>x. ''n'') ''a1'' 10 100 1 [sample_fill ''x'' 0 False] ''recon'' = Some f \<and>
     fill_sum (\<lambda>f. True) ([sample_fill ''x'' 0 False] @ [f]) = 10"
proof -
  obtain f where "calculate_synthetic_fill (\<lambda>x. ''n'') ''a1'' 10 100 1 [sample_fill ''x'' 0 False] ''recon'' = Some f"
    by (simp add: calculate_synthetic_fill_def fill_sum_def sample_fill_def)
  with synthetic_fill_closes_gap [OF this] show ?thesis by blast
qed

text \<open>A reconciliation of the known orders that ends brings every open order up to the broker: an
  unlocked row that the broker's record is ahead of shows the record's status, timestamp, rank and
  filled quantity afterwards, whatever the other orders and the fills made on the way.\<close>

theorem known_orders_catch_up:
  assumes "reconcile_known_orders dec_str now rs m d = (Inr n, d')"
    "distinct (map o_client_order_id rs)" "r \<in> set rs" "map_of m (o_client_order_id r) = Some bo"
    "db_order d (o_client_order_id r) = Some r"
    "row_precedes r (broker_cas now (o_client_order_id r) bo)" "unlocked r"
    "o_filled_qty r \<le> new_filled_qty (broker_cas now (o_client_order_id r) bo)"
  shows "\<exists>r'. db_order d' (o_client_order_id r) = Some r' \<and>
    shows_update (broker_cas now (o_client_order_id r) bo) r'"
  using assms
proof (induction rs arbitrary: d n)
  case Nil
  then show ?case by simp
next
  case (Cons x rs)
  let ?cid = "o_client_order_id r"
  show ?case
  proof (cases "x = r")
    case True
    obtain y d1 where up: "apply_broker_update dec_str now ?cid bo d = (y, d1)"
      by (cases "apply_broker_update dec_str now ?cid bo d")
    obtain b n' where y: "y = Inr b" and rest: "reconcile_known_orders dec_str now rs m d1 = (Inr n', d')"
      using Cons.prems(1,4) True up by (auto split: sum.splits prod.splits)
    have "\<exists>r'. db_order d1 ?cid = Some r' \<and> shows_update (broker_cas now ?cid bo) r'"
      using apply_broker_update_shows [OF Cons.prems(5-8) up [unfolded y]] by blast
    moreover have "db_order d' ?cid = db_order d1 ?cid"
      using known_loop_keeps [OF rest, of ?cid] Cons.prems(2) True by simp
    ultimately show ?thesis by simp
  next
    case False
    then have r: "r \<in> set rs" using Cons.prems(3) by simp
    have other: "?cid \<noteq> o_client_order_id x"
      using Cons.prems(2) imageI [OF r, of o_client_order_id] by auto
    have dist: "distinct (map o_client_order_id rs)" using Cons.prems(2) by simp
    show ?thesis
    proof (cases "map_of m (o_client_order_id x)")
      case None
      then have "reconcile_known_orders dec_str now rs m d = (Inr n, d')" using Cons.prems(1) by simp
      from Cons.IH [OF this dist r Cons.prems(4-8)] show ?thesis .
    next
      case (Some bx)
      obtain y d1 where up: "apply_broker_update dec_str now (o_client_order_id x) bx d = (y, d1)"
        by (cases "apply_broker_update dec_str now (o_client_order_id x) bx d")
      obtain n' where rest: "reconcile_known_orders dec_str now rs m d1 = (Inr n', d')"
        using Cons.prems(1) Some up by (auto split: sum.splits prod.splits)
      have "db_order d1 ?cid = Some r"
        using apply_broker_update_other [OF other, of dec_str now bx d] up Cons.prems(5) by simp
      from Cons.IH [OF rest dist r Cons.prems(4) this Cons.prems(6-8)] show ?thesis .
    qed
  qed
qed

lemma known_orders_catch_up_witness:
  "\<exists>r'. db_order (snd (reconcile_known_orders (\<lambda>x. ''n'') 9 [sample_order]
        [(''a1'', sample_broker_order ''filled'' 2 10)] sample_db)) ''a1'' = Some r' \<and>
     shows_update (broker_cas 9 ''a1'' (sample_broker_order ''filled'' 2 10)) r'"
proof -
  let ?run = "reconcile_known_orders (\<lambda>x. ''n'') 9 [sample_order]
        [(''a1'', sample_broker_order ''filled'' 2 10)] sample_db"
  have "fst ?run = Inr 1" by code_simp
  then have run: "?run = (Inr 1, snd ?run)" by (metis prod.collapse)
  have "row_precedes sample_order (broker_cas 9 ''a1'' (sample_broker_order ''filled'' 2 10))"
    "unlocked sample_order"
    "o_filled_qty sample_order \<le> new_filled_qty (broker_cas 9 ''a1'' (sample_broker_order ''filled'' 2 10))"
    by (simp_all add: row_precedes_def unlocked_def new_filled_qty_def broker_cas_def Let_def
        sample_order_def sample_broker_order_def)
  with known_orders_catch_up [OF run, of sample_order "sample_broker_order ''filled'' 2 10"]
  show ?thesis by (simp add: sample_order_def sample_db_def db_order_def)
qed

end
