(* ===== verification/Recon_Service.thy ===== *)
theory Recon_Service
  imports Recon_Orders Redis_Store
begin

text \<open>
  The reconciliation service: the startup gate (\<^verbatim>\<open>state.py\<close>), orphan orders and their quarantine
  (\<^verbatim>\<open>orphans.py\<close>), the activities API (\<^verbatim>\<open>fills.py\<close>), pending modifications (\<^verbatim>\<open>modifications.py\<close>) and
  the run that composes them (\<^verbatim>\<open>service.py\<close>), all under \<^verbatim>\<open>apps/execution_gateway/reconciliation\<close>.
  The clock, the broker's answers, any of which may be an error, and the parsers of numbers and dates
  are arguments; locks and logging are left out.  A statement that fails inside a transaction aborts it: catching the error
  and leaving the block normally then commits nothing.
\<close>

section \<open>The startup gate\<close>

record recon_result =
  rc_success :: bool
  rc_mode :: string

record override_context =
  ov_user_id :: string
  ov_reason :: string
  ov_timestamp :: rat
  ov_last_result :: recon_result

record recon_state =
  rs_dry_run :: bool
  rs_timeout_seconds :: rat
  rs_startup_complete :: bool
  rs_started_at :: rat
  rs_override_active :: bool
  rs_override_context :: "override_context option"
  rs_last_result :: "recon_result option"

definition recon_state_init :: "bool \<Rightarrow> rat \<Rightarrow> rat \<Rightarrow> recon_state" where
  "recon_state_init dry_run timeout_seconds now =
     \<lparr>rs_dry_run = dry_run, rs_timeout_seconds = timeout_seconds, rs_startup_complete = dry_run,
      rs_started_at = now, rs_override_active = False, rs_override_context = None,
      rs_last_result = None\<rparr>"

definition is_startup_complete :: "recon_state \<Rightarrow> bool" where
  "is_startup_complete s = (if rs_dry_run s then True else rs_startup_complete s)"

definition startup_timed_out :: "rat \<Rightarrow> recon_state \<Rightarrow> bool" where
  "startup_timed_out now s \<longleftrightarrow> now - rs_started_at s > rs_timeout_seconds s"

definition mark_startup_complete ::
  "rat \<Rightarrow> bool \<Rightarrow> string option \<Rightarrow> string option \<Rightarrow> recon_state \<Rightarrow> unit result \<times> recon_state" where
  "mark_startup_complete now forced user_id reason s =
     (if forced then
        (case rs_last_result s of
           None \<Rightarrow> (Inl (ValueError ''Cannot force startup complete without running reconciliation first''), s)
         | Some res \<Rightarrow>
             (case (user_id, reason) of
                (Some u, Some w) \<Rightarrow>
                  if u = [] \<or> w = []
                  then (Inl (ValueError ''Both user_id and reason are required for forced startup bypass''), s)
                  else (Inr (), s\<lparr>rs_override_active := True,
                      rs_override_context := Some \<lparr>ov_user_id = u, ov_reason = w, ov_timestamp = now,
                        ov_last_result = res\<rparr>,
                      rs_startup_complete := True\<rparr>)
              | _ \<Rightarrow> (Inl (ValueError ''Both user_id and reason are required for forced startup bypass''), s)))
      else (Inr (), s\<lparr>rs_startup_complete := True\<rparr>))"

definition record_reconciliation_result :: "recon_result \<Rightarrow> recon_state \<Rightarrow> recon_state" where
  "record_reconciliation_result r s = s\<lparr>rs_last_result := Some r\<rparr>"

definition open_gate_after_successful_run :: "recon_state \<Rightarrow> bool \<times> recon_state" where
  "open_gate_after_successful_run s =
     (if \<not> rs_startup_complete s then (True, s\<lparr>rs_startup_complete := True\<rparr>) else (False, s))"

section \<open>Orphan orders\<close>

definition quarantine_key :: "string \<Rightarrow> string \<Rightarrow> string" where
  "quarantine_key strategy_id symbol = ''quarantine:'' @ strategy_id @ '':'' @ symbol"

definition orphan_exposure_key :: "string \<Rightarrow> string \<Rightarrow> string" where
  "orphan_exposure_key strategy_id symbol = ''orphan_exposure:'' @ strategy_id @ '':'' @ symbol"

definition set_quarantine :: "string \<Rightarrow> string \<Rightarrow> redis option \<Rightarrow> redis option" where
  "set_quarantine symbol strategy_id r =
     map_option (redis_set (quarantine_key strategy_id symbol) (RRaw ''orphan_order_detected'') None None) r"

definition sync_orphan_exposure ::
  "(rat \<Rightarrow> string) \<Rightarrow> string \<Rightarrow> string \<Rightarrow> db \<Rightarrow> redis option \<Rightarrow> redis option" where
  "sync_orphan_exposure dec_str symbol strategy_id d r =
     map_option (redis_set (orphan_exposure_key strategy_id symbol)
       (RRaw (dec_str (get_orphan_exposure symbol strategy_id d))) None None) r"

definition opt_or_text :: "string option \<Rightarrow> string \<Rightarrow> string" where
  "opt_or_text x s = (case x of Some t \<Rightarrow> if t = [] then s else t | None \<Rightarrow> s)"

definition handle_orphan_order ::
  "(rat \<Rightarrow> string) \<Rightarrow> rat \<Rightarrow> bool \<Rightarrow> broker_order \<Rightarrow> db \<times> redis option \<Rightarrow> bool \<times> db \<times> redis option" where
  "handle_orphan_order dec_str now resolve_terminal bo st =
     (case st of (d, r) \<Rightarrow>
        case (b_symbol bo, b_id bo) of
          (Some symbol, Some bid) \<Rightarrow>
            if symbol = [] \<or> bid = [] then (False, d, r)
            else
              let side = opt_or_text (b_side bo) ''unknown'';
                  qty = py_int (dec_or_zero (b_qty bo));
                  status = opt_or_text (b_status bo) ''untracked'';
                  d1 = create_orphan_order bid (b_client_order_id bo) symbol ''external'' side qty
                         (estimate_notional bo) status d;
                  resolved_at = (if resolve_terminal \<and> status \<in> set TERMINAL_STATUSES
                                 then Some now else None);
                  d2 = update_orphan_order_status bid status resolved_at d1;
                  r1 = set_quarantine symbol ''*'' r
              in (True, d2, sync_orphan_exposure dec_str symbol ''external'' d2 r1)
        | _ \<Rightarrow> (False, d, r))"

definition detect_orphans_in ::
  "(rat \<Rightarrow> string) \<Rightarrow> rat \<Rightarrow> bool \<Rightarrow> string list \<Rightarrow> broker_order list \<Rightarrow>
   nat \<times> db \<times> redis option \<Rightarrow> nat \<times> db \<times> redis option" where
  "detect_orphans_in dec_str now resolve known orders st =
     fold (\<lambda>bo (n, d, r).
        if (case b_client_order_id bo of Some c \<Rightarrow> c \<noteq> [] \<and> c \<in> set known | None \<Rightarrow> False)
        then (n, d, r)
        else let (ok, st') = handle_orphan_order dec_str now resolve bo (d, r)
             in (if ok then Suc n else n, st')) orders st"

definition detect_orphans ::
  "(rat \<Rightarrow> string) \<Rightarrow> rat \<Rightarrow> broker_order list \<Rightarrow> broker_order list \<Rightarrow> string list \<Rightarrow>
   db \<times> redis option \<Rightarrow> nat \<times> db \<times> redis option" where
  "detect_orphans dec_str now open_orders recent_orders known st =
     detect_orphans_in dec_str now True known recent_orders
       (detect_orphans_in dec_str now False known open_orders (0, st))"

section \<open>Activities\<close>

text \<open>
  The pages of the activities API.  \<open>fetch\<close> is the API: a page size and a token give a page or an
  error.  The number of pages left decreases with every request.
\<close>

fun fetch_activities ::
  "(nat \<Rightarrow> string option \<Rightarrow> activity list result) \<Rightarrow> nat \<Rightarrow> nat \<Rightarrow> string option \<Rightarrow> activity list result" where
  "fetch_activities fetch page_size 0 token = Inr []"
| "fetch_activities fetch page_size (Suc pages) token =
     (let size = page_size + (case token of None \<Rightarrow> 0 | Some _ \<Rightarrow> 1) in
      case fetch size token of
        Inl e \<Rightarrow> Inl e
      | Inr raw \<Rightarrow>
          if raw = [] then Inr []
          else
            let page = (case token of None \<Rightarrow> raw | Some i \<Rightarrow> filter (\<lambda>a. a_id a \<noteq> i) raw) in
            if length raw < size then Inr page
            else if a_id (last raw) = [] then Inr page
            else rbind (fetch_activities fetch page_size pages (Some (a_id (last raw))))
              (\<lambda>rest. Inr (page @ rest)))"

record backfill_config =
  bf_enabled :: bool
  bf_initial_lookback_hours :: rat
  bf_page_size :: nat
  bf_max_pages :: nat
  bf_overlap_seconds :: rat

record backfill_counts =
  bc_seen :: nat
  bc_inserted :: nat
  bc_unmatched :: nat
  bc_pnl_updates :: nat

definition activity_fill :: "(string \<Rightarrow> rat option) \<Rightarrow> (string \<Rightarrow> rat option) \<Rightarrow> activity \<Rightarrow> order_fill" where
  "activity_fill dec_of fromiso a =
     (let fid = strip (a_id a);
          ts = (if a_transaction_time a \<noteq> [] then a_transaction_time a else a_activity_time a)
      in \<lparr>f_id = (if fid = [] then generate_fill_id_from_activity a else fid),
          f_qty = dec_of (a_qty a), f_price = dec_of (a_price a), f_realized_pl = 0,
          f_timestamp = (if ts = [] then None else fromiso (replace_z ts)),
          f_synthetic = False, f_superseded = False, f_source = Some ''alpaca_activity''\<rparr>)"

definition match_activities ::
  "(string \<Rightarrow> rat option) \<Rightarrow> (string \<Rightarrow> rat option) \<Rightarrow> db \<Rightarrow> activity list \<Rightarrow>
   (order_row \<times> order_fill) list" where
  "match_activities dec_of fromiso d as =
     List.map_filter (\<lambda>a. map_option (\<lambda>r. (r, activity_fill dec_of fromiso a))
       (order_by_broker_id (a_order_id a) d)) as"

text \<open>The fills grouped by order, the orders in the order of their first fill.\<close>

definition group_fills :: "(order_row \<times> order_fill) list \<Rightarrow> (string \<times> order_fill) list" where
  "group_fills ms =
     concat (map (\<lambda>c. map (\<lambda>(r, f). (c, f)) (filter (\<lambda>(r, f). o_client_order_id r = c) ms))
       (remdups (map (o_client_order_id \<circ> fst) ms)))"

definition backfill_alpaca_fills ::
  "(string \<Rightarrow> rat option) \<Rightarrow> (string \<Rightarrow> rat option) \<Rightarrow> backfill_config \<Rightarrow> rat \<Rightarrow>
   (rat \<Rightarrow> nat \<Rightarrow> string option \<Rightarrow> activity list result) \<Rightarrow> rat option \<Rightarrow> bool \<Rightarrow> db \<Rightarrow>
   backfill_counts option result \<times> db" where
  "backfill_alpaca_fills dec_of fromiso cfg now api lookback_hours recalc_all d =
     (if \<not> bf_enabled cfg \<and> lookback_hours = None then (Inr None, d)
      else
        let after = (case lookback_hours of
                Some h \<Rightarrow> now - h * 3600
              | None \<Rightarrow> (case get_high_water_mark ''alpaca_fills'' d of
                    Some t \<Rightarrow> t - bf_overlap_seconds cfg
                  | None \<Rightarrow> now - bf_initial_lookback_hours cfg * 3600))
        in case fetch_activities (api after) (bf_page_size cfg) (bf_max_pages cfg) None of
             Inl e \<Rightarrow> (Inl e, d)
           | Inr fills \<Rightarrow>
           if fills = [] then
             (Inr (Some \<lparr>bc_seen = 0, bc_inserted = 0, bc_unmatched = 0, bc_pnl_updates = 0\<rparr>),
              set_high_water_mark now ''alpaca_fills'' d)
           else if \<exists>a \<in> set fills. (case order_by_broker_id (a_order_id a) d of
               None \<Rightarrow> False | Some r \<Rightarrow> o_status r \<notin> set ORDER_STATUSES)
           then (Inl (ValueError ''1 validation error for OrderDetail''), d)
           else
             let ms = match_activities dec_of fromiso d fills;
                 (inserted, d1) = fold (\<lambda>(c, f) (n, d).
                     let (row, d') = append_fill_to_order_metadata now c f d
                     in (if row \<noteq> None then Suc n else n, d')) (group_fills ms) (0, d);
                 (updates, d2) = fold (\<lambda>(s, y) (n, d).
                     let ((total, k), d') = recalculate_trade_realized_pnl s y recalc_all None d
                     in (n + k, d'))
                   (remdups (map (\<lambda>(r, f). (o_strategy_id r, o_symbol r)) ms)) (0, d1)
             in (Inr (Some \<lparr>bc_seen = length fills, bc_inserted = inserted,
                    bc_unmatched = length fills - length ms, bc_pnl_updates = updates\<rparr>),
                 set_high_water_mark now ''alpaca_fills'' d2))"

section \<open>Pending modifications\<close>

text \<open>The constructor of a replacement request: the schema's checks of an instant order.\<close>

definition positive_price :: "rat option \<Rightarrow> bool" where
  "positive_price p = (case p of None \<Rightarrow> True | Some x \<Rightarrow> 0 < x)"

definition order_request_ok :: "db_order_request \<Rightarrow> bool" where
  "order_request_ok q \<longleftrightarrow>
     0 < q_qty q \<and> positive_price (q_limit_price q) \<and> positive_price (q_stop_price q) \<and>
     (q_order_type q \<in> {''limit'', ''stop_limit''} \<longrightarrow> q_limit_price q \<noteq> None) \<and>
     (q_order_type q \<in> {''stop'', ''stop_limit''} \<longrightarrow> q_stop_price q \<noteq> None) \<and>
     (q_order_type q = ''stop_limit'' \<longrightarrow>
        (case (q_limit_price q, q_stop_price q) of
           (Some l, Some s) \<Rightarrow> (q_side q = ''buy'' \<longrightarrow> l \<ge> s) \<and> (q_side q = ''sell'' \<longrightarrow> l \<le> s)
         | _ \<Rightarrow> True))"

definition replacement_request :: "order_row \<Rightarrow> mod_changes \<Rightarrow> db_order_request" where
  "replacement_request r c =
     (let tif = (case mc_time_in_force c of Some t \<Rightarrow> t | None \<Rightarrow> o_time_in_force r) in
      \<lparr>q_symbol = upper (o_symbol r), q_side = o_side r,
       q_qty = (case mc_qty c of Some n \<Rightarrow> n | None \<Rightarrow> o_qty r),
       q_order_type = o_order_type r,
       q_limit_price = (case mc_limit_price c of Some p \<Rightarrow> p | None \<Rightarrow> o_limit_price r),
       q_stop_price = (case mc_stop_price c of Some p \<Rightarrow> p | None \<Rightarrow> o_stop_price r),
       q_time_in_force = (if tif \<in> {''day'', ''gtc'', ''ioc'', ''fok''} then tif else ''day'')\<rparr>)"

definition recover_modification ::
  "rat \<Rightarrow> (string \<Rightarrow> broker_order option result) \<Rightarrow> modification_row \<Rightarrow> db \<Rightarrow> bool result \<times> db" where
  "recover_modification now lookup m d =
     (case lookup (md_new_client_order_id m) of
        Inl e \<Rightarrow> (Inr False, d)
      | Inr None \<Rightarrow> (Inr False, update_modification_status now (md_id m) ''failed''
          (Some ''Replacement order not found at broker after timeout'') d)
      | Inr (Some bo) \<Rightarrow>
          (case get_order_by_client_id (md_original_client_order_id m) d of
             Inl e \<Rightarrow> (Inl e, d)
           | Inr None \<Rightarrow> (Inr False, update_modification_status now (md_id m) ''failed''
               (Some ''Original order missing during modification recovery'') d)
           | Inr (Some original) \<Rightarrow>
               let q = replacement_request original (md_changes m) in
               if \<not> order_request_ok q then (Inl (ValueError ''validation error for OrderRequest''), d)
               else
                 let new_id = opt_or_text (b_client_order_id bo) (md_new_client_order_id m);
                     d1 = finalize_modification now (md_id m) (b_id bo) ''completed'' (Some new_id) d;
                     (x, d2) = update_order_status_simple_with_conn now
                        (md_original_client_order_id m) ''replaced'' d1
                 in (case x of
                       Inl e \<Rightarrow> (Inl e, d)
                     | Inr _ \<Rightarrow>
                         (case insert_replacement_order now new_id (md_original_client_order_id m) (o_strategy_id original) q
                             (opt_or_text (b_status bo) ''pending_new'') (b_id bo) d2 of
                            (Inl (IntegrityError _), _) \<Rightarrow> (Inr True, d)
                          | (Inl e, _) \<Rightarrow> (Inl e, d)
                          | (Inr _, d3) \<Rightarrow> (Inr True, d3)))))"

fun recover_modifications ::
  "rat \<Rightarrow> (string \<Rightarrow> broker_order option result) \<Rightarrow> modification_row list \<Rightarrow> db \<Rightarrow> nat result \<times> db" where
  "recover_modifications now lookup [] d = (Inr 0, d)"
| "recover_modifications now lookup (m # ms) d =
     (case recover_modification now lookup m d of
        (Inl e, d') \<Rightarrow> (Inl e, d')
      | (Inr ok, d') \<Rightarrow>
          (case recover_modifications now lookup ms d' of
             (Inl e, d'') \<Rightarrow> (Inl e, d'')
           | (Inr n, d'') \<Rightarrow> (Inr (if ok then Suc n else n), d'')))"

definition reconcile_pending_modifications ::
  "rat \<Rightarrow> (string \<Rightarrow> broker_order option result) \<Rightarrow> db \<Rightarrow> nat result \<times> db" where
  "reconcile_pending_modifications now lookup d =
     recover_modifications now lookup (get_pending_modifications_older_than (now - 300) d) d"

section \<open>The run\<close>

text \<open>
  What the run needs from outside: the parsers, the configuration and the broker, every answer of
  which may be an error, \<open>BrokerUnreachable\<close> for \<open>AlpacaConnectionError\<close>.
\<close>

record recon_env =
  e_dec_str :: "rat \<Rightarrow> string"
  e_dec_of :: "string \<Rightarrow> rat option"
  e_fromiso :: "string \<Rightarrow> rat option"
  e_overlap_seconds :: rat
  e_max_lookups :: nat
  e_grace_seconds :: rat
  e_backfill :: backfill_config
  e_open_orders :: "broker_order list result"
  e_recent_orders :: "rat \<Rightarrow> broker_order list result"
  e_lookup :: "string \<Rightarrow> broker_order option result"
  e_activities :: "rat \<Rightarrow> nat \<Rightarrow> string option \<Rightarrow> activity list result"
  e_positions :: "broker_position list result"

text \<open>The two lists of orders; the second is fetched only when a run has succeeded before.\<close>

definition fetch_broker_orders ::
  "recon_env \<Rightarrow> rat option \<Rightarrow> (broker_order list \<times> broker_order list) result" where
  "fetch_broker_orders e after_time =
     rbind (e_open_orders e) (\<lambda>open_orders.
       case after_time of
         None \<Rightarrow> Inr (open_orders, [])
       | Some t \<Rightarrow> rbind (e_recent_orders e t) (\<lambda>recent_orders. Inr (open_orders, recent_orders)))"

text \<open>
  The steps with the orders fetched.  An error of the broker or of the database ends the run where it
  happens, with what was committed before; only the backfill of the activities is shielded.
\<close>

definition reconcile_with ::
  "recon_env \<Rightarrow> rat \<Rightarrow> string \<Rightarrow> rat option \<Rightarrow> broker_order list \<Rightarrow> broker_order list \<Rightarrow>
   db \<times> redis option \<Rightarrow> recon_result result \<times> db \<times> redis option" where
  "reconcile_with e now mode after_time open_orders recent_orders st =
     (case st of (d, r) \<Rightarrow>
        let by_client = merge_broker_orders open_orders recent_orders;
            db_rows = get_non_terminal_orders None d;
            known = get_order_ids_by_client_ids
              (extract_broker_client_ids (open_orders @ recent_orders)) d
        in if \<exists>row \<in> set db_rows. o_status row \<notin> set ORDER_STATUSES
           then (Inl (ValueError ''1 validation error for OrderDetail''), d, r)
           else case reconcile_known_orders (e_dec_str e) now db_rows by_client d of
             (Inl err, d1) \<Rightarrow> (Inl err, d1, r)
           | (Inr _, d1) \<Rightarrow>
             (case reconcile_missing_orders (e_dec_str e) now (e_lookup e) after_time (e_max_lookups e)
                 (e_grace_seconds e) db_rows d1 of
                (Inl err, d2) \<Rightarrow> (Inl err, d2, r)
              | (Inr _, d2) \<Rightarrow>
                let (_, d3, r3) = detect_orphans (e_dec_str e) now open_orders recent_orders known (d2, r);
                    d4 = snd (backfill_terminal_fills (e_dec_str e) now by_client known d3);
                    d5 = snd (backfill_alpaca_fills (e_dec_of e) (e_fromiso e) (e_backfill e) now
                           (e_activities e) None False d4)
                in (case reconcile_positions now (e_positions e) d5 of
                      (Inl err, d6) \<Rightarrow> (Inl err, d6, r3)
                    | (Inr _, d6) \<Rightarrow>
                      (case reconcile_pending_modifications now (e_lookup e)
                          (snd (backfill_missing_fills_scan (e_dec_str e) now 200 d6)) of
                         (Inl err, d8) \<Rightarrow> (Inl err, d8, r3)
                       | (Inr _, d8) \<Rightarrow>
                           (Inr \<lparr>rc_success = True, rc_mode = mode\<rparr>,
                            set_high_water_mark now ''orders'' d8, r3)))))"

definition run_reconciliation ::
  "recon_env \<Rightarrow> rat \<Rightarrow> string \<Rightarrow> db \<times> redis option \<Rightarrow> recon_result result \<times> db \<times> redis option" where
  "run_reconciliation e now mode st =
     (let after_time = map_option (\<lambda>t. t - e_overlap_seconds e) (get_high_water_mark ''orders'' (fst st)) in
      case fetch_broker_orders e after_time of
        Inl err \<Rightarrow> (Inl err, st)
      | Inr (open_orders, recent_orders) \<Rightarrow>
          reconcile_with e now mode after_time open_orders recent_orders st)"

text \<open>
  \<open>run_reconciliation_once\<close> leaves the state of the gate alone in a dry run and when the run raises.
\<close>

type_synonym recon_world = "recon_state \<times> db \<times> redis option"

definition run_reconciliation_once ::
  "recon_env \<Rightarrow> rat \<Rightarrow> string \<Rightarrow> recon_world \<Rightarrow> unit result \<times> recon_world" where
  "run_reconciliation_once e now mode w =
     (case w of (s, st) \<Rightarrow>
        if rs_dry_run s then (Inr (), w)
        else case run_reconciliation e now mode st of
          (Inl err, st') \<Rightarrow> (Inl err, s, st')
        | (Inr res, st') \<Rightarrow>
            (Inr (), snd (open_gate_after_successful_run (record_reconciliation_result res s)), st'))"

text \<open>
  The clauses of the startup run and of the periodic loop: \<open>AlpacaConnectionError\<close>,
  \<open>OperationalError\<close>, \<open>IntegrityError\<close> and \<open>ValueError\<close> with their subclasses.
\<close>

fun recon_caught :: "py_error \<Rightarrow> bool" where
  "recon_caught (BrokerUnreachable _) = True"
| "recon_caught (DatabaseError _) = True"
| "recon_caught (IntegrityError _) = True"
| "recon_caught (ValueError _) = True"
| "recon_caught DecodeError = True"
| "recon_caught _ = False"

text \<open>The startup run records a failure it catches; any other error leaves it.\<close>

definition run_startup_reconciliation ::
  "recon_env \<Rightarrow> rat \<Rightarrow> recon_world \<Rightarrow> bool result \<times> recon_world" where
  "run_startup_reconciliation e now w =
     (case w of (s, st) \<Rightarrow>
        if rs_dry_run s then (Inr True, w)
        else case run_reconciliation_once e now ''startup'' w of
          (Inr _, w') \<Rightarrow> (Inr True, w')
        | (Inl err, s', st') \<Rightarrow>
            if recon_caught err
            then (Inr False, record_reconciliation_result \<lparr>rc_success = False, rc_mode = ''startup''\<rparr> s', st')
            else (Inl err, s', st'))"

text \<open>
  One turn of the periodic loop: errors it catches are logged, any other ends the loop, and the gate
  opens after a successful run.
\<close>

definition periodic_turn :: "recon_env \<Rightarrow> rat \<Rightarrow> recon_world \<Rightarrow> unit result \<times> recon_world" where
  "periodic_turn e now w =
     (case run_reconciliation_once e now ''periodic'' w of
        (Inl err, w') \<Rightarrow> (if recon_caught err then Inr () else Inl err, w')
      | (Inr _, s', st') \<Rightarrow> (Inr (), snd (open_gate_after_successful_run s'), st'))"

section \<open>The gate as a state machine\<close>

text \<open>The calls that reach the service, from the start-up, the periodic loop and the endpoints.\<close>

datatype gate_event =
    GStartup recon_env rat
  | GPeriodic recon_env rat
  | GManual recon_env rat
  | GForce rat "string option" "string option"

fun gate_event_step :: "gate_event \<Rightarrow> recon_world \<Rightarrow> recon_world" where
  "gate_event_step (GStartup e now) w = snd (run_startup_reconciliation e now w)"
| "gate_event_step (GPeriodic e now) w = snd (periodic_turn e now w)"
| "gate_event_step (GManual e now) w = snd (run_reconciliation_once e now ''manual'' w)"
| "gate_event_step (GForce now user reason) (s, st) =
     (snd (mark_startup_complete now True user reason s), st)"

inductive gate_reach :: "recon_world \<Rightarrow> gate_event list \<Rightarrow> recon_world \<Rightarrow> bool" for w0 where
  gate_start: "gate_reach w0 [] w0"
| gate_next: "gate_reach w0 evs w \<Longrightarrow> w' = gate_event_step ev w \<Longrightarrow> gate_reach w0 (evs @ [ev]) w'"

inductive_cases gate_reach_cases: "gate_reach w0 evs w"

text \<open>The event opens a closed gate: a successful run, or an override that is justified.\<close>

definition run_succeeds :: "recon_env \<Rightarrow> rat \<Rightarrow> string \<Rightarrow> recon_world \<Rightarrow> bool" where
  "run_succeeds e now mode w = (\<exists>x. fst (run_reconciliation e now mode (snd w)) = Inr x)"

fun opens_gate :: "gate_event \<Rightarrow> recon_world \<Rightarrow> bool" where
  "opens_gate (GStartup e now) w = run_succeeds e now ''startup'' w"
| "opens_gate (GPeriodic e now) w = run_succeeds e now ''periodic'' w"
| "opens_gate (GManual e now) w = run_succeeds e now ''manual'' w"
| "opens_gate (GForce now user reason) w =
     (rs_last_result (fst w) \<noteq> None \<and> user \<notin> {None, Some []} \<and> reason \<notin> {None, Some []})"

lemma open_gate_simps [simp]:
  "rs_startup_complete (snd (open_gate_after_successful_run s))"
  "rs_dry_run (snd (open_gate_after_successful_run s)) = rs_dry_run s"
  by (auto simp: open_gate_after_successful_run_def)

lemma record_result_simps [simp]:
  "rs_startup_complete (record_reconciliation_result x s) = rs_startup_complete s"
  "rs_dry_run (record_reconciliation_result x s) = rs_dry_run s"
  by (simp_all add: record_reconciliation_result_def)

lemma run_once_cases:
  assumes "\<not> rs_dry_run (fst w)"
  obtains
    (success) s' st' where "run_reconciliation_once e now mode w = (Inr (), s', st')" "run_succeeds e now mode w"
      "rs_startup_complete s'" "\<not> rs_dry_run s'"
  | (failed) err st' where "run_reconciliation_once e now mode w = (Inl err, fst w, st')"
      "\<not> run_succeeds e now mode w"
proof -
  obtain s st where w: "w = (s, st)" by (cases w)
  obtain res st' where run: "run_reconciliation e now mode st = (res, st')"
    by (cases "run_reconciliation e now mode st")
  show thesis
  proof (cases res)
    case (Inl err)
    with run assms show thesis
      by (intro failed [of err st']) (simp_all add: run_reconciliation_once_def run_succeeds_def w)
  next
    case (Inr x)
    with run assms show thesis
      by (intro success [of "snd (open_gate_after_successful_run (record_reconciliation_result x s))" st'])
        (simp_all add: run_reconciliation_once_def run_succeeds_def w)
  qed
qed

lemma gate_event_effect:
  assumes "\<not> rs_dry_run (fst w)"
  shows "rs_startup_complete (fst (gate_event_step ev w)) \<longleftrightarrow> rs_startup_complete (fst w) \<or> opens_gate ev w"
    and "\<not> rs_dry_run (fst (gate_event_step ev w))"
proof -
  obtain s st where w: "w = (s, st)" by (cases w)
  have "(rs_startup_complete (fst (gate_event_step ev w)) \<longleftrightarrow> rs_startup_complete (fst w) \<or> opens_gate ev w) \<and>
    \<not> rs_dry_run (fst (gate_event_step ev w))"
  proof (cases ev)
    case (GStartup e now)
    show ?thesis
      by (rule run_once_cases [OF assms, of e now "''startup''"])
        (use assms in \<open>auto simp: GStartup run_startup_reconciliation_def w\<close>)
  next
    case (GPeriodic e now)
    show ?thesis
      by (rule run_once_cases [OF assms, of e now "''periodic''"])
        (use assms in \<open>auto simp: GPeriodic periodic_turn_def w\<close>)
  next
    case (GManual e now)
    show ?thesis
      by (rule run_once_cases [OF assms, of e now "''manual''"]) (use assms in \<open>auto simp: GManual w\<close>)
  next
    case (GForce now user reason)
    with assms show ?thesis
      by (auto simp: w mark_startup_complete_def split: option.splits)
  qed
  then show "rs_startup_complete (fst (gate_event_step ev w)) \<longleftrightarrow> rs_startup_complete (fst w) \<or> opens_gate ev w"
    and "\<not> rs_dry_run (fst (gate_event_step ev w))" by simp_all
qed

lemma gate_reach_live: "gate_reach w0 evs w \<Longrightarrow> \<not> rs_dry_run (fst w0) \<Longrightarrow> \<not> rs_dry_run (fst w)"
  by (induction rule: gate_reach.induct) (simp_all add: gate_event_effect(2))

section \<open>Orphans: lemmas\<close>

lemma quarantine_key_not_exposure [simp]: "quarantine_key a b \<noteq> orphan_exposure_key c d"
  by (simp add: quarantine_key_def orphan_exposure_key_def)

definition quarantined :: "redis \<Rightarrow> string \<Rightarrow> bool" where
  "quarantined r symbol \<longleftrightarrow> redis_get r (quarantine_key ''*'' symbol) = Some (RRaw ''orphan_order_detected'')"

definition is_orphan :: "string list \<Rightarrow> broker_order \<Rightarrow> string \<Rightarrow> bool" where
  "is_orphan known bo symbol \<longleftrightarrow>
     b_symbol bo = Some symbol \<and> symbol \<noteq> [] \<and> b_id bo \<notin> {None, Some []} \<and>
     (\<forall>c. b_client_order_id bo = Some c \<longrightarrow> c = [] \<or> c \<notin> set known)"

lemma handle_orphan_redis:
  assumes "handle_orphan_order dec_str now rt bo (d, Some r) = (ok, d', r')"
  shows "\<exists>r1. r' = Some r1 \<and> (\<forall>s. quarantined r s \<longrightarrow> quarantined r1 s) \<and>
    (\<forall>s. b_symbol bo = Some s \<and> s \<noteq> [] \<and> b_id bo \<notin> {None, Some []} \<longrightarrow> ok \<and> quarantined r1 s)"
proof (cases "ok")
  case True
  then obtain s bid where s: "b_symbol bo = Some s" "b_id bo = Some bid" "s \<noteq> []" "bid \<noteq> []"
    using assms by (auto simp: handle_orphan_order_def split: option.splits if_splits)
  with assms show ?thesis
    by (auto simp: handle_orphan_order_def set_quarantine_def sync_orphan_exposure_def quarantined_def Let_def
        quarantine_key_def [of "''*''"] orphan_exposure_key_def)
next
  case False
  with assms show ?thesis
    by (auto simp: handle_orphan_order_def Let_def split: option.splits if_splits)
qed

lemma detect_orphans_in_redis:
  assumes "detect_orphans_in dec_str now rt known os (n, d, Some r) = (n', d', r')"
  shows "\<exists>r1. r' = Some r1 \<and> (\<forall>s. quarantined r s \<longrightarrow> quarantined r1 s) \<and>
    (\<forall>bo \<in> set os. \<forall>s. is_orphan known bo s \<longrightarrow> quarantined r1 s)"
  using assms
proof (induction os arbitrary: n d r)
  case Nil
  then show ?case by (auto simp: detect_orphans_in_def)
next
  case (Cons bo os)
  let ?skip = "case b_client_order_id bo of Some c \<Rightarrow> c \<noteq> [] \<and> c \<in> set known | None \<Rightarrow> False"
  show ?case
  proof (cases ?skip)
    case True
    then have "detect_orphans_in dec_str now rt known os (n, d, Some r) = (n', d', r')"
      using Cons.prems by (simp add: detect_orphans_in_def)
    from Cons.IH [OF this] True show ?thesis
      by (auto simp: is_orphan_def split: option.splits)
  next
    case False
    obtain ok d1 r1 where h: "handle_orphan_order dec_str now rt bo (d, Some r) = (ok, d1, r1)"
      by (cases "handle_orphan_order dec_str now rt bo (d, Some r)")
    from handle_orphan_redis [OF h] obtain r2 where r2: "r1 = Some r2"
      "\<forall>s. quarantined r s \<longrightarrow> quarantined r2 s"
      "\<forall>s. b_symbol bo = Some s \<and> s \<noteq> [] \<and> b_id bo \<notin> {None, Some []} \<longrightarrow> ok \<and> quarantined r2 s"
      by blast
    have "detect_orphans_in dec_str now rt known os (if ok then Suc n else n, d1, Some r2) = (n', d', r')"
      using Cons.prems False h r2(1) by (simp add: detect_orphans_in_def)
    from Cons.IH [OF this] obtain r3 where r3: "r' = Some r3"
      "\<forall>s. quarantined r2 s \<longrightarrow> quarantined r3 s"
      "\<forall>bo \<in> set os. \<forall>s. is_orphan known bo s \<longrightarrow> quarantined r3 s" by blast
    have "quarantined r3 s" if "is_orphan known bo s" for s
      using that r2(3) r3(2) by (simp add: is_orphan_def)
    with r2(2) r3 show ?thesis by simp
  qed
qed

lemma detect_orphans_redis:
  assumes "detect_orphans dec_str now open_orders recent_orders known (d, Some r) = (n, d', r')"
  shows "\<exists>r1. r' = Some r1 \<and> (\<forall>s. quarantined r s \<longrightarrow> quarantined r1 s) \<and>
    (\<forall>bo \<in> set (open_orders @ recent_orders). \<forall>s. is_orphan known bo s \<longrightarrow> quarantined r1 s)"
proof -
  obtain n1 d1 r1 where first: "detect_orphans_in dec_str now False known open_orders (0, d, Some r) = (n1, d1, r1)"
    by (cases "detect_orphans_in dec_str now False known open_orders (0, d, Some r)")
  from detect_orphans_in_redis [OF first] obtain r2 where r2: "r1 = Some r2"
    "\<forall>s. quarantined r s \<longrightarrow> quarantined r2 s"
    "\<forall>bo \<in> set open_orders. \<forall>s. is_orphan known bo s \<longrightarrow> quarantined r2 s" by blast
  have "detect_orphans_in dec_str now True known recent_orders (n1, d1, Some r2) = (n, d', r')"
    using assms first r2(1) by (simp add: detect_orphans_def)
  from detect_orphans_in_redis [OF this] r2 show ?thesis by auto
qed

section \<open>Activities: lemmas\<close>

text \<open>
  A cursor over the activities: a page starts after the token, or at it when \<open>incl\<close> holds; without
  a token it starts at the first.
\<close>

definition cursor_page :: "bool \<Rightarrow> activity list \<Rightarrow> nat \<Rightarrow> string option \<Rightarrow> activity list" where
  "cursor_page incl as sz token =
     (case token of
        None \<Rightarrow> take sz as
      | Some i \<Rightarrow> take sz ((if incl then (\<lambda>x. x) else tl) (dropWhile (\<lambda>a. a_id a \<noteq> i) as)))"

definition cursor_api :: "bool \<Rightarrow> activity list \<Rightarrow> nat \<Rightarrow> string option \<Rightarrow> activity list result" where
  "cursor_api incl as sz token = Inr (cursor_page incl as sz token)"

lemma dropWhile_at:
  assumes "distinct (map a_id as)" "k < length as"
  shows "dropWhile (\<lambda>a. a_id a \<noteq> a_id (as ! k)) as = drop k as"
  using assms
proof (induction as arbitrary: k)
  case Nil
  then show ?case by simp
next
  case (Cons x xs)
  show ?case
  proof (cases k)
    case 0
    then show ?thesis by simp
  next
    case (Suc j)
    have "a_id x \<noteq> a_id (xs ! j)" using Cons.prems Suc by auto
    with Cons Suc show ?thesis by simp
  qed
qed

lemma last_take: "0 < j \<Longrightarrow> j \<le> length xs \<Longrightarrow> last (take j xs) = xs ! (j - 1)"
  by (subst last_conv_nth) auto

lemma take_nonempty: "0 < j \<Longrightarrow> j \<le> length xs \<Longrightarrow> take j xs \<noteq> []"
  by auto

lemma fetch_from:
  assumes "distinct (map a_id as)" "[] \<notin> a_id ` set as" "k < length as"
  shows "\<exists>n. fetch_activities (cursor_api incl as) sz pages (Some (a_id (as ! k))) =
      Inr (take n (drop (Suc k) as)) \<and> (n \<ge> pages * sz \<or> n \<ge> length as - Suc k)"
  using assms(3)
proof (induction pages arbitrary: k)
  case 0
  show ?case by (rule exI [of _ 0]) simp
next
  case (Suc pages)
  let ?tok = "a_id (as ! k)"
  let ?rest = "drop (Suc k) as"
  have from_k: "dropWhile (\<lambda>a. a_id a \<noteq> ?tok) as = as ! k # ?rest"
    using dropWhile_at [OF assms(1) Suc.prems] Cons_nth_drop_Suc [OF Suc.prems] by simp
  define m where "m = (if incl then sz else Suc sz)"
  have fresh: "filter (\<lambda>a. a_id a \<noteq> ?tok) (take j ?rest) = take j ?rest" for j
  proof -
    have "distinct (map a_id (as ! k # ?rest))"
      using assms(1) Cons_nth_drop_Suc [OF Suc.prems] by (metis distinct_drop drop_map)
    then have "\<forall>a \<in> set ?rest. a_id a \<noteq> ?tok" by (metis distinct.simps(2) image_eqI list.map(2) set_map)
    then show ?thesis by (auto simp: filter_id_conv dest: in_set_takeD)
  qed
  define raw where "raw = cursor_page incl as (sz + 1) (Some ?tok)"
  have raw: "raw = (if incl then as ! k # take sz ?rest else take (Suc sz) ?rest)"
    by (simp add: raw_def cursor_page_def from_k)
  have page: "filter (\<lambda>a. a_id a \<noteq> ?tok) raw = take m ?rest"
    using fresh by (simp add: raw m_def)
  have step: "fetch_activities (cursor_api incl as) sz (Suc pages) (Some ?tok) =
      (if raw = [] then Inr []
       else if length raw < sz + 1 then Inr (take m ?rest)
       else if a_id (last raw) = [] then Inr (take m ?rest)
       else rbind (fetch_activities (cursor_api incl as) sz pages (Some (a_id (last raw))))
         (\<lambda>rest. Inr (take m ?rest @ rest)))"
    using page by (simp add: raw_def Let_def cursor_api_def)
  have len: "length as - Suc k = length ?rest" by simp
  show ?case
  proof (cases "length raw < sz + 1 \<or> raw = []")
    case True
    then have "length ?rest \<le> m"
      by (auto simp: raw m_def split: if_splits)
    with True step len show ?thesis
      by (intro exI [of _ m]) (auto simp: raw m_def split: if_splits)
  next
    case False
    then have long: "m \<le> length ?rest" by (auto simp: raw m_def split: if_splits)
    show ?thesis
    proof (cases "m = 0")
      case True
      then have "sz = 0" "incl" by (auto simp: m_def split: if_splits)
      then have "last raw = as ! k" by (simp add: raw)
      moreover have "?tok \<noteq> []" using assms(2) Suc.prems by (metis nth_mem image_eqI)
      ultimately have "fetch_activities (cursor_api incl as) sz (Suc pages) (Some ?tok) =
          rbind (fetch_activities (cursor_api incl as) sz pages (Some ?tok)) Inr"
        using False step True by simp
      with Suc.IH [OF Suc.prems] \<open>sz = 0\<close> show ?thesis by auto
    next
      case pos: False
      then have "last raw = ?rest ! (m - 1)"
        using long last_take [of m ?rest] take_nonempty [of m ?rest]
        by (auto simp: raw m_def split: if_splits)
      moreover have "?rest ! (m - 1) = as ! (k + m)" using long pos by simp
      moreover have bound: "k + m < length as" using long Suc.prems pos by simp
      ultimately have at_end: "last raw = as ! (k + m)" by simp
      have named: "a_id (as ! (k + m)) \<noteq> []" using assms(2) bound by (metis nth_mem image_eqI)
      from Suc.IH [OF bound] obtain n where
        n: "fetch_activities (cursor_api incl as) sz pages (Some (a_id (as ! (k + m)))) =
          Inr (take n (drop (Suc (k + m)) as))" "n \<ge> pages * sz \<or> n \<ge> length as - Suc (k + m)" by blast
      have "take m ?rest @ take n (drop m ?rest) = take (m + n) ?rest" by (simp add: take_add)
      then have "fetch_activities (cursor_api incl as) sz (Suc pages) (Some ?tok) = Inr (take (m + n) ?rest)"
        unfolding step at_end n(1) using False named by (simp add: add.commute [of m k])
      moreover have "m + n \<ge> Suc pages * sz \<or> m + n \<ge> length as - Suc k"
        using n(2) by (auto simp: m_def)
      ultimately show ?thesis by blast
    qed
  qed
qed

section \<open>Properties\<close>

text \<open>C37. Trading stays gated until the broker has been consulted: whatever calls have reached the service
  since it was created outside a dry run, an open gate was opened by one of them, either by a run
  that succeeded on the state of that moment, or by an override that names its user and its reason
  after a run had been recorded.\<close>

theorem gate_opens_only_after_run:
  assumes "gate_reach (recon_state_init False timeout now0, st) evs w" "is_startup_complete (fst w)"
  shows "\<exists>evs1 ev evs2 w1. evs = evs1 @ ev # evs2 \<and>
    gate_reach (recon_state_init False timeout now0, st) evs1 w1 \<and>
    \<not> is_startup_complete (fst w1) \<and> opens_gate ev w1"
  using assms
proof (induction rule: gate_reach.induct)
  case gate_start
  then show ?case by (simp add: recon_state_init_def is_startup_complete_def)
next
  case (gate_next evs w w' ev)
  have live: "\<not> rs_dry_run (fst w)"
    using gate_reach_live [OF gate_next.hyps(1)] by (simp add: recon_state_init_def)
  show ?case
  proof (cases "is_startup_complete (fst w)")
    case True
    from gate_next.IH [OF True] show ?thesis by (metis append.assoc append_Cons)
  next
    case False
    with gate_next.prems gate_next.hyps(2) gate_event_effect [OF live, of ev] live
    have "opens_gate ev w" by (auto simp: is_startup_complete_def)
    with False gate_next.hyps(1) show ?thesis by blast
  qed
qed

definition quiet_env :: recon_env where
  "quiet_env =
     \<lparr>e_dec_str = (\<lambda>x. ''n''), e_dec_of = (\<lambda>s. None), e_fromiso = (\<lambda>s. None), e_overlap_seconds = 60,
      e_max_lookups = 100, e_grace_seconds = 300,
      e_backfill = \<lparr>bf_enabled = False, bf_initial_lookback_hours = 24, bf_page_size = 100,
        bf_max_pages = 5, bf_overlap_seconds = 60\<rparr>,
      e_open_orders = Inr [], e_recent_orders = (\<lambda>t. Inr []), e_lookup = (\<lambda>c. Inr None),
      e_activities = (\<lambda>t n k. Inr []), e_positions = Inr []\<rparr>"

definition empty_db :: db where
  "empty_db = \<lparr>db_orders = [], db_positions = [], db_trades = [], db_orphans = [],
     db_high_water = [], db_modifications = []\<rparr>"

lemma quiet_run: "run_succeeds quiet_env 5 ''startup'' (s, empty_db, None)"
proof -
  have "fst (run_reconciliation quiet_env 5 ''startup'' (empty_db, None)) =
      Inr \<lparr>rc_success = True, rc_mode = ''startup''\<rparr>"
    by code_simp
  then show ?thesis by (simp add: run_succeeds_def)
qed

lemma gate_opens_only_after_run_witness:
  "\<exists>evs1 ev evs2 w1. [GStartup quiet_env 5] = evs1 @ ev # evs2 \<and>
    gate_reach (recon_state_init False 300 0, empty_db, None) evs1 w1 \<and>
    \<not> is_startup_complete (fst w1) \<and> opens_gate ev w1"
proof -
  let ?w0 = "(recon_state_init False 300 0, empty_db, None) :: recon_world"
  have reach: "gate_reach ?w0 ([] @ [GStartup quiet_env 5]) (gate_event_step (GStartup quiet_env 5) ?w0)"
    by (rule gate_next [OF gate_start refl])
  have "\<not> rs_dry_run (fst ?w0)" by (simp add: recon_state_init_def)
  from gate_event_effect [OF this, of "GStartup quiet_env 5"] quiet_run
  have "is_startup_complete (fst (gate_event_step (GStartup quiet_env 5) ?w0))"
    by (simp add: is_startup_complete_def)
  from gate_opens_only_after_run [OF reach [unfolded append_Nil] this] show ?thesis .
qed

text \<open>One successful run is enough for good: from any state outside a dry run, after a startup, periodic
  or manual run that succeeds, or a justified override, the gate is open, and no later call closes
  it again.\<close>

theorem gate_opens_and_stays:
  assumes "\<not> rs_dry_run (fst w)" "opens_gate ev w" "gate_reach (gate_event_step ev w) evs w'"
  shows "is_startup_complete (fst w')"
proof -
  have start: "rs_startup_complete (fst (gate_event_step ev w))" "\<not> rs_dry_run (fst (gate_event_step ev w))"
    using gate_event_effect [OF assms(1), of ev] assms(2) by simp_all
  from assms(3) have "rs_startup_complete (fst w') \<and> \<not> rs_dry_run (fst w')"
    by (induction rule: gate_reach.induct) (simp_all add: start gate_event_effect)
  then show ?thesis by (simp add: is_startup_complete_def)
qed

lemma gate_opens_and_stays_witness:
  "is_startup_complete (fst (gate_event_step (GForce 9 None None)
     (gate_event_step (GStartup quiet_env 5) (recon_state_init False 300 0, empty_db, None))))"
proof -
  let ?w = "(recon_state_init False 300 0, empty_db, None) :: recon_world"
  have "gate_reach (gate_event_step (GStartup quiet_env 5) ?w) ([] @ [GForce 9 None None])
      (gate_event_step (GForce 9 None None) (gate_event_step (GStartup quiet_env 5) ?w))"
    by (rule gate_next [OF gate_start refl])
  from gate_opens_and_stays [OF _ _ this] show ?thesis
    using quiet_run by (simp add: recon_state_init_def)
qed

text \<open>Every orphan is quarantined: after the scan, each symbol for which one of the broker's orders
  is not known to the database is marked in Redis for all strategies, and no mark has been lost.\<close>

theorem orphans_quarantined:
  assumes "detect_orphans dec_str now open_orders recent_orders known (d, Some r) = (n, d', r')"
  shows "\<exists>r1. r' = Some r1 \<and> (\<forall>s. quarantined r s \<longrightarrow> quarantined r1 s) \<and>
    (\<forall>bo \<in> set (open_orders @ recent_orders). \<forall>s. is_orphan known bo s \<longrightarrow> quarantined r1 s)"
  by (rule detect_orphans_redis [OF assms])

lemma orphans_quarantined_witness:
  "\<exists>r1. snd (snd (detect_orphans (\<lambda>x. ''n'') 5 [sample_broker_order ''new'' 1 0] [] []
       (empty_db, Some empty_redis))) = Some r1 \<and> quarantined r1 ''AAPL''"
proof -
  let ?run = "detect_orphans (\<lambda>x. ''n'') 5 [sample_broker_order ''new'' 1 0] [] [] (empty_db, Some empty_redis)"
  have "?run = (fst ?run, fst (snd ?run), snd (snd ?run))" by simp
  from orphans_quarantined [OF this] show ?thesis
    by (force simp: is_orphan_def sample_broker_order_def)
qed

text \<open>Paging loses and repeats nothing: against an API that answers from a list of activities with
  distinct identifiers, whether a page starts at its token or after it, the loop returns an initial
  part of the list, in order, which is the whole list unless the allowed pages are used up.\<close>

theorem activities_are_a_prefix:
  assumes "distinct (map a_id as)" "[] \<notin> a_id ` set as" "0 < sz"
  shows "\<exists>n. fetch_activities (cursor_api incl as) sz pages None = Inr (take n as) \<and>
    (n \<ge> pages * sz \<or> n \<ge> length as)"
proof (cases pages)
  case 0
  then show ?thesis by (intro exI [of _ 0]) simp
next
  case (Suc k)
  have api: "cursor_api incl as sz None = Inr (take sz as)" by (simp add: cursor_api_def cursor_page_def)
  show ?thesis
  proof (cases "length as < sz \<or> as = []")
    case True
    then show ?thesis using api by (intro exI [of _ sz]) (auto simp: Suc Let_def)
  next
    case False
    then have at_end: "last (take sz as) = as ! (sz - 1)" and bound: "sz - 1 < length as"
      using last_take [of sz as] assms(3) by auto
    have named: "a_id (as ! (sz - 1)) \<noteq> []" using assms(2) bound by (metis nth_mem image_eqI)
    from fetch_from [OF assms(1,2) bound, of incl sz k] assms(3) obtain n where
      n: "fetch_activities (cursor_api incl as) sz k (Some (a_id (as ! (sz - 1)))) = Inr (take n (drop sz as))"
        "n \<ge> k * sz \<or> n \<ge> length as - sz" by auto
    have "fetch_activities (cursor_api incl as) sz pages None = Inr (take sz as @ take n (drop sz as))"
      using False assms(3) named at_end api n(1) by (simp add: Suc Let_def del: append_take_drop_id)
    then have "fetch_activities (cursor_api incl as) sz pages None = Inr (take (sz + n) as)"
      by (simp add: take_add)
    then show ?thesis using n(2) by (intro exI [of _ "sz + n"]) (auto simp: Suc)
  qed
qed

definition sample_activity :: "string \<Rightarrow> activity" where
  "sample_activity i =
     \<lparr>a_id = i, a_order_id = ''b1'', a_symbol = ''AAPL'', a_side = ''buy'', a_qty = ''1'',
      a_price = ''2'', a_transaction_time = [], a_activity_time = []\<rparr>"

lemma activities_are_a_prefix_witness:
  "fetch_activities (cursor_api True (map sample_activity [''1'', ''2'', ''3''])) 2 3 None =
     Inr (map sample_activity [''1'', ''2'', ''3''])"
proof -
  let ?as = "map sample_activity [''1'', ''2'', ''3'']"
  have "distinct (map a_id ?as)" "[] \<notin> a_id ` set ?as" "0 < (2 :: nat)"
    by (auto simp: sample_activity_def)
  from activities_are_a_prefix [OF this, of True 3] obtain n where
    n: "fetch_activities (cursor_api True ?as) 2 3 None = Inr (take n ?as)" "n \<ge> 3 * 2 \<or> n \<ge> length ?as"
    by blast
  from n(2) have "length ?as \<le> n" by auto
  with n(1) show ?thesis by simp
qed

text \<open>
  The replacement that exists already: the insertion's error is swallowed inside the transaction,
  which the database has aborted, so that the modification stays pending although it is counted.
\<close>

lemma known_replacement_not_finalized:
  assumes "lookup (md_new_client_order_id m) = Inr (Some bo)"
    "get_order_by_client_id (md_original_client_order_id m) d = Inr (Some original)"
    "order_request_ok (replacement_request original (md_changes m))"
    "db_order d (opt_or_text (b_client_order_id bo) (md_new_client_order_id m)) \<noteq> None"
  shows "recover_modification now lookup m d = (Inr True, d)"
proof -
  obtain row where row: "db_order d (md_original_client_order_id m) = Some row"
    using assms(2) by (auto simp: get_order_by_client_id_def split: option.splits)
  have order [simp]: "db_order (finalize_modification now i b st c d) = db_order d" for i b st c
    by (simp add: finalize_modification_def db_order_def fun_eq_iff)
  obtain d2 where simple: "update_order_status_simple_with_conn now (md_original_client_order_id m) ''replaced''
      (finalize_modification now (md_id m) (b_id bo) ''completed''
        (Some (opt_or_text (b_client_order_id bo) (md_new_client_order_id m))) d) = (Inr (Some d2),
      db_set_order (md_original_client_order_id m) d2 (finalize_modification now (md_id m) (b_id bo) ''completed''
        (Some (opt_or_text (b_client_order_id bo) (md_new_client_order_id m))) d))"
    using row by (simp add: update_order_status_simple_with_conn_def update_order_where_def
        order_detail_def ORDER_STATUSES_def)
  show ?thesis
    using assms simple
    by (auto simp: recover_modification_def Let_def insert_replacement_order_def split: option.splits)
qed

end
