(* ===== verification/Order_Id.thy ===== *)
theory Order_Id
  imports Sha256
begin

text \<open>
  Deterministic order identifiers of \<^verbatim>\<open>apps/execution_gateway/order_id_generator.py\<close>: the fields of an
  order, its strategy and its date joined by bars, hashed with SHA-256 and cut to twenty-four
  hexadecimal digits.  Prices are quantised to cents with \<open>ROUND_HALF_UP\<close>.
\<close>

section \<open>Dates and prices\<close>

record date =
  d_year :: nat
  d_month :: nat
  d_day :: nat

definition date_isoformat :: "date \<Rightarrow> string" where
  "date_isoformat d =
     pad_nat 4 (d_year d) @ ''-'' @ pad_nat 2 (d_month d) @ ''-'' @ pad_nat 2 (d_day d)"

definition price_cents :: "rat \<Rightarrow> nat" where
  "price_cents p = nat \<lfloor>\<bar>p\<bar> * 100 + 1 / 2\<rfloor>"

text \<open>\<open>str(price.quantize(Decimal("0.01"), rounding=ROUND_HALF_UP))\<close>: the sign stays when it rounds to zero.\<close>

definition format_price_for_id :: "rat option \<Rightarrow> string" where
  "format_price_for_id price =
     (case price of
        None \<Rightarrow> ''None''
      | Some p \<Rightarrow>
          (if p < 0 then ''-'' else []) @ show_nat (price_cents p div 100) @ ''.'' @
          pad_nat 2 (price_cents p mod 100))"

section \<open>The identifier\<close>

record order_request =
  or_symbol :: string
  or_side :: string
  or_qty :: int
  or_order_type :: string
  or_limit_price :: "rat option"
  or_stop_price :: "rat option"
  or_time_in_force :: string
  or_execution_style :: string
  or_client_order_id :: "string option"

definition order_id_max_length :: nat where
  "order_id_max_length = 24"

definition raw_order_string ::
  "string \<Rightarrow> string \<Rightarrow> int \<Rightarrow> rat option \<Rightarrow> rat option \<Rightarrow> string \<Rightarrow> string \<Rightarrow> string \<Rightarrow> date \<Rightarrow> string" where
  "raw_order_string symbol side qty limit_price stop_price order_type time_in_force strategy_id order_date =
     join_with CHR ''|''
       [symbol, side, show_int qty, format_price_for_id limit_price, format_price_for_id stop_price,
        order_type, time_in_force, strategy_id, date_isoformat order_date]"

definition reconstruct_order_params_hash ::
  "string \<Rightarrow> string \<Rightarrow> int \<Rightarrow> rat option \<Rightarrow> rat option \<Rightarrow> string \<Rightarrow> string \<Rightarrow> string \<Rightarrow> date \<Rightarrow> string" where
  "reconstruct_order_params_hash symbol side qty limit_price stop_price order_type time_in_force
       strategy_id order_date =
     take order_id_max_length (sha256_hexdigest
       (raw_order_string symbol side qty limit_price stop_price order_type time_in_force
          strategy_id order_date))"

text \<open>\<open>today\<close> is \<open>datetime.now(UTC).date()\<close>.\<close>

definition generate_client_order_id ::
  "order_request \<Rightarrow> string \<Rightarrow> date option \<Rightarrow> date \<Rightarrow> string" where
  "generate_client_order_id order strategy_id as_of_date today =
     (let order_date = (case as_of_date of Some d \<Rightarrow> d | None \<Rightarrow> today);
          raw = raw_order_string (or_symbol order) (or_side order) (or_qty order)
                  (or_limit_price order) (or_stop_price order) (or_order_type order)
                  (or_time_in_force order) strategy_id order_date
      in take order_id_max_length (sha256_hexdigest raw))"

section \<open>Validation\<close>

text \<open>
  \<open>int(s, 16)\<close> accepts white space around the number, a sign, the prefix \<open>0x\<close> and single
  underscores between digits (and after the prefix).
\<close>

definition is_hex_digit :: "char \<Rightarrow> bool" where
  "is_hex_digit c \<longleftrightarrow> is_lower_hex c \<or> 65 \<le> (of_char c :: nat) \<and> of_char c \<le> (70 :: nat)"

text \<open>Digits with single underscores between them; the flag says the last character was a digit.\<close>

fun hex_digits_ok :: "bool \<Rightarrow> string \<Rightarrow> bool" where
  "hex_digits_ok after_digit [] = after_digit"
| "hex_digits_ok after_digit (c # s) =
     (if c = CHR ''_'' then after_digit \<and> hex_digits_ok False s
      else is_hex_digit c \<and> hex_digits_ok True s)"

definition drop_sign :: "string \<Rightarrow> string" where
  "drop_sign s = (case s of c # s' \<Rightarrow> if c = CHR ''+'' \<or> c = CHR ''-'' then s' else s | [] \<Rightarrow> [])"

definition int16_ok :: "string \<Rightarrow> bool" where
  "int16_ok s =
     (case drop_sign (strip s) of
        c # d # rest \<Rightarrow>
          if c = CHR ''0'' \<and> (d = CHR ''x'' \<or> d = CHR ''X'')
          then (case rest of
                  u # rest' \<Rightarrow> if u = CHR ''_'' then hex_digits_ok False rest' else hex_digits_ok False rest
                | [] \<Rightarrow> False)
          else hex_digits_ok False (c # d # rest)
      | s' \<Rightarrow> hex_digits_ok False s')"

definition validate_client_order_id :: "string \<Rightarrow> bool" where
  "validate_client_order_id client_order_id =
     (if length client_order_id \<noteq> order_id_max_length then False else int16_ok client_order_id)"

definition parse_order_date_from_timestamp :: "date \<times> 't \<Rightarrow> date" where
  "parse_order_date_from_timestamp ts = fst ts"

section \<open>Prices and dates can be read off the text\<close>

definition no_char :: "char \<Rightarrow> string \<Rightarrow> bool" where
  "no_char c s \<longleftrightarrow> c \<notin> set s"

lemma not_digit [simp]:
  "\<not> is_digit CHR ''-''" "\<not> is_digit CHR ''.''" "\<not> is_digit CHR ''|''" "\<not> is_digit CHR ''N''"
  by (simp_all add: is_digit_def)

lemma show_nat_no [simp]: "\<not> is_digit c \<Longrightarrow> c \<notin> set (show_nat n)"
  using show_nat_digits by blast

lemma pad_nat_no [simp]: "\<not> is_digit c \<Longrightarrow> c \<notin> set (pad_nat k n)"
  using pad_nat_digits by blast

lemma date_isoformat_inject: "date_isoformat d = date_isoformat d' \<longleftrightarrow> d = d'"
  by (cases d; cases d') (auto simp: date_isoformat_def split_at_first)

definition same_price :: "rat option \<Rightarrow> rat option \<Rightarrow> bool" where
  "same_price p p' =
     (case (p, p') of
        (None, None) \<Rightarrow> True
      | (Some x, Some y) \<Rightarrow> (x < 0) = (y < 0) \<and> price_cents x = price_cents y
      | _ \<Rightarrow> False)"

lemma show_nat_hd: "\<exists>c s. show_nat n = c # s \<and> is_digit c"
  using show_nat_nonempty [of n] show_nat_digits [of _ n] by (cases "show_nat n") simp_all

lemma format_price_eq_iff:
  "format_price_for_id p = format_price_for_id p' \<longleftrightarrow> same_price p p'"
proof -
  have none: "format_price_for_id (Some x) \<noteq> ''None''" for x
    using show_nat_hd [of "price_cents x div 100"] by (auto simp: format_price_for_id_def)
  have body: "show_nat (m div 100) @ CHR ''.'' # pad_nat 2 (m mod 100) =
      show_nat (n div 100) @ CHR ''.'' # pad_nat 2 (n mod 100) \<longleftrightarrow> m = n" for m n
    by (auto simp: split_at_first show_nat_inject) (metis mult_div_mod_eq)
  have sign: "show_nat m @ s \<noteq> CHR ''-'' # t" for m s t
    using show_nat_hd [of m] by auto
  have some: "format_price_for_id (Some x) = format_price_for_id (Some y) \<longleftrightarrow>
      same_price (Some x) (Some y)" for x y
    using body sign sign [symmetric]
    by (auto simp: format_price_for_id_def same_price_def)
  have "format_price_for_id None = ''None''" by (simp add: format_price_for_id_def)
  with none some show ?thesis
    by (cases p; cases p') (auto simp: same_price_def dest: sym)
qed

lemma format_price_no_bar: "CHR ''|'' \<notin> set (format_price_for_id p)"
  by (cases p) (auto simp: format_price_for_id_def)

lemma date_isoformat_no_bar: "CHR ''|'' \<notin> set (date_isoformat d)"
  by (simp add: date_isoformat_def)

lemma show_int_no_bar: "CHR ''|'' \<notin> set (show_int i)"
  using show_int_chars [of "CHR ''|''" i] by auto

section \<open>Hexadecimal texts are valid\<close>

lemma lower_hex_not:
  "is_lower_hex c \<Longrightarrow> c \<noteq> CHR ''_'' \<and> c \<noteq> CHR ''+'' \<and> c \<noteq> CHR ''-'' \<and> c \<noteq> CHR ''x'' \<and>
     c \<noteq> CHR ''X'' \<and> \<not> is_space c"
  by (auto simp: is_lower_hex_def is_digit_def is_space_def Let_def)

lemma hex_digits_ok_hex:
  "\<forall>c \<in> set s. is_lower_hex c \<Longrightarrow> s \<noteq> [] \<or> b \<Longrightarrow> hex_digits_ok b s"
  by (induction s arbitrary: b) (auto simp: is_hex_digit_def dest: lower_hex_not)

lemma strip_hex: "\<forall>c \<in> set s. is_lower_hex c \<Longrightarrow> strip s = s"
proof -
  assume hex: "\<forall>c \<in> set s. is_lower_hex c"
  have "dropWhile is_space t = t" if "\<forall>c \<in> set t. is_lower_hex c" for t
    using that by (cases t) (auto dest: lower_hex_not)
  from this [OF hex] this [of "rev s"] hex show ?thesis by (simp add: strip_def)
qed

lemma validate_hex_digits:
  assumes "length s = order_id_max_length" "\<And>c. c \<in> set s \<Longrightarrow> is_lower_hex c"
  shows "validate_client_order_id s"
proof -
  from assms(1) obtain c d rest where s: "s = c # d # rest"
    by (auto simp: order_id_max_length_def numeral_eq_Suc length_Suc_conv)
  have "hex_digits_ok False s" using assms(2) s by (intro hex_digits_ok_hex) auto
  moreover have "drop_sign (strip s) = s"
    using strip_hex [of s] assms(2) lower_hex_not [of c] by (auto simp: s drop_sign_def)
  moreover have "d \<noteq> CHR ''x''" "d \<noteq> CHR ''X''"
    using lower_hex_not [of d] assms(2) s by auto
  ultimately show ?thesis
    using assms(1) s by (simp add: validate_client_order_id_def int16_ok_def)
qed

section \<open>Properties\<close>

definition plain_order :: "order_request \<Rightarrow> bool" where
  "plain_order o1 \<longleftrightarrow>
     list_all (no_char CHR ''|'') [or_symbol o1, or_side o1, or_order_type o1, or_time_in_force o1]"

definition order_raw :: "order_request \<Rightarrow> string \<Rightarrow> date \<Rightarrow> string" where
  "order_raw o1 strategy d =
     raw_order_string (or_symbol o1) (or_side o1) (or_qty o1) (or_limit_price o1) (or_stop_price o1)
       (or_order_type o1) (or_time_in_force o1) strategy d"

text \<open>Orders whose texts contain no bar hash the same string exactly when every field agrees, prices
  up to the cent: only a collision of the truncated hash could give different orders one identifier.\<close>

theorem order_raw_inject:
  assumes "plain_order o1" "plain_order o2" "no_char CHR ''|'' s1" "no_char CHR ''|'' s2"
  shows "order_raw o1 s1 d1 = order_raw o2 s2 d2 \<longleftrightarrow>
     or_symbol o1 = or_symbol o2 \<and> or_side o1 = or_side o2 \<and> or_qty o1 = or_qty o2 \<and>
     same_price (or_limit_price o1) (or_limit_price o2) \<and>
     same_price (or_stop_price o1) (or_stop_price o2) \<and>
     or_order_type o1 = or_order_type o2 \<and> or_time_in_force o1 = or_time_in_force o2 \<and>
     s1 = s2 \<and> d1 = d2"
proof -
  let ?fs = "\<lambda>o1 s1 d1. [or_symbol o1, or_side o1, show_int (or_qty o1),
      format_price_for_id (or_limit_price o1), format_price_for_id (or_stop_price o1),
      or_order_type o1, or_time_in_force o1, s1, date_isoformat d1]"
  have "order_raw o1 s1 d1 = order_raw o2 s2 d2 \<longleftrightarrow> ?fs o1 s1 d1 = ?fs o2 s2 d2"
    unfolding order_raw_def raw_order_string_def
  proof (rule iffI)
    assume eq: "join_with CHR ''|'' (?fs o1 s1 d1) = join_with CHR ''|'' (?fs o2 s2 d2)"
    show "?fs o1 s1 d1 = ?fs o2 s2 d2"
      by (rule join_with_inject [OF _ _ _ eq])
        (use assms in \<open>simp_all add: plain_order_def no_char_def format_price_no_bar
           date_isoformat_no_bar show_int_no_bar\<close>)
  qed (simp only:)
  then show ?thesis
    by (simp add: show_int_inject format_price_eq_iff date_isoformat_inject)
qed

definition demo_order :: "int \<Rightarrow> rat option \<Rightarrow> order_request" where
  "demo_order qty price =
     \<lparr>or_symbol = ''AAPL'', or_side = ''buy'', or_qty = qty, or_order_type = ''limit'',
      or_limit_price = price, or_stop_price = None, or_time_in_force = ''day'',
      or_execution_style = ''instant'', or_client_order_id = None\<rparr>"

theorem order_raw_inject_witness:
  "order_raw (demo_order 10 (Some 150)) ''alpha'' \<lparr>d_year = 2024, d_month = 10, d_day = 17\<rparr> \<noteq>
   order_raw (demo_order 11 (Some 150)) ''alpha'' \<lparr>d_year = 2024, d_month = 10, d_day = 17\<rparr>"
  using order_raw_inject [of "demo_order 10 (Some 150)" "demo_order 11 (Some 150)" "''alpha''" "''alpha''"]
  by (simp add: demo_order_def plain_order_def no_char_def)

text \<open>The identifier of an order does not depend on the clock when a date is given, is the one the
  reconstruction from its parameters gives, is unchanged when a price is written with more
  precision than cents, and passes the format check.\<close>

theorem client_order_id_deterministic:
  assumes "same_price (or_limit_price o1) limit_price" "same_price (or_stop_price o1) stop_price"
  shows "generate_client_order_id o1 strategy_id (Some d) today =
      reconstruct_order_params_hash (or_symbol o1) (or_side o1) (or_qty o1) limit_price stop_price
        (or_order_type o1) (or_time_in_force o1) strategy_id d \<and>
    generate_client_order_id o1 strategy_id None d = generate_client_order_id o1 strategy_id (Some d) today \<and>
    validate_client_order_id (generate_client_order_id o1 strategy_id (Some d) today)"
proof -
  have fmt: "format_price_for_id (or_limit_price o1) = format_price_for_id limit_price"
    "format_price_for_id (or_stop_price o1) = format_price_for_id stop_price"
    using assms by (simp_all add: format_price_eq_iff)
  have valid: "validate_client_order_id (take order_id_max_length (sha256_hexdigest raw))" for raw
    by (rule validate_hex_digits)
      (auto simp: length_sha256_hexdigest order_id_max_length_def dest: in_set_takeD sha256_hexdigest_hex)
  show ?thesis
    by (simp add: generate_client_order_id_def reconstruct_order_params_hash_def raw_order_string_def
        fmt valid [unfolded raw_order_string_def])
qed

theorem client_order_id_deterministic_witness:
  "generate_client_order_id (demo_order 10 (Some 150)) ''alpha'' None \<lparr>d_year = 2024, d_month = 10, d_day = 17\<rparr> =
   reconstruct_order_params_hash ''AAPL'' ''buy'' 10 (Some (150001 / 1000)) None ''limit'' ''day'' ''alpha''
     \<lparr>d_year = 2024, d_month = 10, d_day = 17\<rparr>"
proof -
  have "price_cents 150 = 15000" "price_cents (150001 / 1000) = 15000"
    by (simp_all add: price_cents_def floor_eq_iff nat_eq_iff)
  then show ?thesis
    using client_order_id_deterministic [of "demo_order 10 (Some 150)" "Some (150001 / 1000)" None
        "''alpha''" "\<lparr>d_year = 2024, d_month = 10, d_day = 17\<rparr>"
        "\<lparr>d_year = 2024, d_month = 10, d_day = 17\<rparr>"]
    by (simp add: demo_order_def same_price_def)
qed

end
