(* ===== verification/Alpaca_Client.thy ===== *)
theory Alpaca_Client
  imports Recon_Service Order_Id
begin

text \<open>
  The broker client of \<^verbatim>\<open>apps/execution_gateway/alpaca_client.py\<close>.  The Alpaca SDK and the servers
  behind it are an argument: a function from a request and the server's state to an answer and the
  next state, so that an order the server takes while its answer is lost can be told from one it
  never saw.  Modelled are the building of requests, the classification of errors, the retries, the
  conversion of orders, positions, quotes and dates, and the pagination of the order list.  The
  waiting between attempts, credentials and logging are left out.
\<close>

section \<open>Errors and retries\<close>

datatype client_error =
    AlpacaConnectionError string
  | AlpacaValidationError string
  | AlpacaRejectionError string
  | AlpacaClientError string
  | UncaughtError string

type_synonym 'a client_result = "client_error + 'a"

text \<open>
  What a call of the SDK does: it returns, raises \<open>APIError\<close> with a status code, fails in the network
  (\<open>ConnectTimeout\<close>, \<open>ReadTimeout\<close>, \<open>NetworkError\<close>), raises one of \<open>JSONDecodeError\<close>, \<open>KeyError\<close>,
  \<open>ValueError\<close> and \<open>AttributeError\<close>, or anything else.
\<close>

datatype 'a answer =
    Answer 'a
  | ApiError "nat option" string
  | NetworkError string
  | DataError string
  | OtherFailure string

text \<open>
  \<open>@retry(stop=stop_after_attempt(3), retry=retry_if_exception_type(AlpacaConnectionError),
  reraise=True)\<close>.  The first argument counts the attempts that are left after the first.
\<close>

definition RETRY_ATTEMPTS :: nat where
  "RETRY_ATTEMPTS = 3"

fun is_connection_error :: "'a client_result \<Rightarrow> bool" where
  "is_connection_error (Inl (AlpacaConnectionError _)) = True"
| "is_connection_error _ = False"

fun retrying :: "nat \<Rightarrow> ('s \<Rightarrow> 'a client_result \<times> 's) \<Rightarrow> 's \<Rightarrow> 'a client_result \<times> 's" where
  "retrying 0 attempt s = attempt s"
| "retrying (Suc n) attempt s =
     (let (x, s') = attempt s in
      if is_connection_error x then retrying n attempt s' else (x, s'))"

definition with_retry :: "('s \<Rightarrow> 'a client_result \<times> 's) \<Rightarrow> 's \<Rightarrow> 'a client_result \<times> 's" where
  "with_retry attempt s = retrying (RETRY_ATTEMPTS - 1) attempt s"

section \<open>What the SDK returns\<close>

text \<open>A number of the SDK: absent, a text or a float; a point of time: a datetime, a text or else.\<close>

datatype api_num = NumNone | NumText string | NumFloat rat

datatype api_time = TimeNone | TimeStamp rat | TimeText string | TimeOther

record alpaca_order =
  ao_id :: string
  ao_client_order_id :: string
  ao_symbol :: "string option"
  ao_side :: "string option"
  ao_qty :: api_num
  ao_status :: "string option"
  ao_filled_qty :: api_num
  ao_filled_avg_price :: api_num
  ao_limit_price :: api_num
  ao_stop_price :: api_num
  ao_notional :: api_num
  ao_created_at :: "rat option"
  ao_updated_at :: api_time
  ao_submitted_at :: api_time
  ao_filled_at :: api_time

record alpaca_position =
  ap_symbol :: string
  ap_qty :: api_num
  ap_avg_entry_price :: api_num
  ap_current_price :: api_num

text \<open>An object of the expected class or of another one.\<close>

datatype 'a typed = Expected 'a | Unexpected

section \<open>Conversions\<close>

fun num_falsy :: "api_num \<Rightarrow> bool" where
  "num_falsy NumNone = True"
| "num_falsy (NumText s) = (s = [])"
| "num_falsy (NumFloat q) = (q = 0)"

text \<open>\<open>Decimal(str(x))\<close>, where \<open>dec_of\<close> reads a text, \<open>None\<close> for \<open>InvalidOperation\<close>.\<close>

fun num_decimal :: "(string \<Rightarrow> rat option) \<Rightarrow> api_num \<Rightarrow> rat client_result" where
  "num_decimal dec_of NumNone = Inl (UncaughtError ''InvalidOperation'')"
| "num_decimal dec_of (NumText s) =
     (case dec_of s of None \<Rightarrow> Inl (UncaughtError ''InvalidOperation'') | Some q \<Rightarrow> Inr q)"
| "num_decimal dec_of (NumFloat q) = Inr q"

text \<open>\<open>Decimal(str(x or 0))\<close>, \<open>\<dots> if x is not None else None\<close> and \<open>\<dots> if x else None\<close>.\<close>

definition decimal_or_zero :: "(string \<Rightarrow> rat option) \<Rightarrow> api_num \<Rightarrow> rat option client_result" where
  "decimal_or_zero dec_of x =
     (if num_falsy x then Inr (Some 0) else map_sum id Some (num_decimal dec_of x))"

definition decimal_if_not_none :: "(string \<Rightarrow> rat option) \<Rightarrow> api_num \<Rightarrow> rat option client_result" where
  "decimal_if_not_none dec_of x =
     (if x = NumNone then Inr None else map_sum id Some (num_decimal dec_of x))"

definition decimal_if_truthy :: "(string \<Rightarrow> rat option) \<Rightarrow> api_num \<Rightarrow> rat option client_result" where
  "decimal_if_truthy dec_of x =
     (if num_falsy x then Inr None else map_sum id Some (num_decimal dec_of x))"

fun parse_datetime :: "(string \<Rightarrow> rat option) \<Rightarrow> api_time \<Rightarrow> rat option" where
  "parse_datetime fromiso TimeNone = None"
| "parse_datetime fromiso (TimeStamp t) = Some t"
| "parse_datetime fromiso (TimeText s) = fromiso (replace_z s)"
| "parse_datetime fromiso TimeOther = None"

definition cbind :: "'a client_result \<Rightarrow> ('a \<Rightarrow> 'b client_result) \<Rightarrow> 'b client_result" where
  "cbind x f = (case x of Inl e \<Rightarrow> Inl e | Inr a \<Rightarrow> f a)"

lemma cbind_simps [simp]: "cbind (Inl e) f = Inl e" "cbind (Inr a) f = f a"
  by (simp_all add: cbind_def)

lemma cbind_Inr_iff: "cbind x f = Inr b \<longleftrightarrow> (\<exists>a. x = Inr a \<and> f a = Inr b)"
  by (cases x) auto

text \<open>
  The answer of a submission or a replacement, and an order of the two read calls.  Keys a dictionary
  does not have are \<open>None\<close>, as its readers see them; the order type is not kept, no reader uses it.
\<close>

definition format_alpaca_order :: "(string \<Rightarrow> rat option) \<Rightarrow> alpaca_order \<Rightarrow> broker_order client_result" where
  "format_alpaca_order dec_of ao =
     cbind (decimal_or_zero dec_of (ao_qty ao)) (\<lambda>qty.
     cbind (decimal_if_not_none dec_of (ao_limit_price ao)) (\<lambda>limit_price.
     cbind (decimal_if_not_none dec_of (ao_stop_price ao)) (\<lambda>stop_price.
       Inr \<lparr>b_id = Some (ao_id ao), b_client_order_id = Some (ao_client_order_id ao),
            b_symbol = ao_symbol ao, b_side = ao_side ao, b_qty = qty, b_status = ao_status ao,
            b_created_at = ao_created_at ao, b_updated_at = None, b_filled_qty = None,
            b_filled_avg_price = None, b_filled_at = None, b_limit_price = limit_price,
            b_notional = None\<rparr>)))"

definition fetched_order ::
  "(string \<Rightarrow> rat option) \<Rightarrow> (string \<Rightarrow> rat option) \<Rightarrow> alpaca_order \<Rightarrow> broker_order client_result" where
  "fetched_order dec_of fromiso ao =
     cbind (decimal_or_zero dec_of (ao_qty ao)) (\<lambda>qty.
     cbind (decimal_or_zero dec_of (ao_filled_qty ao)) (\<lambda>filled_qty.
     cbind (decimal_if_truthy dec_of (ao_filled_avg_price ao)) (\<lambda>filled_avg_price.
       Inr \<lparr>b_id = Some (ao_id ao), b_client_order_id = Some (ao_client_order_id ao),
            b_symbol = ao_symbol ao, b_side = ao_side ao, b_qty = qty, b_status = ao_status ao,
            b_created_at = ao_created_at ao,
            b_updated_at = parse_datetime fromiso (ao_updated_at ao), b_filled_qty = filled_qty,
            b_filled_avg_price = filled_avg_price, b_filled_at = None, b_limit_price = None,
            b_notional = None\<rparr>)))"

definition listed_order ::
  "(string \<Rightarrow> rat option) \<Rightarrow> (string \<Rightarrow> rat option) \<Rightarrow> alpaca_order \<Rightarrow> broker_order client_result" where
  "listed_order dec_of fromiso ao =
     cbind (decimal_or_zero dec_of (ao_qty ao)) (\<lambda>qty.
     cbind (decimal_or_zero dec_of (ao_filled_qty ao)) (\<lambda>filled_qty.
     cbind (decimal_if_truthy dec_of (ao_filled_avg_price ao)) (\<lambda>filled_avg_price.
     cbind (decimal_if_truthy dec_of (ao_limit_price ao)) (\<lambda>limit_price.
     cbind (decimal_if_not_none dec_of (ao_notional ao)) (\<lambda>notional.
       Inr \<lparr>b_id = Some (ao_id ao), b_client_order_id = Some (ao_client_order_id ao),
            b_symbol = ao_symbol ao, b_side = ao_side ao, b_qty = qty, b_status = ao_status ao,
            b_created_at = ao_created_at ao,
            b_updated_at = parse_datetime fromiso (ao_updated_at ao), b_filled_qty = filled_qty,
            b_filled_avg_price = filled_avg_price,
            b_filled_at = parse_datetime fromiso (ao_filled_at ao), b_limit_price = limit_price,
            b_notional = notional\<rparr>)))))"

section \<open>Requests\<close>

datatype alpaca_kind = MarketOrder | LimitOrder | StopOrder | StopLimitOrder

datatype alpaca_side = BUY | SELL

datatype alpaca_tif = DAY | GTC | IOC | FOK

record alpaca_request =
  aq_kind :: alpaca_kind
  aq_symbol :: string
  aq_qty :: int
  aq_side :: alpaca_side
  aq_time_in_force :: alpaca_tif
  aq_limit_price :: "rat option"
  aq_stop_price :: "rat option"
  aq_client_order_id :: string

definition tif_map :: "(string \<times> alpaca_tif) list" where
  "tif_map = [(''day'', DAY), (''gtc'', GTC), (''ioc'', IOC), (''fok'', FOK)]"

text \<open>
  The errors are a \<open>KeyError\<close> and \<open>ValueError\<close>s; \<open>flt\<close> is the rounding of \<open>float(\<dots>)\<close>.
\<close>

definition build_alpaca_request ::
  "(rat \<Rightarrow> rat) \<Rightarrow> order_request \<Rightarrow> string \<Rightarrow> string + alpaca_request" where
  "build_alpaca_request flt order cid =
     (case map_of tif_map (or_time_in_force order) of
        None \<Rightarrow> Inl (or_time_in_force order)
      | Some tif \<Rightarrow>
          let side = (if or_side order = ''buy'' then BUY else SELL);
              req = (\<lambda>kind limit_price stop_price.
                \<lparr>aq_kind = kind, aq_symbol = or_symbol order, aq_qty = or_qty order, aq_side = side,
                 aq_time_in_force = tif, aq_limit_price = map_option flt limit_price,
                 aq_stop_price = map_option flt stop_price, aq_client_order_id = cid\<rparr>)
          in if or_order_type order = ''market'' then Inr (req MarketOrder None None)
             else if or_order_type order = ''limit'' then
               (if or_limit_price order = None then Inl ''limit_price is required for limit orders''
                else Inr (req LimitOrder (or_limit_price order) None))
             else if or_order_type order = ''stop'' then
               (if or_stop_price order = None then Inl ''stop_price is required for stop orders''
                else Inr (req StopOrder None (or_stop_price order)))
             else if or_order_type order = ''stop_limit'' then
               (if or_limit_price order = None \<or> or_stop_price order = None
                then Inl ''Both limit_price and stop_price are required for stop_limit orders''
                else Inr (req StopLimitOrder (or_limit_price order) (or_stop_price order)))
             else Inl (''Unsupported order type: '' @ or_order_type order))"

record replace_request =
  rq_qty :: "int option"
  rq_limit_price :: "rat option"
  rq_stop_price :: "rat option"
  rq_time_in_force :: "alpaca_tif option"
  rq_client_order_id :: "string option"

text \<open>A replacement keeps the time in force of the order unless it asks for day or gtc.\<close>

definition replace_tif_map :: "(string \<times> alpaca_tif) list" where
  "replace_tif_map = [(''day'', DAY), (''gtc'', GTC)]"

record orders_request =
  gq_status :: string
  gq_limit :: int
  gq_after :: "rat option"
  gq_symbols :: "string list option"

record quote =
  qt_ap :: api_num
  qt_bp :: api_num
  qt_timestamp :: "rat option"

record market_clock =
  mk_timestamp :: api_time
  mk_is_open :: "bool option"
  mk_next_open :: api_time
  mk_next_close :: api_time

section \<open>The API as an argument\<close>

record 's alpaca_api =
  api_float :: "rat \<Rightarrow> rat"
  api_decimal :: "string \<Rightarrow> rat option"
  api_fromiso :: "string \<Rightarrow> rat option"
  api_iso_z :: "rat \<Rightarrow> string"
  api_submit :: "alpaca_request \<Rightarrow> 's \<Rightarrow> alpaca_order typed answer \<times> 's"
  api_replace :: "string \<Rightarrow> replace_request \<Rightarrow> 's \<Rightarrow> alpaca_order typed answer \<times> 's"
  api_cancel :: "string \<Rightarrow> 's \<Rightarrow> unit answer \<times> 's"
  api_order :: "string \<Rightarrow> 's \<Rightarrow> alpaca_order typed option answer \<times> 's"
  api_orders :: "orders_request \<Rightarrow> 's \<Rightarrow> alpaca_order typed list answer \<times> 's"
  api_positions :: "'s \<Rightarrow> alpaca_position typed list answer \<times> 's"
  api_position :: "string \<Rightarrow> 's \<Rightarrow> alpaca_position typed option answer \<times> 's"
  api_clock :: "'s \<Rightarrow> market_clock answer \<times> 's"
  api_account :: "'s \<Rightarrow> bool answer \<times> 's"
  api_activities :: "string \<Rightarrow> (string \<times> string) list \<Rightarrow> 's \<Rightarrow> activity list typed answer \<times> 's"
  api_quotes :: "string list \<Rightarrow> 's \<Rightarrow> (string \<times> quote) list answer \<times> 's"

section \<open>Submission, replacement and cancellation\<close>

text \<open>The \<open>except\<close> clauses of \<open>submit_order\<close> and \<open>replace_order\<close>, with the codes that reject.\<close>

fun classify :: "nat list \<Rightarrow> ('a \<Rightarrow> 'b client_result) \<Rightarrow> 'a typed answer \<Rightarrow> 'b client_result" where
  "classify codes f (Answer (Expected a)) = f a"
| "classify codes f (Answer Unexpected) =
     Inl (AlpacaClientError ''Unexpected response type from Alpaca API'')"
| "classify codes f (ApiError code m) =
     (if code = Some 400 then Inl (AlpacaValidationError m)
      else if code \<in> Some ` set codes then Inl (AlpacaRejectionError m)
      else Inl (AlpacaConnectionError m))"
| "classify codes f (NetworkError m) = Inl (AlpacaConnectionError m)"
| "classify codes f (DataError m) = Inl (AlpacaValidationError m)"
| "classify codes f (OtherFailure m) = Inl (UncaughtError m)"

definition submit_attempt ::
  "'s alpaca_api \<Rightarrow> order_request \<Rightarrow> string \<Rightarrow> 's \<Rightarrow> broker_order client_result \<times> 's" where
  "submit_attempt api order cid s =
     (case build_alpaca_request (api_float api) order cid of
        Inl m \<Rightarrow> (Inl (AlpacaValidationError m), s)
      | Inr req \<Rightarrow>
          let (ans, s') = api_submit api req s
          in (classify [422, 403] (format_alpaca_order (api_decimal api)) ans, s'))"

definition alpaca_submit_order ::
  "'s alpaca_api \<Rightarrow> order_request \<Rightarrow> string \<Rightarrow> 's \<Rightarrow> broker_order client_result \<times> 's" where
  "alpaca_submit_order api order cid s = with_retry (submit_attempt api order cid) s"

definition build_replace_request ::
  "(rat \<Rightarrow> rat) \<Rightarrow> int option \<Rightarrow> rat option \<Rightarrow> rat option \<Rightarrow> string option \<Rightarrow> string option \<Rightarrow>
   replace_request" where
  "build_replace_request flt qty limit_price stop_price time_in_force cid =
     \<lparr>rq_qty = qty, rq_limit_price = map_option flt limit_price,
      rq_stop_price = map_option flt stop_price,
      rq_time_in_force = (case time_in_force of None \<Rightarrow> None | Some t \<Rightarrow> map_of replace_tif_map t),
      rq_client_order_id = cid\<rparr>"

definition replace_attempt ::
  "'s alpaca_api \<Rightarrow> string \<Rightarrow> replace_request \<Rightarrow> 's \<Rightarrow> broker_order client_result \<times> 's" where
  "replace_attempt api bid req s =
     (let (ans, s') = api_replace api bid req s
      in (classify [403, 404, 422] (format_alpaca_order (api_decimal api)) ans, s'))"

definition alpaca_replace_order ::
  "'s alpaca_api \<Rightarrow> string \<Rightarrow> int option \<Rightarrow> rat option \<Rightarrow> rat option \<Rightarrow> string option \<Rightarrow> string option \<Rightarrow>
   's \<Rightarrow> broker_order client_result \<times> 's" where
  "alpaca_replace_order api bid qty limit_price stop_price time_in_force cid s =
     with_retry (replace_attempt api bid
       (build_replace_request (api_float api) qty limit_price stop_price time_in_force cid)) s"

definition alpaca_cancel_order :: "'s alpaca_api \<Rightarrow> string \<Rightarrow> 's \<Rightarrow> bool client_result \<times> 's" where
  "alpaca_cancel_order api bid s =
     (let (ans, s') = api_cancel api bid s in
      (case ans of
         Answer _ \<Rightarrow> Inr True
       | ApiError code m \<Rightarrow>
           if code = Some 422 then Inl (AlpacaRejectionError m) else Inl (AlpacaConnectionError m)
       | NetworkError m \<Rightarrow> Inl (UncaughtError m)
       | DataError m \<Rightarrow> Inl (UncaughtError m)
       | OtherFailure m \<Rightarrow> Inl (UncaughtError m), s'))"

section \<open>Reads\<close>

text \<open>The \<open>except AlpacaAPIError\<close> of the reads that are not retried; 404 is an absent object.\<close>

fun read_answer :: "bool \<Rightarrow> ('a \<Rightarrow> 'b option client_result) \<Rightarrow> 'a typed option answer \<Rightarrow> 'b option client_result" where
  "read_answer absent_ok f (Answer None) = Inr None"
| "read_answer absent_ok f (Answer (Some Unexpected)) =
     Inl (AlpacaClientError ''Unexpected response type from Alpaca API'')"
| "read_answer absent_ok f (Answer (Some (Expected a))) = f a"
| "read_answer absent_ok f (ApiError code m) =
     (if absent_ok \<and> code = Some 404 then Inr None else Inl (AlpacaConnectionError m))"
| "read_answer absent_ok f (NetworkError m) = Inl (UncaughtError m)"
| "read_answer absent_ok f (DataError m) = Inl (UncaughtError m)"
| "read_answer absent_ok f (OtherFailure m) = Inl (UncaughtError m)"

definition alpaca_get_order_by_client_id ::
  "'s alpaca_api \<Rightarrow> string \<Rightarrow> 's \<Rightarrow> broker_order option client_result \<times> 's" where
  "alpaca_get_order_by_client_id api cid s =
     (let (ans, s') = api_order api cid s in
      (read_answer True
         (\<lambda>ao. map_sum id Some (fetched_order (api_decimal api) (api_fromiso api) ao)) ans, s'))"

definition format_position :: "(string \<Rightarrow> rat option) \<Rightarrow> alpaca_position \<Rightarrow> broker_position client_result" where
  "format_position dec_of ap =
     cbind (decimal_or_zero dec_of (ap_qty ap)) (\<lambda>qty.
     cbind (decimal_or_zero dec_of (ap_avg_entry_price ap)) (\<lambda>avg_entry_price.
     cbind (decimal_if_not_none dec_of (ap_current_price ap)) (\<lambda>current_price.
       Inr \<lparr>bp_symbol = ap_symbol ap, bp_qty = qty, bp_avg_entry_price = avg_entry_price,
            bp_current_price = current_price\<rparr>)))"

definition alpaca_get_open_position ::
  "'s alpaca_api \<Rightarrow> string \<Rightarrow> 's \<Rightarrow> broker_position option client_result \<times> 's" where
  "alpaca_get_open_position api symbol s =
     (let (ans, s') = api_position api symbol s in
      (read_answer True (\<lambda>ap. map_sum id Some (format_position (api_decimal api) ap)) ans, s'))"

fun format_positions ::
  "(string \<Rightarrow> rat option) \<Rightarrow> alpaca_position typed list \<Rightarrow> broker_position list client_result" where
  "format_positions dec_of [] = Inr []"
| "format_positions dec_of (Unexpected # ps) =
     Inl (AlpacaClientError ''Unexpected response type from Alpaca API'')"
| "format_positions dec_of (Expected ap # ps) =
     cbind (format_position dec_of ap) (\<lambda>bp. map_sum id (Cons bp) (format_positions dec_of ps))"

definition alpaca_get_all_positions ::
  "'s alpaca_api \<Rightarrow> 's \<Rightarrow> broker_position list client_result \<times> 's" where
  "alpaca_get_all_positions api s =
     (let (ans, s') = api_positions api s in
      (case ans of
         Answer ps \<Rightarrow> format_positions (api_decimal api) ps
       | ApiError code m \<Rightarrow> Inl (AlpacaConnectionError m)
       | NetworkError m \<Rightarrow> Inl (UncaughtError m)
       | DataError m \<Rightarrow> Inl (UncaughtError m)
       | OtherFailure m \<Rightarrow> Inl (UncaughtError m), s'))"

text \<open>The clock's dates, whatever form they have.\<close>

definition alpaca_get_market_clock ::
  "'s alpaca_api \<Rightarrow> 's \<Rightarrow> (rat option \<times> bool option \<times> rat option \<times> rat option) client_result \<times> 's" where
  "alpaca_get_market_clock api s =
     (let (ans, s') = api_clock api s; date = parse_datetime (api_fromiso api) in
      (case ans of
         Answer c \<Rightarrow> Inr (date (mk_timestamp c), mk_is_open c, date (mk_next_open c), date (mk_next_close c))
       | ApiError code m \<Rightarrow> Inl (AlpacaConnectionError m)
       | NetworkError m \<Rightarrow> Inl (UncaughtError m)
       | DataError m \<Rightarrow> Inl (UncaughtError m)
       | OtherFailure m \<Rightarrow> Inl (UncaughtError m), s'))"

text \<open>\<open>check_connection\<close>: the argument's answer says whether the account is not \<open>None\<close>.\<close>

definition check_connection :: "'s alpaca_api \<Rightarrow> 's \<Rightarrow> bool \<times> 's" where
  "check_connection api s =
     (let (ans, s') = api_account api s in ((case ans of Answer present \<Rightarrow> present | _ \<Rightarrow> False), s'))"

definition rstrip_char :: "char \<Rightarrow> string \<Rightarrow> string" where
  "rstrip_char c s = rev (dropWhile (\<lambda>x. x = c) (rev s))"

definition activities_base_url :: "string \<Rightarrow> string" where
  "activities_base_url url =
     (let base = rstrip_char CHR ''/'' url in
      if 3 \<le> length base \<and> drop (length base - 3) base = ''/v2''
      then take (length base - 3) base else base)"

definition activities_attempt ::
  "'s alpaca_api \<Rightarrow> string \<Rightarrow> string \<Rightarrow> rat option \<Rightarrow> rat option \<Rightarrow> nat \<Rightarrow> string option \<Rightarrow> string \<Rightarrow> 's \<Rightarrow>
   activity list client_result \<times> 's" where
  "activities_attempt api url activity_type after until page_size page_token direction s =
     (let params = [(''direction'', direction), (''page_size'', show_nat page_size)] @
            (case after of None \<Rightarrow> [] | Some t \<Rightarrow> [(''after'', api_iso_z api t)]) @
            (case until of None \<Rightarrow> [] | Some t \<Rightarrow> [(''until'', api_iso_z api t)]) @
            (case page_token of None \<Rightarrow> [] | Some t \<Rightarrow> if t = [] then [] else [(''page_token'', t)]);
          (ans, s') = api_activities api
            (activities_base_url url @ ''/v2/account/activities/'' @ activity_type) params s
      in (case ans of
            Answer (Expected as) \<Rightarrow> Inr as
          | Answer Unexpected \<Rightarrow> Inr []
          | ApiError code m \<Rightarrow> Inl (AlpacaConnectionError m)
          | NetworkError m \<Rightarrow> Inl (AlpacaConnectionError m)
          | DataError m \<Rightarrow> Inr []
          | OtherFailure m \<Rightarrow> Inl (UncaughtError m), s'))"

definition alpaca_get_account_activities ::
  "'s alpaca_api \<Rightarrow> string \<Rightarrow> string \<Rightarrow> rat option \<Rightarrow> rat option \<Rightarrow> nat \<Rightarrow> string option \<Rightarrow> string \<Rightarrow> 's \<Rightarrow>
   activity list client_result \<times> 's" where
  "alpaca_get_account_activities api url activity_type after until page_size page_token direction s =
     with_retry (activities_attempt api url activity_type after until page_size page_token direction) s"

section \<open>Quotes\<close>

record latest_quote =
  lq_ask_price :: "rat option"
  lq_bid_price :: "rat option"
  lq_last_price :: "rat option"
  lq_timestamp :: "rat option"

definition quote_prices :: "(string \<Rightarrow> rat option) \<Rightarrow> quote \<Rightarrow> latest_quote client_result" where
  "quote_prices dec_of q =
     (if qt_ap q \<noteq> NumNone \<and> qt_bp q \<noteq> NumNone then
        cbind (num_decimal dec_of (qt_ap q)) (\<lambda>ask. cbind (num_decimal dec_of (qt_bp q)) (\<lambda>bid.
          Inr \<lparr>lq_ask_price = Some ask, lq_bid_price = Some bid, lq_last_price = Some ((ask + bid) / 2),
               lq_timestamp = qt_timestamp q\<rparr>))
      else Inr \<lparr>lq_ask_price = None, lq_bid_price = None, lq_last_price = None,
                lq_timestamp = qt_timestamp q\<rparr>)"

fun collect_quotes ::
  "(string \<Rightarrow> rat option) \<Rightarrow> (string \<times> quote) list \<Rightarrow> string list \<Rightarrow> (string \<times> latest_quote) list \<Rightarrow>
   (string \<times> latest_quote) list client_result" where
  "collect_quotes dec_of data [] res = Inr res"
| "collect_quotes dec_of data (x # xs) res =
     (case map_of data x of
        None \<Rightarrow> collect_quotes dec_of data xs res
      | Some q \<Rightarrow> cbind (quote_prices dec_of q) (\<lambda>lq.
          collect_quotes dec_of data xs (AList.update x lq res)))"

text \<open>The last clause catches every exception, and what it raises is retried.\<close>

definition quotes_attempt ::
  "'s alpaca_api \<Rightarrow> string list \<Rightarrow> 's \<Rightarrow> (string \<times> latest_quote) list client_result \<times> 's" where
  "quotes_attempt api symbols s =
     (if symbols = [] then (Inl (UncaughtError ''symbols list cannot be empty''), s)
      else let (ans, s') = api_quotes api symbols s in
        (case ans of
           Answer data \<Rightarrow>
             (case collect_quotes (api_decimal api) data symbols [] of
                Inl e \<Rightarrow> Inl (AlpacaConnectionError ''Unexpected error fetching quotes'')
              | Inr res \<Rightarrow> Inr res)
         | ApiError code m \<Rightarrow> Inl (AlpacaConnectionError m)
         | NetworkError m \<Rightarrow> Inl (AlpacaConnectionError m)
         | DataError m \<Rightarrow> Inl (AlpacaConnectionError m)
         | OtherFailure m \<Rightarrow> Inl (AlpacaConnectionError m), s'))"

definition get_latest_quotes ::
  "'s alpaca_api \<Rightarrow> string list \<Rightarrow> 's \<Rightarrow> (string \<times> latest_quote) list client_result \<times> 's" where
  "get_latest_quotes api symbols s = with_retry (quotes_attempt api symbols) s"

section \<open>The order list and its pages\<close>

definition QUERY_STATUSES :: "string list" where
  "QUERY_STATUSES = [''open'', ''closed'', ''all'']"

text \<open>One page: an order whose identifier has been seen is skipped, the new ones are counted.\<close>

fun add_page ::
  "'s alpaca_api \<Rightarrow> alpaca_order typed list \<Rightarrow> broker_order list \<Rightarrow> string list \<Rightarrow> nat \<Rightarrow>
   (broker_order list \<times> string list \<times> nat) client_result" where
  "add_page api [] results seen added = Inr (results, seen, added)"
| "add_page api (Unexpected # os) results seen added =
     Inl (AlpacaClientError ''Unexpected response type from Alpaca API'')"
| "add_page api (Expected ao # os) results seen added =
     (if ao_id ao \<in> set seen then add_page api os results seen added
      else cbind (listed_order (api_decimal api) (api_fromiso api) ao) (\<lambda>bo.
        add_page api os (results @ [bo]) (ao_id ao # seen) (Suc added)))"

definition last_created_at :: "alpaca_order typed list \<Rightarrow> rat option" where
  "last_created_at orders =
     (case last orders of Expected ao \<Rightarrow> ao_created_at ao | Unexpected \<Rightarrow> None)"

text \<open>
  The \<open>while True\<close> of \<open>get_orders\<close>: it may run for ever on a server that keeps sending full pages,
  so not returning is \<open>None\<close>.
\<close>

partial_function (option) get_orders_loop ::
  "'s alpaca_api \<Rightarrow> string \<Rightarrow> int \<Rightarrow> string list option \<Rightarrow> broker_order list \<Rightarrow> string list \<Rightarrow>
   rat option \<Rightarrow> 's \<Rightarrow> (broker_order list client_result \<times> 's) option" where
  "get_orders_loop api status page_limit symbols results seen cursor s =
     (case api_orders api \<lparr>gq_status = status, gq_limit = page_limit, gq_after = cursor,
                           gq_symbols = symbols\<rparr> s of
        (Answer orders, s') \<Rightarrow>
          (case add_page api orders results seen 0 of
             Inl e \<Rightarrow> Some (Inl e, s')
           | Inr (results', seen', added) \<Rightarrow>
               if orders = [] \<or> int (length orders) < page_limit then Some (Inr results', s')
               else (case last_created_at orders of
                  None \<Rightarrow> Some (Inr results', s')
                | Some t \<Rightarrow>
                    (case cursor of
                       None \<Rightarrow> get_orders_loop api status page_limit symbols results' seen' (Some t) s'
                     | Some c \<Rightarrow>
                         if t > c then get_orders_loop api status page_limit symbols results' seen' (Some t) s'
                         else if added > 0
                         then get_orders_loop api status page_limit symbols results' seen' (Some c) s'
                         else get_orders_loop api status page_limit symbols results' seen'
                                (Some (c + 1 / 1000000)) s')))
      | (ApiError code m, s') \<Rightarrow> Some (Inl (AlpacaConnectionError m), s')
      | (NetworkError m, s') \<Rightarrow> Some (Inl (UncaughtError m), s')
      | (DataError m, s') \<Rightarrow> Some (Inl (UncaughtError m), s')
      | (OtherFailure m, s') \<Rightarrow> Some (Inl (UncaughtError m), s'))"

definition alpaca_get_orders ::
  "'s alpaca_api \<Rightarrow> string \<Rightarrow> int \<Rightarrow> rat option \<Rightarrow> string list option \<Rightarrow> 's \<Rightarrow>
   (broker_order list client_result \<times> 's) option" where
  "alpaca_get_orders api status page_limit after symbols s =
     (if page_limit \<le> 0 then Some (Inl (UncaughtError ''limit must be positive''), s)
      else if status \<notin> set QUERY_STATUSES then Some (Inl (UncaughtError ''Unsupported status''), s)
      else get_orders_loop api status page_limit symbols [] [] after s)"

section \<open>Attempts\<close>

text \<open>The server's state after \<open>k\<close> attempts.\<close>

definition state_after :: "('s \<Rightarrow> 'a client_result \<times> 's) \<Rightarrow> nat \<Rightarrow> 's \<Rightarrow> 's" where
  "state_after attempt k s = ((\<lambda>s. snd (attempt s)) ^^ k) s"

lemma state_after_simps [simp]:
  "state_after attempt 0 s = s"
  "state_after attempt (Suc k) s = state_after attempt k (snd (attempt s))"
  by (simp_all add: state_after_def funpow_Suc_right del: funpow.simps(2))

lemma retrying_cases:
  "\<exists>k\<le>n. (\<forall>j<k. is_connection_error (fst (attempt (state_after attempt j s)))) \<and>
     retrying n attempt s = attempt (state_after attempt k s) \<and>
     (k < n \<longrightarrow> \<not> is_connection_error (fst (retrying n attempt s)))"
proof (induction n arbitrary: s)
  case 0
  show ?case by simp
next
  case (Suc n)
  obtain x s1 where step: "attempt s = (x, s1)" by (metis prod.exhaust)
  show ?case
  proof (cases "is_connection_error x")
    case False
    then show ?thesis using step by (intro exI [of _ 0]) simp
  next
    case True
    obtain k where k: "k \<le> n" "\<forall>j<k. is_connection_error (fst (attempt (state_after attempt j s1)))"
      "retrying n attempt s1 = attempt (state_after attempt k s1)"
      "k < n \<longrightarrow> \<not> is_connection_error (fst (retrying n attempt s1))"
      using Suc.IH [of s1] by blast
    have "\<forall>j<Suc k. is_connection_error (fst (attempt (state_after attempt j s)))"
      using k(2) step True by (auto simp: less_Suc_eq_0_disj)
    then show ?thesis
      using k step True by (intro exI [of _ "Suc k"]) simp
  qed
qed

text \<open>What every attempt keeps, all of them keep.\<close>

lemma retrying_invariant:
  assumes "P s" "\<And>s. P s \<Longrightarrow> P (snd (attempt s))"
  shows "P (snd (retrying n attempt s))"
  using assms(1)
proof (induction n arbitrary: s)
  case 0
  then show ?case by (simp add: assms(2))
next
  case (Suc n)
  then show ?case using assms(2) [OF Suc.prems] by (auto simp: split: prod.splits)
qed

lemma retrying_answer:
  assumes "\<And>s. Q (fst (attempt s)) (snd (attempt s))"
  shows "Q (fst (retrying n attempt s)) (snd (retrying n attempt s))"
  using retrying_cases [of n attempt s] assms by metis

text \<open>
  The broker's documented rule on identifiers: a request with the \<open>client_order_id\<close> of an order it
  has taken is refused and changes nothing, any other adds its order or nothing, and an order that
  is answered has been added.  \<open>book\<close> reads the identifiers of the orders taken.
\<close>

definition unique_client_order_ids :: "'s alpaca_api \<Rightarrow> ('s \<Rightarrow> string list) \<Rightarrow> bool" where
  "unique_client_order_ids api book \<longleftrightarrow>
     (\<forall>req s. let (ans, s') = api_submit api req s; cid = aq_client_order_id req in
        (if cid \<in> set (book s) then book s' = book s \<and> (\<forall>a. ans \<noteq> Answer a)
         else book s' = book s \<and> (\<forall>a. ans \<noteq> Answer a) \<or> book s' = book s @ [cid]))"

lemma build_alpaca_request_cid:
  "build_alpaca_request flt order cid = Inr req \<Longrightarrow> aq_client_order_id req = cid"
  by (auto simp: build_alpaca_request_def Let_def split: option.splits if_splits)

lemma classify_Inr: "classify codes f ans = Inr b \<Longrightarrow> \<exists>a. ans = Answer (Expected a)"
  by (induction codes f ans rule: classify.induct) (auto split: if_splits)

lemma submit_attempt_books:
  assumes "unique_client_order_ids api book"
  shows "book (snd (submit_attempt api order cid s)) = book s \<or>
      cid \<notin> set (book s) \<and> book (snd (submit_attempt api order cid s)) = book s @ [cid]"
    and "fst (submit_attempt api order cid s) = Inr bo \<Longrightarrow>
      cid \<in> set (book (snd (submit_attempt api order cid s)))"
proof -
  have "(book (snd (submit_attempt api order cid s)) = book s \<or>
      cid \<notin> set (book s) \<and> book (snd (submit_attempt api order cid s)) = book s @ [cid]) \<and>
    (fst (submit_attempt api order cid s) = Inr bo \<longrightarrow>
      cid \<in> set (book (snd (submit_attempt api order cid s))))"
  proof (cases "build_alpaca_request (api_float api) order cid")
    case (Inl m)
    then show ?thesis by (simp add: submit_attempt_def)
  next
    case (Inr req)
    obtain ans s1 where call: "api_submit api req s = (ans, s1)" by (metis prod.exhaust)
    have law: "if cid \<in> set (book s) then book s1 = book s \<and> (\<forall>a. ans \<noteq> Answer a)
         else book s1 = book s \<and> (\<forall>a. ans \<noteq> Answer a) \<or> book s1 = book s @ [cid]"
      using assms [unfolded unique_client_order_ids_def, rule_format, of req s]
        build_alpaca_request_cid [OF Inr] call by simp
    show ?thesis
      using law Inr call by (auto simp: submit_attempt_def split: if_splits dest: classify_Inr)
  qed
  then show "book (snd (submit_attempt api order cid s)) = book s \<or>
      cid \<notin> set (book s) \<and> book (snd (submit_attempt api order cid s)) = book s @ [cid]"
    and "fst (submit_attempt api order cid s) = Inr bo \<Longrightarrow>
      cid \<in> set (book (snd (submit_attempt api order cid s)))"
    by blast+
qed

section \<open>Pages: lemmas\<close>


text \<open>The identifiers of the results stay distinct, whatever the server sends.\<close>

definition listed_ids :: "broker_order list \<Rightarrow> string list \<Rightarrow> bool" where
  "listed_ids results seen \<longleftrightarrow> distinct (map b_id results) \<and> b_id ` set results \<subseteq> Some ` set seen"

lemma listed_order_id:
  "listed_order dec_of fromiso ao = Inr bo \<Longrightarrow> b_id bo = Some (ao_id ao)"
  by (auto simp: listed_order_def cbind_Inr_iff)

lemma add_page_ids:
  "add_page api os results seen n = Inr (results', seen', n') \<Longrightarrow> listed_ids results seen \<Longrightarrow>
   listed_ids results' seen'"
proof (induction api os results seen n rule: add_page.induct)
  case (3 api ao os results seen n)
  show ?case
  proof (cases "ao_id ao \<in> set seen")
    case True
    with 3 show ?thesis by simp
  next
    case False
    with "3.prems" obtain bo where bo: "listed_order (api_decimal api) (api_fromiso api) ao = Inr bo"
      "add_page api os (results @ [bo]) (ao_id ao # seen) (Suc n) = Inr (results', seen', n')"
      by (auto simp: cbind_Inr_iff)
    have "listed_ids (results @ [bo]) (ao_id ao # seen)"
      using "3.prems"(2) False listed_order_id [OF bo(1)] by (auto simp: listed_ids_def)
    with "3.IH"(2) [OF False bo(2)] show ?thesis by simp
  qed
qed (auto simp: listed_ids_def)

lemma get_orders_loop_ids:
  assumes "get_orders_loop api status page_limit symbols results seen cursor s = Some y"
  shows "listed_ids results seen \<longrightarrow> (\<forall>rs. fst y = Inr rs \<longrightarrow> distinct (map b_id rs))"
proof (rule get_orders_loop.raw_induct [OF _ assms, where
      P = "\<lambda>api status page_limit symbols results seen cursor s y.
             listed_ids results seen \<longrightarrow> (\<forall>rs. fst y = Inr rs \<longrightarrow> distinct (map b_id rs))"], goal_cases)
  case (1 loop api status page_limit symbols results seen cursor s y)
  note ih = 1(1) and run = 1(2)
  obtain ans s1 where call: "api_orders api \<lparr>gq_status = status, gq_limit = page_limit, gq_after = cursor,
      gq_symbols = symbols\<rparr> s = (ans, s1)"
    by (metis prod.exhaust)
  show ?case
  proof (cases ans)
    case (Answer orders)
    show ?thesis
    proof (cases "add_page api orders results seen 0")
      case (Inl e)
      with run call Answer show ?thesis by auto
    next
      case (Inr p)
      obtain results' seen' added where p: "p = (results', seen', added)" by (metis prod_cases3)
      have ids: "listed_ids results seen \<Longrightarrow> listed_ids results' seen'"
        by (rule add_page_ids [OF Inr [unfolded p]])
      show ?thesis
        using run ids by (auto simp: call Answer Inr p listed_ids_def split: if_splits option.splits dest!: ih)
    qed
  qed (use run call in auto)
qed

text \<open>
  The documented filter of the order list: orders created strictly after a point of time, the oldest
  first, at most a page of them.
\<close>

definition created_after :: "rat option \<Rightarrow> alpaca_order \<Rightarrow> bool" where
  "created_after cursor ao =
     (case cursor of None \<Rightarrow> True
      | Some c \<Rightarrow> (case ao_created_at ao of None \<Rightarrow> False | Some t \<Rightarrow> t > c))"






section \<open>A server to compute with\<close>

text \<open>
  The server keeps the identifiers of the orders it has taken and the number of answers that will be
  lost; it lists the given orders.
\<close>

definition demo_alpaca_order :: "string \<Rightarrow> string \<Rightarrow> rat \<Rightarrow> alpaca_order" where
  "demo_alpaca_order oid cid t =
     \<lparr>ao_id = oid, ao_client_order_id = cid, ao_symbol = Some ''AAPL'', ao_side = Some ''buy'',
      ao_qty = NumFloat 10, ao_status = Some ''accepted'', ao_filled_qty = NumNone,
      ao_filled_avg_price = NumNone, ao_limit_price = NumNone, ao_stop_price = NumNone,
      ao_notional = NumNone, ao_created_at = Some t, ao_updated_at = TimeStamp t,
      ao_submitted_at = TimeNone, ao_filled_at = TimeNone\<rparr>"

definition demo_api :: "alpaca_order list \<Rightarrow> (string list \<times> nat) alpaca_api" where
  "demo_api orders =
     \<lparr>api_float = (\<lambda>x. x), api_decimal = (\<lambda>s. None), api_fromiso = (\<lambda>s. None), api_iso_z = (\<lambda>t. []),
      api_submit = (\<lambda>req (taken, lost).
        if aq_client_order_id req \<in> set taken
        then (ApiError (Some 422) ''client_order_id must be unique'', (taken, lost))
        else if lost > 0
        then (NetworkError ''read timeout'', (taken @ [aq_client_order_id req], lost - 1))
        else (Answer (Expected (demo_alpaca_order ''b-1'' (aq_client_order_id req) 0)),
              (taken @ [aq_client_order_id req], lost))),
      api_replace = (\<lambda>bid req s. (ApiError (Some 404) ''order not found'', s)),
      api_cancel = (\<lambda>bid s. (Answer (), s)),
      api_order = (\<lambda>cid s. (ApiError (Some 404) ''order not found'', s)),
      api_orders = (\<lambda>q s. (Answer (map Expected
         (take (nat (gq_limit q)) (filter (created_after (gq_after q)) orders))), s)),
      api_positions = (\<lambda>s. (Answer [], s)),
      api_position = (\<lambda>x s. (ApiError (Some 404) ''position does not exist'', s)),
      api_clock = (\<lambda>s. (NetworkError ''timeout'', s)),
      api_account = (\<lambda>s. (Answer True, s)),
      api_activities = (\<lambda>u ps s. (Answer (Expected []), s)),
      api_quotes = (\<lambda>xs s. (Answer [], s))\<rparr>"

definition demo_market_order :: order_request where
  "demo_market_order =
     \<lparr>or_symbol = ''AAPL'', or_side = ''buy'', or_qty = 10, or_order_type = ''market'',
      or_limit_price = None, or_stop_price = None, or_time_in_force = ''day'',
      or_execution_style = ''instant'', or_client_order_id = None\<rparr>"

lemma demo_unique: "unique_client_order_ids (demo_api orders) fst"
  unfolding unique_client_order_ids_def
proof (intro allI)
  fix req :: alpaca_request and s :: "string list \<times> nat"
  show "let (ans, s') = api_submit (demo_api orders) req s; cid = aq_client_order_id req
     in if cid \<in> set (fst s) then fst s' = fst s \<and> (\<forall>a. ans \<noteq> Answer a)
        else fst s' = fst s \<and> (\<forall>a. ans \<noteq> Answer a) \<or> fst s' = fst s @ [cid]"
    by (cases s) (simp add: demo_api_def)
qed


section \<open>Theorems\<close>

text \<open>A submission to the broker makes at most three requests: every request before the last one
  failed in the connection, the answer is the last one's, and a retry is left unused only when the
  last one did not fail in the connection.\<close>

theorem submission_attempts:
  "\<exists>k < RETRY_ATTEMPTS.
     (\<forall>j<k. is_connection_error (fst (submit_attempt api order cid
        (state_after (submit_attempt api order cid) j s)))) \<and>
     alpaca_submit_order api order cid s =
       submit_attempt api order cid (state_after (submit_attempt api order cid) k s) \<and>
     (k + 1 < RETRY_ATTEMPTS \<longrightarrow> \<not> is_connection_error (fst (alpaca_submit_order api order cid s)))"
proof -
  let ?f = "submit_attempt api order cid"
  have n: "RETRY_ATTEMPTS - 1 < RETRY_ATTEMPTS" by (simp add: RETRY_ATTEMPTS_def)
  obtain k where k: "k \<le> RETRY_ATTEMPTS - 1"
    "\<forall>j<k. is_connection_error (fst (?f (state_after ?f j s)))"
    "retrying (RETRY_ATTEMPTS - 1) ?f s = ?f (state_after ?f k s)"
    "k < RETRY_ATTEMPTS - 1 \<longrightarrow> \<not> is_connection_error (fst (retrying (RETRY_ATTEMPTS - 1) ?f s))"
    using retrying_cases [of "RETRY_ATTEMPTS - 1" ?f s] by blast
  have less: "k < RETRY_ATTEMPTS" using k(1) n by (rule le_less_trans)
  have last: "k + 1 < RETRY_ATTEMPTS \<longrightarrow>
      \<not> is_connection_error (fst (retrying (RETRY_ATTEMPTS - 1) ?f s))"
    using k(4) by (metis add_diff_cancel_right' diff_less_mono le_add2)
  show ?thesis
    unfolding alpaca_submit_order_def with_retry_def using less k(2,3) last by blast
qed

theorem submission_attempts_witness:
  "fst (alpaca_submit_order (demo_api []) demo_market_order ''c-1'' ([], 0)) \<noteq>
     Inl (AlpacaConnectionError ''x'') \<and>
   (\<exists>k < RETRY_ATTEMPTS. alpaca_submit_order (demo_api []) demo_market_order ''c-1'' ([], 0) =
      submit_attempt (demo_api []) demo_market_order ''c-1''
        (state_after (submit_attempt (demo_api []) demo_market_order ''c-1'') k ([], 0)))"
  using submission_attempts [of "demo_api []" demo_market_order "''c-1''" "([], 0)"]
  by (auto simp: alpaca_submit_order_def with_retry_def RETRY_ATTEMPTS_def submit_attempt_def demo_api_def
      build_alpaca_request_def demo_market_order_def tif_map_def Let_def numeral_2_eq_2
      format_alpaca_order_def demo_alpaca_order_def decimal_or_zero_def decimal_if_not_none_def)

text \<open>C33. Retries never duplicate an order: with a broker that refuses an identifier it has already
  taken, a submission leaves each identifier in the broker's book at most once, adds no other order,
  and an order reported as accepted is in the book.\<close>

theorem retries_book_at_most_once:
  assumes law: "unique_client_order_ids api book" and dist: "distinct (book s)"
    and run: "alpaca_submit_order api order cid s = (x, s')"
  shows "distinct (book s') \<and> set (book s) \<subseteq> set (book s') \<and>
    set (book s') \<subseteq> insert cid (set (book s)) \<and> (\<forall>bo. x = Inr bo \<longrightarrow> cid \<in> set (book s'))"
proof -
  let ?f = "submit_attempt api order cid"
  let ?P = "\<lambda>u. distinct (book u) \<and> set (book s) \<subseteq> set (book u) \<and> set (book u) \<subseteq> insert cid (set (book s))"
  have s': "s' = snd (retrying (RETRY_ATTEMPTS - 1) ?f s)" and x: "x = fst (retrying (RETRY_ATTEMPTS - 1) ?f s)"
    using run by (simp_all add: alpaca_submit_order_def with_retry_def)
  have "?P s'"
    unfolding s'
  proof (rule retrying_invariant [where P = ?P])
    show "?P s" using dist by auto
  next
    fix u assume "?P u"
    then show "?P (snd (?f u))"
      using submit_attempt_books(1) [OF law, of order cid u] by auto
  qed
  moreover have "\<forall>bo. x = Inr bo \<longrightarrow> cid \<in> set (book s')"
    unfolding s' x
    by (rule retrying_answer [where Q = "\<lambda>y u. \<forall>bo. y = Inr bo \<longrightarrow> cid \<in> set (book u)"])
      (use submit_attempt_books(2) [OF law] in blast)
  ultimately show ?thesis by blast
qed

theorem retries_book_at_most_once_witness:
  "distinct (fst (snd (alpaca_submit_order (demo_api []) demo_market_order ''c-1'' ([''c-0''], 1))))"
  using retries_book_at_most_once [OF demo_unique [of "[]"], of "([''c-0''], 1)" demo_market_order "''c-1''"]
  by (cases "alpaca_submit_order (demo_api []) demo_market_order ''c-1'' ([''c-0''], 1)") simp

text \<open>
  A submission whose first answer is lost on the way back is reported as rejected: the second
  attempt's refusal of the identifier as a duplicate is classified as a rejection of the order.
\<close>

lemma lost_answer_is_reported_as_rejection:
  assumes "build_alpaca_request (api_float api) order cid = Inr req"
    "api_submit api req s = (NetworkError m, s1)" "api_submit api req s1 = (ApiError (Some 422) m', s2)"
  shows "alpaca_submit_order api order cid s = (Inl (AlpacaRejectionError m'), s2)"
  using assms by (simp add: alpaca_submit_order_def with_retry_def RETRY_ATTEMPTS_def submit_attempt_def
      numeral_2_eq_2)


definition demo_orders :: "alpaca_order list" where
  "demo_orders = [demo_alpaca_order ''b-1'' ''c-1'' 1, demo_alpaca_order ''b-2'' ''c-2'' 2, demo_alpaca_order ''b-3'' ''c-3'' 3,
                  demo_alpaca_order ''b-4'' ''c-4'' 4]"



text \<open>Whatever the server sends, the list the client returns has every identifier once.\<close>

theorem order_list_distinct:
  assumes "alpaca_get_orders api status page_limit after symbols s = Some (Inr bs, s')"
  shows "distinct (map b_id bs)"
proof -
  have "get_orders_loop api status page_limit symbols [] [] after s = Some (Inr bs, s')"
    using assms by (auto simp: alpaca_get_orders_def split: if_splits)
  from get_orders_loop_ids [OF this] show ?thesis by (simp add: listed_ids_def)
qed

theorem order_list_distinct_witness:
  "\<exists>bs s'. alpaca_get_orders (demo_api (demo_orders @ demo_orders)) ''all'' 5 None None ([], 0) = Some (Inr bs, s') \<and>
     distinct (map b_id bs)"
proof -
  let ?r = "alpaca_get_orders (demo_api (demo_orders @ demo_orders)) ''all'' 5 None None ([], 0)"
  obtain bs s' where r: "?r = Some (Inr bs, s')"
    by (simp add: alpaca_get_orders_def QUERY_STATUSES_def get_orders_loop.simps demo_api_def demo_orders_def
        created_after_def demo_alpaca_order_def listed_order_def decimal_or_zero_def decimal_if_truthy_def
        decimal_if_not_none_def last_created_at_def)
  with order_list_distinct [OF r] show ?thesis by blast
qed

text \<open>Two orders of the same time on both sides of a page boundary: the second is never listed.\<close>

lemma order_list_skips_equal_times:
  "map_option (map_sum id (map b_id) \<circ> fst)
     (alpaca_get_orders (demo_api [demo_alpaca_order ''b-1'' ''c-1'' 1, demo_alpaca_order ''b-2'' ''c-2'' 1]) ''all'' 1 None None
        ([], 0)) = Some (Inr [Some ''b-1''])"
  by (simp add: alpaca_get_orders_def QUERY_STATUSES_def get_orders_loop.simps demo_api_def
      created_after_def demo_alpaca_order_def listed_order_def decimal_or_zero_def decimal_if_truthy_def
      decimal_if_not_none_def last_created_at_def)

end
