(* ===== verification/Fat_Finger.thy ===== *)
theory Fat_Finger
  imports Order_Id
begin

text \<open>
  The fat-finger checks of \<^verbatim>\<open>apps/execution_gateway/fat_finger_validator.py\<close> and the resolution of
  their price and volume in \<^verbatim>\<open>services/order_helpers.py\<close>.  The validator's state is its default
  thresholds and the overrides by upper-cased symbol (its lock makes each method atomic; the
  copies it hands out are values here).  A breach is a constructor with the values it reports.
\<close>

section \<open>Thresholds and the validator's state\<close>

record thresholds =
  max_notional :: "rat option"
  max_qty :: "int option"
  max_adv_pct :: "rat option"

definition no_thresholds :: thresholds where
  "no_thresholds = \<lparr>max_notional = None, max_qty = None, max_adv_pct = None\<rparr>"

definition positive_opt :: "'a::linordered_idom option \<Rightarrow> bool" where
  "positive_opt x = (case x of None \<Rightarrow> True | Some v \<Rightarrow> 0 < v)"

text \<open>The field bounds of the Pydantic model.\<close>

definition thresholds_ok :: "thresholds \<Rightarrow> bool" where
  "thresholds_ok t \<longleftrightarrow>
     positive_opt (max_notional t) \<and> positive_opt (max_qty t) \<and> positive_opt (max_adv_pct t) \<and>
     (case max_adv_pct t of None \<Rightarrow> True | Some p \<Rightarrow> p \<le> 1)"

record validator =
  ff_default_thresholds :: thresholds
  ff_symbol_overrides :: "(string \<times> thresholds) list"

definition opt_or :: "'a option \<Rightarrow> 'a option \<Rightarrow> 'a option" where
  "opt_or x y = (if x \<noteq> None then x else y)"

definition merge_thresholds :: "thresholds \<Rightarrow> thresholds \<Rightarrow> thresholds" where
  "merge_thresholds defaults override =
     \<lparr>max_notional = opt_or (max_notional override) (max_notional defaults),
      max_qty = opt_or (max_qty override) (max_qty defaults),
      max_adv_pct = opt_or (max_adv_pct override) (max_adv_pct defaults)\<rparr>"

definition patch_thresholds :: "thresholds \<Rightarrow> thresholds \<Rightarrow> thresholds" where
  "patch_thresholds base patch =
     \<lparr>max_notional = opt_or (max_notional patch) (max_notional base),
      max_qty = opt_or (max_qty patch) (max_qty base),
      max_adv_pct = opt_or (max_adv_pct patch) (max_adv_pct base)\<rparr>"

definition ff_init :: "thresholds \<Rightarrow> (string \<times> thresholds) list \<Rightarrow> validator" where
  "ff_init default_thresholds symbol_overrides =
     \<lparr>ff_default_thresholds = default_thresholds,
      ff_symbol_overrides =
        fold (\<lambda>(symbol, t). AList.update (upper symbol) t) symbol_overrides []\<rparr>"

definition get_default_thresholds :: "validator \<Rightarrow> thresholds" where
  "get_default_thresholds v = ff_default_thresholds v"

definition get_symbol_overrides :: "validator \<Rightarrow> (string \<times> thresholds) list" where
  "get_symbol_overrides v = ff_symbol_overrides v"

definition update_defaults :: "thresholds \<Rightarrow> validator \<Rightarrow> validator" where
  "update_defaults new_defaults v = v\<lparr>ff_default_thresholds := new_defaults\<rparr>"

definition apply_override ::
  "string \<times> thresholds option \<Rightarrow> (string \<times> thresholds) list \<Rightarrow> (string \<times> thresholds) list" where
  "apply_override st ovs =
     (case st of
        (symbol, None) \<Rightarrow> AList.delete (upper symbol) ovs
      | (symbol, Some t) \<Rightarrow>
          let existing = (case map_of ovs (upper symbol) of Some e \<Rightarrow> e | None \<Rightarrow> no_thresholds)
          in AList.update (upper symbol) (patch_thresholds existing t) ovs)"

definition update_symbol_overrides ::
  "(string \<times> thresholds option) list \<Rightarrow> validator \<Rightarrow> validator" where
  "update_symbol_overrides overrides v =
     v\<lparr>ff_symbol_overrides := fold apply_override overrides (ff_symbol_overrides v)\<rparr>"

definition get_effective_thresholds :: "string \<Rightarrow> validator \<Rightarrow> thresholds" where
  "get_effective_thresholds symbol v =
     (case map_of (ff_symbol_overrides v) (upper symbol) of
        None \<Rightarrow> ff_default_thresholds v
      | Some override \<Rightarrow> merge_thresholds (ff_default_thresholds v) override)"

section \<open>Validation\<close>

datatype breach =
    NotionalBreach rat rat rat int
  | QtyBreach int int
  | AdvPctBreach rat rat int int
  | DataUnavailable "string list"

record ff_result =
  fr_breached :: bool
  fr_breaches :: "breach list"
  fr_thresholds :: thresholds
  fr_notional :: "rat option"
  fr_adv :: "int option"
  fr_adv_pct :: "rat option"
  fr_price :: "rat option"

definition check_notional ::
  "thresholds \<Rightarrow> int \<Rightarrow> rat option \<Rightarrow> breach list \<times> string list \<times> rat option" where
  "check_notional effective qty price =
     (case max_notional effective of
        None \<Rightarrow> ([], [], None)
      | Some limit \<Rightarrow>
          (case price of
             None \<Rightarrow> ([], [''price''], None)
           | Some p \<Rightarrow>
               let notional = p * of_int qty
               in (if notional > limit then [NotionalBreach limit notional p qty] else [],
                   [], Some notional)))"

definition check_qty :: "thresholds \<Rightarrow> int \<Rightarrow> breach list" where
  "check_qty effective qty =
     (case max_qty effective of
        None \<Rightarrow> []
      | Some limit \<Rightarrow> if qty > limit then [QtyBreach limit qty] else [])"

definition check_adv_pct ::
  "thresholds \<Rightarrow> int \<Rightarrow> int option \<Rightarrow> breach list \<times> string list \<times> rat option" where
  "check_adv_pct effective qty adv =
     (case max_adv_pct effective of
        None \<Rightarrow> ([], [], None)
      | Some limit \<Rightarrow>
          (case adv of
             None \<Rightarrow> ([], [''adv''], None)
           | Some a \<Rightarrow>
               if a \<le> 0 then ([], [''adv''], None)
               else
                 let adv_pct = of_int qty / of_int a
                 in (if adv_pct > limit then [AdvPctBreach limit adv_pct a qty] else [],
                     [], Some adv_pct)))"

definition validate ::
  "validator \<Rightarrow> string \<Rightarrow> int \<Rightarrow> rat option \<Rightarrow> int option \<Rightarrow> thresholds option \<Rightarrow> ff_result" where
  "validate v symbol qty price adv ts =
     (let effective = (case ts of Some t \<Rightarrow> t | None \<Rightarrow> get_effective_thresholds symbol v)
      in case check_notional effective qty price of (b1, missing1, notional) \<Rightarrow>
         case check_adv_pct effective qty adv of (b3, missing3, adv_pct) \<Rightarrow>
           let missing_fields = missing1 @ missing3;
               breaches = b1 @ check_qty effective qty @ b3 @
                 (if missing_fields \<noteq> [] then [DataUnavailable missing_fields] else [])
           in \<lparr>fr_breached = (breaches \<noteq> []), fr_breaches = breaches, fr_thresholds = effective,
               fr_notional = notional, fr_adv = adv, fr_adv_pct = adv_pct, fr_price = price\<rparr>)"

section \<open>Resolving the context\<close>

text \<open>
  \<open>fetch\<close> is the price cache, which gives a price and its time for a symbol, and \<open>get_adv\<close> the
  liquidity service, if there is one; times are seconds.
\<close>

definition resolve_fat_finger_context ::
  "(string \<Rightarrow> rat option \<times> rat option) \<Rightarrow> (string \<Rightarrow> int option) option \<Rightarrow> rat \<Rightarrow> rat \<Rightarrow>
   order_request \<Rightarrow> thresholds \<Rightarrow> rat option \<times> int option" where
  "resolve_fat_finger_context fetch get_adv now max_price_age_seconds order ts =
     (let price =
        (if max_notional ts = None then None
         else if or_limit_price order \<noteq> None then or_limit_price order
         else if or_stop_price order \<noteq> None then or_stop_price order
         else case fetch (or_symbol order) of
                (None, _) \<Rightarrow> None
              | (Some p, None) \<Rightarrow> None
              | (Some p, Some stamp) \<Rightarrow> if now - stamp > max_price_age_seconds then None else Some p);
          adv =
        (case get_adv of
           None \<Rightarrow> None
         | Some service \<Rightarrow> if max_adv_pct ts = None then None else service (or_symbol order))
      in (price, adv))"

section \<open>Lemmas\<close>

lemma opt_or_simps [simp]: "opt_or None y = y" "opt_or (Some x) y = Some x" "opt_or y None = y"
  by (auto simp: opt_or_def)

lemma opt_or_assoc: "opt_or (opt_or x y) z = opt_or x (opt_or y z)"
  by (cases x) simp_all

lemma merge_is_patch: "merge_thresholds d t = patch_thresholds d t"
  by (simp add: merge_thresholds_def patch_thresholds_def)

lemma patch_assoc: "patch_thresholds (patch_thresholds a b) c = patch_thresholds a (patch_thresholds b c)"
  by (simp add: patch_thresholds_def opt_or_assoc)

lemma patch_none [simp]: "patch_thresholds t no_thresholds = t"
  by (simp add: patch_thresholds_def no_thresholds_def)

lemma apply_override_other:
  "upper s \<noteq> k \<Longrightarrow> map_of (apply_override (s, t) ovs) k = map_of ovs k"
  by (cases t) (simp_all add: apply_override_def Let_def al.get_put al.get_del)

lemma apply_override_same:
  "map_of (apply_override (s, t) ovs) (upper s) =
     (case t of
        None \<Rightarrow> None
      | Some p \<Rightarrow> Some (patch_thresholds
          (case map_of ovs (upper s) of Some e \<Rightarrow> e | None \<Rightarrow> no_thresholds) p))"
  by (cases t) (simp_all add: apply_override_def Let_def al.get_put al.get_del)

lemma effective_as_patch:
  "get_effective_thresholds s v =
     patch_thresholds (ff_default_thresholds v)
       (case map_of (ff_symbol_overrides v) (upper s) of Some e \<Rightarrow> e | None \<Rightarrow> no_thresholds)"
  by (simp add: get_effective_thresholds_def merge_is_patch split: option.split)

lemma fold_apply_override_other:
  "\<forall>o1 \<in> set ovs. upper (fst o1) \<noteq> k \<Longrightarrow> map_of (fold apply_override ovs al) k = map_of al k"
proof (induction ovs arbitrary: al)
  case Nil
  then show ?case by simp
next
  case (Cons o1 ovs)
  then show ?case using apply_override_other [of "fst o1" k "snd o1" al] by simp
qed

lemma opt_or_positive: "positive_opt x \<Longrightarrow> positive_opt y \<Longrightarrow> positive_opt (opt_or x y)"
  by (cases x) simp_all

lemma patch_ok: "thresholds_ok a \<Longrightarrow> thresholds_ok b \<Longrightarrow> thresholds_ok (patch_thresholds a b)"
  by (auto simp: thresholds_ok_def patch_thresholds_def opt_or_def split: option.splits)

definition validator_ok :: "validator \<Rightarrow> bool" where
  "validator_ok v \<longleftrightarrow>
     thresholds_ok (ff_default_thresholds v) \<and>
     (\<forall>st \<in> set (ff_symbol_overrides v). thresholds_ok (snd st))"

lemma no_thresholds_ok: "thresholds_ok no_thresholds"
  by (simp add: thresholds_ok_def no_thresholds_def positive_opt_def)

section \<open>Properties\<close>

text \<open>An order is stopped exactly when a configured threshold is exceeded or cannot be checked: its
  notional is above the limit or there is no price, its quantity is above the limit, its share of
  the average volume is above the limit or there is no positive volume.\<close>

theorem validate_breached_iff:
  "fr_breached (validate v symbol qty price adv None) \<longleftrightarrow>
     (let t = get_effective_thresholds symbol v in
       (case max_notional t of None \<Rightarrow> False
        | Some limit \<Rightarrow> (case price of None \<Rightarrow> True | Some p \<Rightarrow> limit < p * of_int qty)) \<or>
       (case max_qty t of None \<Rightarrow> False | Some limit \<Rightarrow> limit < qty) \<or>
       (case max_adv_pct t of None \<Rightarrow> False
        | Some limit \<Rightarrow> (case adv of None \<Rightarrow> True
            | Some a \<Rightarrow> if a \<le> 0 then True else limit * of_int a < of_int qty)))"
  by (auto simp: validate_def check_notional_def check_qty_def check_adv_pct_def Let_def
      pos_less_divide_eq split: option.split)

text \<open>Overrides take effect symbol by symbol and regardless of case: patching one symbol changes
  its effective thresholds to the old ones with the given fields replaced, removing its override
  restores the defaults, and no other symbol is affected.\<close>

theorem update_overrides_effective:
  "get_effective_thresholds s' (update_symbol_overrides [(s, t)] v) =
     (if upper s' = upper s
      then (case t of
              None \<Rightarrow> get_default_thresholds v
            | Some p \<Rightarrow> patch_thresholds (get_effective_thresholds s' v) p)
      else get_effective_thresholds s' v)"
proof (cases "upper s' = upper s")
  case True
  then show ?thesis
    using apply_override_same [of s t "ff_symbol_overrides v"]
    by (cases t) (simp_all add: effective_as_patch update_symbol_overrides_def patch_assoc
        get_default_thresholds_def)
next
  case False
  then show ?thesis
    using apply_override_other [of s "upper s'" t "ff_symbol_overrides v"]
    by (simp add: effective_as_patch update_symbol_overrides_def)
qed

text \<open>When the context is resolved for the thresholds of the order's symbol, an order that passes is
  covered: every configured threshold was compared with a real value, and a price read from the
  cache was not older than the maximal age.\<close>

theorem resolved_order_covered:
  assumes "resolve_fat_finger_context fetch get_adv now max_age order
      (get_effective_thresholds (or_symbol order) v) = (price, adv)"
    and "\<not> fr_breached (validate v (or_symbol order) (or_qty order) price adv None)"
    and "max_notional (get_effective_thresholds (or_symbol order) v) = Some limit"
    and "or_limit_price order = None" "or_stop_price order = None"
  shows "\<exists>p stamp. fetch (or_symbol order) = (Some p, Some stamp) \<and> now - stamp \<le> max_age \<and>
     p * of_int (or_qty order) \<le> limit"
  using assms
  by (auto simp: resolve_fat_finger_context_def validate_def check_notional_def Let_def
      split: option.splits prod.splits if_splits)

definition demo_validator :: validator where
  "demo_validator = ff_init \<lparr>max_notional = Some 10000, max_qty = Some 500, max_adv_pct = None\<rparr> []"

theorem resolved_order_covered_witness:
  "\<exists>p stamp. (Some 150, Some 95) = (Some p, Some stamp) \<and> 100 - stamp \<le> (30 :: rat) \<and>
     p * of_int 10 \<le> (10000 :: rat)"
  using resolved_order_covered [of "\<lambda>s. (Some 150, Some 95)" None 100 30 "demo_order 10 None"
      demo_validator "Some 150" None 10000]
  by (simp add: resolve_fat_finger_context_def validate_def check_notional_def check_qty_def
      check_adv_pct_def demo_validator_def ff_init_def get_effective_thresholds_def demo_order_def)

text \<open>Every operation keeps the thresholds of the validator within the bounds of their model.\<close>

theorem validator_ok_preserved:
  assumes "validator_ok v" "thresholds_ok d" "\<forall>o1 \<in> set ovs. \<forall>t. snd o1 = Some t \<longrightarrow> thresholds_ok t"
  shows "validator_ok (update_defaults d v) \<and> validator_ok (update_symbol_overrides ovs v) \<and>
     thresholds_ok (get_effective_thresholds s v)"
proof -
  have vals: "\<forall>st \<in> set (AList.update k t al). thresholds_ok (snd st)"
    if "thresholds_ok t" "\<forall>st \<in> set al. thresholds_ok (snd st)" for k t al
    using that by (induction al) auto
  have step: "\<forall>st \<in> set (apply_override o1 al). thresholds_ok (snd st)"
    if "\<forall>t. snd o1 = Some t \<longrightarrow> thresholds_ok t" "\<forall>st \<in> set al. thresholds_ok (snd st)" for o1 al
  proof (cases "snd o1")
    case None
    with that show ?thesis by (cases o1) (auto simp: apply_override_def AList.delete_eq)
  next
    case (Some t)
    have old: "thresholds_ok (case map_of al k of Some e \<Rightarrow> e | None \<Rightarrow> no_thresholds)" for k
      using that(2) no_thresholds_ok by (auto split: option.split dest!: map_of_SomeD)
    have "thresholds_ok t" using that(1) Some by simp
    then have "thresholds_ok (patch_thresholds
        (case map_of al (upper (fst o1)) of Some e \<Rightarrow> e | None \<Rightarrow> no_thresholds) t)"
      using old by (intro patch_ok)
    from vals [OF this that(2), of "upper (fst o1)"] Some show ?thesis
      by (cases o1) (simp add: apply_override_def Let_def)
  qed
  have run: "\<forall>st \<in> set (fold apply_override ovs al). thresholds_ok (snd st)"
    if "\<forall>st \<in> set al. thresholds_ok (snd st)" for al
    using assms(3) that
  proof (induction ovs arbitrary: al)
    case Nil
    then show ?case by simp
  next
    case (Cons o1 ovs)
    have a: "\<forall>st \<in> set (apply_override o1 al). thresholds_ok (snd st)"
      by (rule step [OF bspec [OF Cons.prems(1) list.set_intros(1)] Cons.prems(2)])
    have b: "\<forall>o1 \<in> set ovs. \<forall>t. snd o1 = Some t \<longrightarrow> thresholds_ok t"
      using Cons.prems(1) by (intro ballI) (erule bspec, simp)
    from Cons.IH [OF b a] show ?case by simp
  qed
  have "thresholds_ok (case map_of (ff_symbol_overrides v) k of Some e \<Rightarrow> e | None \<Rightarrow> no_thresholds)" for k
    using assms(1) no_thresholds_ok by (auto simp: validator_ok_def split: option.split dest!: map_of_SomeD)
  then have "thresholds_ok (get_effective_thresholds s v)"
    using assms(1) unfolding effective_as_patch validator_ok_def by (intro patch_ok) simp_all
  moreover have "validator_ok (update_defaults d v)"
    using assms(1,2) by (simp add: validator_ok_def update_defaults_def)
  moreover have "validator_ok (update_symbol_overrides ovs v)"
    using assms(1) run [of "ff_symbol_overrides v"]
    by (simp add: validator_ok_def update_symbol_overrides_def)
  ultimately show ?thesis by simp
qed

theorem validator_ok_preserved_witness:
  "validator_ok (update_symbol_overrides [(''aapl'', Some \<lparr>max_notional = None, max_qty = Some 5, max_adv_pct = None\<rparr>)]
     demo_validator)"
  using validator_ok_preserved [of demo_validator no_thresholds
      "[(''aapl'', Some \<lparr>max_notional = None, max_qty = Some 5, max_adv_pct = None\<rparr>)]"]
  by (simp add: validator_ok_def demo_validator_def ff_init_def thresholds_ok_def positive_opt_def
      no_thresholds_def)

end
