(* ===== verification/Submit_Order.thy ===== *)
theory Submit_Order
  imports Recovery Alpaca_Client Position_Reservation Risk_Config Fat_Finger
begin

text \<open>
  The order endpoint of \<^verbatim>\<open>apps/execution_gateway/routes/orders.py\<close>: \<open>submit_order\<close> with its gates in
  their order, the reservation, the idempotency check, the insertion, the call of the broker and its
  failures.  The state is Redis, the database and the lists of the orders sent to the broker, replaced and
  canceled there with its replies; the broker, the clock, the random token of the reservation and what other requests do to
  the database between the idempotency check and the insertion are arguments.  Authentication, rate
  limits, metrics and logging are left out.
\<close>

section \<open>State and surroundings\<close>

datatype broker_reply =
    BrokerAccepted "string option"
  | BrokerValueError string
  | BrokerValidationError string
  | BrokerRejectionError string
  | BrokerConnectionError string
  | BrokerOtherError string

text \<open>How the \<open>except\<close> clauses of the submission see the client's answer.\<close>

fun reply_of :: "broker_order client_result \<Rightarrow> broker_reply" where
  "reply_of (Inr bo) = BrokerAccepted (b_id bo)"
| "reply_of (Inl (AlpacaValidationError m)) = BrokerValidationError m"
| "reply_of (Inl (AlpacaRejectionError m)) = BrokerRejectionError m"
| "reply_of (Inl (AlpacaConnectionError m)) = BrokerConnectionError m"
| "reply_of (Inl (AlpacaClientError m)) = BrokerOtherError m"
| "reply_of (Inl (UncaughtError m)) = BrokerOtherError m"

text \<open>\<open>OrderModifyRequest\<close>; the idempotency key is a UUID in canonical form.\<close>

record order_modify_request =
  mr_idempotency_key :: string
  mr_qty :: "int option"
  mr_limit_price :: "rat option"
  mr_stop_price :: "rat option"
  mr_time_in_force :: "string option"
  mr_reason :: "string option"

record broker =
  bk_position :: "string \<Rightarrow> broker_position option result"
  bk_open_orders :: "string \<Rightarrow> broker_order list result"
  bk_submit :: "order_request \<Rightarrow> string \<Rightarrow> broker_reply"
  bk_replace :: "string \<Rightarrow> order_modify_request \<Rightarrow> string \<Rightarrow> broker_order client_result"
  bk_cancel :: "string \<Rightarrow> bool client_result"

record submit_env =
  sv_strategy_id :: string
  sv_dry_run :: bool
  sv_max_price_age_seconds :: rat
  sv_risk_config :: risk_config
  sv_validator :: validator
  sv_redis :: bool
  sv_reconciliation :: "recon_state option"
  sv_alpaca :: "broker option"
  sv_fetch :: "string \<Rightarrow> rat option \<times> rat option"
  sv_get_adv :: "(string \<Rightarrow> int option) option"
  sv_today :: date
  sv_now :: rat
  sv_token :: string
  sv_meanwhile :: "db \<Rightarrow> db"

record gateway =
  gw_redis :: redis
  gw_db :: db
  gw_sent :: "(string \<times> order_request \<times> broker_reply) list"
  gw_replaced :: "(string \<times> order_modify_request \<times> string \<times> broker_order client_result) list"
  gw_canceled :: "(string \<times> bool client_result) list"

record order_response =
  os_client_order_id :: string
  os_status :: string
  os_broker_order_id :: "string option"
  os_symbol :: string
  os_side :: string
  os_qty :: int
  os_order_type :: string
  os_limit_price :: "rat option"
  os_stop_price :: "rat option"
  os_created_at :: rat
  os_message :: string

section \<open>The gates\<close>

text \<open>\<open>MGET\<close> answers nothing for a key that holds no string; an empty string is false.\<close>

definition mget_truthy :: "redis \<Rightarrow> string \<Rightarrow> bool" where
  "mget_truthy r k =
     (case redis_get r k of None \<Rightarrow> False | Some v \<Rightarrow> is_text v \<and> v \<noteq> RRaw [])"

definition check_quarantine :: "submit_env \<Rightarrow> string \<Rightarrow> redis \<Rightarrow> unit result" where
  "check_quarantine env symbol r =
     (if sv_dry_run env then Inr ()
      else if \<not> sv_redis env then Inl (HTTPException 503 ''Quarantine check unavailable'')
      else if mget_truthy r (quarantine_key (sv_strategy_id env) (upper symbol)) \<or>
        mget_truthy r (quarantine_key ''*'' (upper symbol))
      then Inl (HTTPException 503 ''Symbol quarantined'')
      else Inr ())"

definition is_reconciliation_ready :: "submit_env \<Rightarrow> bool" where
  "is_reconciliation_ready env =
     (if sv_dry_run env then True
      else case sv_reconciliation env of None \<Rightarrow> False | Some s \<Rightarrow> is_startup_complete s)"

text \<open>\<open>Decimal(str(None))\<close> raises \<open>InvalidOperation\<close>.\<close>

definition dec_of_opt :: "rat option \<Rightarrow> rat result" where
  "dec_of_opt x = (case x of None \<Rightarrow> Inl InvalidOperation | Some q \<Rightarrow> Inr q)"

fun calculate_pending_order_qty :: "broker_order list \<Rightarrow> string \<Rightarrow> rat result" where
  "calculate_pending_order_qty [] order_side = Inr 0"
| "calculate_pending_order_qty (bo # bos) order_side =
     (if map_option lower (b_side bo) \<noteq> Some order_side then calculate_pending_order_qty bos order_side
      else rbind (dec_of_opt (b_qty bo)) (\<lambda>q. rbind (dec_of_opt (b_filled_qty bo)) (\<lambda>f.
        rbind (calculate_pending_order_qty bos order_side) (\<lambda>rest.
          Inr ((if q - f > 0 then q - f else 0) + rest)))))"

definition is_reduce_only_order ::
  "order_request \<Rightarrow> broker_position option \<Rightarrow> broker_order list \<Rightarrow> bool result" where
  "is_reduce_only_order order position open_orders =
     (case position of
        None \<Rightarrow> Inr False
      | Some bp \<Rightarrow> rbind (dec_of_opt (bp_qty bp)) (\<lambda>current_qty.
          if current_qty = 0 then Inr False
          else rbind (calculate_pending_order_qty open_orders ''sell'') (\<lambda>pending_sells.
               rbind (calculate_pending_order_qty open_orders ''buy'') (\<lambda>pending_buys.
                 if current_qty > 0 then
                   Inr (lower (or_side order) = ''sell'' \<and>
                        of_int (or_qty order) \<le> current_qty - pending_sells)
                 else
                   Inr (lower (or_side order) = ''buy'' \<and>
                        of_int (or_qty order) \<le> \<bar>current_qty\<bar> - pending_buys)))))"

definition require_reconciliation_ready_or_reduce_only ::
  "submit_env \<Rightarrow> order_request \<Rightarrow> unit result" where
  "require_reconciliation_ready_or_reduce_only env order =
     (if (case sv_reconciliation env of None \<Rightarrow> False | Some s \<Rightarrow> rs_override_active s) then Inr ()
      else if is_reconciliation_ready env then Inr ()
      else case sv_alpaca env of
        None \<Rightarrow> Inl (HTTPException 503 ''Broker unavailable during reconciliation'')
      | Some b \<Rightarrow>
          (case bk_position b (or_symbol order) of
             Inl e \<Rightarrow> Inl (HTTPException 503 ''Broker unavailable during reconciliation'')
           | Inr position \<Rightarrow>
               let open_orders = (case bk_open_orders b (upper (or_symbol order)) of
                     Inl e \<Rightarrow> [] | Inr os \<Rightarrow> os)
               in rbind (is_reduce_only_order order position open_orders) (\<lambda>reduce_only.
                    if reduce_only then Inr ()
                    else Inl (HTTPException 503 ''Reconciliation in progress''))))"

text \<open>Gates 1 to 7, in the order of the code.\<close>

definition submit_gates ::
  "submit_env \<Rightarrow> recovery_state \<Rightarrow> order_request \<Rightarrow> redis \<Rightarrow> unit result" where
  "submit_gates env rv order r =
     (if rv_kill_switch_unavailable rv \<or> \<not> rv_kill_switch rv
      then Inl (HTTPException 503 ''Kill-switch unavailable'')
      else if rv_circuit_breaker_unavailable rv \<or> \<not> rv_circuit_breaker rv
      then Inl (HTTPException 503 ''Circuit-breaker state unavailable'')
      else if rv_position_reservation_unavailable rv \<or> rv_position_reservation rv = None
      then Inl (HTTPException 503 ''Position-reservation state unavailable'')
      else rbind (ks_is_engaged r) (\<lambda>engaged.
        if engaged then Inl (HTTPException 503 ''Kill-switch engaged - new orders blocked'')
        else rbind (breaker_is_tripped r) (\<lambda>tripped.
          if tripped then Inl (HTTPException 503 ''Circuit breaker tripped - trading paused'')
          else if or_execution_style order = ''twap''
          then Inl (HTTPException 400 ''twap_not_supported'')
          else rbind (check_quarantine env (or_symbol order) r) (\<lambda>_.
            require_reconciliation_ready_or_reduce_only env order))))"

section \<open>Idempotency\<close>

definition idempotency_payload_matches :: "order_request \<Rightarrow> order_row \<Rightarrow> string \<Rightarrow> bool" where
  "idempotency_payload_matches order existing strategy_id \<longleftrightarrow>
     or_symbol order = o_symbol existing \<and> or_side order = o_side existing \<and>
     or_qty order = o_qty existing \<and> or_order_type order = o_order_type existing \<and>
     or_limit_price order = o_limit_price existing \<and>
     or_stop_price order = o_stop_price existing \<and>
     or_time_in_force order = o_time_in_force existing \<and>
     or_execution_style order =
       (case o_execution_style existing of Some s \<Rightarrow> if s = [] then ''instant'' else s | None \<Rightarrow> ''instant'') \<and>
     strategy_id = o_strategy_id existing"

definition existing_response :: "string \<Rightarrow> order_row \<Rightarrow> string \<Rightarrow> order_response" where
  "existing_response cid existing message =
     \<lparr>os_client_order_id = cid, os_status = o_status existing,
      os_broker_order_id = o_broker_order_id existing, os_symbol = o_symbol existing,
      os_side = o_side existing, os_qty = o_qty existing, os_order_type = o_order_type existing,
      os_limit_price = o_limit_price existing, os_stop_price = o_stop_price existing,
      os_created_at = o_created_at existing, os_message = message\<rparr>"

definition answer_existing ::
  "submit_env \<Rightarrow> order_request \<Rightarrow> string \<Rightarrow> order_row \<Rightarrow> string \<Rightarrow> order_response result" where
  "answer_existing env order cid existing message =
     (if idempotency_payload_matches order existing (sv_strategy_id env)
      then Inr (existing_response cid existing message)
      else Inl (HTTPException 409 ''client_order_id already exists for a different order''))"

section \<open>The call of the broker\<close>

definition SOURCE_PRIORITY_MANUAL :: int where
  "SOURCE_PRIORITY_MANUAL = 1"

text \<open>\<open>release(\<dots>)\<close> and then the answer \<open>x\<close>; an error of the release itself is raised instead.\<close>

definition release_then ::
  "string \<Rightarrow> string \<Rightarrow> 'a result \<Rightarrow> gateway \<Rightarrow> 'a result \<times> gateway" where
  "release_then symbol token x w =
     (case release symbol token (gw_redis w) of
        Inl e \<Rightarrow> (Inl e, w)
      | Inr (_, r') \<Rightarrow> (x, w\<lparr>gw_redis := r'\<rparr>))"

definition submit_cas :: "submit_env \<Rightarrow> string \<Rightarrow> string \<Rightarrow> string option \<Rightarrow> cas_update" where
  "submit_cas env cid status error_message =
     \<lparr>c_client_order_id = cid, c_status = status, c_broker_updated_at = sv_now env,
      c_status_rank = status_rank_for status, c_source_priority = SOURCE_PRIORITY_MANUAL,
      c_filled_qty = Some 0, c_filled_avg_price = None, c_filled_at = None,
      c_broker_order_id = None, c_broker_event_id = None, c_error_message = error_message\<rparr>"

text \<open>The \<open>except\<close> clauses that mark the order: release, conditional update, HTTP error.\<close>

definition submit_failed ::
  "submit_env \<Rightarrow> order_request \<Rightarrow> string \<Rightarrow> string \<Rightarrow> string \<Rightarrow> string option \<Rightarrow> nat \<Rightarrow> gateway \<Rightarrow>
   string option result \<times> gateway" where
  "submit_failed env order cid token status error_message code w =
     (case release (or_symbol order) token (gw_redis w) of
        Inl e \<Rightarrow> (Inl e, w)
      | Inr (_, r') \<Rightarrow>
          (case update_order_status_cas (sv_now env) (submit_cas env cid status error_message) (gw_db w) of
             (Inl e, d') \<Rightarrow> (Inl e, w\<lparr>gw_redis := r', gw_db := d'\<rparr>)
           | (Inr _, d') \<Rightarrow>
               (Inl (HTTPException code ''order submission failed''), w\<lparr>gw_redis := r', gw_db := d'\<rparr>)))"

definition submit_to_broker ::
  "submit_env \<Rightarrow> order_request \<Rightarrow> string \<Rightarrow> string \<Rightarrow> gateway \<Rightarrow> string option result \<times> gateway" where
  "submit_to_broker env order cid token w =
     (if sv_dry_run env then release_then (or_symbol order) token (Inr None) w
      else case sv_alpaca env of
        None \<Rightarrow> release_then (or_symbol order) token
            (Inl (HTTPException 503 ''Alpaca client not initialized. Check credentials.'')) w
      | Some b \<Rightarrow>
          let reply = bk_submit b order cid;
              w1 = w\<lparr>gw_sent := gw_sent w @ [(cid, order, reply)]\<rparr>
          in (case reply of
                BrokerAccepted bid \<Rightarrow>
                  (case confirm (or_symbol order) token (gw_redis w1) of
                     Inl (ValueError m) \<Rightarrow> submit_failed env order cid token ''rejected'' (Some m) 422 w1
                   | Inl e \<Rightarrow> (Inl (HTTPException 500 ''Unexpected error during order submission''), w1)
                   | Inr (_, r') \<Rightarrow>
                       (Inr bid, w1\<lparr>gw_redis := r',
                          gw_db := snd (update_order_status (sv_now env) cid ''pending_new'' bid
                                          None None None (gw_db w1))\<rparr>))
              | BrokerValueError m \<Rightarrow> submit_failed env order cid token ''rejected'' (Some m) 422 w1
              | BrokerValidationError m \<Rightarrow> submit_failed env order cid token ''rejected'' None 400 w1
              | BrokerRejectionError m \<Rightarrow> submit_failed env order cid token ''rejected'' None 422 w1
              | BrokerConnectionError m \<Rightarrow> submit_failed env order cid token ''failed'' (Some m) 503 w1
              | BrokerOtherError m \<Rightarrow> release_then (or_symbol order) token
                  (Inl (HTTPException 500 ''Unexpected error during order submission'')) w1))"

section \<open>The endpoint\<close>

definition db_request :: "order_request \<Rightarrow> db_order_request" where
  "db_request order =
     \<lparr>q_symbol = or_symbol order, q_side = or_side order, q_qty = or_qty order,
      q_order_type = or_order_type order, q_limit_price = or_limit_price order,
      q_stop_price = or_stop_price order, q_time_in_force = or_time_in_force order\<rparr>"

definition fat_finger_breached :: "submit_env \<Rightarrow> order_request \<Rightarrow> bool" where
  "fat_finger_breached env order =
     (let thresholds = get_effective_thresholds (or_symbol order) (sv_validator env);
          (price, adv) = resolve_fat_finger_context (sv_fetch env) (sv_get_adv env) (sv_now env)
             (sv_max_price_age_seconds env) order thresholds
      in fr_breached (validate (sv_validator env) (or_symbol order) (or_qty order) price adv
           (Some thresholds)))"

text \<open>Insertion, broker and the final read.\<close>

definition insert_and_submit ::
  "submit_env \<Rightarrow> order_request \<Rightarrow> string \<Rightarrow> string \<Rightarrow> gateway \<Rightarrow> order_response result \<times> gateway" where
  "insert_and_submit env order cid token w =
     (case create_order (sv_now env) cid (sv_strategy_id env) (db_request order)
         (if sv_dry_run env then ''dry_run'' else ''pending_new'') None None (gw_db w) of
        (Inl (IntegrityError m), d1) \<Rightarrow>
          release_then (or_symbol order) token
            (case get_order_by_client_id cid d1 of
               Inl e \<Rightarrow> Inl e
             | Inr None \<Rightarrow> Inl (IntegrityError m)
             | Inr (Some existing) \<Rightarrow>
                 answer_existing env order cid existing ''Order already exists (concurrent retry)'') w
      | (Inl e, d1) \<Rightarrow> release_then (or_symbol order) token (Inl e) (w\<lparr>gw_db := d1\<rparr>)
      | (Inr _, d1) \<Rightarrow>
          (case submit_to_broker env order cid token (w\<lparr>gw_db := d1\<rparr>) of
             (Inl e, w') \<Rightarrow> (Inl e, w')
           | (Inr broker_order_id, w') \<Rightarrow>
               (case get_order_by_client_id cid (gw_db w') of
                  Inl e \<Rightarrow> (Inl e, w')
                | Inr None \<Rightarrow> (Inl (HTTPException 500 ''Order inserted but not found in database''), w')
                | Inr (Some row) \<Rightarrow>
                    (Inr \<lparr>os_client_order_id = cid, os_status = o_status row,
                          os_broker_order_id = broker_order_id, os_symbol = or_symbol order,
                          os_side = or_side order, os_qty = or_qty order,
                          os_order_type = or_order_type order, os_limit_price = or_limit_price order,
                          os_stop_price = or_stop_price order, os_created_at = o_created_at row,
                          os_message = (if sv_dry_run env then ''Order logged (DRY_RUN mode)''
                                        else ''Order submitted'')\<rparr>, w'))))"

text \<open>Gates 9 and 10, with the reservation held.\<close>

definition submit_reserved ::
  "submit_env \<Rightarrow> order_request \<Rightarrow> string \<Rightarrow> string \<Rightarrow> gateway \<Rightarrow> order_response result \<times> gateway" where
  "submit_reserved env order cid token w =
     (case get_order_by_client_id cid (gw_db w) of
        Inl e \<Rightarrow> release_then (or_symbol order) token
            (Inl (HTTPException 503 ''Database unavailable during idempotency check'')) w
      | Inr (Some existing) \<Rightarrow> release_then (or_symbol order) token
            (answer_existing env order cid existing ''Order already exists (idempotent retry)'') w
      | Inr None \<Rightarrow>
          if fat_finger_breached env order
          then release_then (or_symbol order) token
            (Inl (HTTPException 400 ''Order rejected by fat-finger checks'')) w
          else insert_and_submit env order cid token (w\<lparr>gw_db := sv_meanwhile env (gw_db w)\<rparr>))"

definition submit_order_id :: "submit_env \<Rightarrow> order_request \<Rightarrow> string" where
  "submit_order_id env order =
     (case or_client_order_id order of
        Some c \<Rightarrow> c
      | None \<Rightarrow> generate_client_order_id order (sv_strategy_id env) None (sv_today env))"

definition submit_reserve ::
  "submit_env \<Rightarrow> recovery_state \<Rightarrow> order_request \<Rightarrow> gateway \<Rightarrow> (reservation_result \<times> redis) result" where
  "submit_reserve env rv order w =
     reserve (case rv_position_reservation rv of Some ttl \<Rightarrow> ttl | None \<Rightarrow> DEFAULT_RESERVATION_TTL)
       (sv_token env) (or_symbol order) (or_side order) (or_qty order)
       (max_position_size (rc_position_limits (sv_risk_config env)))
       (get_position_by_symbol (or_symbol order) (gw_db w)) (gw_redis w)"

definition submit_order ::
  "submit_env \<Rightarrow> recovery_state \<Rightarrow> order_request \<Rightarrow> gateway \<Rightarrow> order_response result \<times> gateway" where
  "submit_order env rv order w =
     (case submit_gates env rv order (gw_redis w) of
        Inl e \<Rightarrow> (Inl e, w)
      | Inr _ \<Rightarrow>
          (case submit_reserve env rv order w of
             Inl e \<Rightarrow> (Inl e, w)
           | Inr (res, r1) \<Rightarrow>
               if \<not> rr_success res
               then (Inl (HTTPException 422 (''Position limit exceeded: '' @ rr_reason res)), w\<lparr>gw_redis := r1\<rparr>)
               else (case rr_token res of
                  None \<Rightarrow> (Inl (HTTPException 500 ''Position reservation failed to return token''),
                           w\<lparr>gw_redis := r1\<rparr>)
                | Some token \<Rightarrow>
                    submit_reserved env order (submit_order_id env order) token (w\<lparr>gw_redis := r1\<rparr>))))"

section \<open>Rows stay\<close>

text \<open>No operation on the database removes an order; the introduction rules follow the program.\<close>

definition keeps :: "db \<Rightarrow> db \<Rightarrow> bool" where
  "keeps d d' \<longleftrightarrow> (\<forall>c. db_order d c \<noteq> None \<longrightarrow> db_order d' c \<noteq> None)"

lemma keeps_refl [simp, intro]: "keeps d d"
  by (simp add: keeps_def)

lemma keeps_trans [trans]: "keeps d d1 \<Longrightarrow> keeps d1 d2 \<Longrightarrow> keeps d d2"
  by (simp add: keeps_def)

lemma keeps_set [simp, intro]: "keeps d (db_set_order c r d)"
  by (simp add: keeps_def)

lemma keeps_where [simp, intro]: "keeps d (snd (update_order_where cid P f d))"
  by (auto simp: update_order_where_def split: option.splits)

lemma keeps_where': "update_order_where cid P f d = (x, d') \<Longrightarrow> keeps d d'"
  using keeps_where [of d cid P f] by simp

lemma keeps_update_order_status [simp, intro]:
  "keeps d (snd (update_order_status now cid st bid q p e d))"
  by (auto simp: update_order_status_def Let_def split: prod.splits option.splits dest: keeps_where')

lemma keeps_cas [simp, intro]: "keeps d (snd (update_order_status_cas now u d))"
  by (auto simp: update_order_status_cas_def split: prod.splits option.splits sum.splits dest: keeps_where')

lemma keeps_cas': "update_order_status_cas now u d = (x, d') \<Longrightarrow> keeps d d'"
  using keeps_cas [of d now u] by simp

definition new_order_row ::
  "rat \<Rightarrow> string \<Rightarrow> string \<Rightarrow> db_order_request \<Rightarrow> string \<Rightarrow> string option \<Rightarrow> string option \<Rightarrow> order_row \<Rightarrow> bool" where
  "new_order_row now cid sid q st bid em row \<longleftrightarrow>
     o_client_order_id row = cid \<and> o_strategy_id row = sid \<and> o_status row = st \<and>
     o_symbol row = q_symbol q \<and> o_side row = q_side q \<and> o_qty row = q_qty q \<and>
     o_order_type row = q_order_type q \<and> o_limit_price row = q_limit_price q \<and>
     o_stop_price row = q_stop_price q \<and> o_time_in_force row = q_time_in_force q \<and>
     o_execution_style row = Some ''instant'' \<and> o_broker_order_id row = bid \<and>
     o_error_message row = em \<and> o_created_at row = now \<and> o_filled_qty row = 0 \<and>
     \<not> o_is_terminal row \<and> o_last_updated_at row = None"

lemma create_order_cases:
  assumes "st \<in> set ORDER_STATUSES"
  obtains (taken) r where "db_order d cid = Some r"
      "create_order now cid sid q st bid em d = (Inl (IntegrityError cid), d)"
    | (made) row where "db_order d cid = None"
      "create_order now cid sid q st bid em d = (Inr row, db_set_order cid row d)"
      "new_order_row now cid sid q st bid em row"
proof (cases "db_order d cid")
  case None
  obtain row where row: "create_order now cid sid q st bid em d = (order_detail row, db_set_order cid row d)"
    and new: "new_order_row now cid sid q st bid em row"
    using None by (simp add: create_order_def Let_def new_order_row_def)
  then have "order_detail row = Inr row"
    using assms by (simp add: order_detail_def new_order_row_def)
  with row new None show ?thesis by (intro made) simp_all
next
  case (Some r)
  then show ?thesis by (intro taken) (simp_all add: create_order_def)
qed

lemma submit_status_ok [simp]:
  "(if dry then ''dry_run'' else ''pending_new'') \<in> set ORDER_STATUSES"
  "''pending_new'' \<in> set ORDER_STATUSES" "''dry_run'' \<in> set ORDER_STATUSES"
  "''rejected'' \<in> set ORDER_STATUSES" "''failed'' \<in> set ORDER_STATUSES"
  by (simp_all add: ORDER_STATUSES_def)

section \<open>The log of the broker\<close>

lemma release_then_frame [simp]:
  "gw_db (snd (release_then symb tok x w)) = gw_db w"
  "gw_sent (snd (release_then symb tok x w)) = gw_sent w"
  by (simp_all add: release_then_def split: sum.splits prod.splits)

lemma release_then_Inr: "fst (release_then symb tok x w) = Inr y \<Longrightarrow> x = Inr y"
  by (auto simp: release_then_def split: sum.splits prod.splits)

lemma submit_failed_frame [simp]:
  "gw_sent (snd (submit_failed env order cid tok st em code w)) = gw_sent w"
  "keeps (gw_db w) (gw_db (snd (submit_failed env order cid tok st em code w)))"
  by (auto simp: submit_failed_def split: sum.splits prod.splits dest: keeps_cas')

lemma submit_failed_Inl: "\<exists>e. fst (submit_failed env order cid tok st em code w) = Inl e"
  by (auto simp: submit_failed_def split: sum.splits prod.splits)

text \<open>The broker is called at most once, outside a dry run.\<close>

lemma submit_to_broker_sent:
  "gw_sent (snd (submit_to_broker env order cid tok w)) =
     (if sv_dry_run env then gw_sent w
      else case sv_alpaca env of
        None \<Rightarrow> gw_sent w
      | Some b \<Rightarrow> gw_sent w @ [(cid, order, bk_submit b order cid)])"
  by (auto simp: submit_to_broker_def Let_def split: option.splits broker_reply.splits sum.splits
      prod.splits py_error.splits)

lemma submit_to_broker_keeps: "keeps (gw_db w) (gw_db (snd (submit_to_broker env order cid tok w)))"
proof (cases "sv_alpaca env")
  case None
  then show ?thesis by (simp add: submit_to_broker_def)
next
  case (Some b)
  have upd: "keeps d (snd (update_order_status n c s i q p e d))" for d n c s i q p e by simp
  have f: "keeps (gw_db w) (gw_db (snd (submit_failed env order cid tok st em code (w\<lparr>gw_sent := l\<rparr>))))"
    for st em code l
    using submit_failed_frame(2) [of "w\<lparr>gw_sent := l\<rparr>"] by simp
  show ?thesis
    by (cases "bk_submit b order cid")
      (auto simp: submit_to_broker_def Let_def Some f upd split: sum.splits prod.splits py_error.splits)
qed

lemma insert_and_submit_sent:
  assumes "insert_and_submit env order cid tok w = (x, w')"
  shows "keeps (gw_db w) (gw_db w') \<and>
    (gw_sent w' = gw_sent w \<or>
     \<not> sv_dry_run env \<and> db_order (gw_db w) cid = None \<and> db_order (gw_db w') cid \<noteq> None \<and>
     (\<exists>b. sv_alpaca env = Some b \<and> gw_sent w' = gw_sent w @ [(cid, order, bk_submit b order cid)]))"
proof -
  let ?st = "if sv_dry_run env then ''dry_run'' else ''pending_new''"
  have st: "?st \<in> set ORDER_STATUSES" by (rule submit_status_ok)
  show ?thesis
  proof (rule create_order_cases [OF st, where d = "gw_db w" and cid = cid and now = "sv_now env"
        and sid = "sv_strategy_id env" and q = "db_request order" and bid = None and em = None],
      goal_cases)
    case (1 r)
    then have "w' = snd (release_then (or_symbol order) tok
        (case get_order_by_client_id cid (gw_db w) of
               Inl e \<Rightarrow> Inl e
             | Inr None \<Rightarrow> Inl (IntegrityError cid)
             | Inr (Some existing) \<Rightarrow>
                 answer_existing env order cid existing ''Order already exists (concurrent retry)'') w)"
      using assms by (simp add: insert_and_submit_def)
    then show ?thesis by simp
  next
    case (2 row)
    note made = this
    let ?d = "db_set_order cid row (gw_db w)"
    obtain z w1 where sub: "submit_to_broker env order cid tok (w\<lparr>gw_db := ?d\<rparr>) = (z, w1)"
      by (metis prod.exhaust)
    have w': "w' = w1"
      using assms by (auto simp: insert_and_submit_def made sub split: sum.splits option.splits)
    have k: "keeps ?d (gw_db w1)"
      using submit_to_broker_keeps [of "w\<lparr>gw_db := ?d\<rparr>" env order cid tok] sub by simp
    have log: "gw_sent w1 = (if sv_dry_run env then gw_sent w
        else case sv_alpaca env of None \<Rightarrow> gw_sent w
           | Some b \<Rightarrow> gw_sent w @ [(cid, order, bk_submit b order cid)])"
      using submit_to_broker_sent [of env order cid tok "w\<lparr>gw_db := ?d\<rparr>"] sub
      by (cases "sv_alpaca env") simp_all
    have row: "db_order (gw_db w1) cid \<noteq> None"
      using k unfolding keeps_def by simp
    show ?thesis
      unfolding w' using keeps_trans [OF keeps_set k] made(1) row log
      by (auto split: option.splits if_splits)
  qed
qed

text \<open>The stored order answers a request: its row is there, in a status of the schema, and matches.\<close>

definition answered_by :: "submit_env \<Rightarrow> order_request \<Rightarrow> string \<Rightarrow> db \<Rightarrow> bool" where
  "answered_by env order cid d \<longleftrightarrow>
     (\<exists>row. get_order_by_client_id cid d = Inr (Some row) \<and>
        idempotency_payload_matches order row (sv_strategy_id env))"

lemma answer_existing_Inr:
  "answer_existing env order cid row m = Inr resp \<longleftrightarrow>
     idempotency_payload_matches order row (sv_strategy_id env) \<and> resp = existing_response cid row m"
  by (auto simp: answer_existing_def)

lemma submit_reserved_cases:
  obtains (refused) y where "submit_reserved env order cid tok w = release_then (or_symbol order) tok y w"
      "\<And>resp. y = Inr resp \<Longrightarrow> answered_by env order cid (gw_db w)"
    | (inserted) "get_order_by_client_id cid (gw_db w) = Inr None" "\<not> fat_finger_breached env order"
        "submit_reserved env order cid tok w =
           insert_and_submit env order cid tok (w\<lparr>gw_db := sv_meanwhile env (gw_db w)\<rparr>)"
proof (cases "get_order_by_client_id cid (gw_db w)")
  case (Inl e)
  then show ?thesis
    by (intro refused [where y = "Inl (HTTPException 503 ''Database unavailable during idempotency check'')"])
      (simp_all add: submit_reserved_def)
next
  case (Inr found)
  show ?thesis
  proof (cases found)
    case None
    with Inr show ?thesis
      by (cases "fat_finger_breached env order")
        (auto simp: submit_reserved_def intro: inserted
          refused [where y = "Inl (HTTPException 400 ''Order rejected by fat-finger checks'')"])
  next
    case (Some row)
    with Inr show ?thesis
      by (intro refused [where y = "answer_existing env order cid row
            ''Order already exists (idempotent retry)''"])
        (auto simp: submit_reserved_def answer_existing_Inr answered_by_def)
  qed
qed

lemma submit_reserved_sent:
  assumes "submit_reserved env order cid tok w = (x, w')"
  shows "gw_sent w' = gw_sent w \<or>
    \<not> sv_dry_run env \<and> \<not> fat_finger_breached env order \<and>
    db_order (gw_db w) cid = None \<and> db_order (sv_meanwhile env (gw_db w)) cid = None \<and>
    db_order (gw_db w') cid \<noteq> None \<and>
    (\<exists>b. sv_alpaca env = Some b \<and> gw_sent w' = gw_sent w @ [(cid, order, bk_submit b order cid)])"
    and "keeps (gw_db w) (sv_meanwhile env (gw_db w)) \<Longrightarrow> keeps (gw_db w) (gw_db w')"
proof -
  have "(gw_sent w' = gw_sent w \<or>
    \<not> sv_dry_run env \<and> \<not> fat_finger_breached env order \<and>
    db_order (gw_db w) cid = None \<and> db_order (sv_meanwhile env (gw_db w)) cid = None \<and>
    db_order (gw_db w') cid \<noteq> None \<and>
    (\<exists>b. sv_alpaca env = Some b \<and> gw_sent w' = gw_sent w @ [(cid, order, bk_submit b order cid)])) \<and>
    (keeps (gw_db w) (sv_meanwhile env (gw_db w)) \<longrightarrow> keeps (gw_db w) (gw_db w'))"
  proof (cases rule: submit_reserved_cases [of env order cid tok w])
    case (refused y)
    with assms have "w' = snd (release_then (or_symbol order) tok y w)" by simp
    then show ?thesis by simp
  next
    case inserted
    have none: "db_order (gw_db w) cid = None"
      using inserted(1) by (auto simp: get_order_by_client_id_def rbind_Inr_iff split: option.splits)
    have "insert_and_submit env order cid tok (w\<lparr>gw_db := sv_meanwhile env (gw_db w)\<rparr>) = (x, w')"
      using assms inserted(3) by simp
    from insert_and_submit_sent [OF this] none inserted(2) show ?thesis
      by (auto intro: keeps_trans)
  qed
  then show "gw_sent w' = gw_sent w \<or>
    \<not> sv_dry_run env \<and> \<not> fat_finger_breached env order \<and>
    db_order (gw_db w) cid = None \<and> db_order (sv_meanwhile env (gw_db w)) cid = None \<and>
    db_order (gw_db w') cid \<noteq> None \<and>
    (\<exists>b. sv_alpaca env = Some b \<and> gw_sent w' = gw_sent w @ [(cid, order, bk_submit b order cid)])"
    and "keeps (gw_db w) (sv_meanwhile env (gw_db w)) \<Longrightarrow> keeps (gw_db w) (gw_db w')"
    by blast+
qed

text \<open>A submission stops at a gate or the reservation, or runs with the reservation held.\<close>

lemma submit_order_cases:
  obtains (stopped) e where "submit_order env rv order w = (Inl e, w)"
    | (held) res r1 where "submit_gates env rv order (gw_redis w) = Inr ()"
      "submit_reserve env rv order w = Inr (res, r1)" "rr_success res"
      "\<bar>rr_new_position res\<bar> \<le> max_position_size (rc_position_limits (sv_risk_config env))"
      "submit_order env rv order w =
         submit_reserved env order (submit_order_id env order) (sv_token env) (w\<lparr>gw_redis := r1\<rparr>)"
proof (cases "submit_gates env rv order (gw_redis w)")
  case (Inl e)
  then show ?thesis by (intro stopped) (simp add: submit_order_def)
next
  case gates: (Inr u)
  show ?thesis
  proof (cases "submit_reserve env rv order w")
    case (Inl e)
    with gates show ?thesis by (intro stopped) (simp add: submit_order_def)
  next
    case res: (Inr p)
    obtain res r1 where p: "p = (res, r1)" by (cases p)
    note reserved = res [unfolded p]
    note reserve = reserved [unfolded submit_reserve_def]
    show ?thesis
    proof (cases "rr_success res")
      case False
      then have "r1 = gw_redis w" by (rule reserve_refused_unchanged [OF reserve])
      with False gates reserved show ?thesis by (intro stopped) (simp add: submit_order_def)
    next
      case True
      show ?thesis
        by (rule held [of res r1])
          (use True gates reserved reserve_granted [OF reserve True] in \<open>simp_all add: submit_order_def\<close>)
    qed
  qed
qed

section \<open>The gates: lemmas\<close>

lemma pending_order_qty_nonneg: "calculate_pending_order_qty os side = Inr q \<Longrightarrow> 0 \<le> q"
proof (induction os arbitrary: q)
  case (Cons bo os)
  then show ?case
    by (cases "map_option lower (b_side bo) = Some side") (force simp: rbind_Inr_iff split: if_splits)+
qed simp

definition reduces_position :: "order_request \<Rightarrow> rat \<Rightarrow> bool" where
  "reduces_position order q \<longleftrightarrow>
     0 < q \<and> lower (or_side order) = ''sell'' \<and> of_int (or_qty order) \<le> q \<or>
     q < 0 \<and> lower (or_side order) = ''buy'' \<and> of_int (or_qty order) \<le> - q"

lemma reduce_only_reduces:
  assumes "is_reduce_only_order order position open_orders = Inr True"
  obtains bp q where "position = Some bp" "bp_qty bp = Some q" "reduces_position order q"
proof -
  from assms obtain bp where bp: "position = Some bp"
    by (cases position) (simp_all add: is_reduce_only_order_def)
  from assms bp obtain q where q: "bp_qty bp = Some q"
    by (cases "bp_qty bp") (simp_all add: is_reduce_only_order_def dec_of_opt_def)
  have nz: "q \<noteq> 0" using assms by (auto simp: is_reduce_only_order_def bp q dec_of_opt_def)
  obtain ps pb where pend: "calculate_pending_order_qty open_orders ''sell'' = Inr ps"
    "calculate_pending_order_qty open_orders ''buy'' = Inr pb"
    using assms nz by (auto simp: is_reduce_only_order_def bp q dec_of_opt_def rbind_Inr_iff)
  have "reduces_position order q"
    using assms nz pending_order_qty_nonneg [OF pend(1)] pending_order_qty_nonneg [OF pend(2)]
    by (auto simp: is_reduce_only_order_def bp q pend dec_of_opt_def reduces_position_def split: if_splits)
  then show ?thesis using that bp q by blast
qed

text \<open>What the reconciliation gate lets through.\<close>

definition reconciliation_allows :: "submit_env \<Rightarrow> order_request \<Rightarrow> bool" where
  "reconciliation_allows env order \<longleftrightarrow>
     (\<exists>s. sv_reconciliation env = Some s \<and> (rs_override_active s \<or> is_startup_complete s)) \<or>
     (\<exists>b bp q. sv_alpaca env = Some b \<and> bk_position b (or_symbol order) = Inr (Some bp) \<and>
        bp_qty bp = Some q \<and> reduces_position order q)"

lemma reconciliation_gate:
  assumes "require_reconciliation_ready_or_reduce_only env order = Inr ()" "\<not> sv_dry_run env"
  shows "reconciliation_allows env order"
proof (cases "\<exists>s. sv_reconciliation env = Some s \<and> (rs_override_active s \<or> is_startup_complete s)")
  case True
  then show ?thesis by (auto simp: reconciliation_allows_def)
next
  case False
  then have no: "\<not> (case sv_reconciliation env of None \<Rightarrow> False | Some s \<Rightarrow> rs_override_active s)"
    "\<not> is_reconciliation_ready env"
    using assms(2) by (auto simp: is_reconciliation_ready_def split: option.splits)
  obtain b where b: "sv_alpaca env = Some b"
    using assms no by (cases "sv_alpaca env")
      (auto simp: require_reconciliation_ready_or_reduce_only_def)
  obtain p where p: "bk_position b (or_symbol order) = Inr p"
    using assms no b by (cases "bk_position b (or_symbol order)")
      (auto simp: require_reconciliation_ready_or_reduce_only_def)
  obtain os where "is_reduce_only_order order p os = Inr True"
    using assms(1) no
    by (auto simp: require_reconciliation_ready_or_reduce_only_def b p Let_def rbind_Inr_iff
        split: if_splits)
  then obtain bp q where "p = Some bp" "bp_qty bp = Some q" "reduces_position order q"
    by (rule reduce_only_reduces)
  then show ?thesis using b p by (auto simp: reconciliation_allows_def)
qed

lemma submit_gates_passed:
  assumes "submit_gates env rv order r = Inr ()" "\<not> sv_dry_run env"
  shows "\<not> needs_recovery rv" "ks_is_engaged r = Inr False" "breaker_is_tripped r = Inr False"
    "\<not> mget_truthy r (quarantine_key (sv_strategy_id env) (upper (or_symbol order)))"
    "\<not> mget_truthy r (quarantine_key ''*'' (upper (or_symbol order)))"
    "or_execution_style order \<noteq> ''twap''" "reconciliation_allows env order"
  using assms reconciliation_gate [of env order]
  by (auto simp: submit_gates_def needs_recovery_def check_quarantine_def rbind_Inr_iff split: if_splits)

section \<open>The reservation: lemmas\<close>

definition holds_token :: "redis \<Rightarrow> string \<Rightarrow> string \<Rightarrow> int \<Rightarrow> int \<Rightarrow> bool" where
  "holds_token r symbol token n delta \<longleftrightarrow>
     plain_symbol symbol \<and> reserved_of r symbol = Some (RJson (JInt (n + delta))) \<and>
     token_of r symbol token = Some (RJson (JInt delta))"

definition settled_at :: "redis \<Rightarrow> string \<Rightarrow> string \<Rightarrow> int \<Rightarrow> bool" where
  "settled_at r symbol token n \<longleftrightarrow>
     reserved_of r symbol = Some (RJson (JInt n)) \<and> token_of r symbol token = None"

lemma release_held:
  assumes "holds_token r symbol token n delta"
  obtains res r' where "release symbol token r = Inr (res, r')" "settled_at r' symbol token n"
  using assms release_script_found [of r symbol "n + delta" token delta]
  by (auto simp: holds_token_def settled_at_def release_def)

lemma confirm_held:
  assumes "holds_token r symbol token n delta"
  obtains res r' where "confirm symbol token r = Inr (res, r')" "settled_at r' symbol token (n + delta)"
  using assms confirm_script_found [of r symbol token "RJson (JInt delta)"]
  by (auto simp: holds_token_def settled_at_def confirm_def is_text_def)

lemma release_then_held:
  assumes "holds_token (gw_redis w) symbol token n delta"
  shows "fst (release_then symbol token x w) = x"
    and "settled_at (gw_redis (snd (release_then symbol token x w))) symbol token n"
proof -
  obtain res r' where "release symbol token (gw_redis w) = Inr (res, r')" "settled_at r' symbol token n"
    using assms by (rule release_held)
  then show "fst (release_then symbol token x w) = x"
    and "settled_at (gw_redis (snd (release_then symbol token x w))) symbol token n"
    by (simp_all add: release_then_def)
qed

lemma submit_failed_held:
  assumes "holds_token (gw_redis w) (or_symbol order) token n delta"
  shows "settled_at (gw_redis (snd (submit_failed env order cid token st em code w))) (or_symbol order) token n"
proof -
  obtain res r' where "release (or_symbol order) token (gw_redis w) = Inr (res, r')"
    "settled_at r' (or_symbol order) token n"
    using assms by (rule release_held)
  then show ?thesis by (auto simp: submit_failed_def split: prod.splits sum.splits)
qed

definition broker_accepts :: "submit_env \<Rightarrow> order_request \<Rightarrow> string \<Rightarrow> bool" where
  "broker_accepts env order cid \<longleftrightarrow>
     \<not> sv_dry_run env \<and>
     (case sv_alpaca env of
        None \<Rightarrow> False
      | Some b \<Rightarrow> (case bk_submit b order cid of BrokerAccepted bid \<Rightarrow> True | _ \<Rightarrow> False))"

lemma submit_to_broker_held:
  assumes "holds_token (gw_redis w) (or_symbol order) token n delta"
  shows "settled_at (gw_redis (snd (submit_to_broker env order cid token w))) (or_symbol order) token
    (if broker_accepts env order cid then n + delta else n)"
proof (cases "sv_dry_run env \<or> sv_alpaca env = None")
  case True
  then obtain x where "submit_to_broker env order cid token w = release_then (or_symbol order) token x w"
    "\<not> broker_accepts env order cid"
    by (cases "sv_dry_run env") (auto simp: submit_to_broker_def broker_accepts_def)
  then show ?thesis using release_then_held(2) [OF assms, of x] by simp
next
  case False
  then obtain b where b: "sv_alpaca env = Some b" and dry: "\<not> sv_dry_run env" by auto
  let ?w = "w\<lparr>gw_sent := gw_sent w @ [(cid, order, bk_submit b order cid)]\<rparr>"
  have held: "holds_token (gw_redis ?w) (or_symbol order) token n delta" using assms by simp
  show ?thesis
  proof (cases "bk_submit b order cid")
    case (BrokerAccepted bid)
    obtain res r' where "confirm (or_symbol order) token (gw_redis w) = Inr (res, r')"
      "settled_at r' (or_symbol order) token (n + delta)"
      using assms by (rule confirm_held)
    then show ?thesis
      using b dry by (simp add: submit_to_broker_def broker_accepts_def BrokerAccepted Let_def)
  qed (use submit_failed_held [OF held] release_then_held(2) [OF held] b dry in
      \<open>auto simp: submit_to_broker_def broker_accepts_def Let_def\<close>)
qed

lemma submit_reserved_held:
  assumes "holds_token (gw_redis w) (or_symbol order) token n delta"
    and "submit_reserved env order cid token w = (x, w')"
  shows "settled_at (gw_redis w') (or_symbol order) token
    (if \<exists>bid. gw_sent w' = gw_sent w @ [(cid, order, BrokerAccepted bid)] then n + delta else n)"
proof -
  have rel: ?thesis
    if "submit_reserved env order cid token w = release_then (or_symbol order) token y v"
      "gw_redis v = gw_redis w" "gw_sent v = gw_sent w" for y v
  proof -
    have "holds_token (gw_redis v) (or_symbol order) token n delta" using assms(1) that(2) by simp
    from release_then_held(2) [OF this, of y] have "settled_at (gw_redis w') (or_symbol order) token n"
      using assms(2) that(1) by simp
    moreover have "gw_sent w' = gw_sent w"
      using assms(2) that release_then_frame(2) [of "or_symbol order" token y v] by simp
    ultimately show ?thesis by simp
  qed
  consider (released) y v where
      "submit_reserved env order cid token w = release_then (or_symbol order) token y v"
      "gw_redis v = gw_redis w" "gw_sent v = gw_sent w"
    | (submitted) row z w1 where
      "submit_to_broker env order cid token (w\<lparr>gw_db := db_set_order cid row (sv_meanwhile env (gw_db w))\<rparr>) =
         (z, w1)" "w' = w1"
  proof (cases rule: submit_reserved_cases [of env order cid token w])
    case (refused y)
    then show ?thesis by (intro released) simp_all
  next
    case inserted
    let ?w = "w\<lparr>gw_db := sv_meanwhile env (gw_db w)\<rparr>"
    have eq: "submit_reserved env order cid token w = insert_and_submit env order cid token ?w"
      by (rule inserted(3))
    show ?thesis
    proof (rule create_order_cases [OF submit_status_ok(1) [of "sv_dry_run env"], where d = "gw_db ?w" and cid = cid
          and now = "sv_now env" and sid = "sv_strategy_id env" and q = "db_request order" and bid = None
          and em = None], goal_cases)
      case (1 r)
      then show ?thesis
        using eq by (intro released [of _ ?w]) (simp_all add: insert_and_submit_def)
    next
      case (2 row)
      note made = this
      obtain z w1 where sub: "submit_to_broker env order cid token
          (w\<lparr>gw_db := db_set_order cid row (sv_meanwhile env (gw_db w))\<rparr>) = (z, w1)"
        by (metis prod.exhaust)
      have "insert_and_submit env order cid token ?w = (x, w')" using assms(2) eq by simp
      then have "w' = w1"
        using made sub by (auto simp: insert_and_submit_def split: sum.splits option.splits)
      with sub show ?thesis by (rule submitted)
    qed
  qed
  then show ?thesis
  proof cases
    case (released y v)
    then show ?thesis by (rule rel)
  next
    case (submitted row z w1)
    let ?v = "w\<lparr>gw_db := db_set_order cid row (sv_meanwhile env (gw_db w))\<rparr>"
    have "holds_token (gw_redis ?v) (or_symbol order) token n delta" using assms(1) by simp
    from submit_to_broker_held [OF this, of env cid]
    have settled: "settled_at (gw_redis w') (or_symbol order) token
        (if broker_accepts env order cid then n + delta else n)"
      using submitted by simp
    have "gw_sent w' = (if sv_dry_run env then gw_sent w else case sv_alpaca env of None \<Rightarrow> gw_sent w
        | Some b \<Rightarrow> gw_sent w @ [(cid, order, bk_submit b order cid)])"
      using submit_to_broker_sent [of env order cid token ?v] submitted by (cases "sv_alpaca env") simp_all
    then have "(\<exists>bid. gw_sent w' = gw_sent w @ [(cid, order, BrokerAccepted bid)]) =
        broker_accepts env order cid"
      by (auto simp: broker_accepts_def split: option.splits broker_reply.splits)
    with settled show ?thesis by simp
  qed
qed

lemma submit_reserve_holds:
  assumes "submit_reserve env rv order w = Inr (res, r1)" "rr_success res"
    and "reserved_of (gw_redis w) (or_symbol order) = Some (RJson (JInt n))"
    and "plain_symbol (or_symbol order)" "\<forall>ttl. rv_position_reservation rv = Some ttl \<longrightarrow> 0 < ttl"
  shows "holds_token r1 (or_symbol order) (sv_token env) n (side_delta (or_side order) (or_qty order))"
proof -
  let ?ttl = "case rv_position_reservation rv of Some ttl \<Rightarrow> ttl | None \<Rightarrow> DEFAULT_RESERVATION_TTL"
  let ?lim = "max_position_size (rc_position_limits (sv_risk_config env))"
  let ?delta = "side_delta (or_side order) (or_qty order)"
  have ttl: "0 < ?ttl" using assms(5) by (auto simp: DEFAULT_RESERVATION_TTL_def split: option.splits)
  have lim: "\<bar>n + ?delta\<bar> \<le> ?lim"
  proof (rule ccontr)
    assume "\<not> \<bar>n + ?delta\<bar> \<le> ?lim"
    then show False
      using assms(1,2) reserve_script_refused [OF assms(3), where delta = ?delta and max_limit = ?lim]
      by (auto simp: submit_reserve_def reserve_def)
  qed
  show ?thesis
    using assms(1,2,4) reserve_script_reserved [OF assms(3,4) ttl lim, of "sv_token env"
        "get_position_by_symbol (or_symbol order) (gw_db w)"]
    by (auto simp: submit_reserve_def reserve_def holds_token_def)
qed

section \<open>Retries: lemmas\<close>

lemma update_order_status_payload:
  assumes "db_order d cid = Some r"
  shows "\<exists>r'. db_order (snd (update_order_status now cid st bid q p e d)) cid = Some r' \<and>
    idempotency_payload_matches order r' sid = idempotency_payload_matches order r sid"
  using assms
  by (auto simp: update_order_status_def update_order_where_def Let_def idempotency_payload_matches_def
      split: option.splits)

lemma submit_to_broker_Inr:
  assumes "submit_to_broker env order cid tok w = (Inr bid, w')"
  shows "gw_db w' = gw_db w \<or>
    gw_db w' = snd (update_order_status (sv_now env) cid ''pending_new'' bid None None None (gw_db w))"
proof (cases "sv_dry_run env \<or> sv_alpaca env = None")
  case True
  then obtain x where "submit_to_broker env order cid tok w = release_then (or_symbol order) tok x w"
    by (cases "sv_dry_run env") (auto simp: submit_to_broker_def)
  with assms have "release_then (or_symbol order) tok x w = (Inr bid, w')" by simp
  then show ?thesis
    using release_then_frame(1) [of "or_symbol order" tok x w] by simp
next
  case False
  then obtain b where b: "sv_alpaca env = Some b" "\<not> sv_dry_run env" by auto
  have no: "submit_failed env order cid tok st em code v \<noteq> (Inr bid, w')" for st em code v
    using submit_failed_Inl [of env order cid tok st em code v] by auto
  have nr: "release_then symb tok (Inl e) v \<noteq> (Inr bid, w')" for symb e and v :: gateway
    using release_then_Inr [of symb tok "Inl e" v bid] by auto
  note sub = assms [unfolded submit_to_broker_def Let_def]
  show ?thesis
  proof (cases "bk_submit b order cid")
    case (BrokerAccepted k)
    show ?thesis
    proof (cases "confirm (or_symbol order) tok (gw_redis w)")
      case (Inl e)
      then show ?thesis using sub b BrokerAccepted no by (cases e) simp_all
    next
      case (Inr p)
      then show ?thesis using sub b BrokerAccepted by (cases p) auto
    qed
  qed (use sub b no nr in simp_all)
qed

lemma new_order_row_matches:
  assumes "new_order_row now cid (sv_strategy_id env) (db_request order) st bid em row"
    "or_execution_style order = ''instant''"
  shows "idempotency_payload_matches order row (sv_strategy_id env)"
  using assms by (simp add: new_order_row_def idempotency_payload_matches_def db_request_def)

lemma insert_and_submit_answered:
  assumes "insert_and_submit env order cid tok w = (Inr resp, w')" "or_execution_style order = ''instant''"
  shows "answered_by env order cid (gw_db w')"
proof (rule create_order_cases [OF submit_status_ok(1) [of "sv_dry_run env"], where d = "gw_db w" and cid = cid
      and now = "sv_now env" and sid = "sv_strategy_id env" and q = "db_request order" and bid = None
      and em = None], goal_cases)
  case (1 r)
  let ?x = "case get_order_by_client_id cid (gw_db w) of
               Inl e \<Rightarrow> Inl e
             | Inr None \<Rightarrow> Inl (IntegrityError cid)
             | Inr (Some existing) \<Rightarrow>
                 answer_existing env order cid existing ''Order already exists (concurrent retry)''"
  have rel: "release_then (or_symbol order) tok ?x w = (Inr resp, w')"
    using 1 assms(1) by (simp add: insert_and_submit_def)
  then have "?x = Inr resp" using release_then_Inr [of "or_symbol order" tok ?x w resp] by simp
  then have "answered_by env order cid (gw_db w)"
    by (auto simp: answered_by_def answer_existing_Inr split: sum.splits option.splits)
  moreover have "gw_db w' = gw_db w"
    using rel release_then_frame(1) [of "or_symbol order" tok ?x w] by simp
  ultimately show ?case by simp
next
  case (2 row)
  let ?d = "db_set_order cid row (gw_db w)"
  obtain bid where sub: "submit_to_broker env order cid tok (w\<lparr>gw_db := ?d\<rparr>) = (Inr bid, w')"
    and final: "\<exists>r. get_order_by_client_id cid (gw_db w') = Inr (Some r)"
    using 2 assms(1)
    by (auto simp: insert_and_submit_def split: prod.splits sum.splits option.splits)
  have "\<exists>r'. db_order (gw_db w') cid = Some r' \<and> idempotency_payload_matches order r' (sv_strategy_id env)"
    using submit_to_broker_Inr [OF sub] new_order_row_matches [OF 2(3) assms(2)]
      update_order_status_payload [of ?d cid row "sv_now env" "''pending_new''" bid None None None order
        "sv_strategy_id env"] by auto
  with final show ?case
    by (auto simp: answered_by_def get_order_by_client_id_def rbind_Inr_iff order_detail_def
        split: if_splits)
qed

lemma submit_order_answered:
  assumes "submit_order env rv order w = (Inr resp, w')" "or_execution_style order = ''instant''"
  shows "answered_by env order (submit_order_id env order) (gw_db w')"
proof (cases rule: submit_order_cases [of env rv order w])
  case (stopped e)
  with assms show ?thesis by simp
next
  case (held res r1)
  let ?cid = "submit_order_id env order"
  let ?w = "w\<lparr>gw_redis := r1\<rparr>"
  have run: "submit_reserved env order ?cid (sv_token env) ?w = (Inr resp, w')"
    using assms(1) held(5) by simp
  show ?thesis
  proof (cases rule: submit_reserved_cases [of env order ?cid "sv_token env" ?w])
    case (refused y)
    have rel: "release_then (or_symbol order) (sv_token env) y ?w = (Inr resp, w')"
      using run refused(1) by simp
    then have "y = Inr resp" using release_then_Inr [of "or_symbol order" "sv_token env" y ?w resp] by simp
    then show ?thesis
      using refused(2) rel release_then_frame(1) [of "or_symbol order" "sv_token env" y ?w] by simp
  next
    case inserted
    then have "insert_and_submit env order ?cid (sv_token env)
        (?w\<lparr>gw_db := sv_meanwhile env (gw_db ?w)\<rparr>) = (Inr resp, w')"
      using run by simp
    then show ?thesis by (rule insert_and_submit_answered [OF _ assms(2)])
  qed
qed

section \<open>Properties\<close>

text \<open>C2. Nothing reaches the broker past a closed gate: when a submission calls the broker, it is no dry
  run, the safety components are available, the kill switch is not engaged, the breaker is not
  tripped, the symbol is not quarantined, reconciliation is complete or overridden or the order
  reduces the position the broker reports, the fat-finger checks pass, the reserved position is
  within the limit, the identifier had no row before and has one afterwards, and the call is made
  exactly once.\<close>

theorem broker_called_past_gates:
  assumes "submit_order env rv order w = (x, w')" "gw_sent w' \<noteq> gw_sent w"
  shows "\<not> sv_dry_run env \<and> \<not> needs_recovery rv \<and>
     ks_is_engaged (gw_redis w) = Inr False \<and> breaker_is_tripped (gw_redis w) = Inr False \<and>
     \<not> mget_truthy (gw_redis w) (quarantine_key (sv_strategy_id env) (upper (or_symbol order))) \<and>
     \<not> mget_truthy (gw_redis w) (quarantine_key ''*'' (upper (or_symbol order))) \<and>
     reconciliation_allows env order \<and> \<not> fat_finger_breached env order \<and>
     (\<exists>res r1. submit_reserve env rv order w = Inr (res, r1) \<and> rr_success res \<and>
        \<bar>rr_new_position res\<bar> \<le> max_position_size (rc_position_limits (sv_risk_config env))) \<and>
     db_order (gw_db w) (submit_order_id env order) = None \<and>
     db_order (gw_db w') (submit_order_id env order) \<noteq> None \<and>
     (\<exists>b. sv_alpaca env = Some b \<and> gw_sent w' =
        gw_sent w @ [(submit_order_id env order, order, bk_submit b order (submit_order_id env order))])"
proof (cases rule: submit_order_cases [of env rv order w])
  case (stopped e)
  with assms show ?thesis by simp
next
  case (held res r1)
  have "submit_reserved env order (submit_order_id env order) (sv_token env) (w\<lparr>gw_redis := r1\<rparr>) = (x, w')"
    using assms(1) held(5) by simp
  note sent = submit_reserved_sent(1) [OF this]
  then have live: "\<not> sv_dry_run env" using assms(2) by simp
  show ?thesis
    using sent assms(2) held(2-4) submit_gates_passed [OF held(1) live] by simp
qed

text \<open>C3. Reservations are accounted for on every path: whatever a submission answers, with whatever error,
  its token is gone afterwards and the reserved position has moved by the order's quantity exactly
  when the broker accepted the order, and is what it was otherwise.\<close>

theorem submission_accounts_reservation:
  assumes "submit_order env rv order w = (x, w')"
    and "settled_at (gw_redis w) (or_symbol order) (sv_token env) n"
    and "plain_symbol (or_symbol order)" "\<forall>ttl. rv_position_reservation rv = Some ttl \<longrightarrow> 0 < ttl"
  shows "settled_at (gw_redis w') (or_symbol order) (sv_token env)
     (if \<exists>bid. gw_sent w' = gw_sent w @ [(submit_order_id env order, order, BrokerAccepted bid)]
      then n + side_delta (or_side order) (or_qty order) else n)"
proof (cases rule: submit_order_cases [of env rv order w])
  case (stopped e)
  with assms show ?thesis by simp
next
  case (held res r1)
  have "reserved_of (gw_redis w) (or_symbol order) = Some (RJson (JInt n))"
    using assms(2) by (simp add: settled_at_def)
  from submit_reserve_holds [OF held(2,3) this assms(3,4)]
  have "holds_token (gw_redis (w\<lparr>gw_redis := r1\<rparr>)) (or_symbol order) (sv_token env) n
      (side_delta (or_side order) (or_qty order))" by simp
  from submit_reserved_held [OF this, of env "submit_order_id env order" x w'] show ?thesis
    using assms(1) held(5) by simp
qed

text \<open>C4. Retrying is safe: once a submission has been answered with success, submitting the order again
  under the same identifier and strategy, past the gates and the reservation, answers with success
  and the same identifier from the stored order, calls the broker for nothing, writes nothing to the
  database and leaves the reserved position as it was.\<close>

theorem resubmission_is_idempotent:
  assumes "submit_order env rv order w = (Inr resp, w1)" "or_execution_style order = ''instant''"
    and "gw_db w2 = gw_db w1" "submit_order_id env' order = submit_order_id env order"
      "sv_strategy_id env' = sv_strategy_id env"
    and "submit_gates env' rv' order (gw_redis w2) = Inr ()"
      "submit_reserve env' rv' order w2 = Inr (res, r2)" "rr_success res"
    and "settled_at (gw_redis w2) (or_symbol order) (sv_token env') n" "plain_symbol (or_symbol order)"
      "\<forall>ttl. rv_position_reservation rv' = Some ttl \<longrightarrow> 0 < ttl"
  shows "\<exists>resp' w3. submit_order env' rv' order w2 = (Inr resp', w3) \<and>
     os_client_order_id resp' = submit_order_id env order \<and>
     gw_sent w3 = gw_sent w2 \<and> gw_db w3 = gw_db w2 \<and>
     settled_at (gw_redis w3) (or_symbol order) (sv_token env') n"
proof -
  let ?cid = "submit_order_id env order"
  let ?w = "w2\<lparr>gw_redis := r2\<rparr>"
  obtain row where row: "get_order_by_client_id ?cid (gw_db ?w) = Inr (Some row)"
    and m: "idempotency_payload_matches order row (sv_strategy_id env')"
    using submit_order_answered [OF assms(1,2)] assms(3,5) by (auto simp: answered_by_def)
  have tok: "rr_token res = Some (sv_token env')"
    using assms(7,8) reserve_granted(1) unfolding submit_reserve_def by blast
  let ?y = "answer_existing env' order ?cid row ''Order already exists (idempotent retry)''"
  have eq: "submit_order env' rv' order w2 = release_then (or_symbol order) (sv_token env') ?y ?w"
    using assms(4,6-8) tok row by (simp add: submit_order_def submit_reserved_def)
  have "holds_token (gw_redis ?w) (or_symbol order) (sv_token env') n (side_delta (or_side order) (or_qty order))"
    using submit_reserve_holds [OF assms(7,8) _ assms(10,11)] assms(9) by (simp add: settled_at_def)
  note rel = release_then_held [OF this, of ?y]
  obtain z w3 where z: "release_then (or_symbol order) (sv_token env') ?y ?w = (z, w3)"
    by (metis prod.exhaust)
  have "?y = Inr (existing_response ?cid row ''Order already exists (idempotent retry)'')"
    using m by (simp add: answer_existing_def)
  then show ?thesis
    using rel z eq release_then_frame [of "or_symbol order" "sv_token env'" ?y ?w]
    by (simp add: existing_response_def)
qed

section \<open>Witnesses\<close>

text \<open>A quiet system: everything initialised, five shares of AAPL reserved, a broker that accepts.\<close>

definition demo_redis :: redis where
  "demo_redis = redis_put (reservation_key ''AAPL'') (RJson (JInt 5)) (ks_init initialised_redis)"

definition demo_gateway :: gateway where
  "demo_gateway = \<lparr>gw_redis = demo_redis, gw_db = empty_db, gw_sent = [],
     gw_replaced = [], gw_canceled = []\<rparr>"

definition demo_recovery :: recovery_state where
  "demo_recovery =
     \<lparr>rv_kill_switch = True, rv_circuit_breaker = True, rv_position_reservation = Some 60,
      rv_slice_scheduler = None, rv_kill_switch_unavailable = False,
      rv_circuit_breaker_unavailable = False, rv_position_reservation_unavailable = False\<rparr>"

definition demo_broker :: "broker_reply \<Rightarrow> broker" where
  "demo_broker reply =
     \<lparr>bk_position = (\<lambda>_. Inr None), bk_open_orders = (\<lambda>_. Inr []), bk_submit = (\<lambda>_ _. reply),
      bk_replace = (\<lambda>_ _ _. Inl (AlpacaRejectionError [])), bk_cancel = (\<lambda>_. Inr True)\<rparr>"

definition demo_env :: "broker_reply \<Rightarrow> string \<Rightarrow> submit_env" where
  "demo_env reply token =
     \<lparr>sv_strategy_id = ''alpha'', sv_dry_run = False, sv_max_price_age_seconds = 300,
      sv_risk_config = default_risk_config, sv_validator = ff_init no_thresholds [],
      sv_redis = True, sv_reconciliation = Some (snd (mark_startup_complete 0 False None None (recon_state_init False 300 0))), sv_alpaca = Some (demo_broker reply),
      sv_fetch = (\<lambda>_. (None, None)), sv_get_adv = None,
      sv_today = \<lparr>d_year = 2025, d_month = 1, d_day = 2\<rparr>, sv_now = 100, sv_token = token,
      sv_meanwhile = (\<lambda>d. d)\<rparr>"

definition demo_submission :: order_request where
  "demo_submission = (demo_order 10 (Some 150))\<lparr>or_client_order_id := Some ''o1''\<rparr>"

definition demo_run :: "broker_reply \<Rightarrow> string \<Rightarrow> gateway \<Rightarrow> order_response result \<times> gateway" where
  "demo_run reply token = submit_order (demo_env reply token) demo_recovery demo_submission"

lemma demo_log:
  "map (snd \<circ> snd) (gw_sent (snd (demo_run (BrokerAccepted (Some ''b1'')) ''t1'' demo_gateway))) =
     [BrokerAccepted (Some ''b1'')]"
  "map (snd \<circ> snd) (gw_sent (snd (demo_run (BrokerRejectionError ''halted'') ''t1'' demo_gateway))) =
     [BrokerRejectionError ''halted'']"
  "map_sum id os_status (fst (demo_run (BrokerAccepted (Some ''b1'')) ''t1'' demo_gateway)) = Inr ''pending_new''"
  by code_simp+

lemma demo_settled: "settled_at demo_redis ''AAPL'' t 5"
  by (simp add: settled_at_def demo_redis_def view_defs token_key_def reservation_key_def reservation_prefix_def
      ks_init_def ks_initialize_state_def initialised_redis_def breaker_initialize_state_def
      breaker_initialize_state_internal_def ks_state_key_def breaker_state_key_def)
    (simp add: empty_redis_def redis_get_def)

lemma demo_order_fields [simp]:
  "or_symbol demo_submission = ''AAPL''" "or_execution_style demo_submission = ''instant''"
  "or_side demo_submission = ''buy''" "or_qty demo_submission = 10"
  "submit_order_id (demo_env reply t) demo_submission = ''o1''"
  "sv_token (demo_env reply t) = t" "sv_strategy_id (demo_env reply t) = ''alpha''"
  by (simp_all add: demo_submission_def demo_order_def submit_order_id_def demo_env_def)

lemma demo_side_conditions:
  "plain_symbol ''AAPL''" "\<forall>ttl. rv_position_reservation demo_recovery = Some ttl \<longrightarrow> 0 < ttl"
  by (simp_all add: plain_symbol_def demo_recovery_def)

theorem broker_called_past_gates_witness:
  "db_order (gw_db (snd (demo_run (BrokerAccepted (Some ''b1'')) ''t1'' demo_gateway))) ''o1'' \<noteq> None"
proof -
  obtain x w' where run: "demo_run (BrokerAccepted (Some ''b1'')) ''t1'' demo_gateway = (x, w')"
    by (metis prod.exhaust)
  have "gw_sent w' \<noteq> gw_sent demo_gateway"
    using demo_log(1) run by (auto simp: demo_gateway_def)
  from broker_called_past_gates [OF run [unfolded demo_run_def] this] show ?thesis
    by (simp add: run)
qed

theorem submission_accounts_reservation_witness:
  "settled_at (gw_redis (snd (demo_run (BrokerRejectionError ''halted'') ''t1'' demo_gateway))) ''AAPL'' ''t1'' 5"
proof -
  obtain x w' where run: "demo_run (BrokerRejectionError ''halted'') ''t1'' demo_gateway = (x, w')"
    by (metis prod.exhaust)
  have no: "\<nexists>bid. gw_sent w' = gw_sent demo_gateway @ [(''o1'', demo_submission, BrokerAccepted bid)]"
    using demo_log(2) run by (auto simp: demo_gateway_def)
  have "settled_at (gw_redis demo_gateway) ''AAPL'' ''t1'' 5"
    by (simp add: demo_gateway_def demo_settled)
  with submission_accounts_reservation [OF run [unfolded demo_run_def], of 5] no demo_side_conditions
  show ?thesis by (simp add: run)
qed

lemma demo_retry_passes:
  "submit_gates (demo_env (BrokerAccepted (Some ''b2'')) ''t2'') demo_recovery demo_submission
     (gw_redis (snd (demo_run (BrokerAccepted (Some ''b1'')) ''t1'' demo_gateway))) = Inr ()"
  "map_sum id (rr_success \<circ> fst) (submit_reserve (demo_env (BrokerAccepted (Some ''b2'')) ''t2'')
     demo_recovery demo_submission (snd (demo_run (BrokerAccepted (Some ''b1'')) ''t1'' demo_gateway))) = Inr True"
  "redis_get (gw_redis (snd (demo_run (BrokerAccepted (Some ''b1'')) ''t1'' demo_gateway)))
     (token_key (reservation_key ''AAPL'') ''t2'') = None"
  "redis_get (gw_redis (snd (demo_run (BrokerAccepted (Some ''b1'')) ''t1'' demo_gateway)))
     (reservation_key ''AAPL'') = Some (RJson (JInt 15))"
  by code_simp+

theorem resubmission_is_idempotent_witness:
  "length (gw_sent (snd (demo_run (BrokerAccepted (Some ''b2'')) ''t2''
     (snd (demo_run (BrokerAccepted (Some ''b1'')) ''t1'' demo_gateway))))) = 1"
proof -
  obtain x w1 where run: "demo_run (BrokerAccepted (Some ''b1'')) ''t1'' demo_gateway = (x, w1)"
    by (metis prod.exhaust)
  obtain resp where x: "x = Inr resp"
    using demo_log(3) run by (cases x) auto
  have log: "map (snd \<circ> snd) (gw_sent w1) = [BrokerAccepted (Some ''b1'')]"
    using demo_log(1) run by simp
  obtain res r2 where res: "submit_reserve (demo_env (BrokerAccepted (Some ''b2'')) ''t2'') demo_recovery
      demo_submission w1 = Inr (res, r2)" "rr_success res"
    using demo_retry_passes(2) run
    by (cases "submit_reserve (demo_env (BrokerAccepted (Some ''b2'')) ''t2'') demo_recovery demo_submission w1") auto
  have "settled_at (gw_redis w1) ''AAPL'' ''t2'' 15"
    using demo_retry_passes(3,4) run by (simp add: settled_at_def view_defs)
  moreover have "submit_gates (demo_env (BrokerAccepted (Some ''b2'')) ''t2'') demo_recovery demo_submission
      (gw_redis w1) = Inr ()"
    using demo_retry_passes(1) run by simp
  ultimately obtain w3 where
    "\<exists>resp'. submit_order (demo_env (BrokerAccepted (Some ''b2'')) ''t2'') demo_recovery demo_submission w1 =
        (Inr resp', w3)" "gw_sent w3 = gw_sent w1"
    using resubmission_is_idempotent [OF run [unfolded demo_run_def x] _ refl _ _ _ res, of 15] demo_side_conditions
    by auto
  then show ?thesis
    using log run by (auto simp: demo_run_def dest: arg_cong [of _ _ length])
qed

text \<open>
  A connection error after which the broker may hold the order: the row is failed and terminal, the
  reservation is released, and the same order submitted again on the day is answered from that row
  and never sent.  At the limit, a retry is refused before the stored order is looked up.
\<close>

lemma connection_error_is_final:
  "map_option (\<lambda>r. (o_status r, o_is_terminal r)) (db_order (gw_db (snd
      (demo_run (BrokerConnectionError ''read timeout'') ''t1'' demo_gateway))) ''o1'') = Some (''failed'', True)"
  "redis_get (gw_redis (snd (demo_run (BrokerConnectionError ''read timeout'') ''t1'' demo_gateway)))
      (reservation_key ''AAPL'') = Some (RJson (JInt 5))"
  "map_sum id os_status (fst (demo_run (BrokerAccepted (Some ''b1'')) ''t2''
      (snd (demo_run (BrokerConnectionError ''read timeout'') ''t1'' demo_gateway)))) = Inr ''failed''"
  "length (gw_sent (snd (demo_run (BrokerAccepted (Some ''b1'')) ''t2''
      (snd (demo_run (BrokerConnectionError ''read timeout'') ''t1'' demo_gateway))))) = 1"
  by code_simp+

lemma retry_at_the_limit_is_refused:
  "map_sum (\<lambda>e. case e of HTTPException n m \<Rightarrow> n | _ \<Rightarrow> 0) os_status
     (fst (demo_run (BrokerAccepted (Some ''b1'')) ''t2'' (snd (demo_run (BrokerAccepted (Some ''b1'')) ''t1''
        (demo_gateway\<lparr>gw_redis := redis_put (reservation_key ''AAPL'') (RJson (JInt 985)) demo_redis\<rparr>)))))
   = Inl 422"
  by code_simp

section \<open>The broker client under the endpoint\<close>

text \<open>The calls that change orders, answered by the client on a server in state \<open>s\<close>.\<close>

definition client_broker :: "'s alpaca_api \<Rightarrow> 's \<Rightarrow> broker \<Rightarrow> broker" where
  "client_broker api s b = b
     \<lparr>bk_submit := (\<lambda>order cid. reply_of (fst (alpaca_submit_order api order cid s))),
      bk_replace := (\<lambda>bid m cid. fst (alpaca_replace_order api bid (mr_qty m) (mr_limit_price m)
                       (mr_stop_price m) (mr_time_in_force m) (Some cid) s)),
      bk_cancel := (\<lambda>bid. fst (alpaca_cancel_order api bid s))\<rparr>"

text \<open>
  The broker takes the order, its answer is lost, and the client's own retry is refused as a
  duplicate: the endpoint answers 422, the row is rejected and terminal and the reservation is
  released, while the order is in the broker's book.
\<close>

lemma accepted_order_marked_rejected:
  "let (x, w') = submit_order ((demo_env (BrokerOtherError []) ''t1'')
         \<lparr>sv_alpaca := Some (client_broker (demo_api []) ([], 1) (demo_broker (BrokerOtherError [])))\<rparr>)
         demo_recovery demo_submission demo_gateway
   in (map_sum (\<lambda>e. case e of HTTPException n m \<Rightarrow> n | _ \<Rightarrow> 0) os_status x,
       map_option (\<lambda>r. (o_status r, o_is_terminal r)) (db_order (gw_db w') ''o1''),
       redis_get (gw_redis w') (reservation_key ''AAPL'')) =
     (Inl 422, Some (''rejected'', True), Some (RJson (JInt 5)))"
  "fst (snd (alpaca_submit_order (demo_api []) demo_submission ''o1'' ([], 1))) = [''o1'']"
  by code_simp+

end
