(* ===== verification/Modify_Order.thy ===== *)
theory Modify_Order
  imports Submit_Order
begin

text \<open>
  The other order endpoints of \<^verbatim>\<open>apps/execution_gateway/routes/orders.py\<close>: \<open>modify_order\<close> with its
  three phases (a pending record under the row's lock, the broker's atomic replace, the final
  records), \<open>cancel_order\<close>, \<open>get_order\<close> and the history of modifications.  The state is that of
  \<open>Submit_Order\<close>; the identifier the database makes for a modification and whether another
  transaction holds the order's row are arguments.  The lookup of a position does not fail here.
\<close>

section \<open>Authorisation\<close>

text \<open>\<open>ac_strategies\<close> is \<open>None\<close> when there is no user or the strategies are not a list.\<close>

record auth_context =
  ac_internal_token :: bool
  ac_is_authenticated :: bool
  ac_strategies :: "json list option"
  ac_user_id :: "string option"

fun sanitize_strategies :: "string list \<Rightarrow> json list \<Rightarrow> string list" where
  "sanitize_strategies seen [] = []"
| "sanitize_strategies seen (JStr s # xs) =
     (let t = strip s in
      if t = [] \<or> t \<in> set seen then sanitize_strategies seen xs
      else t # sanitize_strategies (t # seen) xs)"
| "sanitize_strategies seen (_ # xs) = sanitize_strategies seen xs"

definition get_authorized_strategies :: "auth_context \<Rightarrow> string list" where
  "get_authorized_strategies a =
     (case ac_strategies a of None \<Rightarrow> [] | Some xs \<Rightarrow> sanitize_strategies [] xs)"

definition ensure_strategy_access :: "string \<Rightarrow> auth_context \<Rightarrow> unit result" where
  "ensure_strategy_access strategy_id a =
     (if ac_internal_token a then Inr ()
      else if \<not> ac_is_authenticated a then Inr ()
      else if lower strategy_id \<in> set (map lower (get_authorized_strategies a)) then Inr ()
      else Inl (HTTPException 403 ''Not authorized''))"

definition extract_user_id_from_auth :: "auth_context \<Rightarrow> string" where
  "extract_user_id_from_auth a = (case ac_user_id a of None \<Rightarrow> ''unknown'' | Some u \<Rightarrow> u)"

section \<open>Changes\<close>

definition MODIFIABLE_STATUSES :: "string list" where
  "MODIFIABLE_STATUSES = [''pending_new'', ''new'', ''accepted'', ''partially_filled'']"

definition generate_replacement_order_id :: "string \<Rightarrow> int \<Rightarrow> string" where
  "generate_replacement_order_id original_client_order_id modification_seq =
     take 24 (sha256_hexdigest (original_client_order_id @ '':mod:'' @ show_int modification_seq))"

text \<open>A field that is given and differs from the order's.\<close>

definition differs :: "'a option \<Rightarrow> 'a option \<Rightarrow> bool" where
  "differs new old \<longleftrightarrow> new \<noteq> None \<and> new \<noteq> old"

definition compute_modification_changes :: "order_row \<Rightarrow> order_modify_request \<Rightarrow> mod_changes" where
  "compute_modification_changes order payload =
     \<lparr>mc_qty = (if differs (mr_qty payload) (Some (o_qty order)) then mr_qty payload else None),
      mc_limit_price = (if differs (mr_limit_price payload) (o_limit_price order)
                        then Some (mr_limit_price payload) else None),
      mc_stop_price = (if differs (mr_stop_price payload) (o_stop_price order)
                       then Some (mr_stop_price payload) else None),
      mc_time_in_force = (if differs (mr_time_in_force payload) (Some (o_time_in_force order))
                          then mr_time_in_force payload else None)\<rparr>"

definition no_changes :: mod_changes where
  "no_changes = \<lparr>mc_qty = None, mc_limit_price = None, mc_stop_price = None, mc_time_in_force = None\<rparr>"

definition validate_modify_fields :: "order_row \<Rightarrow> order_modify_request \<Rightarrow> unit result" where
  "validate_modify_fields order payload =
     (let stop_price = or_none (mr_stop_price payload) (o_stop_price order);
          limit_price = or_none (mr_limit_price payload) (o_limit_price order) in
      if mr_limit_price payload \<noteq> None \<and> o_order_type order \<notin> {''limit'', ''stop_limit''} \<or>
         mr_stop_price payload \<noteq> None \<and> o_order_type order \<notin> {''stop'', ''stop_limit''} \<or>
         o_order_type order = ''stop_limit'' \<and>
           (case (stop_price, limit_price) of
              (Some s, Some l) \<Rightarrow> o_side order = ''buy'' \<and> l < s \<or> o_side order = ''sell'' \<and> l > s
            | _ \<Rightarrow> False)
      then Inl (HTTPException 422 ''invalid modification'') else Inr ())"

section \<open>Idempotency\<close>

record modify_response =
  mo_original_client_order_id :: string
  mo_new_client_order_id :: string
  mo_modification_id :: string
  mo_modified_at :: rat
  mo_status :: string
  mo_changes :: mod_changes

definition MODIFICATION_STATUSES :: "string list" where
  "MODIFICATION_STATUSES = [''pending'', ''completed'', ''failed'', ''submitted_unconfirmed'']"

text \<open>The answer with its HTTP status, \<open>None\<close> when there is no record of the key.\<close>

definition handle_idempotent_modification_response ::
  "modification_row option \<Rightarrow> (nat \<times> modify_response) option result" where
  "handle_idempotent_modification_response existing =
     (case existing of
        None \<Rightarrow> Inr None
      | Some m \<Rightarrow>
          let status_value = (if md_status m = [] then ''pending'' else md_status m);
              response = \<lparr>mo_original_client_order_id = md_original_client_order_id m,
                mo_new_client_order_id = md_new_client_order_id m, mo_modification_id = md_id m,
                mo_modified_at = md_modified_at m,
                mo_status = (if status_value \<in> set MODIFICATION_STATUSES then status_value else ''pending''),
                mo_changes = md_changes m\<rparr>
          in if status_value = ''completed'' then Inr (Some (200, response))
             else if status_value \<in> {''pending'', ''submitted_unconfirmed''} then Inr (Some (202, response))
             else Inl (HTTPException 409
               (opt_or_text (md_error_message m) ''Previous modification failed'')))"

section \<open>The gates\<close>

definition signed_by_side :: "string \<Rightarrow> int \<Rightarrow> int" where
  "signed_by_side side q = (if side = ''buy'' then q else - q)"

definition is_strictly_risk_reducing :: "order_row \<Rightarrow> order_modify_request \<Rightarrow> db \<Rightarrow> bool" where
  "is_strictly_risk_reducing order payload d =
     (if o_execution_style order = Some ''twap'' \<or> o_parent_order_id order \<noteq> None then False
      else case mr_qty payload of
        None \<Rightarrow> False
      | Some q \<Rightarrow>
          if differs (mr_limit_price payload) (o_limit_price order) then False
          else if differs (mr_stop_price payload) (o_stop_price order) then False
          else if differs (mr_time_in_force payload) (Some (o_time_in_force order)) then False
          else
            let current_qty = get_position_by_symbol (o_symbol order) d
            in \<bar>current_qty + signed_by_side (o_side order) q\<bar> <
               \<bar>current_qty + signed_by_side (o_side order) (o_qty order)\<bar>)"

definition check_modify_safety_gates ::
  "recovery_state \<Rightarrow> order_row \<Rightarrow> order_modify_request \<Rightarrow> gateway \<Rightarrow> unit result" where
  "check_modify_safety_gates rv order payload w =
     (if rv_kill_switch_unavailable rv \<or> \<not> rv_kill_switch rv
      then Inl (HTTPException 503 ''Kill-switch state unavailable (fail-closed)'')
      else if rv_circuit_breaker_unavailable rv \<or> \<not> rv_circuit_breaker rv
      then Inl (HTTPException 503 ''Circuit-breaker state unavailable (fail-closed)'')
      else rbind (ks_is_engaged (gw_redis w)) (\<lambda>engaged.
        rbind (if engaged then Inr True else breaker_is_tripped (gw_redis w)) (\<lambda>safety_event.
          if safety_event \<and> \<not> is_strictly_risk_reducing order payload (gw_db w)
          then Inl (HTTPException 503 ''Order modifications blocked'')
          else Inr ())))"

definition check_order_modification_eligibility :: "order_row \<Rightarrow> unit result" where
  "check_order_modification_eligibility order =
     (if o_status order \<notin> set MODIFIABLE_STATUSES
      then Inl (HTTPException 400 ''Order cannot be modified in this status'')
      else if o_broker_order_id order = None
      then Inl (HTTPException 400 ''Order cannot be modified yet - awaiting broker acknowledgment.'')
      else if o_execution_style order = Some ''twap'' \<or> o_parent_order_id order \<noteq> None \<or>
              o_total_slices order \<noteq> None
      then Inl (HTTPException 400 ''TWAP orders cannot be modified. Cancel and resubmit instead.'')
      else Inr ())"

text \<open>\<open>int(order.filled_qty)\<close> truncates.\<close>

definition validate_modify_position_limits ::
  "submit_env \<Rightarrow> order_row \<Rightarrow> order_modify_request \<Rightarrow> db \<Rightarrow> unit result" where
  "validate_modify_position_limits env order payload d =
     (case mr_qty payload of
        None \<Rightarrow> Inr ()
      | Some q \<Rightarrow>
          if q \<le> o_qty order then Inr ()
          else
            let current_position = get_position_by_symbol (o_symbol order) d;
                filled_qty = py_int (o_filled_qty order);
                proposed = current_position + signed_by_side (o_side order) (q - filled_qty)
            in if \<bar>proposed\<bar> > max_position_size (rc_position_limits (sv_risk_config env))
               then Inl (HTTPException 422 ''Qty increase would exceed position limits.'')
               else Inr ())"

definition build_replacement_request :: "order_row \<Rightarrow> order_modify_request \<Rightarrow> order_request" where
  "build_replacement_request order payload =
     \<lparr>or_symbol = upper (o_symbol order), or_side = o_side order,
      or_qty = (case mr_qty payload of Some q \<Rightarrow> q | None \<Rightarrow> o_qty order),
      or_order_type = o_order_type order,
      or_limit_price = or_none (mr_limit_price payload) (o_limit_price order),
      or_stop_price = or_none (mr_stop_price payload) (o_stop_price order),
      or_time_in_force = (case mr_time_in_force payload of Some t \<Rightarrow> t | None \<Rightarrow> o_time_in_force order),
      or_execution_style = opt_or_text (o_execution_style order) ''instant'',
      or_client_order_id = None\<rparr>"

definition exposure_increasing :: "order_row \<Rightarrow> order_modify_request \<Rightarrow> bool" where
  "exposure_increasing order payload \<longleftrightarrow>
     (case mr_qty payload of Some q \<Rightarrow> q > o_qty order | None \<Rightarrow> False) \<or>
     (case (mr_limit_price payload, o_limit_price order) of
        (Some new, Some old) \<Rightarrow>
          o_side order = ''buy'' \<and> new > old \<or> o_side order = ''sell'' \<and> new < old
      | _ \<Rightarrow> False) \<or>
     (case mr_stop_price payload of
        None \<Rightarrow> False
      | Some new \<Rightarrow>
          (case o_stop_price order of
             None \<Rightarrow> True
           | Some old \<Rightarrow> if o_side order = ''sell'' then new < old else new > old))"

definition validate_modify_fat_finger :: "submit_env \<Rightarrow> order_row \<Rightarrow> order_modify_request \<Rightarrow> unit result" where
  "validate_modify_fat_finger env order payload =
     (if \<not> exposure_increasing order payload then Inr ()
      else
        let request = build_replacement_request order payload in
        if \<not> order_request_ok (db_request request) then Inl (ValueError ''validation error for OrderRequest'')
        else
          let thresholds = get_effective_thresholds (o_symbol order) (sv_validator env);
              (price, adv) = resolve_fat_finger_context (sv_fetch env) (sv_get_adv env) (sv_now env)
                 (sv_max_price_age_seconds env) request thresholds
          in if fr_breached (validate (sv_validator env) (o_symbol order) (or_qty request) price adv
                  (Some thresholds))
             then Inl (HTTPException 422 ''Modification would breach fat-finger limits'')
             else Inr ())"

section \<open>The three phases\<close>

text \<open>
  Phase 1.  The transaction that finds the row locked is aborted by the database: the lookup of the
  key that follows in it fails, and with it the request.
\<close>

datatype phase1 = Replayed "nat \<times> modify_response" | Acquired string string

definition acquire_modification_lock ::
  "rat \<Rightarrow> bool \<Rightarrow> string \<Rightarrow> auth_context \<Rightarrow> string \<Rightarrow> order_row \<Rightarrow> order_modify_request \<Rightarrow> mod_changes \<Rightarrow>
   db \<Rightarrow> phase1 result \<times> db" where
  "acquire_modification_lock now locked mid a cid order payload changes d =
     (case handle_idempotent_modification_response
         (get_modification_by_idempotency_key cid (mr_idempotency_key payload) d) of
        Inl e \<Rightarrow> (Inl e, d)
      | Inr (Some r) \<Rightarrow> (Inr (Replayed r), d)
      | Inr None \<Rightarrow>
          (case get_next_modification_seq locked cid d of
             None \<Rightarrow> (Inl (DatabaseError ''current transaction is aborted''), d)
           | Some modification_seq \<Rightarrow>
               let new_id = generate_replacement_order_id cid modification_seq;
                   row = \<lparr>md_id = mid, md_original_broker_order_id = o_broker_order_id order,
                     md_modification_seq = modification_seq,
                     md_idempotency_key = mr_idempotency_key payload,
                     md_modified_by = extract_user_id_from_auth a, md_reason = mr_reason payload,
                     md_original_client_order_id = cid, md_new_client_order_id = new_id,
                     md_new_broker_order_id = None, md_status = ''pending'', md_error_message = None,
                     md_modified_at = now, md_changes = changes\<rparr>
               in (case insert_pending_modification row d of
                     (Inl e, d1) \<Rightarrow> (Inl e, d1)
                   | (Inr m, d1) \<Rightarrow> (Inr (Acquired m new_id), d1))))"

text \<open>The reservation of the additional quantity; \<open>None\<close> when there is none.\<close>

definition reserve_modify_delta ::
  "submit_env \<Rightarrow> recovery_state \<Rightarrow> order_row \<Rightarrow> order_modify_request \<Rightarrow> gateway \<Rightarrow>
   string option result \<times> gateway" where
  "reserve_modify_delta env rv order payload w =
     (case mr_qty payload of
        None \<Rightarrow> (Inr None, w)
      | Some q \<Rightarrow>
          if q \<le> o_qty order then (Inr None, w)
          else if rv_position_reservation_unavailable rv \<or> rv_position_reservation rv = None
          then (Inl (HTTPException 503 ''Position-reservation state unavailable (fail-closed)''), w)
          else
            (case reserve (case rv_position_reservation rv of Some ttl \<Rightarrow> ttl | None \<Rightarrow> DEFAULT_RESERVATION_TTL)
                (sv_token env) (o_symbol order) (o_side order) (q - o_qty order)
                (max_position_size (rc_position_limits (sv_risk_config env)))
                (get_position_by_symbol (o_symbol order) (gw_db w)) (gw_redis w) of
               Inl e \<Rightarrow> (Inl e, w)
             | Inr (res, r1) \<Rightarrow>
                 if \<not> rr_success res \<or> rr_token res = None
                 then (Inl (HTTPException 422 ''Position limit exceeded''), w\<lparr>gw_redis := r1\<rparr>)
                 else (Inr (rr_token res), w\<lparr>gw_redis := r1\<rparr>)))"

definition fail_modification :: "rat \<Rightarrow> string \<Rightarrow> string \<Rightarrow> py_error \<Rightarrow> gateway \<Rightarrow> 'a result \<times> gateway" where
  "fail_modification now mid msg e w =
     (Inl e, w\<lparr>gw_db := update_modification_status now mid ''failed'' (Some msg) (gw_db w)\<rparr>)"

text \<open>The handler of a refused replacement: release, mark the record, HTTP error.\<close>

definition replace_refused ::
  "submit_env \<Rightarrow> recovery_state \<Rightarrow> order_row \<Rightarrow> string \<Rightarrow> string option \<Rightarrow> string \<Rightarrow> nat \<Rightarrow> gateway \<Rightarrow>
   broker_order result \<times> gateway" where
  "replace_refused env rv order mid token msg code w =
     (case token of
        Some t \<Rightarrow>
          if t \<noteq> [] \<and> rv_position_reservation rv \<noteq> None
          then (case release (o_symbol order) t (gw_redis w) of
             Inl e \<Rightarrow> (Inl e, w)
           | Inr (_, r') \<Rightarrow>
               fail_modification (sv_now env) mid msg (HTTPException code msg) (w\<lparr>gw_redis := r'\<rparr>))
          else fail_modification (sv_now env) mid msg (HTTPException code msg) w
      | None \<Rightarrow> fail_modification (sv_now env) mid msg (HTTPException code msg) w)"

definition call_broker_replace ::
  "submit_env \<Rightarrow> recovery_state \<Rightarrow> broker \<Rightarrow> order_row \<Rightarrow> order_modify_request \<Rightarrow> string \<Rightarrow> string \<Rightarrow>
   string option \<Rightarrow> gateway \<Rightarrow> broker_order result \<times> gateway" where
  "call_broker_replace env rv b order payload new_id mid token w =
     (case o_broker_order_id order of
        None \<Rightarrow> (Inl (RuntimeError ''Order must have broker_order_id''), w)
      | Some bid \<Rightarrow>
          let reply = bk_replace b bid payload new_id;
              w1 = w\<lparr>gw_replaced := gw_replaced w @ [(bid, payload, new_id, reply)]\<rparr>
          in (case reply of
                Inl (AlpacaRejectionError m) \<Rightarrow> replace_refused env rv order mid token m 422 w1
              | Inl (AlpacaValidationError m) \<Rightarrow> replace_refused env rv order mid token m 400 w1
              | Inl (AlpacaConnectionError m) \<Rightarrow> replace_refused env rv order mid token m 503 w1
              | Inl (AlpacaClientError m) \<Rightarrow> (Inl (RuntimeError m), w1)
              | Inl (UncaughtError m) \<Rightarrow> (Inl (RuntimeError m), w1)
              | Inr bo \<Rightarrow>
                  (case token of
                     Some t \<Rightarrow>
                       if t \<noteq> [] \<and> rv_position_reservation rv \<noteq> None
                       then (case confirm (o_symbol order) t (gw_redis w1) of
                          Inl e \<Rightarrow> (Inl e, w1)
                        | Inr (_, r') \<Rightarrow> (Inr bo, w1\<lparr>gw_redis := r'\<rparr>))
                       else (Inr bo, w1)
                   | None \<Rightarrow> (Inr bo, w1))))"

text \<open>Phase 3.  An error rolls the transaction back; the record is then marked outside it.\<close>

definition finalize_records ::
  "rat \<Rightarrow> string \<Rightarrow> order_row \<Rightarrow> string \<Rightarrow> broker_order \<Rightarrow> string \<Rightarrow> db_order_request \<Rightarrow> db \<Rightarrow>
   unit result \<times> db" where
  "finalize_records now cid order mid bo new_id q d =
     (let d1 = finalize_modification now mid (b_id bo) ''completed'' (Some new_id) d;
          (x, d2) = update_order_status_simple_with_conn now cid ''replaced'' d1
      in (case x of
            Inl e \<Rightarrow> (Inl e, d)
          | Inr _ \<Rightarrow>
              (case insert_replacement_order now new_id cid (o_strategy_id order) q
                  (opt_or_text (b_status bo) ''pending_new'') (b_id bo) d2 of
                 (Inl e, _) \<Rightarrow> (Inl e, d)
               | (Inr _, d3) \<Rightarrow> (Inr (), d3))))"

definition finalize_modification_in_db ::
  "rat \<Rightarrow> string \<Rightarrow> order_row \<Rightarrow> string \<Rightarrow> broker_order \<Rightarrow> string \<Rightarrow> db_order_request \<Rightarrow> db \<Rightarrow>
   unit result \<times> db" where
  "finalize_modification_in_db now cid order mid bo new_id q d =
     (case finalize_records now cid order mid bo new_id q d of
        (Inr u, d') \<Rightarrow> (Inr u, d')
      | (Inl e, d') \<Rightarrow>
          (Inl (HTTPException 500 ''Order replacement accepted by broker but failed to persist. Reconciliation required.''),
           update_modification_status now mid ''submitted_unconfirmed'' (Some ''db_finalize_failed'') d'))"

section \<open>The endpoints\<close>

text \<open>The checks of a modification that is not a retry.\<close>

definition modify_gates ::
  "submit_env \<Rightarrow> recovery_state \<Rightarrow> order_row \<Rightarrow> order_modify_request \<Rightarrow> gateway \<Rightarrow> unit result" where
  "modify_gates env rv order payload w =
     rbind (check_modify_safety_gates rv order payload w) (\<lambda>_.
     rbind (check_order_modification_eligibility order) (\<lambda>_.
     rbind (validate_modify_fields order payload) (\<lambda>_.
       if (case mr_qty payload of Some q \<Rightarrow> o_filled_qty order > of_int q | None \<Rightarrow> False)
       then Inl (HTTPException 422 ''Cannot reduce qty below filled quantity'')
       else if compute_modification_changes order payload = no_changes
       then Inl (HTTPException 400 ''No changes detected for modification'')
       else rbind (validate_modify_position_limits env order payload (gw_db w)) (\<lambda>_.
            validate_modify_fat_finger env order payload))))"

text \<open>What \<open>modify_order\<close> does before it touches anything: a retry is answered from its record.\<close>

definition modify_checks ::
  "submit_env \<Rightarrow> recovery_state \<Rightarrow> auth_context \<Rightarrow> string \<Rightarrow> order_modify_request \<Rightarrow> gateway \<Rightarrow>
   ((nat \<times> modify_response) + order_row) result" where
  "modify_checks env rv a cid payload w =
     rbind (get_order_by_client_id cid (gw_db w)) (\<lambda>found.
       case found of
         None \<Rightarrow> Inl (HTTPException 404 ''Order not found'')
       | Some order \<Rightarrow>
           rbind (ensure_strategy_access (o_strategy_id order) a) (\<lambda>_.
           rbind (handle_idempotent_modification_response
               (get_modification_by_idempotency_key cid (mr_idempotency_key payload) (gw_db w))) (\<lambda>replay.
             case replay of
               Some r \<Rightarrow> Inr (Inl r)
             | None \<Rightarrow> rbind (modify_gates env rv order payload w) (\<lambda>_. Inr (Inr order)))))"

text \<open>Phases 2 and 3, with the record \<open>mid\<close> pending.\<close>

definition modify_acquired ::
  "submit_env \<Rightarrow> recovery_state \<Rightarrow> string \<Rightarrow> order_row \<Rightarrow> order_modify_request \<Rightarrow> string \<Rightarrow> string \<Rightarrow>
   gateway \<Rightarrow> (nat \<times> modify_response) result \<times> gateway" where
  "modify_acquired env rv cid order payload mid new_id w =
     (case sv_alpaca env of
        None \<Rightarrow> fail_modification (sv_now env) mid ''broker_unavailable''
          (HTTPException 503 ''Alpaca client not initialized. Check credentials.'') w
      | Some b \<Rightarrow>
          (case reserve_modify_delta env rv order payload w of
             (Inl (HTTPException code msg), w1) \<Rightarrow>
               fail_modification (sv_now env) mid msg (HTTPException code msg) w1
           | (Inl e, w1) \<Rightarrow> (Inl e, w1)
           | (Inr token, w1) \<Rightarrow>
               let q = db_request (build_replacement_request order payload) in
               if \<not> order_request_ok q then (Inl (ValueError ''validation error for OrderRequest''), w1)
               else
                 (case call_broker_replace env rv b order payload new_id mid token w1 of
                    (Inl e, w2) \<Rightarrow> (Inl e, w2)
                  | (Inr bo, w2) \<Rightarrow>
                      let broker_cid = opt_or_text (b_client_order_id bo) new_id in
                      (case finalize_modification_in_db (sv_now env) cid order mid bo broker_cid q (gw_db w2) of
                         (Inl e, d3) \<Rightarrow> (Inl e, w2\<lparr>gw_db := d3\<rparr>)
                       | (Inr _, d3) \<Rightarrow>
                           (Inr (200, \<lparr>mo_original_client_order_id = cid, mo_new_client_order_id = broker_cid,
                              mo_modification_id = mid, mo_modified_at = sv_now env,
                              mo_status = ''completed'',
                              mo_changes = compute_modification_changes order payload\<rparr>),
                            w2\<lparr>gw_db := d3\<rparr>)))))"

definition modify_order ::
  "submit_env \<Rightarrow> recovery_state \<Rightarrow> auth_context \<Rightarrow> string \<Rightarrow> bool \<Rightarrow> string \<Rightarrow> order_modify_request \<Rightarrow>
   gateway \<Rightarrow> (nat \<times> modify_response) result \<times> gateway" where
  "modify_order env rv a mid locked cid payload w =
     (case modify_checks env rv a cid payload w of
        Inl e \<Rightarrow> (Inl e, w)
      | Inr (Inl r) \<Rightarrow> (Inr r, w)
      | Inr (Inr order) \<Rightarrow>
          (case acquire_modification_lock (sv_now env) locked mid a cid order payload
              (compute_modification_changes order payload) (gw_db w) of
             (Inl e, d1) \<Rightarrow> (Inl e, w\<lparr>gw_db := d1\<rparr>)
           | (Inr (Replayed r), d1) \<Rightarrow> (Inr r, w\<lparr>gw_db := d1\<rparr>)
           | (Inr (Acquired m new_id), d1) \<Rightarrow>
               modify_acquired env rv cid order payload m new_id (w\<lparr>gw_db := d1\<rparr>)))"

definition get_order :: "auth_context \<Rightarrow> string \<Rightarrow> db \<Rightarrow> order_row result" where
  "get_order a cid d =
     rbind (get_order_by_client_id cid d) (\<lambda>found.
       case found of
         None \<Rightarrow> Inl (HTTPException 404 ''Order not found'')
       | Some order \<Rightarrow> rbind (ensure_strategy_access (o_strategy_id order) a) (\<lambda>_. Inr order))"

definition get_modification_history :: "auth_context \<Rightarrow> string \<Rightarrow> db \<Rightarrow> modification_row list result" where
  "get_modification_history a cid d =
     rbind (get_order_by_client_id cid d) (\<lambda>found.
       case found of
         None \<Rightarrow> Inl (HTTPException 404 ''Order not found'')
       | Some order \<Rightarrow> rbind (ensure_strategy_access (o_strategy_id order) a) (\<lambda>_.
           Inr (get_modifications_for_order cid d)))"

text \<open>The answer is the order's status and a message; an empty broker identifier is not sent.\<close>

definition cancel_update :: "submit_env \<Rightarrow> string \<Rightarrow> order_row \<Rightarrow> cas_update" where
  "cancel_update env cid order =
     \<lparr>c_client_order_id = cid, c_status = ''canceled'', c_broker_updated_at = sv_now env,
      c_status_rank = status_rank_for ''canceled'', c_source_priority = SOURCE_PRIORITY_MANUAL,
      c_filled_qty = Some (o_filled_qty order), c_filled_avg_price = o_filled_avg_price order,
      c_filled_at = o_filled_at order, c_broker_order_id = o_broker_order_id order,
      c_broker_event_id = None, c_error_message = None\<rparr>"

definition cancel_at_broker :: "submit_env \<Rightarrow> order_row \<Rightarrow> gateway \<Rightarrow> unit result \<times> gateway" where
  "cancel_at_broker env order w =
     (if sv_dry_run env then (Inr (), w)
      else case sv_alpaca env of
        None \<Rightarrow> (Inl (HTTPException 503 ''Alpaca client not initialized. Check credentials.''), w)
      | Some b \<Rightarrow>
          (case o_broker_order_id order of
             None \<Rightarrow> (Inr (), w)
           | Some bid \<Rightarrow>
               if bid = [] then (Inr (), w)
               else let reply = bk_cancel b bid;
                        w1 = w\<lparr>gw_canceled := gw_canceled w @ [(bid, reply)]\<rparr>
                    in (case reply of Inl e \<Rightarrow> (Inl (RuntimeError ''cancel failed''), w1)
                        | Inr _ \<Rightarrow> (Inr (), w1))))"

definition cancel_order ::
  "submit_env \<Rightarrow> auth_context \<Rightarrow> string \<Rightarrow> gateway \<Rightarrow> (string \<times> string) result \<times> gateway" where
  "cancel_order env a cid w =
     (case get_order a cid (gw_db w) of
        Inl e \<Rightarrow> (Inl e, w)
      | Inr order \<Rightarrow>
          if o_status order \<in> set TERMINAL_STATUSES
          then (Inr (o_status order, ''Order already in terminal state''), w)
          else (case cancel_at_broker env order w of
             (Inl e, w1) \<Rightarrow> (Inl e, w1)
           | (Inr _, w1) \<Rightarrow>
               (case update_order_status_cas (sv_now env) (cancel_update env cid order) (gw_db w1) of
                  (Inl e, d2) \<Rightarrow> (Inl e, w1\<lparr>gw_db := d2\<rparr>)
                | (Inr row, d2) \<Rightarrow>
                    (Inr (case row of Some r \<Rightarrow> o_status r | None \<Rightarrow> ''canceled'', ''Order canceled''),
                     w1\<lparr>gw_db := d2\<rparr>))))"

section \<open>The endpoints: lemmas\<close>

lemma get_order_by_client_id_row:
  "get_order_by_client_id cid d = Inr (Some row) \<Longrightarrow> db_order d cid = Some row \<and> o_status row \<in> set ORDER_STATUSES"
  by (auto simp: get_order_by_client_id_def order_detail_def rbind_Inr_iff split: option.splits if_splits)

lemma fail_modification_frame [simp]:
  "gw_replaced (snd (fail_modification now mid msg e w)) = gw_replaced w"
  "fst (fail_modification now mid msg e w) = Inl e"
  by (simp_all add: fail_modification_def)

lemma reserve_modify_delta_frame:
  "reserve_modify_delta env rv order payload w = (x, w1) \<Longrightarrow>
   gw_replaced w1 = gw_replaced w \<and> gw_db w1 = gw_db w"
  by (auto simp: reserve_modify_delta_def split: option.splits if_splits sum.splits prod.splits)

lemma replace_refused_frame [simp]:
  "gw_replaced (snd (replace_refused env rv order mid tok msg code w)) = gw_replaced w"
  "\<exists>e. fst (replace_refused env rv order mid tok msg code w) = Inl e"
  by (auto simp: replace_refused_def split: option.splits sum.splits prod.splits)

lemma call_broker_replace_log:
  assumes "o_broker_order_id order = Some bid"
  shows "gw_replaced (snd (call_broker_replace env rv b order payload new_id mid tok w)) =
    gw_replaced w @ [(bid, payload, new_id, bk_replace b bid payload new_id)]"
proof (cases "bk_replace b bid payload new_id")
  case (Inl e)
  then show ?thesis by (cases e) (simp_all add: call_broker_replace_def assms)
next
  case (Inr bo)
  then show ?thesis
    by (simp add: call_broker_replace_def assms Let_def split: option.splits sum.splits prod.splits)
qed

lemma call_broker_replace_Inr:
  assumes "call_broker_replace env rv b order payload new_id mid tok w = (Inr bo, w')"
  shows "\<exists>bid. o_broker_order_id order = Some bid \<and> bk_replace b bid payload new_id = Inr bo" "gw_db w' = gw_db w"
proof -
  obtain bid where bid: "o_broker_order_id order = Some bid"
    using assms by (cases "o_broker_order_id order") (simp_all add: call_broker_replace_def)
  have "bk_replace b bid payload new_id = Inr bo \<and> gw_db w' = gw_db w"
  proof (cases "bk_replace b bid payload new_id")
    case (Inl e)
    then have "\<exists>e'. fst (call_broker_replace env rv b order payload new_id mid tok w) = Inl e'"
      by (cases e) (simp_all add: call_broker_replace_def bid Let_def)
    with assms show ?thesis by simp
  next
    case (Inr bo')
    then show ?thesis
      using assms bid
      by (auto simp: call_broker_replace_def Let_def split: option.splits sum.splits prod.splits if_splits)
  qed
  with bid show "\<exists>bid. o_broker_order_id order = Some bid \<and> bk_replace b bid payload new_id = Inr bo"
    and "gw_db w' = gw_db w" by auto
qed

lemma modify_gates_Inr:
  assumes "modify_gates env rv order payload w = Inr u"
  shows "check_modify_safety_gates rv order payload w = Inr ()"
    "check_order_modification_eligibility order = Inr ()"
    "validate_modify_fields order payload = Inr ()"
    "\<And>q. mr_qty payload = Some q \<Longrightarrow> o_filled_qty order \<le> of_int q"
    "compute_modification_changes order payload \<noteq> no_changes"
    "validate_modify_position_limits env order payload (gw_db w) = Inr ()"
    "validate_modify_fat_finger env order payload = Inr ()"
  using assms by (auto simp: modify_gates_def rbind_Inr_iff split: option.splits if_splits)

lemma idempotent_None [simp]: "handle_idempotent_modification_response None = Inr None"
  by (simp add: handle_idempotent_modification_response_def)

lemma idempotent_Inr_None [simp]: "handle_idempotent_modification_response x = Inr None \<longleftrightarrow> x = None"
  by (auto simp: handle_idempotent_modification_response_def Let_def split: option.splits if_splits)

lemma modify_checks_cases:
  assumes "modify_checks env rv a cid payload w = Inr y"
  obtains (replay) order m r where "get_order_by_client_id cid (gw_db w) = Inr (Some order)"
      "ensure_strategy_access (o_strategy_id order) a = Inr ()"
      "get_modification_by_idempotency_key cid (mr_idempotency_key payload) (gw_db w) = Some m"
      "handle_idempotent_modification_response (Some m) = Inr (Some r)" "y = Inl r"
    | (fresh) order where "get_order_by_client_id cid (gw_db w) = Inr (Some order)"
      "ensure_strategy_access (o_strategy_id order) a = Inr ()"
      "get_modification_by_idempotency_key cid (mr_idempotency_key payload) (gw_db w) = None"
      "modify_gates env rv order payload w = Inr ()" "y = Inr order"
proof -
  let ?rec = "get_modification_by_idempotency_key cid (mr_idempotency_key payload) (gw_db w)"
  obtain found where found: "get_order_by_client_id cid (gw_db w) = Inr found"
    using assms by (auto simp: modify_checks_def rbind_Inr_iff)
  obtain order where order: "found = Some order"
    using assms found by (cases found) (simp_all add: modify_checks_def)
  obtain u where access: "ensure_strategy_access (o_strategy_id order) a = Inr u"
    using assms found order by (auto simp: modify_checks_def rbind_Inr_iff)
  obtain z where answer: "handle_idempotent_modification_response ?rec = Inr z"
    using assms found order access by (auto simp: modify_checks_def rbind_Inr_iff)
  show ?thesis
  proof (cases z)
    case None
    with answer have rec: "?rec = None" by simp
    have "rbind (modify_gates env rv order payload w) (\<lambda>_. Inr (Inr order)) = Inr y"
      using assms found order access rec by (simp add: modify_checks_def)
    then show ?thesis
      using fresh [of order] found order access rec by (auto simp: rbind_Inr_iff)
  next
    case (Some r)
    then obtain m where m: "?rec = Some m" using answer by (cases ?rec) auto
    have y: "y = Inl r" using assms found order access answer Some by (simp add: modify_checks_def)
    then show ?thesis
      using Some m answer found order access by (intro replay [of order m r]) (simp_all add: y)
  qed
qed

definition pending_row ::
  "rat \<Rightarrow> string \<Rightarrow> auth_context \<Rightarrow> string \<Rightarrow> order_row \<Rightarrow> order_modify_request \<Rightarrow> int \<Rightarrow> modification_row" where
  "pending_row now mid a cid order payload modification_seq =
     \<lparr>md_id = mid, md_original_broker_order_id = o_broker_order_id order,
      md_modification_seq = modification_seq, md_idempotency_key = mr_idempotency_key payload,
      md_modified_by = extract_user_id_from_auth a, md_reason = mr_reason payload,
      md_original_client_order_id = cid,
      md_new_client_order_id = generate_replacement_order_id cid modification_seq,
      md_new_broker_order_id = None, md_status = ''pending'', md_error_message = None,
      md_modified_at = now, md_changes = compute_modification_changes order payload\<rparr>"

lemma acquire_cases:
  assumes "get_modification_by_idempotency_key cid (mr_idempotency_key payload) d = None"
  obtains (refused) e where "acquire_modification_lock now locked mid a cid order payload
        (compute_modification_changes order payload) d = (Inl e, d)"
    | (acquired) sq where "get_next_modification_seq locked cid d = Some sq"
      "acquire_modification_lock now locked mid a cid order payload
         (compute_modification_changes order payload) d =
         (Inr (Acquired mid (generate_replacement_order_id cid sq)),
          d\<lparr>db_modifications := db_modifications d @ [pending_row now mid a cid order payload sq]\<rparr>)"
      "\<forall>m \<in> set (db_modifications d). md_id m \<noteq> mid"
proof (cases "get_next_modification_seq locked cid d")
  case None
  then show ?thesis
    by (intro refused) (simp add: acquire_modification_lock_def assms handle_idempotent_modification_response_def)
next
  case (Some sq)
  show ?thesis
  proof (cases "insert_pending_modification (pending_row now mid a cid order payload sq) d")
    case (Pair y d1)
    show ?thesis
    proof (cases y)
      case (Inl e)
      then have "d1 = d" using Pair by (auto simp: insert_pending_modification_def split: if_splits)
      then show ?thesis
        using Pair Inl Some assms
        by (intro refused [of e])
          (simp add: acquire_modification_lock_def handle_idempotent_modification_response_def
            pending_row_def Let_def)
    next
      case (Inr m)
      then have d1: "m = mid" "d1 = d\<lparr>db_modifications := db_modifications d @ [pending_row now mid a cid order payload sq]\<rparr>"
        "\<forall>m \<in> set (db_modifications d). md_id m \<noteq> mid"
        using Pair by (auto simp: insert_pending_modification_def pending_row_def split: if_splits)
      show ?thesis
        using Pair Inr Some assms d1
        by (intro acquired [of sq])
          (simp_all add: acquire_modification_lock_def handle_idempotent_modification_response_def
            pending_row_def Let_def)
    qed
  qed
qed

text \<open>A modification is answered from a record, stops before the broker, or gets past phase 1.\<close>

lemma modify_order_cases:
  obtains (stopped) e where "modify_order env rv a mid locked cid payload w = (Inl e, w)"
    | (replayed) r where "modify_checks env rv a cid payload w = Inr (Inl r)"
      "modify_order env rv a mid locked cid payload w = (Inr r, w)"
    | (acquired) order sq where "modify_checks env rv a cid payload w = Inr (Inr order)"
      "\<forall>m \<in> set (db_modifications (gw_db w)). md_id m \<noteq> mid"
      "get_next_modification_seq locked cid (gw_db w) = Some sq"
      "modify_order env rv a mid locked cid payload w =
         modify_acquired env rv cid order payload mid (generate_replacement_order_id cid sq)
           (w\<lparr>gw_db := (gw_db w)\<lparr>db_modifications :=
               db_modifications (gw_db w) @ [pending_row (sv_now env) mid a cid order payload sq]\<rparr>\<rparr>)"
proof (cases "modify_checks env rv a cid payload w")
  case (Inl e)
  then show ?thesis by (intro stopped) (simp add: modify_order_def)
next
  case (Inr y)
  show ?thesis
  proof (cases y)
    case (Inl r)
    with Inr show ?thesis by (intro replayed) (simp_all add: modify_order_def)
  next
    case order: (Inr order)
    note checks = Inr [unfolded order]
    have fresh: "get_modification_by_idempotency_key cid (mr_idempotency_key payload) (gw_db w) = None"
      using checks by (cases rule: modify_checks_cases) simp_all
    show ?thesis
    proof (cases rule: acquire_cases [OF fresh, of "sv_now env" locked mid a order])
      case (1 e)
      then show ?thesis by (intro stopped) (simp add: modify_order_def checks)
    next
      case (2 sq)
      then show ?thesis by (intro acquired [OF checks]) (simp_all add: modify_order_def checks)
    qed
  qed
qed

lemma modify_acquired_log:
  assumes run: "modify_acquired env rv cid order payload mid new_id w = (x, w')"
    and called: "gw_replaced w' \<noteq> gw_replaced w" and bid: "o_broker_order_id order = Some bid"
  shows "\<exists>b tok w1. sv_alpaca env = Some b \<and> reserve_modify_delta env rv order payload w = (Inr tok, w1) \<and>
    gw_replaced w' = gw_replaced w @ [(bid, payload, new_id, bk_replace b bid payload new_id)]"
proof -
  obtain b where b: "sv_alpaca env = Some b"
    using run called by (cases "sv_alpaca env") (auto simp: modify_acquired_def fail_modification_def)
  obtain y w1 where res: "reserve_modify_delta env rv order payload w = (y, w1)" by (metis prod.exhaust)
  note frame = reserve_modify_delta_frame [OF res]
  show ?thesis
  proof (cases y)
    case (Inl e)
    then have "gw_replaced w' = gw_replaced w"
      using run b res frame by (cases e) (auto simp: modify_acquired_def fail_modification_def)
    with called show ?thesis by simp
  next
    case (Inr tok)
    let ?q = "db_request (build_replacement_request order payload)"
    obtain z w2 where call: "call_broker_replace env rv b order payload new_id mid tok w1 = (z, w2)"
      by (metis prod.exhaust)
    have log: "gw_replaced w2 = gw_replaced w @ [(bid, payload, new_id, bk_replace b bid payload new_id)]"
      using call_broker_replace_log [OF bid, of env rv b payload new_id mid tok w1] call frame by simp
    have ok: "order_request_ok ?q"
      using run b res Inr frame called by (auto simp: modify_acquired_def Let_def split: if_splits)
    have "gw_replaced w' = gw_replaced w2"
      using run b res Inr call ok
      by (auto simp: modify_acquired_def Let_def split: sum.splits prod.splits)
    with b res Inr log show ?thesis by simp
  qed
qed

lemma eligible:
  assumes "check_order_modification_eligibility order = Inr ()"
  shows "o_status order \<in> set MODIFIABLE_STATUSES" "\<exists>bid. o_broker_order_id order = Some bid"
    "o_execution_style order \<noteq> Some ''twap''" "o_parent_order_id order = None" "o_total_slices order = None"
  using assms by (auto simp: check_order_modification_eligibility_def split: if_splits)

text \<open>A request that reaches the broker's replace has passed the checks on a record of its own.\<close>

lemma modify_order_called:
  assumes run: "modify_order env rv a mid locked cid payload w = (x, w')"
    and called: "gw_replaced w' \<noteq> gw_replaced w"
  obtains order bid b sq tok w1 where "get_order_by_client_id cid (gw_db w) = Inr (Some order)"
    "ensure_strategy_access (o_strategy_id order) a = Inr ()"
    "get_modification_by_idempotency_key cid (mr_idempotency_key payload) (gw_db w) = None"
    "modify_gates env rv order payload w = Inr ()" "o_broker_order_id order = Some bid"
    "sv_alpaca env = Some b" "get_next_modification_seq locked cid (gw_db w) = Some sq"
    "reserve_modify_delta env rv order payload
       (w\<lparr>gw_db := (gw_db w)\<lparr>db_modifications :=
           db_modifications (gw_db w) @ [pending_row (sv_now env) mid a cid order payload sq]\<rparr>\<rparr>) = (Inr tok, w1)"
    "gw_replaced w' = gw_replaced w @ [(bid, payload, generate_replacement_order_id cid sq,
        bk_replace b bid payload (generate_replacement_order_id cid sq))]"
proof (cases rule: modify_order_cases [of env rv a mid locked cid payload w])
  case (stopped e)
  with run called show ?thesis by simp
next
  case (replayed r)
  with run called show ?thesis by simp
next
  case (acquired order sq)
  let ?w = "w\<lparr>gw_db := (gw_db w)\<lparr>db_modifications :=
      db_modifications (gw_db w) @ [pending_row (sv_now env) mid a cid order payload sq]\<rparr>\<rparr>"
  have acq: "modify_acquired env rv cid order payload mid (generate_replacement_order_id cid sq) ?w = (x, w')"
    using run acquired(4) by simp
  have neq: "gw_replaced w' \<noteq> gw_replaced ?w" using called by simp
  from acquired(1) show ?thesis
  proof (cases rule: modify_checks_cases)
    case (replay order' m r)
    then show ?thesis by simp
  next
    case (fresh order')
    note gates = modify_gates_Inr [OF fresh(4)]
    obtain bid where bid: "o_broker_order_id order' = Some bid" using eligible(2) [OF gates(2)] by blast
    have same: "order' = order" using fresh(5) by simp
    from modify_acquired_log [OF acq neq bid [unfolded same]] obtain b tok w1 where
      "sv_alpaca env = Some b" "reserve_modify_delta env rv order payload ?w = (Inr tok, w1)"
      "gw_replaced w' = gw_replaced ?w @ [(bid, payload, generate_replacement_order_id cid sq,
        bk_replace b bid payload (generate_replacement_order_id cid sq))]" by blast
    with that fresh bid same acquired(3) show ?thesis by simp
  qed
qed

section \<open>The endpoints: theorems\<close>

text \<open>The broker is asked to replace an order only past every check: the caller has access to the
  strategy, no modification with the key exists, the order is live, known to the broker and not part
  of a TWAP, its filled quantity is not undercut, something changes, and an increase of the quantity
  holds a reservation within the position limit.  The broker is asked once, with a new identifier
  derived from the order and the number of its modifications.\<close>

theorem replacement_past_gates:
  assumes run: "modify_order env rv a mid locked cid payload w = (x, w')"
    and called: "gw_replaced w' \<noteq> gw_replaced w"
  shows "\<exists>order bid b sq.
    get_order_by_client_id cid (gw_db w) = Inr (Some order) \<and>
    ensure_strategy_access (o_strategy_id order) a = Inr () \<and>
    get_modification_by_idempotency_key cid (mr_idempotency_key payload) (gw_db w) = None \<and>
    o_status order \<in> set MODIFIABLE_STATUSES \<and> o_broker_order_id order = Some bid \<and>
    o_execution_style order \<noteq> Some ''twap'' \<and> o_parent_order_id order = None \<and>
    (\<forall>q. mr_qty payload = Some q \<longrightarrow> o_filled_qty order \<le> of_int q) \<and>
    compute_modification_changes order payload \<noteq> no_changes \<and>
    (\<forall>q. mr_qty payload = Some q \<and> q > o_qty order \<longrightarrow>
       (\<exists>ttl res r1. reserve ttl (sv_token env) (o_symbol order) (o_side order) (q - o_qty order)
            (max_position_size (rc_position_limits (sv_risk_config env)))
            (get_position_by_symbol (o_symbol order) (gw_db w)) (gw_redis w) = Inr (res, r1) \<and>
          \<bar>rr_new_position res\<bar> \<le> max_position_size (rc_position_limits (sv_risk_config env)))) \<and>
    sv_alpaca env = Some b \<and> get_next_modification_seq locked cid (gw_db w) = Some sq \<and>
    gw_replaced w' = gw_replaced w @ [(bid, payload, generate_replacement_order_id cid sq,
      bk_replace b bid payload (generate_replacement_order_id cid sq))]"
proof (rule modify_order_called [OF run called], goal_cases)
  case (1 order bid b sq tok w1)
  note gates = modify_gates_Inr [OF 1(4)] and e = eligible [OF modify_gates_Inr(2) [OF 1(4)]]
  have position: "get_position_by_symbol s (d\<lparr>db_modifications := ms\<rparr>) = get_position_by_symbol s d" for s d ms
    by (simp add: get_position_by_symbol_def db_position_def)
  have reserved: "\<exists>ttl res r1. reserve ttl (sv_token env) (o_symbol order) (o_side order) (q - o_qty order)
            (max_position_size (rc_position_limits (sv_risk_config env)))
            (get_position_by_symbol (o_symbol order) (gw_db w)) (gw_redis w) = Inr (res, r1) \<and>
          \<bar>rr_new_position res\<bar> \<le> max_position_size (rc_position_limits (sv_risk_config env))"
    if q: "mr_qty payload = Some q" "q > o_qty order" for q
    using 1(8) q
    by (auto simp: reserve_modify_delta_def position split: if_splits option.splits sum.splits prod.splits
        intro!: exI dest: reserve_granted(2))
  show ?case using 1 gates e reserved by blast
qed

text \<open>
  The code measures risk by the position projected with the whole quantity of the order.  For an order
  with fills, which the position already contains, this counts them twice: with a short position of
  8, cutting a purchase of 10 of which 5 are filled down to 7 passes as a reduction (2 becomes -1),
  although the short position the orders leave grows from 3 to 6.
\<close>

definition half_filled :: order_row where
  "half_filled = sample_order\<lparr>o_qty := 10, o_filled_qty := 5, o_status := ''partially_filled''\<rparr>"

definition short_eight :: db where
  "short_eight = db_set_position ''AAPL'' \<lparr>p_qty = - 8, p_avg_entry_price = 100, p_current_price = None,
     p_realized_pl = 0, p_updated_at = 0, p_last_trade_at = None\<rparr> sample_db"

lemma partial_fill_reduction_increases_risk:
  "mr_qty payload = Some 7 \<Longrightarrow> mr_limit_price payload = None \<Longrightarrow> mr_stop_price payload = None \<Longrightarrow>
     mr_time_in_force payload = None \<Longrightarrow> is_strictly_risk_reducing half_filled payload short_eight"
  "\<bar>get_position_by_symbol ''AAPL'' short_eight + (10 - py_int (o_filled_qty half_filled))\<bar> = 3"
  "\<bar>get_position_by_symbol ''AAPL'' short_eight + (7 - py_int (o_filled_qty half_filled))\<bar> = 6"
  by (simp_all add: is_strictly_risk_reducing_def half_filled_def short_eight_def sample_order_def
      get_position_by_symbol_def differs_def signed_by_side_def py_int_def)

text \<open>C12. While the kill switch is engaged or the breaker tripped, a modification reaches the broker
  only when it changes nothing but the quantity, and brings the position projected with the order's
  whole quantity strictly closer to zero.  For an order without fills that is the position it would
  leave; with fills it need not be (lemma partial_fill_reduction_increases_risk).\<close>

theorem only_risk_reducing_modifications:
  assumes run: "modify_order env rv a mid locked cid payload w = (x, w')"
    and called: "gw_replaced w' \<noteq> gw_replaced w"
    and safety: "ks_is_engaged (gw_redis w) = Inr True \<or> breaker_is_tripped (gw_redis w) = Inr True"
  shows "\<exists>order q. db_order (gw_db w) cid = Some order \<and> mr_qty payload = Some q \<and>
    compute_modification_changes order payload = no_changes\<lparr>mc_qty := Some q\<rparr> \<and>
    \<bar>get_position_by_symbol (o_symbol order) (gw_db w) + signed_by_side (o_side order) q\<bar> <
    \<bar>get_position_by_symbol (o_symbol order) (gw_db w) + signed_by_side (o_side order) (o_qty order)\<bar>"
proof (rule modify_order_called [OF run called], goal_cases)
  case (1 order bid b sq tok w1)
  have row: "db_order (gw_db w) cid = Some order" using get_order_by_client_id_row [OF 1(1)] by simp
  have risk: "is_strictly_risk_reducing order payload (gw_db w)"
    using modify_gates_Inr(1) [OF 1(4)] safety
    by (auto simp: check_modify_safety_gates_def rbind_Inr_iff split: if_splits)
  then obtain q where q: "mr_qty payload = Some q"
    by (auto simp: is_strictly_risk_reducing_def split: if_splits option.splits)
  have closer: "\<bar>get_position_by_symbol (o_symbol order) (gw_db w) + signed_by_side (o_side order) q\<bar> <
    \<bar>get_position_by_symbol (o_symbol order) (gw_db w) + signed_by_side (o_side order) (o_qty order)\<bar>"
    and same: "\<not> differs (mr_limit_price payload) (o_limit_price order)"
      "\<not> differs (mr_stop_price payload) (o_stop_price order)"
      "\<not> differs (mr_time_in_force payload) (Some (o_time_in_force order))"
    using risk q by (auto simp: is_strictly_risk_reducing_def Let_def split: if_splits)
  have "q \<noteq> o_qty order" using closer by auto
  then have "compute_modification_changes order payload = no_changes\<lparr>mc_qty := Some q\<rparr>"
    using same q by (auto simp: compute_modification_changes_def no_changes_def differs_def)
  with row q closer show ?case by blast
qed

section \<open>Completed modifications\<close>

lemma finalize_order [simp]: "db_order (finalize_modification now i b st c d) = db_order d"
  by (simp add: finalize_modification_def db_order_def fun_eq_iff)

lemma set_order_modifications [simp]: "db_modifications (db_set_order c r d) = db_modifications d"
  by (simp add: db_set_order_def)

text \<open>The replacement's row, as the request and the broker's answer make it.\<close>

definition replacement_row :: "string \<Rightarrow> string \<Rightarrow> db_order_request \<Rightarrow> broker_order \<Rightarrow> order_row \<Rightarrow> bool" where
  "replacement_row new_id cid q bo row \<longleftrightarrow>
     o_client_order_id row = new_id \<and> o_replaced_order_id row = Some cid \<and>
     o_symbol row = q_symbol q \<and> o_side row = q_side q \<and> o_qty row = q_qty q \<and>
     o_order_type row = q_order_type q \<and> o_limit_price row = q_limit_price q \<and>
     o_stop_price row = q_stop_price q \<and> o_time_in_force row = q_time_in_force q \<and>
     o_broker_order_id row = b_id bo \<and> o_filled_qty row = 0 \<and>
     o_status row = opt_or_text (b_status bo) ''pending_new''"

lemma finalize_records_Inr:
  assumes run: "finalize_records now cid order mid bo new_id q d = (Inr u, d')"
    and row: "db_order d cid = Some row"
  shows "\<exists>orig repl. db_order d new_id = None \<and> new_id \<noteq> cid \<and>
    db_order d' cid = Some orig \<and> o_status orig = ''replaced'' \<and> o_is_terminal orig \<and>
    o_strategy_id orig = o_strategy_id row \<and>
    db_order d' new_id = Some repl \<and> o_strategy_id repl = o_strategy_id order \<and>
    replacement_row new_id cid q bo repl \<and>
    db_modifications d' = db_modifications (finalize_modification now mid (b_id bo) ''completed'' (Some new_id) d)"
proof -
  let ?d1 = "finalize_modification now mid (b_id bo) ''completed'' (Some new_id) d"
  let ?orig = "row\<lparr>o_status := ''replaced'', o_status_rank := Some (status_rank_for ''replaced''),
               o_is_terminal := (''replaced'' \<in> set TERMINAL_STATUSES), o_updated_at := now\<rparr>"
  have simple: "update_order_status_simple_with_conn now cid ''replaced'' ?d1 =
      (Inr (Some ?orig), db_set_order cid ?orig ?d1)"
    using row by (simp add: update_order_status_simple_with_conn_def update_order_where_def
        order_detail_def ORDER_STATUSES_def)
  let ?d2 = "db_set_order cid ?orig ?d1"
  obtain y d3 where ins: "insert_replacement_order now new_id cid (o_strategy_id order) q
      (opt_or_text (b_status bo) ''pending_new'') (b_id bo) ?d2 = (y, d3)" by (metis prod.exhaust)
  then obtain repl where y: "y = Inr repl" and d': "d' = d3"
    using run simple by (cases y) (auto simp: finalize_records_def)
  have absent: "db_order ?d2 new_id = None"
    using ins y by (cases "db_order ?d2 new_id") (auto simp: insert_replacement_order_def)
  have d3: "d3 = db_set_order new_id repl ?d2" and repl: "replacement_row new_id cid q bo repl"
    "o_strategy_id repl = o_strategy_id order"
    using ins y absent
    by (auto simp: insert_replacement_order_def Let_def order_detail_def replacement_row_def split: if_splits)
  show ?thesis
    using absent d' d3 repl row
    by (intro exI [of _ ?orig] exI [of _ repl]) (auto simp: TERMINAL_STATUSES_def split: if_splits)
qed

lemma find_appended:
  assumes "find P xs = None" "P p" "\<And>x. P (f x) = P x"
  shows "find P (map f (xs @ [p])) = Some (f p)"
proof -
  have "find P (map f xs) = None" using assms(1,3) by (auto simp: find_None_iff)
  then show ?thesis using assms(2,3) by (induction xs) (auto split: if_splits)
qed

text \<open>A fresh modification that is answered: broker, rows and record.\<close>

lemma modify_order_fresh:
  assumes run: "modify_order env rv a mid locked cid payload w = (Inr (code, resp), w')"
    and fresh: "get_modification_by_idempotency_key cid (mr_idempotency_key payload) (gw_db w) = None"
  obtains order bid b sq bo orig repl m where "get_order_by_client_id cid (gw_db w) = Inr (Some order)"
    "ensure_strategy_access (o_strategy_id order) a = Inr ()"
    "o_broker_order_id order = Some bid" "sv_alpaca env = Some b"
    "gw_replaced w' = gw_replaced w @ [(bid, payload, generate_replacement_order_id cid sq, Inr bo)]"
    "get_next_modification_seq locked cid (gw_db w) = Some sq"
    "code = 200" "mo_status resp = ''completed''" "mo_modification_id resp = mid"
    "mo_changes resp = compute_modification_changes order payload"
    "mo_new_client_order_id resp = opt_or_text (b_client_order_id bo) (generate_replacement_order_id cid sq)"
    "db_order (gw_db w) (mo_new_client_order_id resp) = None" "mo_new_client_order_id resp \<noteq> cid"
    "db_order (gw_db w') cid = Some orig" "o_status orig = ''replaced''" "o_is_terminal orig"
    "o_strategy_id orig = o_strategy_id order"
    "db_order (gw_db w') (mo_new_client_order_id resp) = Some repl" "o_strategy_id repl = o_strategy_id order"
    "replacement_row (mo_new_client_order_id resp) cid
       (db_request (build_replacement_request order payload)) bo repl"
    "get_modification_by_idempotency_key cid (mr_idempotency_key payload) (gw_db w') = Some m"
    "md_status m = ''completed''" "md_id m = mid" "md_original_client_order_id m = cid"
    "md_new_client_order_id m = mo_new_client_order_id resp" "md_changes m = mo_changes resp"
proof (cases rule: modify_order_cases [of env rv a mid locked cid payload w])
  case (stopped e)
  with run show ?thesis by simp
next
  case (replayed r)
  from replayed(1) fresh show ?thesis by (cases rule: modify_checks_cases) simp_all
next
  case (acquired order sq)
  let ?row = "pending_row (sv_now env) mid a cid order payload sq"
  let ?d = "(gw_db w)\<lparr>db_modifications := db_modifications (gw_db w) @ [?row]\<rparr>"
  let ?w = "w\<lparr>gw_db := ?d\<rparr>" and ?new = "generate_replacement_order_id cid sq"
  let ?q = "db_request (build_replacement_request order payload)"
  have acq: "modify_acquired env rv cid order payload mid ?new ?w = (Inr (code, resp), w')"
    using run acquired(4) by simp
  obtain b where b: "sv_alpaca env = Some b"
    using acq by (cases "sv_alpaca env") (simp_all add: modify_acquired_def fail_modification_def)
  obtain y w1 where res: "reserve_modify_delta env rv order payload ?w = (y, w1)" by (metis prod.exhaust)
  obtain tok where y: "y = Inr tok"
  proof (cases y)
    case (Inl e)
    then show ?thesis using acq b res by (cases e) (simp_all add: modify_acquired_def fail_modification_def)
  qed
  note frame = reserve_modify_delta_frame [OF res]
  have ok: "order_request_ok ?q"
    using acq b res y by (auto simp: modify_acquired_def Let_def split: if_splits)
  obtain z w2 where call: "call_broker_replace env rv b order payload ?new mid tok w1 = (z, w2)"
    by (metis prod.exhaust)
  obtain bo where z: "z = Inr bo"
    using acq b res y ok call by (cases z) (simp_all add: modify_acquired_def Let_def)
  obtain bid where bid: "o_broker_order_id order = Some bid" "bk_replace b bid payload ?new = Inr bo"
    and db2: "gw_db w2 = ?d"
    using call_broker_replace_Inr [OF call [unfolded z]] frame by auto
  have log: "gw_replaced w2 = gw_replaced w @ [(bid, payload, ?new, Inr bo)]"
    using call_broker_replace_log [OF bid(1), of env rv b payload ?new mid tok w1] call bid frame by simp
  let ?id = "opt_or_text (b_client_order_id bo) ?new"
  obtain v d3 where fin: "finalize_modification_in_db (sv_now env) cid order mid bo ?id ?q ?d = (v, d3)"
    by (metis prod.exhaust)
  obtain u where v: "v = Inr u"
    using acq b res y ok call z db2 fin by (cases v) (simp_all add: modify_acquired_def Let_def)
  have out: "code = 200" "w' = w2\<lparr>gw_db := d3\<rparr>"
    "resp = \<lparr>mo_original_client_order_id = cid, mo_new_client_order_id = ?id, mo_modification_id = mid,
       mo_modified_at = sv_now env, mo_status = ''completed'',
       mo_changes = compute_modification_changes order payload\<rparr>"
    using acq b res y ok call z db2 fin v by (simp_all add: modify_acquired_def Let_def)
  have rec: "finalize_records (sv_now env) cid order mid bo ?id ?q ?d = (Inr u, d3)"
    using fin v by (auto simp: finalize_modification_in_db_def split: prod.splits sum.splits)
  from acquired(1) show ?thesis
  proof (cases rule: modify_checks_cases)
    case (replay order' m r)
    then show ?thesis by simp
  next
    case chk: (fresh order')
    have same: "order' = order" using chk(5) by simp
    have row: "db_order ?d cid = Some order"
      using get_order_by_client_id_row [OF chk(1)] same by (simp add: db_order_def)
    obtain orig repl where rows: "db_order ?d ?id = None" "?id \<noteq> cid" "db_order d3 cid = Some orig"
      "o_status orig = ''replaced''" "o_is_terminal orig" "o_strategy_id orig = o_strategy_id order"
      "db_order d3 ?id = Some repl" "o_strategy_id repl = o_strategy_id order" "replacement_row ?id cid ?q bo repl"
      "db_modifications d3 =
         db_modifications (finalize_modification (sv_now env) mid (b_id bo) ''completed'' (Some ?id) ?d)"
      using finalize_records_Inr [OF rec row] by blast
    let ?f = "\<lambda>m. if md_id m = mid then m\<lparr>md_new_broker_order_id := b_id bo,
        md_new_client_order_id := ?id, md_status := ''completed'', md_modified_at := sv_now env,
        md_error_message := None\<rparr> else m"
    let ?P = "\<lambda>m. md_original_client_order_id m = cid \<and> md_idempotency_key m = mr_idempotency_key payload"
    have keep: "?P (?f m) = ?P m" for m by simp
    have upd: "db_modifications d3 = map ?f (db_modifications (gw_db w) @ [?row])"
      unfolding rows(10) by (simp add: finalize_modification_def)
    have none: "find ?P (db_modifications (gw_db w)) = None"
      using fresh by (simp add: get_modification_by_idempotency_key_def)
    have "?P ?row" by (simp add: pending_row_def)
    from find_appended [of ?P, OF none this keep]
    have "get_modification_by_idempotency_key cid (mr_idempotency_key payload) d3 = Some (?f ?row)"
      unfolding get_modification_by_idempotency_key_def upd .
    moreover have "db_order (gw_db w) ?id = None" using rows(1) by (simp add: db_order_def)
    ultimately show ?thesis
      using chk(1,2) same bid b log acquired(3) out rows
      by (intro that [of order bid b sq bo orig repl "?f ?row"]) (simp_all add: pending_row_def)
  qed
qed

text \<open>C14. A modification that is answered for the first time has replaced the order at the broker, once,
  and in the database: the original row is replaced and terminal, a new row that refers to it has the
  requested quantity, prices and time in force under an identifier no row had, and the record of
  the modification is completed with that identifier.\<close>

theorem modification_completes:
  assumes run: "modify_order env rv a mid locked cid payload w = (Inr (code, resp), w')"
    and fresh: "get_modification_by_idempotency_key cid (mr_idempotency_key payload) (gw_db w) = None"
  shows "\<exists>order bid new_id bo orig repl m.
    db_order (gw_db w) cid = Some order \<and> o_broker_order_id order = Some bid \<and>
    gw_replaced w' = gw_replaced w @ [(bid, payload, new_id, Inr bo)] \<and>
    db_order (gw_db w) (mo_new_client_order_id resp) = None \<and>
    db_order (gw_db w') cid = Some orig \<and> o_status orig = ''replaced'' \<and> o_is_terminal orig \<and>
    db_order (gw_db w') (mo_new_client_order_id resp) = Some repl \<and>
    replacement_row (mo_new_client_order_id resp) cid
      (db_request (build_replacement_request order payload)) bo repl \<and>
    get_modification_by_idempotency_key cid (mr_idempotency_key payload) (gw_db w') = Some m \<and>
    md_status m = ''completed'' \<and> md_new_client_order_id m = mo_new_client_order_id resp"
proof (rule modify_order_fresh [OF run fresh], goal_cases)
  case (1 order bid b sq bo orig repl m)
  have "db_order (gw_db w) cid = Some order" using get_order_by_client_id_row [OF 1(1)] by simp
  with 1 show ?case by blast
qed

text \<open>C13. A modification is idempotent in its key: once a request has been answered, any later request of
  the caller with the same key, whatever it asks for and whatever the gates say by then, gets the
  same answer and changes nothing, neither in the database nor at the broker.\<close>

theorem modification_is_idempotent:
  assumes run: "modify_order env rv a mid locked cid payload w = (Inr (code, resp), w')"
    and key: "mr_idempotency_key payload' = mr_idempotency_key payload"
  shows "\<exists>resp'. modify_order env' rv' a mid' locked' cid payload' w' = (Inr (code, resp'), w') \<and>
    mo_new_client_order_id resp' = mo_new_client_order_id resp \<and>
    mo_modification_id resp' = mo_modification_id resp \<and> mo_status resp' = mo_status resp \<and>
    mo_changes resp' = mo_changes resp"
proof (cases "get_modification_by_idempotency_key cid (mr_idempotency_key payload) (gw_db w)")
  case (Some m)
  have checks: "modify_checks env rv a cid payload w = Inr (Inl (code, resp)) \<and> w' = w"
  proof (cases rule: modify_order_cases [of env rv a mid locked cid payload w])
    case (stopped e)
    with run show ?thesis by simp
  next
    case (replayed r)
    with run show ?thesis by simp
  next
    case (acquired order sq)
    from acquired(1) Some show ?thesis by (cases rule: modify_checks_cases) simp_all
  qed
  from checks [THEN conjunct1] have "modify_checks env' rv' a cid payload' w = Inr (Inl (code, resp))"
    by (cases rule: modify_checks_cases) (simp_all add: modify_checks_def key)
  with checks show ?thesis by (simp add: modify_order_def)
next
  case None
  show ?thesis
  proof (rule modify_order_fresh [OF run None], goal_cases)
    case (1 order bid b sq bo orig repl m)
    have "get_order_by_client_id cid (gw_db w') = Inr (Some orig)"
      using 1(14,15) by (simp add: get_order_by_client_id_def order_detail_def ORDER_STATUSES_def)
    then show ?case
      using 1 key
      by (auto simp: modify_order_def modify_checks_def handle_idempotent_modification_response_def Let_def
          MODIFICATION_STATUSES_def)
  qed
qed

section \<open>Cancellation\<close>

lemma cancel_at_broker_Inr:
  assumes "cancel_at_broker env order w = (Inr u, w1)"
  shows "gw_db w1 = gw_db w \<and> gw_redis w1 = gw_redis w \<and>
    (\<forall>bid. \<not> sv_dry_run env \<and> o_broker_order_id order = Some bid \<and> bid \<noteq> [] \<longrightarrow>
      (\<exists>ok. gw_canceled w1 = gw_canceled w @ [(bid, Inr ok)]))"
  using assms by (auto simp: cancel_at_broker_def Let_def split: if_splits option.splits sum.splits)

lemma get_order_row:
  assumes "get_order a cid d = Inr row"
  shows "db_order d cid = Some row"
proof -
  have "get_order_by_client_id cid d = Inr (Some row)"
    using assms by (auto simp: get_order_def rbind_Inr_iff split: option.splits)
  then show ?thesis by (simp add: get_order_by_client_id_row)
qed

lemma cancel_cas:
  assumes "db_order d cid = Some order"
  shows "\<exists>r d'. update_order_status_cas now (cancel_update env cid order) d = (Inr r, d') \<and>
    (db_order d' cid = Some order \<or>
     (\<exists>row'. db_order d' cid = Some row' \<and> o_status row' = ''canceled'' \<and> o_is_terminal row'))"
proof (cases "cas_where (cancel_update env cid order) order = Some True")
  case True
  let ?row = "cas_set now (cancel_update env cid order) order"
  have row: "o_status ?row = ''canceled''" "o_is_terminal ?row"
    by (simp_all add: cas_set_def cancel_update_def TERMINAL_STATUSES_def)
  have "order_detail ?row = Inr ?row" using row(1) by (simp add: order_detail_def ORDER_STATUSES_def)
  moreover have "\<not> filled_price_violates (cancel_update env cid order) order"
    by (simp add: filled_price_violates_def cancel_update_def split: option.splits)
  moreover have "c_client_order_id (cancel_update env cid order) = cid" by (simp add: cancel_update_def)
  ultimately have "update_order_status_cas now (cancel_update env cid order) d =
      (Inr (Some ?row), db_set_order cid ?row d)"
    using True assms by (simp add: update_order_status_cas_def update_order_where_def)
  with row show ?thesis by auto
next
  case False
  have "c_client_order_id (cancel_update env cid order) = cid" by (simp add: cancel_update_def)
  then have "update_order_status_cas now (cancel_update env cid order) d = (Inr None, d)"
    using False assms by (simp add: update_order_status_cas_def update_order_where_def)
  with assms show ?thesis by auto
qed

text \<open>A live order is marked as canceled only after the broker has accepted the cancellation of an order
  it knows: when \<open>cancel_order\<close> answers, the broker has accepted and the row is canceled and terminal,
  or an update of the broker that is newer has kept it; when it raises, the row is as it was.\<close>

theorem cancel_after_broker:
  assumes run: "cancel_order env a cid w = (x, w')"
    and row: "db_order (gw_db w) cid = Some order" and live: "o_status order \<notin> set TERMINAL_STATUSES"
  shows "(\<exists>e. x = Inl e \<and> db_order (gw_db w') cid = Some order) \<or>
    (\<exists>r. x = Inr r \<and>
      (\<forall>bid. \<not> sv_dry_run env \<and> o_broker_order_id order = Some bid \<and> bid \<noteq> [] \<longrightarrow>
         (\<exists>ok. gw_canceled w' = gw_canceled w @ [(bid, Inr ok)])) \<and>
      (db_order (gw_db w') cid = Some order \<or>
       (\<exists>row'. db_order (gw_db w') cid = Some row' \<and> o_status row' = ''canceled'' \<and> o_is_terminal row')))"
proof (cases "get_order a cid (gw_db w)")
  case (Inl e)
  then show ?thesis using run row by (auto simp: cancel_order_def)
next
  case (Inr order')
  have same: "order' = order"
    using get_order_row [OF Inr] row by simp
  obtain y w1 where broker: "cancel_at_broker env order w = (y, w1)" by (metis prod.exhaust)
  show ?thesis
  proof (cases y)
    case y: (Inl e)
    have "gw_db w1 = gw_db w"
      using broker by (auto simp: cancel_at_broker_def Let_def split: if_splits option.splits sum.splits)
    then show ?thesis
      using run Inr same live broker y row by (auto simp: cancel_order_def)
  next
    case y: (Inr u)
    note b = cancel_at_broker_Inr [OF broker [unfolded y]]
    from b row have "db_order (gw_db w1) cid = Some order" by simp
    from cancel_cas [OF this, of "sv_now env" env] obtain r d2 where
      cas: "update_order_status_cas (sv_now env) (cancel_update env cid order) (gw_db w1) = (Inr r, d2)"
      "db_order d2 cid = Some order \<or>
       (\<exists>row'. db_order d2 cid = Some row' \<and> o_status row' = ''canceled'' \<and> o_is_terminal row')" by blast
    have out: "w' = w1\<lparr>gw_db := d2\<rparr>" "\<exists>st. x = Inr st"
      using run Inr same live broker y cas(1) by (simp_all add: cancel_order_def, auto)
    then have "db_order (gw_db w') cid = db_order d2 cid" "gw_canceled w' = gw_canceled w1" by simp_all
    with out(2) cas(2) b show ?thesis by metis
  qed
qed

section \<open>A modification that goes through\<close>

lemma foldr_max_ge: "x \<in> set xs \<Longrightarrow> x \<le> foldr max xs (0::int)"
  by (induction xs) auto

lemma next_seq_fresh:
  assumes "get_next_modification_seq locked cid d = Some sq" "m \<in> set (db_modifications d)"
    "md_original_client_order_id m = cid"
  shows "md_modification_seq m \<noteq> sq"
proof -
  have "md_modification_seq m \<le> foldr max (map md_modification_seq
      (filter (\<lambda>m. md_original_client_order_id m = cid) (db_modifications d))) 0"
    using assms(2,3) by (intro foldr_max_ge) auto
  then show ?thesis using assms(1) by (auto simp: get_next_modification_seq_def split: if_splits)
qed

lemma acquire_fresh:
  assumes row: "db_order d cid \<noteq> None"
    and key: "get_modification_by_idempotency_key cid (mr_idempotency_key payload) d = None"
    and sq: "get_next_modification_seq locked cid d = Some sq"
    and mid: "mid \<notin> md_id ` set (db_modifications d)"
  shows "acquire_modification_lock now locked mid a cid order payload
      (compute_modification_changes order payload) d =
      (Inr (Acquired mid (generate_replacement_order_id cid sq)),
       d\<lparr>db_modifications := db_modifications d @ [pending_row now mid a cid order payload sq]\<rparr>)"
proof -
  let ?row = "pending_row now mid a cid order payload sq"
  have "insert_pending_modification ?row d =
      (Inr mid, d\<lparr>db_modifications := db_modifications d @ [?row]\<rparr>)"
    using row mid key next_seq_fresh [OF sq]
    by (auto simp: insert_pending_modification_def pending_row_def get_modification_by_idempotency_key_def
        find_None_iff)
  then show ?thesis by (simp add: acquire_modification_lock_def key sq pending_row_def Let_def)
qed

text \<open>
  A modification that does not increase the quantity, passes the checks and is accepted by the broker
  under an identifier no row has is answered with 200.
\<close>

lemma modify_order_accepted:
  assumes checks: "modify_checks env rv a cid payload w = Inr (Inr order)"
    and sq: "get_next_modification_seq locked cid (gw_db w) = Some sq"
    and mid: "mid \<notin> md_id ` set (db_modifications (gw_db w))"
    and b: "sv_alpaca env = Some b" and bid: "o_broker_order_id order = Some bid"
    and less: "\<forall>q. mr_qty payload = Some q \<longrightarrow> q \<le> o_qty order"
    and ok: "order_request_ok (db_request (build_replacement_request order payload))"
    and reply: "bk_replace b bid payload (generate_replacement_order_id cid sq) = Inr bo"
    and st: "opt_or_text (b_status bo) ''pending_new'' \<in> set ORDER_STATUSES"
    and free: "db_order (gw_db w) (opt_or_text (b_client_order_id bo) (generate_replacement_order_id cid sq)) = None"
  shows "\<exists>resp w'. modify_order env rv a mid locked cid payload w = (Inr (200, resp), w') \<and>
    gw_replaced w' \<noteq> gw_replaced w"
proof -
  let ?new = "generate_replacement_order_id cid sq"
  let ?row = "pending_row (sv_now env) mid a cid order payload sq"
  let ?d = "(gw_db w)\<lparr>db_modifications := db_modifications (gw_db w) @ [?row]\<rparr>"
  let ?id = "opt_or_text (b_client_order_id bo) ?new"
  have key: "get_modification_by_idempotency_key cid (mr_idempotency_key payload) (gw_db w) = None"
    and row: "db_order (gw_db w) cid = Some order"
    using checks by (cases rule: modify_checks_cases; auto dest: get_order_by_client_id_row)+
  have acq: "acquire_modification_lock (sv_now env) locked mid a cid order payload
      (compute_modification_changes order payload) (gw_db w) = (Inr (Acquired mid ?new), ?d)"
    using row by (intro acquire_fresh key sq mid) simp
  have res: "reserve_modify_delta env rv order payload (w\<lparr>gw_db := ?d\<rparr>) = (Inr None, w\<lparr>gw_db := ?d\<rparr>)"
    using less by (simp add: reserve_modify_delta_def split: option.splits)
  have order': "db_order ?d = db_order (gw_db w)" by (simp add: db_order_def fun_eq_iff)
  obtain d3 where fin: "finalize_records (sv_now env) cid order mid bo ?id
      (db_request (build_replacement_request order payload)) ?d = (Inr (), d3)"
  proof -
    have "?id \<noteq> cid" using free row by auto
    then show ?thesis
      using that free row st
      by (simp add: finalize_records_def update_order_status_simple_with_conn_def update_order_where_def
          order' order_detail_def ORDER_STATUSES_def insert_replacement_order_def Let_def)
  qed
  show ?thesis
    using checks acq b res ok bid reply fin
    by (simp add: modify_order_def modify_acquired_def Let_def call_broker_replace_def
        finalize_modification_in_db_def)
qed

section \<open>Witnesses\<close>

definition demo_replacement :: "string \<Rightarrow> broker_order" where
  "demo_replacement cid =
     \<lparr>b_id = Some ''b2'', b_client_order_id = Some cid, b_symbol = Some ''AAPL'', b_side = Some ''buy'',
      b_qty = Some 8, b_status = Some ''accepted'', b_created_at = None, b_updated_at = None,
      b_filled_qty = None, b_filled_avg_price = None, b_filled_at = None, b_limit_price = None,
      b_notional = None\<rparr>"

definition demo_modify_env :: submit_env where
  "demo_modify_env = (demo_env (BrokerOtherError []) ''t2'')
     \<lparr>sv_alpaca := Some ((demo_broker (BrokerOtherError []))
        \<lparr>bk_replace := (\<lambda>bid m cid. Inr (demo_replacement cid))\<rparr>)\<rparr>"

definition demo_auth :: auth_context where
  "demo_auth = \<lparr>ac_internal_token = False, ac_is_authenticated = True,
     ac_strategies = Some [JStr '' Alpha ''], ac_user_id = Some ''u1''\<rparr>"

definition demo_payload :: order_modify_request where
  "demo_payload = \<lparr>mr_idempotency_key = ''k1'', mr_qty = Some 8, mr_limit_price = None,
     mr_stop_price = None, mr_time_in_force = None, mr_reason = None\<rparr>"

text \<open>An accepted order, and the same with the kill switch engaged.\<close>

definition demo_live :: gateway where
  "demo_live = snd (demo_run (BrokerAccepted (Some ''b1'')) ''t1'' demo_gateway)"

definition demo_engaged :: gateway where
  "demo_engaged = demo_live
     \<lparr>gw_redis := snd (ks_engage ''now'' ''drill'' ''ops'' JNull (gw_redis demo_live))\<rparr>"

definition demo_modify :: "gateway \<Rightarrow> (nat \<times> modify_response) result \<times> gateway" where
  "demo_modify = modify_order demo_modify_env demo_recovery demo_auth ''m1'' False ''o1'' demo_payload"

lemma demo_modify_checks:
  "\<exists>order. modify_checks demo_modify_env demo_recovery demo_auth ''o1'' demo_payload demo_live = Inr (Inr order) \<and>
     o_broker_order_id order = Some ''b1'' \<and> o_qty order = 10 \<and>
     order_request_ok (db_request (build_replacement_request order demo_payload))"
  "\<exists>order. modify_checks demo_modify_env demo_recovery demo_auth ''o1'' demo_payload demo_engaged = Inr (Inr order) \<and>
     o_broker_order_id order = Some ''b1'' \<and> o_qty order = 10 \<and>
     order_request_ok (db_request (build_replacement_request order demo_payload))"
proof -
  have "case modify_checks demo_modify_env demo_recovery demo_auth ''o1'' demo_payload demo_live of
      Inr (Inr order) \<Rightarrow> o_broker_order_id order = Some ''b1'' \<and> o_qty order = 10 \<and>
        order_request_ok (db_request (build_replacement_request order demo_payload)) | _ \<Rightarrow> False"
    by code_simp
  then show "\<exists>order. modify_checks demo_modify_env demo_recovery demo_auth ''o1'' demo_payload demo_live = Inr (Inr order) \<and>
     o_broker_order_id order = Some ''b1'' \<and> o_qty order = 10 \<and>
     order_request_ok (db_request (build_replacement_request order demo_payload))"
    by (auto split: sum.splits)
next
  have "case modify_checks demo_modify_env demo_recovery demo_auth ''o1'' demo_payload demo_engaged of
      Inr (Inr order) \<Rightarrow> o_broker_order_id order = Some ''b1'' \<and> o_qty order = 10 \<and>
        order_request_ok (db_request (build_replacement_request order demo_payload)) | _ \<Rightarrow> False"
    by code_simp
  then show "\<exists>order. modify_checks demo_modify_env demo_recovery demo_auth ''o1'' demo_payload demo_engaged = Inr (Inr order) \<and>
     o_broker_order_id order = Some ''b1'' \<and> o_qty order = 10 \<and>
     order_request_ok (db_request (build_replacement_request order demo_payload))"
    by (auto split: sum.splits)
qed

lemma demo_live_facts:
  "map fst (db_orders (gw_db demo_live)) = [''o1'']" "map md_id (db_modifications (gw_db demo_live)) = []"
  "ks_is_engaged (gw_redis demo_engaged) = Inr True"
  by code_simp+

lemma demo_modify_accepted:
  assumes "w = demo_live \<or> w = demo_engaged"
  shows "\<exists>resp w'. demo_modify w = (Inr (200, resp), w') \<and> gw_replaced w' \<noteq> gw_replaced w"
proof -
  obtain order where checks: "modify_checks demo_modify_env demo_recovery demo_auth ''o1'' demo_payload w = Inr (Inr order)"
    and order: "o_broker_order_id order = Some ''b1''" "o_qty order = 10"
      "order_request_ok (db_request (build_replacement_request order demo_payload))"
    using assms demo_modify_checks by blast
  have db: "gw_db w = gw_db demo_live" using assms by (auto simp: demo_engaged_def)
  have seq: "get_next_modification_seq False ''o1'' (gw_db w) = Some 1"
    using demo_live_facts(2) by (simp add: db get_next_modification_seq_def)
  let ?new = "generate_replacement_order_id ''o1'' 1"
  have "length ?new = 24" by (simp add: generate_replacement_order_id_def length_sha256_hexdigest)
  then have new: "?new \<noteq> ''o1''" "?new \<noteq> []" by auto
  have "?new \<notin> fst ` set (db_orders (gw_db demo_live))"
    using demo_live_facts(1) new by (metis list.set(1) list.simps(15) list.set_map singletonD)
  then have free: "db_order (gw_db w) (opt_or_text (b_client_order_id (demo_replacement ?new)) ?new) = None"
    using new by (simp add: db db_order_def map_of_eq_None_iff demo_replacement_def opt_or_text_def)
  show ?thesis
    unfolding demo_modify_def
    by (rule modify_order_accepted [OF checks seq, where bo = "demo_replacement ?new" and bid = "''b1''"
          and b = "(demo_broker (BrokerOtherError []))\<lparr>bk_replace := (\<lambda>bid m cid. Inr (demo_replacement cid))\<rparr>"])
      (use demo_live_facts(2) order free in \<open>simp_all add: db demo_modify_env_def demo_payload_def
        demo_replacement_def opt_or_text_def ORDER_STATUSES_def\<close>)
qed

theorem replacement_past_gates_witness:
  "\<exists>order. get_order_by_client_id ''o1'' (gw_db demo_live) = Inr (Some order) \<and>
     o_status order \<in> set MODIFIABLE_STATUSES"
proof -
  obtain resp w' where run: "demo_modify demo_live = (Inr (200, resp), w')" "gw_replaced w' \<noteq> gw_replaced demo_live"
    using demo_modify_accepted by blast
  from replacement_past_gates [OF run(1) [unfolded demo_modify_def] run(2)] show ?thesis by blast
qed

theorem only_risk_reducing_modifications_witness:
  "\<exists>order. db_order (gw_db demo_engaged) ''o1'' = Some order \<and>
     \<bar>get_position_by_symbol (o_symbol order) (gw_db demo_engaged) + signed_by_side (o_side order) 8\<bar> <
     \<bar>get_position_by_symbol (o_symbol order) (gw_db demo_engaged) + signed_by_side (o_side order) (o_qty order)\<bar>"
proof -
  obtain resp w' where run: "demo_modify demo_engaged = (Inr (200, resp), w')"
    "gw_replaced w' \<noteq> gw_replaced demo_engaged"
    using demo_modify_accepted by blast
  have "mr_qty demo_payload = Some 8" by (simp add: demo_payload_def)
  with only_risk_reducing_modifications [OF run(1) [unfolded demo_modify_def] run(2)] demo_live_facts(3)
  show ?thesis by auto
qed

lemma demo_no_record:
  "get_modification_by_idempotency_key ''o1'' (mr_idempotency_key demo_payload) (gw_db demo_live) = None"
  using demo_live_facts(2) by (simp add: get_modification_by_idempotency_key_def)

theorem modification_completes_witness:
  "\<exists>orig. db_order (gw_db (snd (demo_modify demo_live))) ''o1'' = Some orig \<and> o_status orig = ''replaced'' \<and>
     o_is_terminal orig"
proof -
  obtain resp w' where run: "demo_modify demo_live = (Inr (200, resp), w')"
    using demo_modify_accepted by blast
  from modification_completes [OF run [unfolded demo_modify_def] demo_no_record] run show ?thesis by auto
qed

theorem modification_is_idempotent_witness:
  "snd (demo_modify (snd (demo_modify demo_live))) = snd (demo_modify demo_live)"
proof -
  obtain resp w' where run: "demo_modify demo_live = (Inr (200, resp), w')"
    using demo_modify_accepted by blast
  from modification_is_idempotent [OF run [unfolded demo_modify_def] refl, where env' = demo_modify_env
      and rv' = demo_recovery and mid' = "''m1''" and locked' = False]
  obtain resp' where "demo_modify w' = (Inr (200, resp'), w')" unfolding demo_modify_def by blast
  with run show ?thesis by simp
qed

theorem cancel_after_broker_witness:
  "\<exists>ok. gw_canceled (snd (cancel_order demo_modify_env demo_auth ''o1'' demo_live)) =
     gw_canceled demo_live @ [(''b1'', Inr ok)]"
proof -
  let ?r = "cancel_order demo_modify_env demo_auth ''o1'' demo_live"
  have facts: "map_option (\<lambda>r. (o_status r \<in> set TERMINAL_STATUSES, o_broker_order_id r))
      (db_order (gw_db demo_live) ''o1'') = Some (False, Some ''b1'')"
    "map_sum id fst (fst ?r) = Inr ''canceled''"
    by code_simp+
  then obtain order where order: "db_order (gw_db demo_live) ''o1'' = Some order"
    "o_status order \<notin> set TERMINAL_STATUSES" "o_broker_order_id order = Some ''b1''" by auto
  obtain x w' where run: "?r = (x, w')" by (metis prod.exhaust)
  have live: "\<not> sv_dry_run demo_modify_env" by (simp add: demo_modify_env_def demo_env_def)
  from cancel_after_broker [OF run order(1,2)] facts(2) run live order(3) show ?thesis by auto
qed

section \<open>What the protocol leaves open\<close>

text \<open>
  Contention is answered with a database error and not with 409 or the stored answer: the lookup after
  the refused lock runs in the aborted transaction.
\<close>

lemma contended_modification_fails:
  assumes "db_order d cid \<noteq> None"
    "get_modification_by_idempotency_key cid (mr_idempotency_key payload) d = None"
  shows "acquire_modification_lock now True mid a cid order payload changes d =
    (Inl (DatabaseError ''current transaction is aborted''), d)"
  using assms by (simp add: acquire_modification_lock_def get_next_modification_seq_def)

text \<open>
  The lock is held during phase 1 only: a second request with another key gets its own record and
  identifier while the first is still pending, and goes on to the broker.
\<close>

lemma two_modifications_in_flight:
  assumes row: "db_order d cid \<noteq> None"
    and key: "get_modification_by_idempotency_key cid (mr_idempotency_key payload) d = None"
    and mid: "mid \<notin> md_id ` set (db_modifications d)"
    and pending: "m \<in> set (db_modifications d)" "md_original_client_order_id m = cid" "md_status m = ''pending''"
  shows "\<exists>sq d'. acquire_modification_lock now False mid a cid order payload
      (compute_modification_changes order payload) d =
      (Inr (Acquired mid (generate_replacement_order_id cid sq)), d') \<and> sq \<noteq> md_modification_seq m \<and>
    m \<in> set (db_modifications d')"
proof -
  obtain sq where sq: "get_next_modification_seq False cid d = Some sq"
    by (simp add: get_next_modification_seq_def)
  show ?thesis
    using acquire_fresh [OF row key sq mid, of now a order] next_seq_fresh [OF sq pending(1,2)] pending(1)
    by (intro exI [of _ sq]) auto
qed

text \<open>
  A replacement that could not be recorded is marked, and the reconciliation, which reads the records
  that are pending, never takes it up.
\<close>

lemma unconfirmed_modification_not_recovered:
  assumes "finalize_modification_in_db now cid order mid bo new_id q d = (Inl e, d')"
    "m \<in> set (db_modifications d')" "md_id m = mid"
  shows "md_status m = ''submitted_unconfirmed''" "m \<notin> set (get_pending_modifications_older_than t d')"
proof -
  have "md_status m = ''submitted_unconfirmed''"
  proof -
    obtain u d0 where rec: "finalize_records now cid order mid bo new_id q d = (u, d0)" by (metis prod.exhaust)
    obtain e' where u: "u = Inl e'"
      using assms(1) by (cases u) (simp_all add: finalize_modification_in_db_def rec)
    have d': "d' = update_modification_status now mid ''submitted_unconfirmed'' (Some ''db_finalize_failed'') d0"
      using assms(1) by (simp add: finalize_modification_in_db_def rec u)
    have "m \<in> (\<lambda>x. x\<lparr>md_status := ''submitted_unconfirmed'',
        md_error_message := Some ''db_finalize_failed'', md_modified_at := now\<rparr>) `
          (set (db_modifications d0) \<inter> {m. md_id m = mid}) \<or>
        m \<in> set (db_modifications d0) \<and> md_id m \<noteq> mid"
      using assms(2) unfolding d' update_modification_status_def by simp
    with assms(3) show ?thesis by (elim disjE imageE) simp_all
  qed
  then show "md_status m = ''submitted_unconfirmed''" "m \<notin> set (get_pending_modifications_older_than t d')"
    by (simp_all add: get_pending_modifications_older_than_def)
qed

text \<open>
  The broker replaces the order, its answer is lost, and the client's own retry is refused because the
  order has been replaced: the record is failed, the row stays live and the replacement is unknown.
\<close>

lemma lost_replacement_is_reported_as_rejection:
  assumes "api_replace api bid req s = (NetworkError msg, s1)"
    "api_replace api bid req s1 = (ApiError (Some 422) msg', s2)"
  shows "with_retry (replace_attempt api bid req) s = (Inl (AlpacaRejectionError msg'), s2)"
  using assms by (simp add: with_retry_def RETRY_ATTEMPTS_def replace_attempt_def numeral_2_eq_2)

end
