(* ===== verification/Gateway.thy ===== *)
theory Gateway
  imports Modify_Order
begin

text \<open>
  The execution gateway as one system: submissions, modifications and cancellations of orders
  (\<^verbatim>\<open>routes/orders.py\<close>), broker webhooks
  (\<^verbatim>\<open>routes/webhooks.py\<close>) and reconciliation runs (\<^verbatim>\<open>reconciliation/service.py\<close>) on the Redis and the
  database they share, in any order.  The database part of every component keeps the rows of the
  orders, so that an identifier that was sent once can never be inserted, and sent, again.
\<close>

section \<open>Rows stay: fills, webhooks, reconciliation\<close>

lemma keeps_orders: "db_orders d' = db_orders d \<Longrightarrow> keeps d d'"
  by (simp add: keeps_def db_order_def)

lemma keeps_other [simp, intro]:
  "keeps d (set_high_water_mark t n d)"
  "keeps d (create_orphan_order b c s st sd q nl stt d)"
  "keeps d (update_orphan_order_status b stt ra d)"
  "keeps d (update_modification_status now m stt e d)"
  "keeps d (finalize_modification now m bb stt c d)"
  "keeps d (snd (recalculate_trade_realized_pnl y s a u d))"
  by (simp_all add: keeps_orders set_high_water_mark_def create_orphan_order_def
      update_orphan_order_status_def update_modification_status_def finalize_modification_def
      recalculate_trade_realized_pnl_def Let_def split: option.splits)

lemma keeps_write_position: "keeps d (snd (write_position s row d))"
  by (simp add: keeps_orders write_position_def db_set_position_def)

lemma keeps_snapshot [simp, intro]: "keeps d (snd (upsert_position_snapshot s q a p t d))"
  by (simp add: upsert_position_snapshot_def keeps_write_position Let_def)

lemma keeps_append [simp, intro]: "keeps d (snd (append_fill_to_order_metadata now cid f d))"
  by (auto simp: append_fill_to_order_metadata_def Let_def keeps_def split: option.splits sum.splits)

lemma keeps_fold: "(\<And>x d. keeps d (f x d)) \<Longrightarrow> keeps d (fold f xs d)"
  by (induction xs arbitrary: d) (auto intro: keeps_trans)

lemma keeps_fold_snd: "(\<And>x n d. keeps d (snd (f x (n, d)))) \<Longrightarrow> keeps d (snd (fold f xs (n, d)))"
proof (induction xs arbitrary: n d)
  case (Cons x xs)
  obtain n1 d1 where f: "f x (n, d) = (n1, d1)" by (metis prod.exhaust)
  have "keeps d d1" using Cons.prems [of d x n] f by simp
  then show ?case using keeps_trans Cons.IH [OF Cons.prems, of d1 n1] by (simp add: f)
qed simp

lemma keeps_position_on_fill [simp, intro]:
  "keeps d (snd (update_position_on_fill_with_conn now s q p sd d))"
  by (simp add: update_position_on_fill_with_conn_def keeps_write_position Let_def split: prod.splits)

lemma keeps_increment: "apply_increment now cid order q i p t d = (x, d') \<Longrightarrow> keeps d d'"
proof -
  assume run: "apply_increment now cid order q i p t d = (x, d')"
  obtain pos d1 where u: "update_position_on_fill_with_conn now (o_symbol order) i p (o_side order) d = (pos, d1)"
    by (metis prod.exhaust)
  have "keeps d d1" using keeps_position_on_fill [of d now "o_symbol order" i p "o_side order"] u by simp
  then show ?thesis
    using run keeps_trans [OF _ keeps_append] by (cases pos) (auto simp: apply_increment_def Let_def u)
qed

lemma keeps_status_with_conn [simp, intro]:
  "keeps d (snd (update_order_status_with_conn now cid st q p ft bid t rk pr ev d))"
  by (auto simp: update_order_status_with_conn_def split: option.splits prod.splits sum.splits
      dest: keeps_where')

lemma keeps_status_with_conn':
  "update_order_status_with_conn now cid st q p ft bid t rk pr ev d = (x, d') \<Longrightarrow> keeps d d'"
  using keeps_status_with_conn [of d now cid st q p ft bid t rk pr ev] by simp

lemma keeps_webhook: "keeps d (snd (process_webhook fromiso now p d))"
proof -
  have status: "keeps d (snd (handle_status_update fromiso now p cid d))" for cid
    by (auto simp: handle_status_update_def split: sum.splits option.splits prod.splits dest: keeps_cas')
  have fill: "keeps d (snd (handle_fill fromiso now p cid q a d))" for cid q a
    by (auto simp: handle_fill_def Let_def split: sum.splits option.splits prod.splits if_splits
        dest!: keeps_status_with_conn' keeps_increment intro: keeps_trans)
  show ?thesis
    by (auto simp: process_webhook_def status fill split: option.splits num_field.splits)
qed

lemma keeps_backfill [simp, intro]: "keeps d (snd (backfill_fill_metadata ds now cid bo t c d))"
  by (auto simp: backfill_fill_metadata_def Let_def split: option.splits sum.splits)

lemma keeps_apply_update: "apply_broker_update ds now cid bo d = (x, d') \<Longrightarrow> keeps d d'"
  by (auto simp: apply_broker_update_def Let_def split: prod.splits sum.splits option.splits if_splits
      dest!: keeps_cas' intro: keeps_trans [OF _ keeps_backfill])

lemma keeps_known: "reconcile_known_orders ds now rs by_client d = (x, d') \<Longrightarrow> keeps d d'"
  by (induction rs arbitrary: d x d')
    (auto split: option.splits prod.splits sum.splits dest!: keeps_apply_update intro: keeps_trans)

lemma keeps_missing: "missing_loop ds now lookup after mx gr rs c d = (x, d') \<Longrightarrow> keeps d d'"
  by (induction rs arbitrary: c d x d')
    (auto simp: Let_def split: if_splits option.splits sum.splits prod.splits
      dest!: keeps_apply_update keeps_cas' intro: keeps_trans)

lemma keeps_terminal_fills [simp, intro]:
  "keeps d (snd (backfill_terminal_fills ds now by_client known d))"
  unfolding backfill_terminal_fills_def by (rule keeps_fold_snd) (auto split: prod.splits)

lemma keeps_from_order:
  "backfill_fill_metadata_from_order ds now r d = (x, d') \<Longrightarrow> keeps d d'"
  by (auto simp: backfill_fill_metadata_from_order_def Let_def split: option.splits sum.splits)

lemma keeps_scan [simp, intro]: "keeps d (snd (backfill_missing_fills_scan ds now cap d))"
  unfolding backfill_missing_fills_scan_def Let_def
  by (auto intro!: keeps_fold_snd split: prod.splits dest: keeps_from_order)

lemma keeps_upserts: "upsert_positions now xs d = (x, d') \<Longrightarrow> keeps d d'"
proof (induction now xs d rule: upsert_positions.induct)
  case (2 now s q a c xs d)
  obtain y d1 where up: "upsert_position_snapshot s q a c now d = (y, d1)" by (metis prod.exhaust)
  have "keeps d d1" using keeps_snapshot [of d s q a c now] up by simp
  with 2 up show ?case by (cases y) (auto intro: keeps_trans)
qed simp

lemma keeps_positions: "reconcile_positions now ps d = (x, d') \<Longrightarrow> keeps d d'"
  by (auto simp: reconcile_positions_def Let_def split: sum.splits prod.splits
      dest!: keeps_upserts intro: keeps_trans)

lemma keeps_append_fold:
  "keeps d (snd (fold (\<lambda>(c, f) (n, d). let (row, d') = append_fill_to_order_metadata now c f d
      in (if row \<noteq> None then Suc n else n, d')) xs (n, d)))"
  by (rule keeps_fold_snd) (auto split: prod.splits, metis keeps_append snd_conv)

lemma keeps_recalculate_fold:
  "keeps d (snd (fold (\<lambda>(s, y) (n, d). let ((total, k), d') = recalculate_trade_realized_pnl s y ra None d
      in (n + k, d')) xs (n, d)))"
  by (rule keeps_fold_snd) (auto split: prod.splits, metis keeps_other(6) snd_conv)

lemma keeps_if: "keeps d a \<Longrightarrow> keeps d b \<Longrightarrow> keeps d (if P then a else b)"
  by simp

lemma keeps_sum: "(\<And>e. keeps d (f e)) \<Longrightarrow> (\<And>a. keeps d (g a)) \<Longrightarrow> keeps d (case x of Inl e \<Rightarrow> f e | Inr a \<Rightarrow> g a)"
  by (cases x) simp_all

lemma keeps_fills [simp, intro]: "keeps d (snd (backfill_alpaca_fills dec parse_time cfg now api lb ra d))"
  unfolding backfill_alpaca_fills_def Let_def case_prod_beta if_distrib [of snd] sum.case_distrib [of snd] snd_conv
  by (intro keeps_if keeps_sum keeps_refl keeps_other(1)
      keeps_trans [OF keeps_trans [OF keeps_append_fold [unfolded Let_def case_prod_beta]
        keeps_recalculate_fold [unfolded Let_def case_prod_beta]] keeps_other(1)])

lemma keeps_recover:
  "recover_modifications now lookup ms d = (x, d') \<Longrightarrow> keeps d d'"
proof -
  have ins: "keeps d d'" if "insert_replacement_order now cid rid sid q st bid d = (x, d')" for cid rid sid q st bid d x d'
    using that by (auto simp: insert_replacement_order_def Let_def split: option.splits sum.splits)
  have simple: "keeps d d'" if "update_order_status_simple_with_conn now cid st d = (x, d')" for cid st d x d'
    using that by (auto simp: update_order_status_simple_with_conn_def split: prod.splits option.splits sum.splits
        dest: keeps_where')
  have one: "keeps d d'" if "recover_modification now lookup m d = (x, d')" for m d x d'
    using that by (auto simp: recover_modification_def Let_def split: sum.splits option.splits if_splits
        prod.splits py_error.splits dest!: ins simple intro: keeps_trans [OF keeps_trans [OF keeps_other(5)]])
  show "recover_modifications now lookup ms d = (x, d') \<Longrightarrow> keeps d d'"
    by (induction ms arbitrary: d x d') (auto split: prod.splits sum.splits dest!: one intro: keeps_trans)
qed

lemma keeps_orphans:
  "keeps d (fst (snd (detect_orphans ds now os rs known (d, r))))"
proof -
  have one: "keeps d (fst (snd (handle_orphan_order ds now rt bo (d, r))))" for rt bo d r
    by (auto simp: handle_orphan_order_def Let_def split: option.splits
        intro: keeps_trans [OF keeps_other(2) keeps_other(3)])
  have loop: "keeps d (fst (snd (detect_orphans_in ds now rt known xs (n, d, r))))" for rt xs n d r
  proof (induction xs arbitrary: n d r)
    case (Cons bo xs)
    obtain ok d1 r1 where h: "handle_orphan_order ds now rt bo (d, r) = (ok, d1, r1)"
      by (metis prod_cases3)
    have "keeps d d1" using one [of d rt bo r] h by simp
    then show ?case
      using Cons.IH [where n = n and d = d and r = r]
        keeps_trans [OF _ Cons.IH [where n = "if ok then Suc n else n" and d = d1 and r = r1]] h
      by (simp add: detect_orphans_in_def)
  qed (simp add: detect_orphans_in_def)
  obtain n1 d1 r1 where first: "detect_orphans_in ds now False known os (0, d, r) = (n1, d1, r1)"
    by (metis prod_cases3)
  have "keeps d d1" using loop [where d = d and rt = False and xs = os and n = 0 and r = r] first by simp
  then show ?thesis
    using keeps_trans [OF _ loop [where d = d1 and rt = True and xs = rs and n = n1 and r = r1]] first by (simp add: detect_orphans_def)
qed

lemma keeps_reconcile_with:
  assumes "reconcile_with e now mode after os rs (d, r) = (x, d', r')"
  shows "keeps d d'"
proof -
  let ?by_client = "merge_broker_orders os rs"
  let ?rows = "get_non_terminal_orders None d"
  let ?known = "get_order_ids_by_client_ids (extract_broker_client_ids (os @ rs)) d"
  note run = assms [unfolded reconcile_with_def Let_def prod.case]
  show ?thesis
  proof (cases "\<exists>row \<in> set ?rows. o_status row \<notin> set ORDER_STATUSES")
    case True
    from run [unfolded if_P [OF True]] show ?thesis by simp
  next
    case False
    note run = run [unfolded if_not_P [OF False]]
    obtain x1 d1 where 1: "reconcile_known_orders (e_dec_str e) now ?rows ?by_client d = (x1, d1)"
      by (metis prod.exhaust)
    note k1 = keeps_known [OF 1]
    note run = run [unfolded 1 prod.case]
    show ?thesis
    proof (cases x1)
      case (Inl err)
      from run [unfolded Inl sum.case] k1 show ?thesis by simp
    next
      case x1: (Inr a)
      obtain x2 d2 where 2: "reconcile_missing_orders (e_dec_str e) now (e_lookup e) after (e_max_lookups e)
          (e_grace_seconds e) ?rows d1 = (x2, d2)"
        by (metis prod.exhaust)
      have k2: "keeps d d2"
        using k1 keeps_missing [OF 2 [unfolded reconcile_missing_orders_def]] by (rule keeps_trans)
      note run = run [unfolded x1 sum.case 2 prod.case]
      show ?thesis
      proof (cases x2)
        case (Inl err)
        from run [unfolded Inl sum.case] k2 show ?thesis by simp
      next
        case x2: (Inr b)
        obtain n d3 r3 where 3: "detect_orphans (e_dec_str e) now os rs ?known (d2, r) = (n, d3, r3)"
          by (metis prod_cases3)
        have k3: "keeps d d3"
          using keeps_trans [OF k2 keeps_orphans [of d2 "e_dec_str e" now os rs ?known r]]
          by (simp only: 3 fst_conv snd_conv)
        note run = run [unfolded x2 sum.case 3 prod.case]
        let ?d4 = "snd (backfill_terminal_fills (e_dec_str e) now ?by_client ?known d3)"
        let ?d5 = "snd (backfill_alpaca_fills (e_dec_of e) (e_fromiso e) (e_backfill e) now (e_activities e) None False ?d4)"
        have k5: "keeps d ?d5"
          by (rule keeps_trans [OF keeps_trans [OF k3 keeps_terminal_fills] keeps_fills])
        obtain x6 d6 where 6: "reconcile_positions now (e_positions e) ?d5 = (x6, d6)"
          by (metis prod.exhaust)
        have k6: "keeps d d6" using k5 keeps_positions [OF 6] by (rule keeps_trans)
        note run = run [unfolded 6 prod.case]
        let ?d7 = "snd (backfill_missing_fills_scan (e_dec_str e) now 200 d6)"
        obtain x8 d8 where 8: "reconcile_pending_modifications now (e_lookup e) ?d7 = (x8, d8)"
          by (metis prod.exhaust)
        have k8: "keeps d d8"
          using keeps_trans [OF k6 keeps_scan] keeps_recover [OF 8 [unfolded reconcile_pending_modifications_def]]
          by (rule keeps_trans)
        from run [unfolded 8 prod.case] show ?thesis
          using k6 k8 keeps_trans [OF k8 keeps_other(1)] by (cases x6; cases x8) auto
      qed
    qed
  qed
qed

lemma keeps_reconciliation:
  assumes "run_reconciliation e now mode (d, r) = (x, d', r')"
  shows "keeps d d'"
  using assms keeps_reconcile_with
  by (auto simp: run_reconciliation_def Let_def split: sum.splits prod.splits)

section \<open>Rows stay: modifications and cancellations\<close>

lemma keeps_insert_replacement:
  "insert_replacement_order now cid rid sid q st bid d = (x, d') \<Longrightarrow> keeps d d'"
  by (auto simp: insert_replacement_order_def Let_def split: option.splits sum.splits)

lemma keeps_simple:
  "update_order_status_simple_with_conn now cid st d = (x, d') \<Longrightarrow> keeps d d'"
  by (auto simp: update_order_status_simple_with_conn_def split: option.splits prod.splits sum.splits
      dest: keeps_where')

lemma keeps_finalize_records: "finalize_records now cid order mid bo new_id q d = (x, d') \<Longrightarrow> keeps d d'"
proof -
  assume run: "finalize_records now cid order mid bo new_id q d = (x, d')"
  let ?d1 = "finalize_modification now mid (b_id bo) ''completed'' (Some new_id) d"
  obtain y d2 where simple: "update_order_status_simple_with_conn now cid ''replaced'' ?d1 = (y, d2)"
    by (metis prod.exhaust)
  have "keeps d d2" using keeps_other(5) keeps_simple [OF simple] by (rule keeps_trans)
  then show ?thesis
    using run simple
    by (auto simp: finalize_records_def split: sum.splits prod.splits
        intro: keeps_trans dest!: keeps_insert_replacement)
qed

lemma keeps_finalize: "finalize_modification_in_db now cid order mid bo new_id q d = (x, d') \<Longrightarrow> keeps d d'"
proof -
  assume run: "finalize_modification_in_db now cid order mid bo new_id q d = (x, d')"
  obtain y d1 where rec: "finalize_records now cid order mid bo new_id q d = (y, d1)" by (metis prod.exhaust)
  have "keeps d1 d'"
    using run rec by (cases y) (auto simp: finalize_modification_in_db_def)
  with keeps_finalize_records [OF rec] show ?thesis by (rule keeps_trans)
qed

text \<open>A modification and a cancellation send no order and remove no row.\<close>

definition sends_nothing :: "gateway \<Rightarrow> gateway \<Rightarrow> bool" where
  "sends_nothing w w' \<longleftrightarrow> gw_sent w' = gw_sent w \<and> keeps (gw_db w) (gw_db w')"

lemma sends_nothing_refl [simp, intro]: "sends_nothing w w"
  by (simp add: sends_nothing_def)

lemma sends_nothing_trans [trans]: "sends_nothing w w1 \<Longrightarrow> sends_nothing w1 w2 \<Longrightarrow> sends_nothing w w2"
  unfolding sends_nothing_def by (metis keeps_trans)

lemma sends_nothing_fail: "sends_nothing w (snd (fail_modification now mid msg e w))"
  by (simp add: sends_nothing_def fail_modification_def)

lemma sends_nothing_fail_redis: "sends_nothing w (snd (fail_modification now mid msg e (w\<lparr>gw_redis := r\<rparr>)))"
  by (simp add: sends_nothing_def fail_modification_def)

lemma sends_nothing_failD: "fail_modification now mid msg e w = (x, w') \<Longrightarrow> sends_nothing w w'"
  using sends_nothing_fail [of w now mid msg e] by (auto simp: fail_modification_def)

lemma sends_nothing_reserve: "reserve_modify_delta env rv order payload w = (x, w') \<Longrightarrow> sends_nothing w w'"
  by (auto simp: sends_nothing_def reserve_modify_delta_def split: option.splits if_splits sum.splits prod.splits)

lemma sends_nothing_refused: "sends_nothing w (snd (replace_refused env rv order mid tok msg code w))"
  by (simp add: replace_refused_def sends_nothing_fail sends_nothing_fail_redis
      split: option.splits sum.splits prod.splits)

lemma sends_nothing_replace: "call_broker_replace env rv b order payload new_id mid tok w = (x, w') \<Longrightarrow> sends_nothing w w'"
proof -
  assume run: "call_broker_replace env rv b order payload new_id mid tok w = (x, w')"
  have refused: "sends_nothing w (snd (replace_refused env rv order mid tok msg code (w\<lparr>gw_replaced := l\<rparr>)))"
    for msg code l
    using sends_nothing_refused [of "w\<lparr>gw_replaced := l\<rparr>"] by (simp add: sends_nothing_def)
  have "sends_nothing w (snd (call_broker_replace env rv b order payload new_id mid tok w))"
  proof (cases "o_broker_order_id order")
    case None
    then show ?thesis by (simp add: call_broker_replace_def)
  next
    case (Some bid)
    show ?thesis
    proof (cases "bk_replace b bid payload new_id")
      case (Inl e)
      with Some refused show ?thesis
        by (cases e) (simp_all add: call_broker_replace_def Let_def, simp_all add: sends_nothing_def)
    next
      case (Inr bo)
      with Some show ?thesis
        by (simp add: call_broker_replace_def Let_def sends_nothing_def split: option.splits sum.splits prod.splits)
    qed
  qed
  then show ?thesis by (simp add: run)
qed

lemma sends_nothing_acquired:
  "modify_acquired env rv cid order payload mid new_id w = (x, w') \<Longrightarrow> sends_nothing w w'"
proof -
  assume run: "modify_acquired env rv cid order payload mid new_id w = (x, w')"
  obtain y w1 where res: "reserve_modify_delta env rv order payload w = (y, w1)" by (metis prod.exhaust)
  note s1 = sends_nothing_reserve [OF res]
  note fail = sends_nothing_trans [OF s1 sends_nothing_failD]
  show ?thesis
  proof (cases "sv_alpaca env")
    case None
    then show ?thesis using run sends_nothing_failD by (fastforce simp: modify_acquired_def)
  next
    case (Some b)
    show ?thesis
    proof (cases y)
      case (Inl e)
      then show ?thesis
        using run Some res s1 by (cases e) (auto simp: modify_acquired_def dest: fail)
    next
      case (Inr tok)
      obtain z w2 where call: "call_broker_replace env rv b order payload new_id mid tok w1 = (z, w2)"
        by (metis prod.exhaust)
      note s2 = sends_nothing_trans [OF s1 sends_nothing_replace [OF call]]
      have fin: "sends_nothing w (w2\<lparr>gw_db := d3\<rparr>)"
        if "finalize_modification_in_db now cid order mid bo i q (gw_db w2) = (v, d3)" for now bo i q v d3
        using s2 keeps_trans [OF _ keeps_finalize [OF that]] by (simp add: sends_nothing_def)
      show ?thesis
        using run Some res Inr call s1 s2
        by (auto simp: modify_acquired_def Let_def split: if_splits sum.splits prod.splits dest!: fin)
    qed
  qed
qed

lemma sends_nothing_modify: "sends_nothing w (snd (modify_order env rv a mid locked cid payload w))"
proof (cases rule: modify_order_cases [of env rv a mid locked cid payload w])
  case (acquired order sq)
  let ?w = "w\<lparr>gw_db := (gw_db w)\<lparr>db_modifications :=
      db_modifications (gw_db w) @ [pending_row (sv_now env) mid a cid order payload sq]\<rparr>\<rparr>"
  have "sends_nothing w ?w" by (simp add: sends_nothing_def keeps_orders)
  from sends_nothing_trans [OF this sends_nothing_acquired] show ?thesis
    using acquired(4) by (metis prod.collapse)
qed simp_all

lemma sends_nothing_cancel: "sends_nothing w (snd (cancel_order env a cid w))"
proof -
  have broker: "sends_nothing w w1" if "cancel_at_broker env order w = (y, w1)" for order y w1
    using that
    by (auto simp: cancel_at_broker_def sends_nothing_def Let_def split: if_splits option.splits sum.splits)
  have cas: "sends_nothing w (w1\<lparr>gw_db := d2\<rparr>)"
    if "cancel_at_broker env order w = (y, w1)" "update_order_status_cas n u (gw_db w1) = (z, d2)" for order y w1 n u z d2
    using broker [OF that(1)] keeps_cas' [OF that(2)] unfolding sends_nothing_def by (auto intro: keeps_trans)
  show ?thesis
    by (auto simp: cancel_order_def split: sum.splits prod.splits intro: broker cas)
qed

section \<open>The gateway as a state machine\<close>

text \<open>
  \<open>ERedis\<close> is anything else that happens to Redis: operators, expiry, other services.  What a
  submission meets between its idempotency check and its insertion is part of its surroundings.
\<close>

datatype gateway_event =
    ESubmit submit_env recovery_state order_request
  | EModify submit_env recovery_state auth_context string bool string order_modify_request
  | ECancel submit_env auth_context string
  | EWebhook "string \<Rightarrow> rat option" rat webhook_payload
  | EReconcile recon_env rat string
  | ERedis "redis \<Rightarrow> redis"

definition reconcile_gateway :: "recon_env \<Rightarrow> rat \<Rightarrow> string \<Rightarrow> gateway \<Rightarrow> gateway" where
  "reconcile_gateway e now mode w =
     (case run_reconciliation e now mode (gw_db w, Some (gw_redis w)) of
        (_, d', r') \<Rightarrow> w\<lparr>gw_db := d', gw_redis := (case r' of Some r \<Rightarrow> r | None \<Rightarrow> gw_redis w)\<rparr>)"

fun gateway_step :: "gateway_event \<Rightarrow> gateway \<Rightarrow> gateway" where
  "gateway_step (ESubmit env rv order) w = snd (submit_order env rv order w)"
| "gateway_step (EModify env rv a mid locked cid payload) w =
     snd (modify_order env rv a mid locked cid payload w)"
| "gateway_step (ECancel env a cid) w = snd (cancel_order env a cid w)"
| "gateway_step (EWebhook fromiso now p) w = w\<lparr>gw_db := snd (process_webhook fromiso now p (gw_db w))\<rparr>"
| "gateway_step (EReconcile e now mode) w = reconcile_gateway e now mode w"
| "gateway_step (ERedis f) w = w\<lparr>gw_redis := f (gw_redis w)\<rparr>"

inductive gateway_reach :: "gateway \<Rightarrow> gateway_event list \<Rightarrow> gateway \<Rightarrow> bool" for w0 where
  gateway_start: "gateway_reach w0 [] w0"
| gateway_next: "gateway_reach w0 evs w \<Longrightarrow> gateway_reach w0 (evs @ [ev]) (gateway_step ev w)"

inductive_cases gateway_reach_snoc: "gateway_reach w0 (evs @ [ev]) w"

text \<open>The other requests a submission may overlap with remove no rows.\<close>

fun event_ok :: "gateway_event \<Rightarrow> bool" where
  "event_ok (ESubmit env rv order) = (\<forall>d. keeps d (sv_meanwhile env d))"
| "event_ok _ = True"

text \<open>Every identifier that was sent has a row, and was sent once.\<close>

definition sent_once :: "gateway \<Rightarrow> bool" where
  "sent_once w \<longleftrightarrow>
     distinct (map fst (gw_sent w)) \<and> (\<forall>c \<in> set (map fst (gw_sent w)). db_order (gw_db w) c \<noteq> None)"

lemma sent_once_keeps:
  "sent_once w \<Longrightarrow> gw_sent w' = gw_sent w \<Longrightarrow> keeps (gw_db w) (gw_db w') \<Longrightarrow> sent_once w'"
  by (auto simp: sent_once_def keeps_def)

lemma sent_once_submit:
  assumes "sent_once w" "\<forall>d. keeps d (sv_meanwhile env d)"
  shows "sent_once (snd (submit_order env rv order w))"
proof (cases rule: submit_order_cases [of env rv order w])
  case (stopped e)
  with assms show ?thesis by simp
next
  case (held res r1)
  let ?cid = "submit_order_id env order"
  obtain x w' where run: "submit_reserved env order ?cid (sv_token env) (w\<lparr>gw_redis := r1\<rparr>) = (x, w')"
    by (metis prod.exhaust)
  have k: "keeps (gw_db w) (gw_db w')"
    using submit_reserved_sent(2) [OF run] assms(2) by simp
  have "gw_sent w' = gw_sent w \<or> db_order (gw_db w) ?cid = None \<and> db_order (gw_db w') ?cid \<noteq> None \<and>
      (\<exists>y. gw_sent w' = gw_sent w @ [(?cid, y)])"
    using submit_reserved_sent(1) [OF run] by auto
  then have "sent_once w'"
  proof (elim disjE conjE exE)
    assume "gw_sent w' = gw_sent w"
    with assms(1) k show ?thesis by (blast intro: sent_once_keeps)
  next
    fix y
    assume "db_order (gw_db w) ?cid = None" "db_order (gw_db w') ?cid \<noteq> None"
      "gw_sent w' = gw_sent w @ [(?cid, y)]"
    then show ?thesis
      using assms(1) k unfolding sent_once_def keeps_def by auto
  qed
  then show ?thesis using held(5) run by simp
qed

lemma sent_once_nothing: "sent_once w \<Longrightarrow> sends_nothing w w' \<Longrightarrow> sent_once w'"
  unfolding sends_nothing_def by (blast intro: sent_once_keeps)

lemma sent_once_step: "sent_once w \<Longrightarrow> event_ok ev \<Longrightarrow> sent_once (gateway_step ev w)"
proof (cases ev)
  case (EReconcile e now mode)
  assume "sent_once w"
  moreover obtain x d' r' where run: "run_reconciliation e now mode (gw_db w, Some (gw_redis w)) = (x, d', r')"
    by (metis prod_cases3)
  ultimately show ?thesis
    using keeps_reconciliation [OF run] by (auto simp: EReconcile reconcile_gateway_def run intro: sent_once_keeps)
qed (auto simp: sent_once_submit keeps_webhook intro: sent_once_keeps
      sent_once_nothing [OF _ sends_nothing_modify] sent_once_nothing [OF _ sends_nothing_cancel])

section \<open>Properties\<close>

text \<open>C1. At most once: in any interleaving of submissions, whatever they overlap with,
  modifications, cancellations, webhooks, reconciliation runs and changes of Redis, an identifier is sent to the broker at most once, and
  every identifier that was sent has its row in the database.\<close>

theorem sent_to_broker_at_most_once:
  assumes "gateway_reach w0 evs w" "gw_sent w0 = []" "\<forall>ev \<in> set evs. event_ok ev"
  shows "distinct (map fst (gw_sent w)) \<and>
     (\<forall>c \<in> set (map fst (gw_sent w)). db_order (gw_db w) c \<noteq> None)"
proof -
  have "sent_once w"
    using assms
  proof (induction rule: gateway_reach.induct)
    case gateway_start
    then show ?case by (simp add: sent_once_def)
  next
    case (gateway_next evs w ev)
    then show ?case by (intro sent_once_step) auto
  qed
  then show ?thesis by (simp add: sent_once_def)
qed

lemma demo_retries:
  "gateway_reach demo_gateway
     (([] @ [ESubmit (demo_env (BrokerAccepted (Some ''b1'')) ''t1'') demo_recovery demo_submission]) @
      [ESubmit (demo_env (BrokerAccepted (Some ''b2'')) ''t2'') demo_recovery demo_submission])
     (gateway_step (ESubmit (demo_env (BrokerAccepted (Some ''b2'')) ''t2'') demo_recovery demo_submission)
       (gateway_step (ESubmit (demo_env (BrokerAccepted (Some ''b1'')) ''t1'') demo_recovery demo_submission)
         demo_gateway))"
  by (intro gateway_next gateway_start)

theorem sent_to_broker_at_most_once_witness:
  "distinct (map fst (gw_sent (gateway_step
      (ESubmit (demo_env (BrokerAccepted (Some ''b2'')) ''t2'') demo_recovery demo_submission)
      (gateway_step (ESubmit (demo_env (BrokerAccepted (Some ''b1'')) ''t1'') demo_recovery demo_submission)
         demo_gateway))))"
  using sent_to_broker_at_most_once [OF demo_retries] by (simp add: demo_gateway_def demo_env_def)

text \<open>What a run that succeeds does to Redis: the orphans' symbols are marked.\<close>

lemma reconciliation_marks:
  assumes "run_reconciliation e now mode (d, Some r) = (Inr res, d', r')" "e_open_orders e = Inr os"
  shows "\<exists>r1 rs. r' = Some r1 \<and> (\<forall>bo \<in> set os. \<forall>s.
    is_orphan (get_order_ids_by_client_ids (extract_broker_client_ids (os @ rs)) d) bo s \<longrightarrow> quarantined r1 s)"
proof -
  let ?known = "\<lambda>rs. get_order_ids_by_client_ids (extract_broker_client_ids (os @ rs)) d"
  obtain after rs where main: "reconcile_with e now mode after os rs (d, Some r) = (Inr res, d', r')"
    using assms
    by (auto simp: run_reconciliation_def fetch_broker_orders_def Let_def rbind_Inr_iff
        split: sum.splits prod.splits option.splits)
  obtain d2 n d3 where 3: "detect_orphans (e_dec_str e) now os rs (?known rs) (d2, Some r) = (n, d3, r')"
    using main [unfolded reconcile_with_def Let_def prod.case]
    by (auto split: if_splits prod.splits sum.splits)
  from detect_orphans_redis [OF 3] obtain r1 where "r' = Some r1"
    "\<forall>bo \<in> set (os @ rs). \<forall>s. is_orphan (?known rs) bo s \<longrightarrow> quarantined r1 s" by blast
  then have "r' = Some r1 \<and> (\<forall>bo \<in> set os. \<forall>s. is_orphan (?known rs) bo s \<longrightarrow> quarantined r1 s)"
    unfolding set_append by blast
  then show ?thesis by blast
qed

lemma known_ids: "c \<in> set (get_order_ids_by_client_ids ids d) \<Longrightarrow> db_order d c \<noteq> None"
  by (simp add: get_order_ids_by_client_ids_def)

lemma quarantined_stops:
  assumes "quarantined (gw_redis w) (upper (or_symbol order))" "\<not> sv_dry_run env"
  shows "\<exists>e. submit_order env rv order w = (Inl e, w)"
proof (cases rule: submit_order_cases [of env rv order w])
  case (stopped e)
  then show ?thesis by blast
next
  case (held res r1)
  then show ?thesis
    using submit_gates_passed(5) [OF held(1) assms(2)] assms(1)
    by (simp add: quarantined_def mget_truthy_def is_text_def)
qed

text \<open>C10. Orphans stop trading: after a reconciliation run that found an open order of the broker of which
  the database knows nothing, every submission for its symbol is refused, for every strategy, and
  leaves Redis, the database and the broker alone.\<close>

theorem orphan_blocks_submissions:
  assumes "run_reconciliation e now mode (d, Some r) = (Inr res, d', Some r')"
    and "e_open_orders e = Inr os" "bo \<in> set os" "b_symbol bo = Some symbol" "symbol \<noteq> []" "b_id bo \<notin> {None, Some []}"
      "\<forall>c. b_client_order_id bo = Some c \<longrightarrow> c = [] \<or> db_order d c = None"
    and "upper (or_symbol order) = symbol" "\<not> sv_dry_run env" "gw_redis w = r'"
  shows "\<exists>err. submit_order env rv order w = (Inl err, w)"
proof -
  have "is_orphan (get_order_ids_by_client_ids ids d) bo symbol" for ids
    using assms(4-7) known_ids unfolding is_orphan_def by blast
  then have "quarantined r' symbol"
    using reconciliation_marks [OF assms(1,2)] assms(3) by blast
  then show ?thesis
    using quarantined_stops assms(8-10) by blast
qed

definition orphan_env :: recon_env where
  "orphan_env = quiet_env\<lparr>e_open_orders := Inr [sample_broker_order ''new'' 1 0]\<rparr>"

lemma orphan_run:
  "\<exists>res d' r'. run_reconciliation orphan_env 5 ''manual'' (empty_db, Some demo_redis) = (Inr res, d', Some r')"
proof -
  have "map_sum id rc_success (fst (run_reconciliation orphan_env 5 ''manual'' (empty_db, Some demo_redis))) = Inr True"
    by code_simp
  then obtain res d' r' where run:
    "run_reconciliation orphan_env 5 ''manual'' (empty_db, Some demo_redis) = (Inr res, d', r')"
    by (cases "run_reconciliation orphan_env 5 ''manual'' (empty_db, Some demo_redis)";
        cases "fst (run_reconciliation orphan_env 5 ''manual'' (empty_db, Some demo_redis))") auto
  have "e_open_orders orphan_env = Inr [sample_broker_order ''new'' 1 0]" by (simp add: orphan_env_def)
  from reconciliation_marks [OF run this] run show ?thesis by blast
qed

theorem orphan_blocks_submissions_witness:
  "\<exists>r' err. submit_order (demo_env (BrokerAccepted (Some ''b1'')) ''t1'') demo_recovery demo_submission
     (demo_gateway\<lparr>gw_redis := r'\<rparr>) = (Inl err, demo_gateway\<lparr>gw_redis := r'\<rparr>)"
proof -
  obtain res d' r' where
    run: "run_reconciliation orphan_env 5 ''manual'' (empty_db, Some demo_redis) = (Inr res, d', Some r')"
    using orphan_run by blast
  have "\<exists>err. submit_order (demo_env (BrokerAccepted (Some ''b1'')) ''t1'') demo_recovery demo_submission
     (demo_gateway\<lparr>gw_redis := r'\<rparr>) = (Inl err, demo_gateway\<lparr>gw_redis := r'\<rparr>)"
    by (rule orphan_blocks_submissions [OF run, where bo = "sample_broker_order ''new'' 1 0" and
          os = "[sample_broker_order ''new'' 1 0]"])
      (simp_all add: orphan_env_def sample_broker_order_def empty_db_def db_order_def upper_def upper_char_def
        demo_env_def)
  then show ?thesis by blast
qed

end
