(* ===== verification/Slice_Db.thy ===== *)
theory Slice_Db
  imports Order_Db
begin

text \<open>
  The statements of \<^verbatim>\<open>apps/execution_gateway/database.py\<close> on sliced orders: the insertion of a parent
  and of its slices, the reads of slices and the update of a scheduled time.  An \<open>INSERT\<close> is given
  with its columns, its value expressions and its parameters, because two parties compare their
  numbers: the driver the placeholders with the parameters, the server the columns with the
  expressions.  Both complaints are \<open>ProgrammingError\<close>s, a kind of \<open>DatabaseError\<close>.  Of the
  constraints on slices the primary key, the foreign key to the parent and the unique pair of parent
  and number are modelled; the metadata of a parent is not kept.
\<close>

section \<open>Inserting\<close>

datatype sql_expr = Placeholder | SqlNull | SqlNow

definition run_insert :: "string list \<Rightarrow> sql_expr list \<Rightarrow> string list \<Rightarrow> unit result" where
  "run_insert columns exprs params =
     (if length (filter (\<lambda>e. e = Placeholder) exprs) \<noteq> length params
      then Inl (DatabaseError ''ProgrammingError: placeholders and parameters differ in number'')
      else if length columns > length exprs
      then Inl (DatabaseError ''ProgrammingError: INSERT has more target columns than expressions'')
      else if length columns < length exprs
      then Inl (DatabaseError ''ProgrammingError: INSERT has more expressions than target columns'')
      else Inr ())"

definition parent_columns :: "string list" where
  "parent_columns =
     [''client_order_id'', ''strategy_id'', ''symbol'', ''side'', ''qty'', ''order_type'', ''limit_price'',
      ''stop_price'', ''time_in_force'', ''metadata'', ''status'', ''parent_order_id'', ''total_slices'',
      ''created_at'', ''updated_at'']"

definition parent_values :: "sql_expr list" where
  "parent_values =
     [Placeholder, Placeholder, Placeholder, Placeholder, Placeholder, Placeholder, Placeholder,
      Placeholder, Placeholder, Placeholder, SqlNull, Placeholder, SqlNow, SqlNow]"

definition parent_params :: "string list" where
  "parent_params =
     [''client_order_id'', ''strategy_id'', ''symbol'', ''side'', ''qty'', ''order_type'', ''limit_price'',
      ''stop_price'', ''time_in_force'', ''metadata_json'', ''status'', ''total_slices'']"

definition child_columns :: "string list" where
  "child_columns =
     [''client_order_id'', ''parent_order_id'', ''slice_num'', ''strategy_id'', ''symbol'', ''side'', ''qty'',
      ''order_type'', ''limit_price'', ''stop_price'', ''time_in_force'', ''scheduled_time'', ''status'',
      ''created_at'', ''updated_at'']"

definition child_values :: "sql_expr list" where
  "child_values = replicate 13 Placeholder @ [SqlNow, SqlNow]"

definition child_params :: "string list" where
  "child_params =
     [''client_order_id'', ''parent_order_id'', ''slice_num'', ''strategy_id'', ''symbol'', ''side'', ''qty'',
      ''order_type'', ''limit_price'', ''stop_price'', ''time_in_force'', ''scheduled_time'', ''status'']"

text \<open>A new row with the defaults of its columns.\<close>

definition fresh_row :: "rat \<Rightarrow> string \<Rightarrow> string \<Rightarrow> db_order_request \<Rightarrow> string \<Rightarrow> order_row" where
  "fresh_row now cid strategy_id q status =
     \<lparr>o_client_order_id = cid, o_strategy_id = strategy_id, o_symbol = q_symbol q,
      o_side = q_side q, o_qty = q_qty q, o_order_type = q_order_type q,
      o_limit_price = q_limit_price q, o_stop_price = q_stop_price q,
      o_time_in_force = q_time_in_force q, o_execution_style = Some ''instant'', o_status = status,
      o_broker_order_id = None, o_error_message = None, o_submitted_at = None, o_created_at = now,
      o_updated_at = now, o_filled_at = None, o_filled_qty = 0, o_filled_avg_price = None,
      o_last_updated_at = None, o_status_rank = None, o_source_priority = 2,
      o_broker_event_id = None, o_is_terminal = False, o_parent_order_id = None,
      o_replaced_order_id = None, o_slice_num = None, o_total_slices = None, o_scheduled_time = None,
      o_fills = [], o_total_realized_pl = 0\<rparr>"

definition create_parent_order ::
  "rat \<Rightarrow> string \<Rightarrow> string \<Rightarrow> db_order_request \<Rightarrow> int \<Rightarrow> string \<Rightarrow> db \<Rightarrow> order_row result \<times> db" where
  "create_parent_order now cid strategy_id q total_slices status d =
     (case run_insert parent_columns parent_values parent_params of
        Inl e \<Rightarrow> (Inl e, d)
      | Inr _ \<Rightarrow>
          if db_order d cid \<noteq> None then (Inl (IntegrityError cid), d)
          else
            let row = (fresh_row now cid strategy_id q status)\<lparr>o_total_slices := Some total_slices\<rparr>
            in (case order_detail row of
                  Inl e \<Rightarrow> (Inl e, d)
                | Inr r \<Rightarrow> (Inr r, db_set_order cid row d)))"

definition create_child_slice ::
  "rat \<Rightarrow> string \<Rightarrow> string \<Rightarrow> nat \<Rightarrow> string \<Rightarrow> db_order_request \<Rightarrow> rat \<Rightarrow> string \<Rightarrow> db \<Rightarrow>
   order_row result \<times> db" where
  "create_child_slice now cid parent_order_id slice_num strategy_id q scheduled_time status d =
     (case run_insert child_columns child_values child_params of
        Inl e \<Rightarrow> (Inl e, d)
      | Inr _ \<Rightarrow>
          if db_order d cid \<noteq> None \<or>
             (\<exists>r \<in> set (map snd (db_orders d)).
                o_parent_order_id r = Some parent_order_id \<and> o_slice_num r = Some (int slice_num))
          then (Inl (IntegrityError cid), d)
          else if db_order d parent_order_id = None
          then (Inl (DatabaseError ''ForeignKeyViolation''), d)
          else
            let row = (fresh_row now cid strategy_id q status)
                  \<lparr>o_parent_order_id := Some parent_order_id, o_slice_num := Some (int slice_num),
                   o_scheduled_time := Some scheduled_time\<rparr>
            in (case order_detail row of
                  Inl e \<Rightarrow> (Inl e, d)
                | Inr r \<Rightarrow> (Inr r, db_set_order cid row d)))"

section \<open>Reading and updating\<close>

fun details :: "order_row list \<Rightarrow> order_row list result" where
  "details [] = Inr []"
| "details (r # rs) = rbind (order_detail r) (\<lambda>x. rbind (details rs) (\<lambda>xs. Inr (x # xs)))"

text \<open>A missing number or time is sorted last.\<close>

definition nulls_last :: "'a :: zero option \<Rightarrow> bool \<times> 'a" where
  "nulls_last x = (case x of None \<Rightarrow> (True, 0) | Some a \<Rightarrow> (False, a))"

definition get_slices_by_parent_id :: "string \<Rightarrow> db \<Rightarrow> order_row list result" where
  "get_slices_by_parent_id parent d =
     details (sort_key (\<lambda>r. nulls_last (o_slice_num r))
       (filter (\<lambda>r. o_parent_order_id r = Some parent) (map snd (db_orders d))))"

definition is_pending_slice :: "order_row \<Rightarrow> bool" where
  "is_pending_slice r \<longleftrightarrow> o_parent_order_id r \<noteq> None \<and> o_status r = ''pending_new''"

definition get_pending_child_slices :: "db \<Rightarrow> order_row list result" where
  "get_pending_child_slices d =
     details (sort_key (\<lambda>r. (nulls_last (o_scheduled_time r), nulls_last (o_slice_num r)))
       (filter is_pending_slice (map snd (db_orders d))))"

definition update_order_scheduled_time :: "rat \<Rightarrow> string \<Rightarrow> rat \<Rightarrow> db \<Rightarrow> order_row option result \<times> db" where
  "update_order_scheduled_time now cid scheduled_time d =
     (case update_order_where cid (\<lambda>r. Some True)
        (\<lambda>r. r\<lparr>o_scheduled_time := Some scheduled_time, o_updated_at := now\<rparr>) d of
        (None, d') \<Rightarrow> (Inr None, d')
      | (Some r, d') \<Rightarrow> (rbind (order_detail r) (\<lambda>r. Inr (Some r)), d'))"

section \<open>Lemmas\<close>

lemma details_Inr: "details rs = Inr xs \<Longrightarrow> xs = rs"
  by (induction rs arbitrary: xs) (auto simp: rbind_Inr_iff order_detail_def split: if_splits)

lemma details_ok: "\<forall>r \<in> set rs. o_status r \<in> set ORDER_STATUSES \<Longrightarrow> details rs = Inr rs"
  by (induction rs) (auto simp: order_detail_def)

text \<open>The statement for a parent order always fails: eleven placeholders meet twelve parameters.\<close>

lemma parent_insert_fails:
  "run_insert parent_columns parent_values parent_params =
     Inl (DatabaseError ''ProgrammingError: placeholders and parameters differ in number'')"
  by (simp add: run_insert_def parent_values_def parent_params_def)

lemma child_insert_runs: "run_insert child_columns child_values child_params = Inr ()"
  by (simp add: run_insert_def child_columns_def child_values_def child_params_def filter_replicate)

lemma pending_slice_status: "is_pending_slice r \<Longrightarrow> order_detail r = Inr r"
  by (simp add: is_pending_slice_def order_detail_def ORDER_STATUSES_def)

lemma get_pending_child_slices_Inr:
  "\<exists>rs. get_pending_child_slices d = Inr rs \<and>
     set rs = {r. \<exists>c. (c, r) \<in> set (db_orders d) \<and> is_pending_slice r}"
proof -
  let ?rs = "sort_key (\<lambda>r. (nulls_last (o_scheduled_time r), nulls_last (o_slice_num r)))
       (filter is_pending_slice (map snd (db_orders d)))"
  have "details ?rs = Inr ?rs"
    by (rule details_ok) (auto simp: is_pending_slice_def ORDER_STATUSES_def)
  moreover have "set ?rs = {r. \<exists>c. (c, r) \<in> set (db_orders d) \<and> is_pending_slice r}"
    by force
  ultimately show ?thesis unfolding get_pending_child_slices_def by blast
qed

text \<open>Every parent, whatever it is, is refused and nothing is stored.\<close>

lemma create_parent_order_fails:
  "create_parent_order now cid s q n status d =
     (Inl (DatabaseError ''ProgrammingError: placeholders and parameters differ in number''), d)"
  by (simp add: create_parent_order_def parent_insert_fails)

section \<open>Rows under their keys\<close>

definition keyed_orders :: "db \<Rightarrow> bool" where
  "keyed_orders d \<longleftrightarrow>
     distinct (map fst (db_orders d)) \<and> (\<forall>c r. db_order d c = Some r \<longrightarrow> o_client_order_id r = c)"

lemma keyed_row:
  "keyed_orders d \<Longrightarrow> (c, r) \<in> set (db_orders d) \<longleftrightarrow> db_order d c = Some r"
  by (simp add: keyed_orders_def db_order_def)

lemma distinct_set_order [simp]:
  "distinct (map fst (db_orders (db_set_order c r d))) \<longleftrightarrow> distinct (map fst (db_orders d))"
proof -
  have "map fst (AList.update c r xs) = (if c \<in> set (map fst xs) then map fst xs else map fst xs @ [c])"
    for xs :: "(string \<times> order_row) list"
    by (induction xs) auto
  then show ?thesis by (simp add: db_set_order_def)
qed

lemma keyed_set_order:
  "keyed_orders d \<Longrightarrow> o_client_order_id r = c \<Longrightarrow> keyed_orders (db_set_order c r d)"
  by (auto simp: keyed_orders_def distinct_set_order split: if_splits)

lemma keyed_cas:
  assumes "keyed_orders d"
  shows "keyed_orders (snd (update_order_status_cas now u d))"
  by (rule cas_cases [of d u now])
    (use assms in \<open>auto simp: cas_set_def keyed_orders_def\<close>)

lemma keyed_cancel:
  assumes "keyed_orders d"
  shows "keyed_orders (snd (cancel_pending_slices now p d))"
proof -
  have "map fst (db_orders (snd (cancel_pending_slices now p d))) = map fst (db_orders d)"
    by (simp add: cancel_pending_slices_def Let_def comp_def case_prod_beta)
  with assms show ?thesis
    by (auto simp: keyed_orders_def cancel_pending_slices_spec split: if_splits)
qed

lemma keyed_scheduled_time:
  assumes "keyed_orders d"
  shows "keyed_orders (snd (update_order_scheduled_time now c t d))"
  using assms by (auto simp: update_order_scheduled_time_def update_order_where_def keyed_orders_def
      split: option.splits if_splits)

lemma scheduled_time_row:
  "db_order (snd (update_order_scheduled_time now c t d)) c' =
     (if c' = c then map_option (\<lambda>r. r\<lparr>o_scheduled_time := Some t, o_updated_at := now\<rparr>) (db_order d c)
      else db_order d c')"
  by (auto simp: update_order_scheduled_time_def update_order_where_def split: option.splits)

text \<open>A pending slice as the database makes it: not final and not changed after \<open>now\<close>.\<close>

definition slice_open :: "rat \<Rightarrow> order_row \<Rightarrow> bool" where
  "slice_open now r \<longleftrightarrow> \<not> o_is_terminal r \<and>
     (case o_last_updated_at r of None \<Rightarrow> True | Some t \<Rightarrow> t < now)"

lemma slice_open_cas:
  "slice_open now r \<Longrightarrow> c_broker_updated_at u = now \<Longrightarrow> cas_where u r = Some True"
  by (auto simp: slice_open_def cas_where_true split: option.splits)

text \<open>The columns that no update of this development changes.\<close>

definition same_slice :: "order_row \<Rightarrow> order_row \<Rightarrow> bool" where
  "same_slice r r' \<longleftrightarrow>
     o_client_order_id r' = o_client_order_id r \<and> o_parent_order_id r' = o_parent_order_id r \<and>
     o_slice_num r' = o_slice_num r \<and> o_qty r' = o_qty r"

lemma same_slice_refl [simp]: "same_slice r r"
  by (simp add: same_slice_def)

lemma same_slice_cas [simp]: "same_slice r (cas_set now u r)"
  by (simp add: same_slice_def cas_set_def)

end
