(* ===== verification/Twap_Slicer.thy ===== *)
theory Twap_Slicer
  imports Order_Id
begin

text \<open>
  TWAP slicing, \<^verbatim>\<open>apps/execution_gateway/order_slicer.py\<close>: a parent order is cut into slices of
  nearly equal size at regular times.  The pseudo-random choice of the slices that take one share
  of the remainder, \<open>random.Random(seed).sample(range(n), k)\<close>, is a parameter of the plan, used
  through what the library documents of it (\<open>k\<close> distinct elements of the range); the seed is
  computed as the source does.  \<open>math.ceil(a / b)\<close> is the exact quotient rounded up, which the
  source's floating-point division gives for operands below \<open>2^52\<close>.  Times are seconds.
\<close>

record slice_detail =
  sd_slice_num :: nat
  sd_qty :: int
  sd_scheduled_time :: rat
  sd_client_order_id :: string
  sd_strategy_id :: string
  sd_status :: string

record slicing_plan =
  sp_parent_order_id :: string
  sp_parent_strategy_id :: string
  sp_symbol :: string
  sp_side :: string
  sp_total_qty :: int
  sp_total_slices :: int
  sp_duration_minutes :: int
  sp_interval_seconds :: int
  sp_slices :: "slice_detail list"

definition ceil_div :: "int \<Rightarrow> int \<Rightarrow> int" where
  "ceil_div a b = - ((- a) div b)"

definition base_slices :: "int \<Rightarrow> int \<Rightarrow> int" where
  "base_slices duration_minutes interval_seconds =
     max 1 (ceil_div (duration_minutes * 60) interval_seconds)"

text \<open>The number of slices and the interval after the liquidity constraint.\<close>

definition slice_layout :: "int \<Rightarrow> int \<Rightarrow> int \<Rightarrow> int option \<Rightarrow> (int \<times> int) result" where
  "slice_layout qty duration_minutes interval_seconds max_slice_qty =
     (let total_duration_seconds = duration_minutes * 60;
          base = base_slices duration_minutes interval_seconds
      in case max_slice_qty of
           None \<Rightarrow> Inr (base, interval_seconds)
         | Some m \<Rightarrow>
             if m < 1 then Inl (ValueError ''max_slice_qty must be at least 1'')
             else
               let liquidity_slices = max 1 (ceil_div qty m);
                   num_slices = (if liquidity_slices > base then liquidity_slices else base)
               in if num_slices > base
                  then if num_slices = 1 then Inr (num_slices, interval_seconds)
                       else
                         let max_interval = total_duration_seconds div (num_slices - 1)
                         in if max_interval < 1
                            then Inl (ValueError ''Liquidity constraint requires more slices than can fit'')
                            else Inr (num_slices, max_interval)
                  else Inr (num_slices, interval_seconds))"

definition add_extra :: "nat list \<Rightarrow> int list \<Rightarrow> int list" where
  "add_extra indices qtys = fold (\<lambda>idx qs. qs[idx := qs ! idx + 1]) indices qtys"

definition slice_seed :: "string \<Rightarrow> string \<Rightarrow> int \<Rightarrow> int \<Rightarrow> int \<Rightarrow> date option \<Rightarrow> nat" where
  "slice_seed symbol side qty duration_minutes interval_seconds trade_date =
     (let seed_string = symbol @ ''_'' @ side @ ''_'' @ show_int qty @ ''_'' @
            show_int duration_minutes @ ''_'' @ show_int interval_seconds @
            (case trade_date of None \<Rightarrow> [] | Some d \<Rightarrow> ''_'' @ date_isoformat d)
      in unat (sha256_words (map of_char seed_string) ! 0))"

definition slice_qtys ::
  "(nat \<Rightarrow> nat \<Rightarrow> nat \<Rightarrow> nat list) \<Rightarrow> nat \<Rightarrow> int \<Rightarrow> int \<Rightarrow> int list" where
  "slice_qtys sample seed qty num_slices =
     (let base_qty = qty div num_slices;
          remainder = qty mod num_slices;
          qtys = replicate (nat num_slices) base_qty
      in if remainder > 0 then add_extra (sample seed (nat num_slices) (nat remainder)) qtys
         else qtys)"

definition make_slice ::
  "string \<Rightarrow> string \<Rightarrow> rat option \<Rightarrow> rat option \<Rightarrow> string \<Rightarrow> string \<Rightarrow> date \<Rightarrow> string \<Rightarrow> rat \<Rightarrow> int \<Rightarrow>
   nat \<times> int \<Rightarrow> slice_detail" where
  "make_slice symbol side limit_price stop_price order_type time_in_force order_date
       parent_order_id now interval_seconds iq =
     (case iq of (i, slice_qty) \<Rightarrow>
        let slice_strategy_id = ''twap_slice_'' @ parent_order_id @ ''_'' @ show_nat i
        in \<lparr>sd_slice_num = i, sd_qty = slice_qty,
            sd_scheduled_time = now + of_int (int i * interval_seconds),
            sd_client_order_id = reconstruct_order_params_hash symbol side slice_qty limit_price
              stop_price order_type time_in_force slice_strategy_id order_date,
            sd_strategy_id = slice_strategy_id, sd_status = ''pending_new''\<rparr>)"

definition plan ::
  "(nat \<Rightarrow> nat \<Rightarrow> nat \<Rightarrow> nat list) \<Rightarrow> rat \<Rightarrow> date \<Rightarrow> string \<Rightarrow> string \<Rightarrow> int \<Rightarrow> int \<Rightarrow> string \<Rightarrow> int \<Rightarrow>
   int option \<Rightarrow> rat option \<Rightarrow> rat option \<Rightarrow> string \<Rightarrow> date option \<Rightarrow> slicing_plan result" where
  "plan sample now today symbol side qty duration_minutes order_type interval_seconds max_slice_qty
       limit_price stop_price time_in_force trade_date =
     (if qty < 1 then Inl (ValueError ''qty must be at least 1'')
      else if duration_minutes < 1 then Inl (ValueError ''duration_minutes must be at least 1'')
      else if interval_seconds < 1 then Inl (ValueError ''interval_seconds must be at least 1'')
      else rbind (slice_layout qty duration_minutes interval_seconds max_slice_qty)
        (\<lambda>(num_slices, interval).
          if qty < num_slices then Inl (ValueError ''qty must be >= number of slices'')
          else if (order_type = ''limit'' \<or> order_type = ''stop_limit'') \<and> limit_price = None
          then Inl (ValueError ''limit_price required'')
          else if (order_type = ''stop'' \<or> order_type = ''stop_limit'') \<and> stop_price = None
          then Inl (ValueError ''stop_price required'')
          else
            let seed = slice_seed symbol side qty duration_minutes interval trade_date;
                qtys = slice_qtys sample seed qty num_slices;
                order_date = (case trade_date of Some d \<Rightarrow> d | None \<Rightarrow> today);
                parent_strategy_id =
                  ''twap_parent_'' @ show_int duration_minutes @ ''m_'' @ show_int interval @ ''s'';
                parent_order_id = reconstruct_order_params_hash symbol side qty limit_price stop_price
                  order_type time_in_force parent_strategy_id order_date;
                slices = map (make_slice symbol side limit_price stop_price order_type time_in_force
                  order_date parent_order_id now interval) (zip [0..<length qtys] qtys)
            in Inr \<lparr>sp_parent_order_id = parent_order_id, sp_parent_strategy_id = parent_strategy_id,
                    sp_symbol = symbol, sp_side = side, sp_total_qty = qty,
                    sp_total_slices = num_slices, sp_duration_minutes = duration_minutes,
                    sp_interval_seconds = interval, sp_slices = slices\<rparr>))"

section \<open>Distributing the remainder\<close>

text \<open>What the library documents of \<open>Random.sample(range(n), k)\<close>.\<close>

definition sample_ok :: "(nat \<Rightarrow> nat \<Rightarrow> nat \<Rightarrow> nat list) \<Rightarrow> bool" where
  "sample_ok sample \<longleftrightarrow>
     (\<forall>seed n k. k \<le> n \<longrightarrow>
        distinct (sample seed n k) \<and> length (sample seed n k) = k \<and> set (sample seed n k) \<subseteq> {..<n})"

lemma length_add_extra [simp]: "length (add_extra is qs) = length qs"
  unfolding add_extra_def by (induction "is" arbitrary: qs) simp_all

lemma add_extra_Cons [simp]: "add_extra (i # is) qs = add_extra is (qs[i := qs ! i + 1])"
  by (simp add: add_extra_def)

lemma add_extra_Nil [simp]: "add_extra [] qs = qs"
  by (simp add: add_extra_def)

lemma add_extra_nth:
  "distinct is \<Longrightarrow> set is \<subseteq> {..<length qs} \<Longrightarrow> j < length qs \<Longrightarrow>
   add_extra is qs ! j = qs ! j + (if j \<in> set is then 1 else 0)"
  by (induction "is" arbitrary: qs) (auto simp: nth_list_update)

lemma sum_list_bump: "i < length qs \<Longrightarrow> sum_list (qs[i := qs ! i + 1]) = sum_list qs + (1 :: int)"
  by (induction qs arbitrary: i) (auto split: nat.split)

lemma sum_list_add_extra:
  "set is \<subseteq> {..<length qs} \<Longrightarrow> sum_list (add_extra is qs) = sum_list qs + int (length is)"
  by (induction "is" arbitrary: qs) (simp_all add: sum_list_bump)

lemma slice_qtys_spec:
  assumes "sample_ok sample" "1 \<le> n"
  shows "length (slice_qtys sample seed qty n) = nat n"
    and "sum_list (slice_qtys sample seed qty n) = qty"
    and "q \<in> set (slice_qtys sample seed qty n) \<Longrightarrow>
           q = qty div n \<or> q = qty div n + 1 \<and> 0 < qty mod n"
proof -
  have r: "0 \<le> qty mod n" "qty mod n < n" using assms(2) by simp_all
  have div: "n * (qty div n) + qty mod n = qty" by simp
  let ?is = "sample seed (nat n) (nat (qty mod n))"
  have is_ok: "distinct ?is" "length ?is = nat (qty mod n)" "set ?is \<subseteq> {..<nat n}"
    using assms(1) r unfolding sample_ok_def by (meson nat_mono order_less_imp_le)+
  have sum0: "sum_list (replicate (nat n) (qty div n)) = n * (qty div n)"
    using assms(2) by (simp add: sum_list_replicate)
  show "length (slice_qtys sample seed qty n) = nat n"
    by (simp add: slice_qtys_def Let_def)
  show "sum_list (slice_qtys sample seed qty n) = qty"
    using sum_list_add_extra [of ?is "replicate (nat n) (qty div n)"] is_ok sum0 r div
    by (auto simp: slice_qtys_def Let_def)
  show "q \<in> set (slice_qtys sample seed qty n) \<Longrightarrow>
      q = qty div n \<or> q = qty div n + 1 \<and> 0 < qty mod n"
    using add_extra_nth [of ?is "replicate (nat n) (qty div n)"] is_ok
    by (auto simp: slice_qtys_def Let_def in_set_conv_nth split: if_splits)
qed

section \<open>Numbers of slices and spans\<close>

lemma ceil_div_bounds:
  assumes "0 < b"
  shows "a \<le> ceil_div a b * b" and "(ceil_div a b - 1) * b < a"
proof -
  have "(- a) div b * b = - a - (- a) mod b" by (rule minus_mod_eq_div_mult [symmetric])
  moreover have "0 \<le> (- a) mod b" "(- a) mod b < b" using assms by simp_all
  ultimately show "a \<le> ceil_div a b * b" and "(ceil_div a b - 1) * b < a"
    unfolding ceil_div_def left_diff_distrib mult_minus_left by linarith+
qed

lemma slice_layout_spec:
  assumes "slice_layout qty dur interval m = Inr (n, iv)" "1 \<le> dur" "1 \<le> interval"
  shows "1 \<le> n" and "1 \<le> iv" and "(n - 1) * iv \<le> dur * 60"
    and "m = Some k \<Longrightarrow> 1 \<le> k \<and> qty \<le> n * k"
    and "base_slices dur interval \<le> n"
proof -
  have base: "(base_slices dur interval - 1) * interval \<le> dur * 60"
    using ceil_div_bounds(2) [of interval "dur * 60"] assms(2,3) by (auto simp: base_slices_def max_def)
  have span: "(n - 1) * (dur * 60 div (n - 1)) \<le> dur * 60" if "1 < n" for n
    unfolding mult.commute [of "n - 1"] using that
    by (simp flip: minus_mod_eq_div_mult)
  show "1 \<le> n" and "base_slices dur interval \<le> n"
    using assms by (auto simp: slice_layout_def base_slices_def Let_def split: option.splits if_splits)
  show "1 \<le> iv" and "(n - 1) * iv \<le> dur * 60"
    using assms base span by (auto simp: slice_layout_def Let_def split: option.splits if_splits)
  show "1 \<le> k \<and> qty \<le> n * k" if m: "m = Some k"
  proof -
    have k: "1 \<le> k" and n: "max 1 (ceil_div qty k) \<le> n"
      using assms(1) m by (auto simp: slice_layout_def Let_def split: if_splits)
    have "qty \<le> ceil_div qty k * k" using ceil_div_bounds(1) [of k qty] k by simp
    also have "\<dots> \<le> n * k" using n k by (intro mult_right_mono) auto
    finally show ?thesis using k by simp
  qed
qed

section \<open>Properties\<close>

lemma planE:
  assumes "plan sample now today symbol side qty dur ot interval m lp sp tif td = Inr p"
  obtains n iv seed od pid where "1 \<le> qty" "1 \<le> dur" "1 \<le> interval"
    "slice_layout qty dur interval m = Inr (n, iv)" "n \<le> qty"
    "sp_total_qty p = qty" "sp_total_slices p = n" "sp_interval_seconds p = iv"
    "sp_slices p = map (make_slice symbol side lp sp ot tif od pid now iv)
       (zip [0..<length (slice_qtys sample seed qty n)] (slice_qtys sample seed qty n))"
  using assms
  by (auto simp: plan_def rbind_Inr_iff Let_def split: if_splits)

lemma make_slice_simps [simp]:
  "sd_qty (make_slice symbol side lp sp ot tif od pid now iv iq) = snd iq"
  "sd_slice_num (make_slice symbol side lp sp ot tif od pid now iv iq) = fst iq"
  "sd_scheduled_time (make_slice symbol side lp sp ot tif od pid now iv iq) = now + of_int (int (fst iq) * iv)"
  by (simp_all add: make_slice_def Let_def split: prod.split)

text \<open>A plan splits the whole quantity: the slices are numbered from zero, their quantities add up
  to the order's, each is positive, any two differ by at most one share, and with a liquidity cap
  none exceeds it.\<close>

theorem plan_quantities:
  assumes "plan sample now today symbol side qty dur ot interval m lp sp tif td = Inr p"
    and "sample_ok sample"
  shows "sum_list (map sd_qty (sp_slices p)) = qty \<and>
     map sd_slice_num (sp_slices p) = [0..<nat (sp_total_slices p)] \<and>
     (\<forall>s \<in> set (sp_slices p). 1 \<le> sd_qty s \<and> (case m of None \<Rightarrow> True | Some k \<Rightarrow> sd_qty s \<le> k)) \<and>
     (\<forall>s \<in> set (sp_slices p). \<forall>t \<in> set (sp_slices p). \<bar>sd_qty s - sd_qty t\<bar> \<le> 1)"
proof -
  from assms(1) obtain n iv seed od pid where p: "1 \<le> dur" "1 \<le> interval"
    "slice_layout qty dur interval m = Inr (n, iv)" "n \<le> qty" "sp_total_slices p = n"
    "sp_slices p = map (make_slice symbol side lp sp ot tif od pid now iv)
       (zip [0..<length (slice_qtys sample seed qty n)] (slice_qtys sample seed qty n))"
    by (rule planE)
  have n: "1 \<le> n" using slice_layout_spec(1) [OF p(3,1,2)] .
  note q = slice_qtys_spec [OF assms(2) n, where seed = seed and qty = qty]
  have qtys: "map sd_qty (sp_slices p) = slice_qtys sample seed qty n"
    by (simp add: p(6) comp_def)
  have nums: "map sd_slice_num (sp_slices p) = [0..<nat n]"
    by (simp add: p(6) q(1) comp_def)
  have q': "sd_qty s = qty div n \<or> sd_qty s = qty div n + 1 \<and> 0 < qty mod n"
    if "s \<in> set (sp_slices p)" for s
    using q(3) [of "sd_qty s"] that qtys by (metis imageI list.set_map)
  have base: "1 \<le> qty div n" using p(4) n by (simp add: pos_imp_zdiv_pos_iff int_one_le_iff_zero_less)
  have cap: "sd_qty s \<le> k" if "s \<in> set (sp_slices p)" "m = Some k" for s k
  proof -
    have qk: "qty \<le> n * k" using slice_layout_spec(4) [OF p(3,1,2) that(2)] by simp
    have dm: "qty = n * (qty div n) + qty mod n" by simp
    have "qty div n \<le> k" using n zdiv_mono1 [OF qk, of n] by simp
    moreover have "qty div n + 1 \<le> k" if "0 < qty mod n"
    proof (rule ccontr)
      assume "\<not> qty div n + 1 \<le> k"
      then have "n * k \<le> n * (qty div n)" using n by simp
      with qk dm that show False by linarith
    qed
    ultimately show ?thesis using q' [OF that(1)] by auto
  qed
  have pos: "1 \<le> sd_qty s \<and> (case m of None \<Rightarrow> True | Some k \<Rightarrow> sd_qty s \<le> k)"
    if "s \<in> set (sp_slices p)" for s
    using q' [OF that] base cap [OF that] by (auto split: option.split)
  have diff: "\<bar>sd_qty s - sd_qty t\<bar> \<le> 1" if "s \<in> set (sp_slices p)" "t \<in> set (sp_slices p)" for s t
    using q' [OF that(1)] q' [OF that(2)] by auto
  show ?thesis using qtys nums q(2) pos diff p(5) by simp
qed

definition demo_sample :: "nat \<Rightarrow> nat \<Rightarrow> nat \<Rightarrow> nat list" where
  "demo_sample seed n k = [0..<k]"

lemma demo_sample_ok: "sample_ok demo_sample"
  by (auto simp: sample_ok_def demo_sample_def)

lemma demo_plan:
  "\<exists>p. plan demo_sample 0 \<lparr>d_year = 2024, d_month = 10, d_day = 17\<rparr> ''AAPL'' ''buy'' 103 5 ''market'' 60
     (Some 50) None None ''day'' None = Inr p \<and> length (sp_slices p) = 5"
proof -
  have "slice_layout 103 5 60 (Some 50) = Inr (5, 60)"
    by (simp add: slice_layout_def base_slices_def ceil_div_def Let_def)
  then show ?thesis by (simp add: plan_def Let_def slice_qtys_def)
qed

theorem plan_quantities_witness:
  "\<exists>p. plan demo_sample 0 \<lparr>d_year = 2024, d_month = 10, d_day = 17\<rparr> ''AAPL'' ''buy'' 103 5 ''market'' 60
     (Some 50) None None ''day'' None = Inr p \<and> sum_list (map sd_qty (sp_slices p)) = 103"
  using demo_plan plan_quantities [OF _ demo_sample_ok] by blast

text \<open>A plan fits the requested duration: slice number i is scheduled i intervals after the start,
  the interval is at least a second, and the last slice is not later than the duration.\<close>

theorem plan_schedule:
  assumes "plan sample now today symbol side qty dur ot interval m lp sp tif td = Inr p"
    and "s \<in> set (sp_slices p)"
  shows "sd_scheduled_time s = now + of_int (int (sd_slice_num s) * sp_interval_seconds p) \<and>
     1 \<le> sp_interval_seconds p \<and> now \<le> sd_scheduled_time s \<and>
     sd_scheduled_time s \<le> now + of_int (dur * 60)"
proof -
  from assms(1) obtain n iv seed od pid where p: "1 \<le> dur" "1 \<le> interval"
    "slice_layout qty dur interval m = Inr (n, iv)" "sp_interval_seconds p = iv"
    "sp_slices p = map (make_slice symbol side lp sp ot tif od pid now iv)
       (zip [0..<length (slice_qtys sample seed qty n)] (slice_qtys sample seed qty n))"
    by (rule planE)
  note spec = slice_layout_spec [OF p(3,1,2)]
  have "length (slice_qtys sample seed qty n) = nat n"
    by (simp add: slice_qtys_def Let_def)
  with assms(2) p(5) obtain q where "s = make_slice symbol side lp sp ot tif od pid now iv (sd_slice_num s, q)"
    "sd_slice_num s < nat n"
    by (auto simp: set_zip)
  then have t: "sd_scheduled_time s = now + of_int (int (sd_slice_num s) * iv)"
    and i: "int (sd_slice_num s) \<le> n - 1"
    by (metis make_slice_simps(3) fst_conv, linarith)
  have "int (sd_slice_num s) * iv \<le> (n - 1) * iv" using i spec(2) by (intro mult_right_mono) auto
  then have "int (sd_slice_num s) * iv \<le> dur * 60" using spec(3) by linarith
  then have "(of_int (int (sd_slice_num s) * iv) :: rat) \<le> of_int (dur * 60)"
    by (simp only: of_int_le_iff)
  moreover have "(0 :: rat) \<le> of_int (int (sd_slice_num s) * iv)" using spec(2) by (simp only: of_int_0_le_iff) simp
  ultimately show ?thesis using t spec(2) p(4) by simp
qed

theorem plan_schedule_witness:
  "\<exists>p. plan demo_sample 0 \<lparr>d_year = 2024, d_month = 10, d_day = 17\<rparr> ''AAPL'' ''buy'' 103 5 ''market'' 60
     (Some 50) None None ''day'' None = Inr p \<and> sp_slices p \<noteq> [] \<and>
     list_all (\<lambda>s. sd_scheduled_time s \<le> 300) (sp_slices p)"
proof -
  obtain p where p: "plan demo_sample 0 \<lparr>d_year = 2024, d_month = 10, d_day = 17\<rparr> ''AAPL'' ''buy'' 103 5
      ''market'' 60 (Some 50) None None ''day'' None = Inr p"
    "length (sp_slices p) = 5"
    using demo_plan by blast
  have "sd_scheduled_time s \<le> 300" if "s \<in> set (sp_slices p)" for s
  proof -
    have "sd_scheduled_time s \<le> 0 + of_int (5 * 60)" using plan_schedule [OF p(1) that] by blast
    then show ?thesis by simp
  qed
  then show ?thesis using p by (auto simp: list_all_iff)
qed

end
