(* ===== verification/Slice_Scheduler.thy ===== *)
theory Slice_Scheduler
  imports Slice_Db Twap_Slicer Submit_Order
begin

text \<open>
  The scheduler of TWAP slices, \<^verbatim>\<open>apps/execution_gateway/slice_scheduler.py\<close>.  Its state is Redis and
  the database, the jobs of APScheduler, the broker's servers and the list of the orders it has sent.
  The library's job store is an argument, used through what it documents of it (\<open>job_store_ok\<close>); so
  is the broker, through the client of \<open>Alpaca_Client\<close>.  Failures of the database and of Redis, which
  this module handles, are an argument that names the call that fails; so are the clock and what the
  rest of the system does while a retry waits.  Times are seconds; all times are in UTC.
\<close>

section \<open>Jobs\<close>

record slice_job =
  sj_parent_order_id :: string
  sj_slice :: slice_detail
  sj_symbol :: string
  sj_side :: string
  sj_order_type :: string
  sj_limit_price :: "rat option"
  sj_stop_price :: "rat option"
  sj_time_in_force :: string
  sj_run_date :: rat

text \<open>
  \<open>add_job\<close> answers \<open>None\<close> for \<open>ConflictingIdError\<close>, \<open>remove_job\<close> for \<open>JobLookupError\<close>.
\<close>

record 'j job_store =
  js_add :: "string \<Rightarrow> slice_job \<Rightarrow> 'j \<Rightarrow> 'j option"
  js_get :: "string \<Rightarrow> 'j \<Rightarrow> slice_job option"
  js_ids :: "'j \<Rightarrow> string list"
  js_remove :: "string \<Rightarrow> 'j \<Rightarrow> 'j option"

definition job_store_ok :: "'j job_store \<Rightarrow> bool" where
  "job_store_ok js \<longleftrightarrow>
     (\<forall>i job j. case js_add js i job j of
        None \<Rightarrow> js_get js i j \<noteq> None
      | Some j' \<Rightarrow> js_get js i j = None \<and>
          (\<forall>k. js_get js k j' = (if k = i then Some job else js_get js k j))) \<and>
     (\<forall>i j. case js_remove js i j of
        None \<Rightarrow> js_get js i j = None
      | Some j' \<Rightarrow> js_get js i j \<noteq> None \<and>
          (\<forall>k. js_get js k j' = (if k = i then None else js_get js k j))) \<and>
     (\<forall>j. distinct (js_ids js j) \<and> set (js_ids js j) = {i. js_get js i j \<noteq> None})"

definition slice_job_id :: "string \<Rightarrow> int \<Rightarrow> string" where
  "slice_job_id parent slice_num = parent @ ''_slice_'' @ show_int slice_num"

record ('s, 'j) slice_world =
  sw_redis :: redis
  sw_db :: db
  sw_jobs :: 'j
  sw_server :: 's
  sw_sent :: "(string \<times> order_request) list"

text \<open>
  The calls of the database and of Redis that may fail.  \<open>sl_fault n c\<close> is the exception that call \<open>c\<close>
  raises in the \<open>n\<close>-th attempt of a job.
\<close>

datatype io_call =
    ReadOrder | ReadKillSwitch | ReadBreaker | MarkBlocked | ReadOrderAgain | MarkInfraFailed
  | MarkDryRun | MarkSubmitted nat | MarkUnconfirmed | MarkRejected | MarkExhausted

record slice_clock =
  sc_is_open :: bool
  sc_next_open :: "rat option"

record 's slice_env =
  sl_executor :: "'s alpaca_api option"
  sl_clock_provider :: "slice_clock option"
  sl_misfire_grace :: rat
  sl_stale_expiry :: int
  sl_now :: "nat \<Rightarrow> rat"
  sl_fault :: "nat \<Rightarrow> io_call \<Rightarrow> py_error option"
  sl_redis_meanwhile :: "nat \<Rightarrow> redis \<Rightarrow> redis"
  sl_db_meanwhile :: "nat \<Rightarrow> db \<Rightarrow> db"
  sl_str :: "json \<Rightarrow> string"

definition slice_cas ::
  "rat \<Rightarrow> string \<Rightarrow> string \<Rightarrow> string option \<Rightarrow> string option \<Rightarrow> cas_update" where
  "slice_cas now cid status broker_order_id error_message =
     \<lparr>c_client_order_id = cid, c_status = status, c_broker_updated_at = now,
      c_status_rank = status_rank_for status, c_source_priority = SOURCE_PRIORITY_MANUAL,
      c_filled_qty = None, c_filled_avg_price = None, c_filled_at = None,
      c_broker_order_id = broker_order_id, c_broker_event_id = None, c_error_message = error_message\<rparr>"

section \<open>Scheduling\<close>

text \<open>The loop over the slices; the jobs added before a conflict stay.\<close>

fun add_jobs ::
  "'j job_store \<Rightarrow> (slice_detail \<Rightarrow> slice_job) \<Rightarrow> slice_detail list \<Rightarrow> 'j \<Rightarrow> string list result \<times> 'j" where
  "add_jobs js job [] j = (Inr [], j)"
| "add_jobs js job (sd # sds) j =
     (let job_id = slice_job_id (sj_parent_order_id (job sd)) (int (sd_slice_num sd)) in
      case js_add js job_id (job sd) j of
        None \<Rightarrow> (Inl (KeyError ''ConflictingIdError''), j)
      | Some j' \<Rightarrow>
          (case add_jobs js job sds j' of
             (Inl e, j'') \<Rightarrow> (Inl e, j'')
           | (Inr ids, j'') \<Rightarrow> (Inr (job_id # ids), j'')))"

definition schedule_slices ::
  "'j job_store \<Rightarrow> string \<Rightarrow> slice_detail list \<Rightarrow> string \<Rightarrow> string \<Rightarrow> string \<Rightarrow> rat option \<Rightarrow> rat option \<Rightarrow>
   string \<Rightarrow> ('s, 'j) slice_world \<Rightarrow> string list result \<times> ('s, 'j) slice_world" where
  "schedule_slices js parent slices symbol side order_type limit_price stop_price time_in_force w =
     map_prod id (\<lambda>j'. w\<lparr>sw_jobs := j'\<rparr>)
       (add_jobs js (\<lambda>sd.
          \<lparr>sj_parent_order_id = parent, sj_slice = sd, sj_symbol = symbol, sj_side = side,
           sj_order_type = order_type, sj_limit_price = limit_price, sj_stop_price = stop_price,
           sj_time_in_force = time_in_force, sj_run_date = sd_scheduled_time sd\<rparr>) slices (sw_jobs w))"

definition is_slice_stale :: "'s slice_env \<Rightarrow> order_row \<Rightarrow> rat \<Rightarrow> bool" where
  "is_slice_stale env r now =
     (if sl_stale_expiry env \<le> 0 then False
      else case o_scheduled_time r of
        None \<Rightarrow> False
      | Some t \<Rightarrow> if now - t < 0 then False else now - t > of_int (sl_stale_expiry env))"

text \<open>Errors of the client other than a rejection or a lost connection are not caught.\<close>

definition get_market_clock_snapshot ::
  "'s slice_env \<Rightarrow> 's \<Rightarrow> slice_clock client_result \<times> 's" where
  "get_market_clock_snapshot env s =
     (case sl_clock_provider env of
        Some c \<Rightarrow> (Inr c, s)
      | None \<Rightarrow>
          (case sl_executor env of
             None \<Rightarrow> (Inr \<lparr>sc_is_open = True, sc_next_open = None\<rparr>, s)
           | Some api \<Rightarrow>
               (case alpaca_get_market_clock api s of
                  (Inr (timestamp, is_open, next_open, next_close), s') \<Rightarrow>
                    (Inr \<lparr>sc_is_open = (is_open = Some True), sc_next_open = next_open\<rparr>, s')
                | (Inl (AlpacaConnectionError m), s') \<Rightarrow>
                    (Inr \<lparr>sc_is_open = False, sc_next_open = None\<rparr>, s')
                | (Inl (AlpacaRejectionError m), s') \<Rightarrow>
                    (Inr \<lparr>sc_is_open = False, sc_next_open = None\<rparr>, s')
                | (Inl e, s') \<Rightarrow> (Inl e, s'))))"

section \<open>Recovery after a restart\<close>

text \<open>The text of an exception, and an exception that no clause of this module catches.\<close>

fun error_text :: "py_error \<Rightarrow> string" where
  "error_text (RuntimeError m) = m"
| "error_text (ValueError m) = m"
| "error_text (KeyError m) = m"
| "error_text (TypeError m) = m"
| "error_text (CircuitBreakerError m) = m"
| "error_text DecodeError = ''JSONDecodeError''"
| "error_text InvalidOperation = ''InvalidOperation''"
| "error_text (ResponseError m) = m"
| "error_text (IntegrityError m) = m"
| "error_text (DatabaseError m) = m"
| "error_text (HTTPException c m) = m"
| "error_text (BrokerUnreachable m) = m"
| "error_text (BrokerFailure m) = m"

definition raised :: "py_error \<Rightarrow> client_error" where
  "raised e = UncaughtError (error_text e)"

record recovery_counts =
  rc_pending :: nat
  rc_scheduled :: nat
  rc_blocked :: nat
  rc_failed :: nat
  rc_canceled :: nat
  rc_expired :: nat
  rc_parents_expired :: nat

record ('s, 'j) recovery_run =
  rn_world :: "('s, 'j) slice_world"
  rn_canceled_parents :: "string list"
  rn_expired_parents :: "string list"
  rn_counts :: recovery_counts

definition RECOVERABLE_PARENTS :: "string list" where
  "RECOVERABLE_PARENTS = [''accepted'', ''submitted'', ''submitted_unconfirmed'']"

definition TERMINAL_PARENTS :: "string list" where
  "TERMINAL_PARENTS = [''canceled'', ''expired'', ''failed'']"

text \<open>
  A conditional update of this module: its statuses are those of the schema, so it does not raise.
\<close>

definition mark_in_recovery ::
  "rat \<Rightarrow> string \<Rightarrow> string \<Rightarrow> string \<Rightarrow> ('s, 'j) slice_world \<Rightarrow> ('s, 'j) slice_world" where
  "mark_in_recovery now cid status message w =
     w\<lparr>sw_db := snd (update_order_status_cas now (slice_cas now cid status None (Some message)) (sw_db w))\<rparr>"

definition fail_in_recovery ::
  "rat \<Rightarrow> string \<Rightarrow> string \<Rightarrow> ('s, 'j) recovery_run \<Rightarrow> ('s, 'j) recovery_run" where
  "fail_in_recovery now cid message st =
     st\<lparr>rn_world := mark_in_recovery now cid ''failed'' message (rn_world st),
        rn_counts := (rn_counts st)\<lparr>rc_failed := Suc (rc_failed (rn_counts st))\<rparr>\<rparr>"

text \<open>The time a slice runs at, or the reason why it cannot.\<close>

definition slice_run_time ::
  "'s slice_env \<Rightarrow> rat \<Rightarrow> rat \<Rightarrow> 's \<Rightarrow> (string + rat) client_result \<times> 's" where
  "slice_run_time env now scheduled_time s =
     (if scheduled_time < now then
        let within_grace = (now - scheduled_time \<le> sl_misfire_grace env) in
        case get_market_clock_snapshot env s of
          (Inl e, s') \<Rightarrow> (Inl e, s')
        | (Inr clock, s') \<Rightarrow>
            (if within_grace then
               if sc_is_open clock then Inr (Inr now)
               else (case sc_next_open clock of
                  None \<Rightarrow> Inr (Inl ''Market closed and next open unavailable during recovery'')
                | Some t \<Rightarrow> Inr (Inr t))
             else
               if sc_is_open clock then Inr (Inr now)
               else (case sc_next_open clock of
                  None \<Rightarrow> Inr (Inl ''Slice missed grace period and next open unavailable'')
                | Some t \<Rightarrow> Inr (Inr t)), s')
      else (Inr (Inr scheduled_time), s))"

definition recovered_job :: "string \<Rightarrow> int \<Rightarrow> rat \<Rightarrow> order_row \<Rightarrow> slice_job" where
  "recovered_job parent slice_num run_time r =
     \<lparr>sj_parent_order_id = parent,
      sj_slice = \<lparr>sd_slice_num = nat slice_num, sd_qty = o_qty r, sd_scheduled_time = run_time,
        sd_client_order_id = o_client_order_id r, sd_strategy_id = o_strategy_id r,
        sd_status = o_status r\<rparr>,
      sj_symbol = o_symbol r, sj_side = o_side r, sj_order_type = o_order_type r,
      sj_limit_price = o_limit_price r, sj_stop_price = o_stop_price r,
      sj_time_in_force = o_time_in_force r, sj_run_date = run_time\<rparr>"

text \<open>The last part of the loop's body: the time, the row's update, the job.\<close>

definition reschedule_slice ::
  "'s slice_env \<Rightarrow> 'j job_store \<Rightarrow> rat \<Rightarrow> string \<Rightarrow> rat \<Rightarrow> int \<Rightarrow> order_row \<Rightarrow> ('s, 'j) recovery_run \<Rightarrow>
   unit client_result \<times> ('s, 'j) recovery_run" where
  "reschedule_slice env js now parent scheduled_time slice_num r st =
     (case slice_run_time env now scheduled_time (sw_server (rn_world st)) of
        (Inl e, s') \<Rightarrow> (Inl e, st\<lparr>rn_world := (rn_world st)\<lparr>sw_server := s'\<rparr>\<rparr>)
      | (Inr (Inl message), s') \<Rightarrow>
          (Inr (), fail_in_recovery now (o_client_order_id r) message
             (st\<lparr>rn_world := (rn_world st)\<lparr>sw_server := s'\<rparr>\<rparr>))
      | (Inr (Inr run_time), s') \<Rightarrow>
          let w = rn_world st;
              d' = (if run_time \<noteq> scheduled_time
                    then snd (update_order_scheduled_time now (o_client_order_id r) run_time (sw_db w))
                    else sw_db w);
              job_id = slice_job_id parent slice_num
          in if slice_num < 0 \<or> o_qty r \<le> 0
             then (Inl (raised (ValueError ''validation error for SliceDetail'')),
                   st\<lparr>rn_world := w\<lparr>sw_server := s', sw_db := d'\<rparr>\<rparr>)
             else if js_get js job_id (sw_jobs w) \<noteq> None
             then (Inr (), st\<lparr>rn_world := w\<lparr>sw_server := s', sw_db := d'\<rparr>\<rparr>)
             else (case js_add js job_id (recovered_job parent slice_num run_time r) (sw_jobs w) of
                None \<Rightarrow> (Inl (raised (KeyError ''ConflictingIdError'')),
                   st\<lparr>rn_world := w\<lparr>sw_server := s', sw_db := d'\<rparr>\<rparr>)
              | Some j' \<Rightarrow>
                  (Inr (), st\<lparr>rn_world := w\<lparr>sw_server := s', sw_db := d', sw_jobs := j'\<rparr>,
                     rn_counts := (rn_counts st)\<lparr>rc_scheduled := Suc (rc_scheduled (rn_counts st))\<rparr>\<rparr>)))"

text \<open>One turn of the loop over the pending slices.\<close>

definition recover_slice ::
  "'s slice_env \<Rightarrow> 'j job_store \<Rightarrow> rat \<Rightarrow> order_row \<Rightarrow> ('s, 'j) recovery_run \<Rightarrow>
   unit client_result \<times> ('s, 'j) recovery_run" where
  "recover_slice env js now r st =
     (let cid = o_client_order_id r; w = rn_world st; c = rn_counts st in
      case o_parent_order_id r of
        None \<Rightarrow> (Inr (), fail_in_recovery now cid ''Pending slice missing parent_order_id'' st)
      | Some p \<Rightarrow>
          if p = [] then (Inr (), fail_in_recovery now cid ''Pending slice missing parent_order_id'' st)
          else
      case get_order_by_client_id p (sw_db w) of
        Inl e \<Rightarrow> (Inl (raised e), st)
      | Inr None \<Rightarrow> (Inr (), fail_in_recovery now cid ''Parent order missing for pending slice recovery'' st)
      | Inr (Some parent) \<Rightarrow>
          if o_status parent \<in> set TERMINAL_PARENTS then
            (if p \<in> set (rn_canceled_parents st) then (Inr (), st)
             else
               let (n, d') = cancel_pending_slices now p (sw_db w)
               in (Inr (), st\<lparr>rn_world := w\<lparr>sw_db := d'\<rparr>,
                     rn_canceled_parents := p # rn_canceled_parents st,
                     rn_counts := c\<lparr>rc_canceled := rc_canceled c + n\<rparr>\<rparr>))
          else if o_status parent \<notin> set RECOVERABLE_PARENTS then (Inr (), st)
          else if is_slice_stale env r now then
            (Inr (), st\<lparr>rn_world := mark_in_recovery now cid ''expired''
                 (''Slice expired: age exceeded '' @ show_int (sl_stale_expiry env) @ ''s threshold'') w,
               rn_expired_parents := List.insert p (rn_expired_parents st),
               rn_counts := c\<lparr>rc_expired := Suc (rc_expired c)\<rparr>\<rparr>)
          else
      case breaker_is_tripped (sw_redis w) of
        Inl e \<Rightarrow> (Inl (raised e), st)
      | Inr True \<Rightarrow>
          (case breaker_get_trip_reason (sw_redis w) of
             Inl e \<Rightarrow> (Inl (raised e), st)
           | Inr reason \<Rightarrow>
               (Inr (), st\<lparr>rn_world := mark_in_recovery now cid ''blocked_circuit_breaker''
                     (''Circuit breaker is tripped - reason: '' @ sl_str env reason) w,
                  rn_counts := c\<lparr>rc_blocked := Suc (rc_blocked c)\<rparr>\<rparr>))
      | Inr False \<Rightarrow>
          (case o_scheduled_time r of
             None \<Rightarrow> (Inr (), fail_in_recovery now cid ''Pending slice missing scheduled_time'' st)
           | Some t \<Rightarrow>
               (case o_slice_num r of
                  None \<Rightarrow> (Inr (), fail_in_recovery now cid ''Pending slice missing slice_num'' st)
                | Some k \<Rightarrow> reschedule_slice env js now p t k r st)))"

fun recover_loop ::
  "'s slice_env \<Rightarrow> 'j job_store \<Rightarrow> rat \<Rightarrow> order_row list \<Rightarrow> ('s, 'j) recovery_run \<Rightarrow>
   unit client_result \<times> ('s, 'j) recovery_run" where
  "recover_loop env js now [] st = (Inr (), st)"
| "recover_loop env js now (r # rs) st =
     (case recover_slice env js now r st of
        (Inl e, st') \<Rightarrow> (Inl e, st')
      | (Inr _, st') \<Rightarrow> recover_loop env js now rs st')"

text \<open>The parents of slices this run has expired; the set is visited in some order.\<close>

definition expire_parent :: "rat \<Rightarrow> string \<Rightarrow> ('s, 'j) recovery_run \<Rightarrow> ('s, 'j) recovery_run" where
  "expire_parent now p st =
     (if p \<in> set (rn_canceled_parents st) then st
      else if count_non_terminal_children p (sw_db (rn_world st)) = 0 then
        st\<lparr>rn_world := mark_in_recovery now p ''expired''
             ''Parent expired: all child slices are in terminal state'' (rn_world st),
           rn_counts := (rn_counts st)\<lparr>rc_parents_expired := Suc (rc_parents_expired (rn_counts st))\<rparr>\<rparr>
      else st)"

definition recover_zombie_slices ::
  "'s slice_env \<Rightarrow> 'j job_store \<Rightarrow> rat \<Rightarrow> ('s, 'j) slice_world \<Rightarrow>
   recovery_counts client_result \<times> ('s, 'j) slice_world" where
  "recover_zombie_slices env js now w =
     (case get_pending_child_slices (sw_db w) of
        Inl e \<Rightarrow> (Inl (raised e), w)
      | Inr pending \<Rightarrow>
          let counts = \<lparr>rc_pending = length pending, rc_scheduled = 0, rc_blocked = 0, rc_failed = 0,
                rc_canceled = 0, rc_expired = 0, rc_parents_expired = 0\<rparr>
          in if pending = [] then (Inr counts, w)
             else (case recover_loop env js now pending
                 \<lparr>rn_world = w, rn_canceled_parents = [], rn_expired_parents = [], rn_counts = counts\<rparr> of
               (Inl e, st) \<Rightarrow> (Inl e, rn_world st)
             | (Inr _, st) \<Rightarrow>
                 let st' = fold (expire_parent now) (rn_expired_parents st) st
                 in (Inr (rn_counts st'), rn_world st')))"

section \<open>Execution\<close>

definition mark_slice ::
  "'s slice_env \<Rightarrow> nat \<Rightarrow> io_call \<Rightarrow> string \<Rightarrow> string \<Rightarrow> string option \<Rightarrow> string option \<Rightarrow>
   ('s, 'j) slice_world \<Rightarrow> unit result \<times> ('s, 'j) slice_world" where
  "mark_slice env n call cid status broker_order_id message w =
     (case sl_fault env n call of
        Some e \<Rightarrow> (Inl e, w)
      | None \<Rightarrow>
          (case update_order_status_cas (sl_now env n)
               (slice_cas (sl_now env n) cid status broker_order_id message) (sw_db w) of
             (Inl e, d') \<Rightarrow> (Inl e, w\<lparr>sw_db := d'\<rparr>)
           | (Inr _, d') \<Rightarrow> (Inr (), w\<lparr>sw_db := d'\<rparr>)))"

definition read_call :: "'s slice_env \<Rightarrow> nat \<Rightarrow> io_call \<Rightarrow> 'a result \<Rightarrow> 'a result" where
  "read_call env n call x = (case sl_fault env n call of Some e \<Rightarrow> Inl e | None \<Rightarrow> x)"

text \<open>\<open>OperationalError\<close>, \<open>DatabaseError\<close>, \<open>ConnectionError\<close> and \<open>RedisError\<close> with their subclasses.\<close>

fun is_infra_error :: "py_error \<Rightarrow> bool" where
  "is_infra_error (DatabaseError _) = True"
| "is_infra_error (IntegrityError _) = True"
| "is_infra_error (ResponseError _) = True"
| "is_infra_error _ = False"

definition is_canceled_row :: "order_row option \<Rightarrow> bool" where
  "is_canceled_row row = (case row of None \<Rightarrow> False | Some r \<Rightarrow> o_status r = ''canceled'')"

text \<open>The first \<open>try\<close> block; the answer says whether to go on.\<close>

definition pre_submission_checks ::
  "'s slice_env \<Rightarrow> nat \<Rightarrow> string \<Rightarrow> ('s, 'j) slice_world \<Rightarrow> bool result \<times> ('s, 'j) slice_world" where
  "pre_submission_checks env n cid w =
     (case read_call env n ReadOrder (get_order_by_client_id cid (sw_db w)) of
        Inl e \<Rightarrow> (Inl e, w)
      | Inr row \<Rightarrow>
          if is_canceled_row row then (Inr False, w)
          else
      case read_call env n ReadKillSwitch (ks_is_engaged (sw_redis w)) of
        Inl e \<Rightarrow> (Inl e, w)
      | Inr True \<Rightarrow>
          (case mark_slice env n MarkBlocked cid ''blocked_kill_switch'' None
               (Some ''Kill switch is engaged - all new orders blocked'') w of
             (Inl e, w') \<Rightarrow> (Inl e, w') | (Inr _, w') \<Rightarrow> (Inr False, w'))
      | Inr False \<Rightarrow>
      case read_call env n ReadBreaker (breaker_is_tripped (sw_redis w)) of
        Inl e \<Rightarrow> (Inl e, w)
      | Inr False \<Rightarrow> (Inr True, w)
      | Inr True \<Rightarrow>
          (case breaker_get_trip_reason (sw_redis w) of
             Inl e \<Rightarrow> (Inl e, w)
           | Inr reason \<Rightarrow>
               (case mark_slice env n MarkBlocked cid ''blocked_circuit_breaker'' None
                    (Some (''Circuit breaker is tripped - reason: '' @ sl_str env reason)) w of
                  (Inl e, w') \<Rightarrow> (Inl e, w') | (Inr _, w') \<Rightarrow> (Inr False, w'))))"

text \<open>The two \<open>except\<close> clauses for failures of the infrastructure.\<close>

definition infra_guard ::
  "'s slice_env \<Rightarrow> nat \<Rightarrow> string \<Rightarrow> string \<Rightarrow> 'a result \<times> ('s, 'j) slice_world \<Rightarrow>
   'a client_result \<times> ('s, 'j) slice_world" where
  "infra_guard env n cid prefix xw =
     (case xw of
        (Inr a, w) \<Rightarrow> (Inr a, w)
      | (Inl e, w) \<Rightarrow>
          if \<not> is_infra_error e then (Inl (raised e), w)
          else (case mark_slice env n MarkInfraFailed cid ''failed'' None (Some (prefix @ error_text e)) w of
              (Inl e', w') \<Rightarrow> (Inl (raised (if is_infra_error e' then e else e')), w')
            | (Inr _, w') \<Rightarrow> (Inl (raised e), w')))"

definition slice_order :: "slice_job \<Rightarrow> order_request" where
  "slice_order job =
     \<lparr>or_symbol = upper (sj_symbol job), or_side = sj_side job, or_qty = sd_qty (sj_slice job),
      or_order_type = sj_order_type job, or_limit_price = sj_limit_price job,
      or_stop_price = sj_stop_price job, or_time_in_force = sj_time_in_force job,
      or_execution_style = ''instant'', or_client_order_id = None\<rparr>"

text \<open>Everything before the submission: the checks, the request, the second look at the row.\<close>

definition slice_guards ::
  "'s slice_env \<Rightarrow> nat \<Rightarrow> slice_job \<Rightarrow> ('s, 'j) slice_world \<Rightarrow> bool client_result \<times> ('s, 'j) slice_world" where
  "slice_guards env n job w =
     (let cid = sd_client_order_id (sj_slice job) in
      case infra_guard env n cid ''Infrastructure failure during pre-submission checks: ''
          (pre_submission_checks env n cid w) of
        (Inl e, w') \<Rightarrow> (Inl e, w')
      | (Inr False, w') \<Rightarrow> (Inr False, w')
      | (Inr True, w') \<Rightarrow>
          if \<not> order_request_ok (db_request (slice_order job))
          then (Inl (raised (ValueError ''validation error for OrderRequest'')), w')
          else infra_guard env n cid ''Infrastructure failure at pre-submit guard: ''
            (map_sum id (\<lambda>row. \<not> is_canceled_row row)
               (read_call env n ReadOrderAgain (get_order_by_client_id cid (sw_db w'))), w'))"

text \<open>Three attempts to record the submission, then one to record that it is unconfirmed.\<close>

fun record_submission ::
  "'s slice_env \<Rightarrow> nat \<Rightarrow> string \<Rightarrow> string option \<Rightarrow> nat list \<Rightarrow> string \<Rightarrow> ('s, 'j) slice_world \<Rightarrow>
   unit result \<times> ('s, 'j) slice_world" where
  "record_submission env n cid bid [] error w =
     mark_slice env n MarkUnconfirmed cid ''submitted_unconfirmed'' bid
       (Some (''DB update failed after broker submission: '' @ error)) w"
| "record_submission env n cid bid (k # ks) error w =
     (case mark_slice env n (MarkSubmitted k) cid ''submitted'' bid (Some []) w of
        (Inr _, w') \<Rightarrow> (Inr (), w')
      | (Inl e, w') \<Rightarrow> record_submission env n cid bid ks (error_text e) w')"

definition slice_submit ::
  "'s slice_env \<Rightarrow> nat \<Rightarrow> slice_job \<Rightarrow> ('s, 'j) slice_world \<Rightarrow> unit client_result \<times> ('s, 'j) slice_world" where
  "slice_submit env n job w =
     (let cid = sd_client_order_id (sj_slice job); lift = map_prod (map_sum raised id) id in
      case sl_executor env of
        None \<Rightarrow> lift (mark_slice env n MarkDryRun cid ''dry_run'' None None w)
      | Some api \<Rightarrow>
          let (x, s') = alpaca_submit_order api (slice_order job) cid (sw_server w);
              w1 = w\<lparr>sw_server := s', sw_sent := sw_sent w @ [(cid, slice_order job)]\<rparr>
          in (case x of
                Inr bo \<Rightarrow> lift (record_submission env n cid (b_id bo) [0, 1, 2] [] w1)
              | Inl (AlpacaValidationError m) \<Rightarrow> lift (mark_slice env n MarkRejected cid ''rejected'' None (Some m) w1)
              | Inl (AlpacaRejectionError m) \<Rightarrow> lift (mark_slice env n MarkRejected cid ''rejected'' None (Some m) w1)
              | Inl e \<Rightarrow> (Inl e, w1)))"

definition execute_slice ::
  "'s slice_env \<Rightarrow> nat \<Rightarrow> slice_job \<Rightarrow> ('s, 'j) slice_world \<Rightarrow> unit client_result \<times> ('s, 'j) slice_world" where
  "execute_slice env n job w =
     (case slice_guards env n job w of
        (Inl e, w') \<Rightarrow> (Inl e, w')
      | (Inr False, w') \<Rightarrow> (Inr (), w')
      | (Inr True, w') \<Rightarrow> slice_submit env n job w')"

text \<open>An attempt of the decorated method and what the system does until the next one.\<close>

definition slice_attempt ::
  "'s slice_env \<Rightarrow> slice_job \<Rightarrow> nat \<times> ('s, 'j) slice_world \<Rightarrow>
   unit client_result \<times> nat \<times> ('s, 'j) slice_world" where
  "slice_attempt env job nw =
     (case nw of (n, w) \<Rightarrow>
        let (x, w') = execute_slice env n job w
        in (x, Suc n, w'\<lparr>sw_redis := sl_redis_meanwhile env n (sw_redis w'),
                         sw_db := sl_db_meanwhile env n (sw_db w')\<rparr>))"

definition mark_exhausted ::
  "'s slice_env \<Rightarrow> nat \<Rightarrow> slice_job \<Rightarrow> string \<Rightarrow> ('s, 'j) slice_world \<Rightarrow>
   unit client_result \<times> ('s, 'j) slice_world" where
  "mark_exhausted env n job m w =
     map_prod (map_sum raised id) id
       (mark_slice env n MarkExhausted (sd_client_order_id (sj_slice job)) ''failed'' None
          (Some (''Retry exhausted: '' @ m)) w)"

definition execute_slice_job_wrapper ::
  "'s slice_env \<Rightarrow> slice_job \<Rightarrow> ('s, 'j) slice_world \<Rightarrow> unit client_result \<times> ('s, 'j) slice_world" where
  "execute_slice_job_wrapper env job w =
     (case with_retry (slice_attempt env job) (0, w) of
        (Inl (AlpacaConnectionError m), n, w') \<Rightarrow> mark_exhausted env n job m w'
      | (x, n, w') \<Rightarrow> (x, w'))"

section \<open>Cancellation\<close>

text \<open>
  The jobs \<open>fired\<close> are started by the library between the listing of the jobs and their removal.
\<close>

definition remove_all :: "'j job_store \<Rightarrow> string list \<Rightarrow> 'j \<Rightarrow> 'j" where
  "remove_all js ids j = fold (\<lambda>i j. case js_remove js i j of None \<Rightarrow> j | Some j' \<Rightarrow> j') ids j"

fun remove_jobs :: "'j job_store \<Rightarrow> string \<Rightarrow> string list \<Rightarrow> nat \<times> 'j \<Rightarrow> nat \<times> 'j" where
  "remove_jobs js prefix [] nj = nj"
| "remove_jobs js prefix (i # is) nj =
     (case nj of (n, j) \<Rightarrow>
        if take (length prefix) i = prefix then
          (case js_remove js i j of
             None \<Rightarrow> remove_jobs js prefix is (n, j)
           | Some j' \<Rightarrow> remove_jobs js prefix is (Suc n, j'))
        else remove_jobs js prefix is (n, j))"

definition cancel_remaining_slices ::
  "'j job_store \<Rightarrow> rat \<Rightarrow> string list \<Rightarrow> string \<Rightarrow> ('s, 'j) slice_world \<Rightarrow>
   (nat \<times> nat) \<times> ('s, 'j) slice_world" where
  "cancel_remaining_slices js now fired parent w =
     (let (db_canceled, d') = cancel_pending_slices now parent (sw_db w);
          ids = js_ids js (sw_jobs w);
          (canceled, j') = remove_jobs js (parent @ ''_slice_'') ids (0, remove_all js fired (sw_jobs w))
      in ((canceled, db_canceled), w\<lparr>sw_db := d', sw_jobs := j'\<rparr>))"

section \<open>What a job leaves alone\<close>

text \<open>
  The steps of a job change the database at most in the row of their slice; Redis and the jobs
  they do not change.
\<close>

definition row_evolves :: "order_row option \<Rightarrow> order_row option \<Rightarrow> bool" where
  "row_evolves a b =
     (case a of None \<Rightarrow> b = None
      | Some r \<Rightarrow> (case b of None \<Rightarrow> False
          | Some r' \<Rightarrow> same_slice r r' \<and> (o_status r' = ''pending_new'' \<longrightarrow> o_status r = ''pending_new'')))"

definition only_row :: "string \<Rightarrow> ('s, 'j) slice_world \<Rightarrow> ('s, 'j) slice_world \<Rightarrow> bool" where
  "only_row cid w w' \<longleftrightarrow>
     sw_redis w' = sw_redis w \<and> sw_jobs w' = sw_jobs w \<and>
     (\<forall>c. c \<noteq> cid \<longrightarrow> db_order (sw_db w') c = db_order (sw_db w) c) \<and>
     row_evolves (db_order (sw_db w) cid) (db_order (sw_db w') cid) \<and>
     (keyed_orders (sw_db w) \<longrightarrow> keyed_orders (sw_db w'))"

definition sends_nothing :: "('s, 'j) slice_world \<Rightarrow> ('s, 'j) slice_world \<Rightarrow> bool" where
  "sends_nothing w w' \<longleftrightarrow> sw_server w' = sw_server w \<and> sw_sent w' = sw_sent w"

lemma row_evolves_refl [simp]: "row_evolves a a"
  by (simp add: row_evolves_def split: option.splits)

lemma row_evolves_trans: "row_evolves a b \<Longrightarrow> row_evolves b c \<Longrightarrow> row_evolves a c"
  by (cases a; cases b; cases c) (auto simp: row_evolves_def same_slice_def)

lemma only_row_refl [simp]: "only_row cid w w"
  by (simp add: only_row_def)

lemma only_row_trans: "only_row cid w w1 \<Longrightarrow> only_row cid w1 w2 \<Longrightarrow> only_row cid w w2"
  unfolding only_row_def by (auto intro: row_evolves_trans)

lemma only_row_sent [simp]:
  "only_row cid w (w1\<lparr>sw_server := s, sw_sent := l\<rparr>) \<longleftrightarrow> only_row cid w w1"
  "only_row cid (w\<lparr>sw_server := s, sw_sent := l\<rparr>) w1 \<longleftrightarrow> only_row cid w w1"
  by (simp_all add: only_row_def)

lemma slice_cas_simps [simp]:
  "c_client_order_id (slice_cas now cid status bid m) = cid"
  "c_status (slice_cas now cid status bid m) = status"
  "c_broker_updated_at (slice_cas now cid status bid m) = now"
  "c_broker_order_id (slice_cas now cid status bid m) = bid"
  "c_filled_avg_price (slice_cas now cid status bid m) = None"
  "c_error_message (slice_cas now cid status bid m) = m"
  by (simp_all add: slice_cas_def)

text \<open>The conditional update of a slice's row.\<close>

lemma slice_cas_row:
  assumes "status \<in> set ORDER_STATUSES"
  shows "db_order (snd (update_order_status_cas now (slice_cas now cid status bid m) d)) c =
    (if c = cid then map_option (cas_row now (slice_cas now cid status bid m)) (db_order d c)
     else db_order d c)"
    and "\<exists>x. fst (update_order_status_cas now (slice_cas now cid status bid m) d) = Inr x"
proof -
  let ?u = "slice_cas now cid status bid m"
  show "db_order (snd (update_order_status_cas now ?u d)) c =
    (if c = cid then map_option (cas_row now ?u) (db_order d c) else db_order d c)"
  proof -
    have "storable ?u" using assms by (simp add: storable_def)
    then have "cas_effect now ?u = cas_row now ?u" by (simp add: fun_eq_iff cas_effect_storable)
    then show ?thesis by (simp add: cas_db_order)
  qed
  show "\<exists>x. fst (update_order_status_cas now ?u d) = Inr x"
    by (rule cas_cases [of d ?u now]) (use assms in \<open>auto simp: filled_price_violates_def\<close>)
qed

lemma only_row_cas:
  assumes "status \<in> set ORDER_STATUSES" "status \<noteq> ''pending_new''"
  shows "only_row cid w (w\<lparr>sw_db := snd (update_order_status_cas now (slice_cas now cid status bid m) (sw_db w))\<rparr>)"
  using assms
  by (auto simp: only_row_def slice_cas_row cas_row_def row_evolves_def keyed_cas split: option.splits)

definition MARKS :: "string list" where
  "MARKS = [''blocked_kill_switch'', ''blocked_circuit_breaker'', ''failed'', ''dry_run'', ''submitted'',
     ''submitted_unconfirmed'', ''rejected'', ''expired'']"

lemma MARKS_ok: "status \<in> set MARKS \<Longrightarrow> status \<in> set ORDER_STATUSES \<and> status \<noteq> ''pending_new'' \<and> status \<noteq> ''canceled''"
  by (auto simp: MARKS_def ORDER_STATUSES_def)

lemma mark_slice_effect:
  assumes "mark_slice env n call cid status bid m w = (x, w')" "status \<in> set MARKS"
  shows "only_row cid w w'" "sends_nothing w w'"
    and "x = Inr () \<Longrightarrow> w' = w\<lparr>sw_db := snd (update_order_status_cas (sl_now env n)
           (slice_cas (sl_now env n) cid status bid m) (sw_db w))\<rparr>"
    and "x = Inl e \<Longrightarrow> w' = w \<and> sl_fault env n call = Some e"
proof -
  let ?c = "update_order_status_cas (sl_now env n) (slice_cas (sl_now env n) cid status bid m) (sw_db w)"
  note ok = MARKS_ok [OF assms(2)]
  obtain y where y: "fst ?c = Inr y" using slice_cas_row(2) ok by blast
  then obtain d' where c: "?c = (Inr y, d')" by (cases ?c) simp
  show "only_row cid w w'" "sends_nothing w w'"
    and "x = Inr () \<Longrightarrow> w' = w\<lparr>sw_db := snd ?c\<rparr>"
    and "x = Inl e \<Longrightarrow> w' = w \<and> sl_fault env n call = Some e"
    using assms(1) only_row_cas [of status cid w "sl_now env n" bid m] ok c
    by (auto simp: mark_slice_def sends_nothing_def split: option.splits)
qed

lemma sends_nothing_simps:
  "sends_nothing w w"
  "sends_nothing w w1 \<Longrightarrow> sends_nothing w1 w2 \<Longrightarrow> sends_nothing w w2"
  by (simp_all add: sends_nothing_def)

text \<open>The first block of checks.\<close>

lemma get_order_Inr: "get_order_by_client_id cid d = Inr row \<Longrightarrow> row = db_order d cid"
  by (auto simp: get_order_by_client_id_def rbind_Inr_iff order_detail_def split: option.splits if_splits)

lemma read_call_Inr: "read_call env n call x = Inr y \<longleftrightarrow> sl_fault env n call = None \<and> x = Inr y"
  by (auto simp: read_call_def split: option.splits)

lemma pre_submission_effect:
  assumes "pre_submission_checks env n cid w = (x, w')"
  shows "only_row cid w w'" "sends_nothing w w'"
    and "x = Inr True \<Longrightarrow> w' = w \<and> \<not> is_canceled_row (db_order (sw_db w) cid) \<and>
           ks_is_engaged (sw_redis w) = Inr False \<and> breaker_is_tripped (sw_redis w) = Inr False"
    and "x = Inl e \<Longrightarrow> w' = w"
proof -
  have marks: "''blocked_kill_switch'' \<in> set MARKS" "''blocked_circuit_breaker'' \<in> set MARKS"
    by (simp_all add: MARKS_def)
  note effect = mark_slice_effect [OF _ marks(1)] mark_slice_effect [OF _ marks(2)]
  show "only_row cid w w'" "sends_nothing w w'"
    using assms by (auto simp: pre_submission_checks_def sends_nothing_simps
        split: sum.splits if_splits bool.splits prod.splits intro: effect(1,2,5,6))
  show "x = Inr True \<Longrightarrow> w' = w \<and> \<not> is_canceled_row (db_order (sw_db w) cid) \<and>
      ks_is_engaged (sw_redis w) = Inr False \<and> breaker_is_tripped (sw_redis w) = Inr False"
    using assms by (auto simp: pre_submission_checks_def read_call_Inr
        split: sum.splits if_splits bool.splits prod.splits dest!: get_order_Inr)
  show "x = Inl e \<Longrightarrow> w' = w"
    using assms by (auto simp: pre_submission_checks_def
        split: sum.splits if_splits bool.splits prod.splits dest: effect(4,8))
qed

lemma infra_guard_effect:
  assumes "infra_guard env n cid prefix (x, w) = (y, w')"
  shows "only_row cid w w'" "sends_nothing w w'"
    and "y = Inr a \<Longrightarrow> x = Inr a \<and> w' = w" and "\<not> is_connection_error y"
proof -
  have mark: "''failed'' \<in> set MARKS" by (simp add: MARKS_def)
  note effect = mark_slice_effect [OF _ mark]
  show "only_row cid w w'" "sends_nothing w w'"
    using assms by (auto simp: infra_guard_def sends_nothing_simps
        split: sum.splits if_splits prod.splits intro: effect(1,2))
  show "y = Inr a \<Longrightarrow> x = Inr a \<and> w' = w" and "\<not> is_connection_error y"
    using assms by (auto simp: infra_guard_def raised_def split: sum.splits if_splits prod.splits)
qed

text \<open>What has to hold for a slice to pass.\<close>

definition slice_clear :: "slice_job \<Rightarrow> ('s, 'j) slice_world \<Rightarrow> bool" where
  "slice_clear job w \<longleftrightarrow>
     \<not> is_canceled_row (db_order (sw_db w) (sd_client_order_id (sj_slice job))) \<and>
     ks_is_engaged (sw_redis w) = Inr False \<and> breaker_is_tripped (sw_redis w) = Inr False \<and>
     order_request_ok (db_request (slice_order job))"

lemma slice_guards_effect:
  assumes "slice_guards env n job w = (x, w')"
  shows "only_row (sd_client_order_id (sj_slice job)) w w'" "sends_nothing w w'"
    and "x = Inr True \<Longrightarrow> w' = w \<and> slice_clear job w" and "\<not> is_connection_error x"
proof -
  let ?cid = "sd_client_order_id (sj_slice job)"
  obtain x1 w1 where pre: "pre_submission_checks env n ?cid w = (x1, w1)" by (metis prod.exhaust)
  obtain y1 w2 where g1: "infra_guard env n ?cid ''Infrastructure failure during pre-submission checks: ''
      (x1, w1) = (y1, w2)" by (metis prod.exhaust)
  note e1 = pre_submission_effect [OF pre] and e2 = infra_guard_effect [OF g1]
  have one: "only_row ?cid w w2" "sends_nothing w w2"
    using only_row_trans [OF e1(1) e2(1)] sends_nothing_simps(2) [OF e1(2) e2(2)] by simp_all
  obtain y2 w3 where g2: "infra_guard env n ?cid ''Infrastructure failure at pre-submit guard: ''
      (map_sum id (\<lambda>row. \<not> is_canceled_row row)
         (read_call env n ReadOrderAgain (get_order_by_client_id ?cid (sw_db w2))), w2) = (y2, w3)"
    by (metis prod.exhaust)
  note e3 = infra_guard_effect [OF g2]
  have two: "only_row ?cid w w3" "sends_nothing w w3"
    using only_row_trans [OF one(1) e3(1)] sends_nothing_simps(2) [OF one(2) e3(2)] by simp_all
  have unfolded: "slice_guards env n job w = (case y1 of Inl e \<Rightarrow> (Inl e, w2) | Inr False \<Rightarrow> (Inr False, w2)
     | Inr True \<Rightarrow> if \<not> order_request_ok (db_request (slice_order job))
          then (Inl (raised (ValueError ''validation error for OrderRequest'')), w2) else (y2, w3))"
    by (simp add: slice_guards_def Let_def pre g1 g2 split: sum.splits bool.splits)
  show "only_row ?cid w w'" "sends_nothing w w'"
    using assms one two unfolding unfolded by (auto split: sum.splits bool.splits if_splits)
  show "x = Inr True \<Longrightarrow> w' = w \<and> slice_clear job w"
    using assms e1(3) e2(3) e3(3) unfolding unfolded
    by (auto simp: slice_clear_def split: sum.splits bool.splits if_splits)
  show "\<not> is_connection_error x"
    using assms e2(4) e3(4) unfolding unfolded by (auto simp: raised_def split: sum.splits bool.splits if_splits)
qed

text \<open>The submission.\<close>

lemma record_submission_effect:
  assumes "record_submission env n cid bid ks m w = (x, w')"
  shows "only_row cid w w'" "sends_nothing w w'"
proof -
  have marks: "''submitted'' \<in> set MARKS" "''submitted_unconfirmed'' \<in> set MARKS"
    by (simp_all add: MARKS_def)
  have "only_row cid w w' \<and> sends_nothing w w'"
    using assms
  proof (induction ks arbitrary: w m)
    case Nil
    from mark_slice_effect(1,2) [OF Nil [unfolded record_submission.simps] marks(2)] show ?case by simp
  next
    case (Cons k ks)
    obtain y w1 where m: "mark_slice env n (MarkSubmitted k) cid ''submitted'' bid (Some []) w = (y, w1)"
      by (metis prod.exhaust)
    note e = mark_slice_effect [OF m marks(1)]
    show ?case
    proof (cases y)
      case (Inl er)
      with Cons.prems m have "record_submission env n cid bid ks (error_text er) w1 = (x, w')" by simp
      from Cons.IH [OF this] e(1,2) show ?thesis
        by (blast intro: only_row_trans sends_nothing_simps(2))
    next
      case (Inr u)
      with Cons.prems m e(1,2) show ?thesis by simp
    qed
  qed
  then show "only_row cid w w'" "sends_nothing w w'" by simp_all
qed

lemma slice_submit_effect:
  assumes "slice_submit env n job w = (x, w')"
  shows "only_row (sd_client_order_id (sj_slice job)) w w'"
    and "sw_sent w' = sw_sent w @
           (case sl_executor env of None \<Rightarrow> [] | Some api \<Rightarrow> [(sd_client_order_id (sj_slice job), slice_order job)])"
proof -
  let ?cid = "sd_client_order_id (sj_slice job)"
  let ?add = "case sl_executor env of None \<Rightarrow> [] | Some api \<Rightarrow> [(?cid, slice_order job)]"
  have marks: "''dry_run'' \<in> set MARKS" "''rejected'' \<in> set MARKS" by (simp_all add: MARKS_def)
  have mark: "only_row ?cid w1 w2 \<and> sends_nothing w1 w2"
    if "map_prod (map_sum raised id) id (mark_slice env n call ?cid status bid m w1) = (x2, w2)"
      "status \<in> set MARKS" for call status bid m and w1 w2 :: "('a, 'b) slice_world" and x2 :: "client_error + unit"
    using that mark_slice_effect(1,2) [OF _ that(2)] by (cases "mark_slice env n call ?cid status bid m w1") auto
  have "only_row ?cid w w' \<and> sw_sent w' = sw_sent w @ ?add"
  proof (cases "sl_executor env")
    case None
    then show ?thesis using assms mark [OF _ marks(1)] by (simp add: slice_submit_def Let_def sends_nothing_def)
  next
    case (Some api)
    obtain y s' where y: "alpaca_submit_order api (slice_order job) ?cid (sw_server w) = (y, s')"
      by (metis prod.exhaust)
    let ?w1 = "w\<lparr>sw_server := s', sw_sent := sw_sent w @ [(?cid, slice_order job)]\<rparr>"
    have "only_row ?cid ?w1 w' \<and> (sends_nothing ?w1 w')"
    proof (cases y)
      case (Inr bo)
      obtain x1 w2 where r: "record_submission env n ?cid (b_id bo) [0, 1, 2] [] ?w1 = (x1, w2)"
        by (metis prod.exhaust)
      with assms Some y Inr record_submission_effect [OF r] show ?thesis
        by (simp add: slice_submit_def Let_def)
    next
      case (Inl e)
      with assms Some y mark [OF _ marks(2), of _ _ _ ?w1] show ?thesis
        by (cases e) (auto simp: slice_submit_def Let_def sends_nothing_simps)
    qed
    then show ?thesis by (simp add: sends_nothing_def Some)
  qed
  then show "only_row ?cid w w'" "sw_sent w' = sw_sent w @ ?add" by simp_all
qed

section \<open>Concrete jobs, rows and surroundings\<close>

definition list_jobs :: "(string \<times> slice_job) list job_store" where
  "list_jobs =
     \<lparr>js_add = (\<lambda>i job j. if map_of j i = None then Some ((i, job) # j) else None),
      js_get = (\<lambda>i j. map_of j i), js_ids = (\<lambda>j. remdups (map fst j)),
      js_remove = (\<lambda>i j. if map_of j i = None then None else Some (filter (\<lambda>e. fst e \<noteq> i) j))\<rparr>"

lemma map_of_filter_key: "map_of (filter (\<lambda>e. fst e \<noteq> i) j) k = (if k = i then None else map_of j k)"
  by (induction j) auto

lemma list_jobs_ok: "job_store_ok list_jobs"
  by (auto simp: job_store_ok_def list_jobs_def map_of_filter_key map_of_eq_None_iff split: option.splits)

definition demo_slice_request :: db_order_request where
  "demo_slice_request =
     \<lparr>q_symbol = ''AAPL'', q_side = ''buy'', q_qty = 10, q_order_type = ''market'', q_limit_price = None,
      q_stop_price = None, q_time_in_force = ''day''\<rparr>"

definition demo_parent :: "string \<Rightarrow> order_row" where
  "demo_parent status = (fresh_row 10 ''p1'' ''twap'' demo_slice_request status)\<lparr>o_total_slices := Some 1\<rparr>"

definition demo_child :: "string \<Rightarrow> order_row" where
  "demo_child status = (fresh_row 10 ''c1'' ''twap'' demo_slice_request status)
     \<lparr>o_parent_order_id := Some ''p1'', o_slice_num := Some 0, o_scheduled_time := Some 100\<rparr>"

definition demo_slices_db :: "string \<Rightarrow> string \<Rightarrow> db" where
  "demo_slices_db parent child =
     empty_db\<lparr>db_orders := [(''p1'', demo_parent parent), (''c1'', demo_child child)]\<rparr>"

definition demo_slice_job :: slice_job where
  "demo_slice_job = recovered_job ''p1'' 0 100 (demo_child ''pending_new'')"

definition demo_slice_world ::
  "redis \<Rightarrow> string \<Rightarrow> string \<Rightarrow> (string \<times> slice_job) list \<Rightarrow>
   (string list \<times> nat, (string \<times> slice_job) list) slice_world" where
  "demo_slice_world r parent child jobs =
     \<lparr>sw_redis = r, sw_db = demo_slices_db parent child, sw_jobs = jobs, sw_server = ([], 0), sw_sent = []\<rparr>"

definition demo_slice_env :: "(string list \<times> nat) slice_env" where
  "demo_slice_env =
     \<lparr>sl_executor = Some (demo_api []),
      sl_clock_provider = Some \<lparr>sc_is_open = True, sc_next_open = None\<rparr>, sl_misfire_grace = 60,
      sl_stale_expiry = 86400, sl_now = (\<lambda>n. 200 + of_nat n), sl_fault = (\<lambda>n c. None),
      sl_redis_meanwhile = (\<lambda>n r. r), sl_db_meanwhile = (\<lambda>n d. d), sl_str = (\<lambda>j. [])\<rparr>"

end
