(* ===== verification/Slice_Recovery.thy ===== *)
theory Slice_Recovery
  imports Slice_Scheduler
begin

text \<open>
  The recovery of slices after a restart, \<open>recover_zombie_slices\<close> of
  \<^verbatim>\<open>apps/execution_gateway/slice_scheduler.py\<close>: what it changes and what it guarantees.
\<close>

section \<open>The effect of one turn\<close>

lemma mark_in_recovery_simps [simp]:
  "sw_redis (mark_in_recovery now cid status m w) = sw_redis w"
  "sw_jobs (mark_in_recovery now cid status m w) = sw_jobs w"
  "sw_server (mark_in_recovery now cid status m w) = sw_server w"
  "sw_sent (mark_in_recovery now cid status m w) = sw_sent w"
  by (simp_all add: mark_in_recovery_def)

lemma mark_in_recovery_rows:
  assumes "status \<in> set MARKS"
  shows "db_order (sw_db (mark_in_recovery now cid status m w)) c =
      (if c = cid then map_option (cas_row now (slice_cas now cid status None (Some m))) (db_order (sw_db w) c)
       else db_order (sw_db w) c)"
  using MARKS_ok [OF assms] by (simp add: mark_in_recovery_def slice_cas_row)

text \<open>The worlds that one turn can lead to.\<close>

definition turn_changes ::
  "'j job_store \<Rightarrow> rat \<Rightarrow> order_row \<Rightarrow> ('s, 'j) slice_world \<Rightarrow> ('s, 'j) slice_world \<Rightarrow> bool" where
  "turn_changes js now r w w' \<longleftrightarrow>
     (\<exists>s'. w' = w\<lparr>sw_server := s'\<rparr> \<or>
       (\<exists>status m. status \<in> set MARKS \<and>
          w' = mark_in_recovery now (o_client_order_id r) status m (w\<lparr>sw_server := s'\<rparr>)) \<or>
       (\<exists>p row. o_parent_order_id r = Some p \<and> db_order (sw_db w) p = Some row \<and>
          o_status row \<in> set TERMINAL_PARENTS \<and>
          w' = w\<lparr>sw_db := snd (cancel_pending_slices now p (sw_db w))\<rparr>) \<or>
       (\<exists>p k t d' j'. o_parent_order_id r = Some p \<and> o_slice_num r = Some k \<and>
          d' \<in> {sw_db w, snd (update_order_scheduled_time now (o_client_order_id r) t (sw_db w))} \<and>
          (j' = sw_jobs w \<or> js_add js (slice_job_id p k) (recovered_job p k t r) (sw_jobs w) = Some j') \<and>
          w' = w\<lparr>sw_server := s', sw_db := d', sw_jobs := j'\<rparr>))"

lemma turn_changes_I:
  "turn_changes js now r w w"
  "turn_changes js now r w (w\<lparr>sw_server := s'\<rparr>)"
  "status \<in> set MARKS \<Longrightarrow> turn_changes js now r w (mark_in_recovery now (o_client_order_id r) status m w)"
  "status \<in> set MARKS \<Longrightarrow>
     turn_changes js now r w (mark_in_recovery now (o_client_order_id r) status m (w\<lparr>sw_server := s'\<rparr>))"
  "o_parent_order_id r = Some p \<Longrightarrow> db_order (sw_db w) p = Some row \<Longrightarrow> o_status row \<in> set TERMINAL_PARENTS \<Longrightarrow>
     turn_changes js now r w (w\<lparr>sw_db := snd (cancel_pending_slices now p (sw_db w))\<rparr>)"
proof -
  have w: "w = w\<lparr>sw_server := sw_server w\<rparr>" by simp
  show "turn_changes js now r w w" unfolding turn_changes_def using w by blast
  show "turn_changes js now r w (w\<lparr>sw_server := s'\<rparr>)" unfolding turn_changes_def by blast
  show "status \<in> set MARKS \<Longrightarrow> turn_changes js now r w (mark_in_recovery now (o_client_order_id r) status m w)"
    unfolding turn_changes_def using w by metis
  show "status \<in> set MARKS \<Longrightarrow>
     turn_changes js now r w (mark_in_recovery now (o_client_order_id r) status m (w\<lparr>sw_server := s'\<rparr>))"
    unfolding turn_changes_def by blast
  show "o_parent_order_id r = Some p \<Longrightarrow> db_order (sw_db w) p = Some row \<Longrightarrow>
     o_status row \<in> set TERMINAL_PARENTS \<Longrightarrow>
     turn_changes js now r w (w\<lparr>sw_db := snd (cancel_pending_slices now p (sw_db w))\<rparr>)"
    unfolding turn_changes_def by blast
qed

lemma reschedule_slice_changes:
  assumes run: "reschedule_slice env js now p t k r st = (x, st')"
    and r: "o_parent_order_id r = Some p" "o_slice_num r = Some k"
  shows "turn_changes js now r (rn_world st) (rn_world st')"
    and "rn_expired_parents st' = rn_expired_parents st" "rn_canceled_parents st' = rn_canceled_parents st"
proof -
  let ?w = "rn_world st" and ?cid = "o_client_order_id r"
  have failed: "''failed'' \<in> set MARKS" by (simp add: MARKS_def)
  obtain y s' where y: "slice_run_time env now t (sw_server ?w) = (y, s')" by (metis prod.exhaust)
  have main: "turn_changes js now r ?w (rn_world st') \<and> rn_expired_parents st' = rn_expired_parents st \<and>
      rn_canceled_parents st' = rn_canceled_parents st"
  proof (cases y)
    case (Inl e)
    with run y show ?thesis by (auto simp: reschedule_slice_def intro: turn_changes_I)
  next
    case (Inr z)
    show ?thesis
    proof (cases z)
      case (Inl m)
      with run y Inr turn_changes_I(4) [OF failed] show ?thesis
        by (auto simp: reschedule_slice_def fail_in_recovery_def)
    next
      case (Inr rt)
      define d' where "d' = (if rt \<noteq> t then snd (update_order_scheduled_time now ?cid rt (sw_db ?w)) else sw_db ?w)"
      have d': "d' \<in> {sw_db ?w, snd (update_order_scheduled_time now ?cid rt (sw_db ?w))}"
        by (simp add: d'_def)
      have ch: "turn_changes js now r ?w (?w\<lparr>sw_server := s', sw_db := d', sw_jobs := j'\<rparr>)"
        if "j' = sw_jobs ?w \<or> js_add js (slice_job_id p k) (recovered_job p k rt r) (sw_jobs ?w) = Some j'" for j'
        unfolding turn_changes_def using r d' that by blast
      have same: "turn_changes js now r ?w (?w\<lparr>sw_server := s', sw_db := d'\<rparr>)"
        using ch [of "sw_jobs ?w"] by simp
      from run same ch show ?thesis
        unfolding reschedule_slice_def y \<open>y = Inr z\<close> Inr Let_def
        by (simp add: d'_def split: if_splits option.splits; auto)
    qed
  qed
  then show "turn_changes js now r (rn_world st) (rn_world st')"
    and "rn_expired_parents st' = rn_expired_parents st" "rn_canceled_parents st' = rn_canceled_parents st"
    by simp_all
qed

text \<open>What a turn adds to the two sets of parents.\<close>

definition recoverable_row :: "db \<Rightarrow> string \<Rightarrow> bool" where
  "recoverable_row d p \<longleftrightarrow> (\<exists>row. db_order d p = Some row \<and> o_status row \<in> set RECOVERABLE_PARENTS)"

lemma recover_slice_changes:
  assumes run: "recover_slice env js now r st = (x, st')"
  shows "turn_changes js now r (rn_world st) (rn_world st')"
    and "set (rn_expired_parents st') \<subseteq> set (rn_expired_parents st) \<union>
           {p. o_parent_order_id r = Some p \<and> recoverable_row (sw_db (rn_world st)) p}"
proof -
  have marks: "''failed'' \<in> set MARKS" "''expired'' \<in> set MARKS" "''blocked_circuit_breaker'' \<in> set MARKS"
    by (simp_all add: MARKS_def)
  note ch = turn_changes_I(1) turn_changes_I(3) [OF marks(1)] turn_changes_I(3) [OF marks(2)]
    turn_changes_I(3) [OF marks(3)]
  have parent: "p \<noteq> [] \<Longrightarrow> get_order_by_client_id p (sw_db (rn_world st)) = Inr (Some row) \<Longrightarrow>
      o_status row \<in> set RECOVERABLE_PARENTS \<Longrightarrow> recoverable_row (sw_db (rn_world st)) p" for p row
    unfolding recoverable_row_def using get_order_Inr by metis
  let ?goal = "turn_changes js now r (rn_world st) (rn_world st') \<and> set (rn_expired_parents st') \<subseteq>
      set (rn_expired_parents st) \<union> {p. o_parent_order_id r = Some p \<and> recoverable_row (sw_db (rn_world st)) p}"
  have ?goal
  proof (cases "\<exists>p parent. o_parent_order_id r = Some p \<and> p \<noteq> [] \<and>
      get_order_by_client_id p (sw_db (rn_world st)) = Inr (Some parent) \<and>
      o_status parent \<notin> set TERMINAL_PARENTS")
    case False
    note no_parent = this
    show ?thesis
    proof (cases "o_parent_order_id r")
      case None
      with run ch show ?thesis by (auto simp: recover_slice_def Let_def fail_in_recovery_def)
    next
      case p: (Some p)
      show ?thesis
      proof (cases "p = []")
        case True
        with run ch p show ?thesis by (auto simp: recover_slice_def Let_def fail_in_recovery_def)
      next
        case False
        note nonempty = this
        show ?thesis
        proof (cases "get_order_by_client_id p (sw_db (rn_world st))")
          case (Inl e)
          with run ch p nonempty show ?thesis by (auto simp: recover_slice_def Let_def)
        next
          case (Inr row)
          show ?thesis
          proof (cases row)
            case None
            with run ch p nonempty Inr show ?thesis by (auto simp: recover_slice_def Let_def fail_in_recovery_def)
          next
            case (Some parent)
            then have terminal: "o_status parent \<in> set TERMINAL_PARENTS" using no_parent p nonempty Inr by auto
            obtain n d' where c: "cancel_pending_slices now p (sw_db (rn_world st)) = (n, d')" by (metis prod.exhaust)
            have "turn_changes js now r (rn_world st) ((rn_world st)\<lparr>sw_db := d'\<rparr>)"
              using turn_changes_I(5) [OF p, of "rn_world st" parent js now] get_order_Inr [OF Inr] Some terminal
              by (simp add: c)
            with run ch(1) p nonempty Inr Some terminal c show ?thesis
              by (auto simp: recover_slice_def Let_def split: if_splits)
          qed
        qed
      qed
    qed
  next
    case True
    then obtain p row where p: "o_parent_order_id r = Some p" "p \<noteq> []"
      "get_order_by_client_id p (sw_db (rn_world st)) = Inr (Some row)"
      "o_status row \<notin> set TERMINAL_PARENTS" by blast
    show ?thesis
    proof (cases "o_status row \<in> set RECOVERABLE_PARENTS \<and> \<not> is_slice_stale env r now")
      case False
      then show ?thesis
        using run ch p parent [OF p(2,3)] by (auto simp: recover_slice_def Let_def split: if_splits)
    next
      case True
      show ?thesis
      proof (cases "breaker_is_tripped (sw_redis (rn_world st)) = Inr False")
        case False
        then show ?thesis
          using run ch p True by (auto simp: recover_slice_def Let_def split: sum.splits bool.splits)
      next
        case calm: True
        show ?thesis
        proof (cases "\<exists>t k. o_scheduled_time r = Some t \<and> o_slice_num r = Some k")
          case False
          then show ?thesis
            using run ch p True calm by (auto simp: recover_slice_def Let_def fail_in_recovery_def split: option.splits)
        next
          case sched: True
          then obtain t k where tk: "o_scheduled_time r = Some t" "o_slice_num r = Some k" by blast
          then have "reschedule_slice env js now p t k r st = (x, st')"
            using run p True calm by (simp add: recover_slice_def Let_def)
          from reschedule_slice_changes [OF this p(1) tk(2)] show ?thesis by simp
        qed
      qed
    qed
  qed
  then show "turn_changes js now r (rn_world st) (rn_world st')"
    and "set (rn_expired_parents st') \<subseteq> set (rn_expired_parents st) \<union>
           {p. o_parent_order_id r = Some p \<and> recoverable_row (sw_db (rn_world st)) p}"
    by simp_all
qed

section \<open>The effect of a recovery\<close>

text \<open>What a turn, and a whole recovery, does to the slices \<open>S\<close> it is about.\<close>

definition recovers :: "'j job_store \<Rightarrow> order_row set \<Rightarrow> ('s, 'j) slice_world \<Rightarrow> ('s, 'j) slice_world \<Rightarrow> bool" where
  "recovers js S w w' \<longleftrightarrow>
     sw_redis w' = sw_redis w \<and> sw_sent w' = sw_sent w \<and>
     (keyed_orders (sw_db w) \<longrightarrow> keyed_orders (sw_db w')) \<and>
     (\<forall>c. row_evolves (db_order (sw_db w) c) (db_order (sw_db w') c)) \<and>
     (\<forall>c row. c \<notin> o_client_order_id ` S \<longrightarrow> db_order (sw_db w) c = Some row \<longrightarrow>
        o_status row \<noteq> ''pending_new'' \<longrightarrow> db_order (sw_db w') c = Some row) \<and>
     (\<forall>i job. js_get js i (sw_jobs w') = Some job \<longrightarrow> js_get js i (sw_jobs w) = Some job \<or>
        (\<exists>r \<in> S. \<exists>p k. o_parent_order_id r = Some p \<and> o_slice_num r = Some k \<and> i = slice_job_id p k \<and>
           sj_parent_order_id job = p \<and> sd_client_order_id (sj_slice job) = o_client_order_id r))"

lemma recovers_refl [simp]: "recovers js S w w"
  by (simp add: recovers_def)

lemma recovers_trans:
  assumes "recovers js S w w1" "recovers js S w1 w2"
  shows "recovers js S w w2"
proof -
  note a = assms(1) [unfolded recovers_def] and b = assms(2) [unfolded recovers_def]
  show ?thesis
    unfolding recovers_def
  proof (intro conjI)
    show "\<forall>c. row_evolves (db_order (sw_db w) c) (db_order (sw_db w2) c)"
      using a b by (blast intro: row_evolves_trans)
    show "\<forall>i job. js_get js i (sw_jobs w2) = Some job \<longrightarrow> js_get js i (sw_jobs w) = Some job \<or>
        (\<exists>r \<in> S. \<exists>p k. o_parent_order_id r = Some p \<and> o_slice_num r = Some k \<and> i = slice_job_id p k \<and>
           sj_parent_order_id job = p \<and> sd_client_order_id (sj_slice job) = o_client_order_id r)"
      using a b by blast
  qed (use a b in auto)
qed

lemma recovers_mono: "recovers js S w w' \<Longrightarrow> S \<subseteq> T \<Longrightarrow> recovers js T w w'"
  unfolding recovers_def by (intro conjI; blast)

lemma recovers_mark:
  assumes "status \<in> set MARKS" "cid \<in> o_client_order_id ` S"
  shows "recovers js S w (mark_in_recovery now cid status m (w\<lparr>sw_server := s'\<rparr>))"
  using assms MARKS_ok [OF assms(1)]
  by (auto simp: recovers_def mark_in_recovery_rows cas_row_def row_evolves_def
      split: option.splits) (simp add: mark_in_recovery_def keyed_cas)

lemma recovers_cancel:
  "recovers js S w (w\<lparr>sw_db := snd (cancel_pending_slices now p (sw_db w))\<rparr>)"
  by (auto simp: recovers_def cancel_pending_slices_spec row_evolves_def same_slice_def keyed_cancel
      split: option.splits)

lemma js_add_Some:
  "job_store_ok js \<Longrightarrow> js_add js i job j = Some j' \<Longrightarrow>
     js_get js k j' = (if k = i then Some job else js_get js k j)"
  unfolding job_store_ok_def by (metis (mono_tags, lifting) option.case(2))

lemma turn_recovers:
  assumes ok: "job_store_ok js" and turn: "turn_changes js now r w w'"
  shows "recovers js {r} w w'"
proof -
  have server: "recovers js {r} w (w\<lparr>sw_server := s'\<rparr>)" for s'
    by (simp add: recovers_def)
  have row: "recovers js {r} w (w\<lparr>sw_server := s', sw_db := d'\<rparr>)"
    if "d' \<in> {sw_db w, snd (update_order_scheduled_time now (o_client_order_id r) t (sw_db w))}" for t d' s'
    using that by (auto simp: recovers_def scheduled_time_row keyed_scheduled_time row_evolves_def same_slice_def
        split: option.splits if_splits)
  have jobs: "recovers js {r} w (w\<lparr>sw_server := s', sw_db := d', sw_jobs := j'\<rparr>)"
    if "o_parent_order_id r = Some p" "o_slice_num r = Some k"
      "d' \<in> {sw_db w, snd (update_order_scheduled_time now (o_client_order_id r) t (sw_db w))}"
      "j' = sw_jobs w \<or> js_add js (slice_job_id p k) (recovered_job p k t r) (sw_jobs w) = Some j'"
    for p k t d' j' s'
    using that js_add_Some [OF ok, of "slice_job_id p k" "recovered_job p k t r" "sw_jobs w" j']
    by (auto simp: recovers_def scheduled_time_row keyed_scheduled_time row_evolves_def same_slice_def
        recovered_job_def split: option.splits if_splits)
  from turn show ?thesis
    unfolding turn_changes_def
    by (elim exE disjE conjE) (auto simp: server intro: recovers_mark recovers_cancel jobs row)
qed

lemma recover_loop_recovers:
  assumes ok: "job_store_ok js" and run: "recover_loop env js now rs st = (x, st')"
  shows "recovers js (set rs) (rn_world st) (rn_world st')"
  using run
proof (induction rs arbitrary: st)
  case Nil
  then show ?case by simp
next
  case (Cons r rs)
  obtain y st1 where turn: "recover_slice env js now r st = (y, st1)" by (metis prod.exhaust)
  have one: "recovers js (set (r # rs)) (rn_world st) (rn_world st1)"
    by (rule recovers_mono [OF turn_recovers [OF ok recover_slice_changes(1) [OF turn]]]) simp
  show ?case
  proof (cases y)
    case (Inl e)
    with Cons.prems turn one show ?thesis by simp
  next
    case (Inr u)
    with Cons.prems turn have "recover_loop env js now rs st1 = (x, st')" by simp
    from recovers_mono [OF Cons.IH [OF this], of "set (r # rs)"] one show ?thesis
      by (auto intro: recovers_trans)
  qed
qed

text \<open>The parents to expire are recoverable when their slices are visited.\<close>

lemma recover_loop_expired:
  assumes ok: "job_store_ok js" and run: "recover_loop env js now rs st = (x, st')"
    and row: "db_order (sw_db (rn_world st)) c = Some row" "o_status row = ''canceled''"
      "c \<notin> o_client_order_id ` set rs" "c \<notin> set (rn_expired_parents st)"
  shows "c \<notin> set (rn_expired_parents st')"
  using run row(1,3,4)
proof (induction rs arbitrary: st)
  case Nil
  then show ?case by simp
next
  case (Cons r rs)
  obtain y st1 where turn: "recover_slice env js now r st = (y, st1)" by (metis prod.exhaust)
  note ch = recover_slice_changes [OF turn]
  have "\<not> recoverable_row (sw_db (rn_world st)) c"
    using Cons.prems(2) row(2) by (simp add: recoverable_row_def RECOVERABLE_PARENTS_def)
  then have out: "c \<notin> set (rn_expired_parents st1)" using ch(2) Cons.prems(4) by blast
  have same: "db_order (sw_db (rn_world st1)) c = Some row"
    using turn_recovers [OF ok ch(1)] Cons.prems(2,3) row(2) by (auto simp: recovers_def)
  show ?case
    using Cons.prems(1,3) turn Cons.IH [OF _ same _ out] out by (auto split: sum.splits)
qed

lemma mark_same_or_status:
  "status \<in> set MARKS \<Longrightarrow> db_order (sw_db (mark_in_recovery now cid status m w)) c = db_order (sw_db w) c \<or>
     (\<exists>row. db_order (sw_db (mark_in_recovery now cid status m w)) c = Some row \<and> o_status row = status)"
  by (cases "c = cid"; cases "db_order (sw_db w) cid"; simp add: mark_in_recovery_rows cas_row_def)

lemma expire_parents_effect:
  "let w = rn_world st; w' = rn_world (fold (expire_parent now) ps st)
   in sw_redis w' = sw_redis w \<and> sw_sent w' = sw_sent w \<and> sw_jobs w' = sw_jobs w \<and>
      (keyed_orders (sw_db w) \<longrightarrow> keyed_orders (sw_db w')) \<and>
      (\<forall>c. row_evolves (db_order (sw_db w) c) (db_order (sw_db w') c)) \<and>
      (\<forall>c. c \<notin> set ps \<longrightarrow> db_order (sw_db w') c = db_order (sw_db w) c) \<and>
      (\<forall>c. db_order (sw_db w') c = db_order (sw_db w) c \<or>
         (\<exists>row. db_order (sw_db w') c = Some row \<and> o_status row = ''expired''))"
proof (induction ps arbitrary: st)
  case Nil
  then show ?case by simp
next
  case (Cons p ps)
  let ?st1 = "expire_parent now p st"
  have expired: "''expired'' \<in> set MARKS" by (simp add: MARKS_def)
  let ?w = "rn_world st" and ?w1 = "rn_world ?st1"
  have one: "sw_redis ?w1 = sw_redis ?w \<and> sw_sent ?w1 = sw_sent ?w \<and> sw_jobs ?w1 = sw_jobs ?w \<and>
      (keyed_orders (sw_db ?w) \<longrightarrow> keyed_orders (sw_db ?w1)) \<and>
      (\<forall>c. row_evolves (db_order (sw_db ?w) c) (db_order (sw_db ?w1) c)) \<and>
      (\<forall>c. c \<noteq> p \<longrightarrow> db_order (sw_db ?w1) c = db_order (sw_db ?w) c)"
    using MARKS_ok [OF expired]
    by (auto simp: expire_parent_def mark_in_recovery_rows [OF expired] row_evolves_def cas_row_def
        mark_in_recovery_def keyed_cas slice_cas_row split: option.splits)
  have two: "db_order (sw_db ?w1) c = db_order (sw_db ?w) c \<or>
         (\<exists>row. db_order (sw_db ?w1) c = Some row \<and> o_status row = ''expired'')" for c
    unfolding expire_parent_def by (auto simp: mark_same_or_status [OF expired])
  let ?w2 = "rn_world (fold (expire_parent now) ps ?st1)"
  note ih = Cons.IH [of ?st1, unfolded Let_def]
  have "db_order (sw_db ?w2) c = db_order (sw_db ?w) c \<or>
         (\<exists>row. db_order (sw_db ?w2) c = Some row \<and> o_status row = ''expired'')" for c
    using ih two [of c] by metis
  then show ?case
    using one ih unfolding Let_def by (auto intro: row_evolves_trans)
qed

text \<open>The whole recovery.\<close>

lemma recover_zombie_effect:
  assumes ok: "job_store_ok js" and keyed: "keyed_orders (sw_db w)"
    and run: "recover_zombie_slices env js now w = (x, w')"
  shows "sw_redis w' = sw_redis w" "sw_sent w' = sw_sent w" "keyed_orders (sw_db w')"
    "row_evolves (db_order (sw_db w) c) (db_order (sw_db w') c)"
    "db_order (sw_db w) c = Some row \<Longrightarrow> o_status row = ''canceled'' \<Longrightarrow> db_order (sw_db w') c = Some row"
    "js_get js i (sw_jobs w') = Some job \<Longrightarrow> js_get js i (sw_jobs w) = Some job \<or>
       (\<exists>r p k. db_order (sw_db w) (sd_client_order_id (sj_slice job)) = Some r \<and> is_pending_slice r \<and>
          o_parent_order_id r = Some p \<and> o_slice_num r = Some k \<and> i = slice_job_id p k \<and>
          sj_parent_order_id job = p)"
proof -
  obtain rs where rs: "get_pending_child_slices (sw_db w) = Inr rs"
    and pending: "set rs = {r. \<exists>c. (c, r) \<in> set (db_orders (sw_db w)) \<and> is_pending_slice r}"
    using get_pending_child_slices_Inr by blast
  have row_of: "r \<in> set rs \<Longrightarrow> db_order (sw_db w) (o_client_order_id r) = Some r \<and> is_pending_slice r" for r
    using pending keyed_row [OF keyed] keyed by (auto simp: keyed_orders_def)
  let ?st0 = "\<lparr>rn_world = w, rn_canceled_parents = [], rn_expired_parents = [],
      rn_counts = \<lparr>rc_pending = length rs, rc_scheduled = 0, rc_blocked = 0, rc_failed = 0,
        rc_canceled = 0, rc_expired = 0, rc_parents_expired = 0\<rparr>\<rparr>"
  obtain y st where loop: "recover_loop env js now rs ?st0 = (y, st)" by (metis prod.exhaust)
  note rec = recover_loop_recovers [OF ok loop, simplified, unfolded recovers_def]
  have final: "w' = rn_world st \<or> w' = rn_world (fold (expire_parent now) (rn_expired_parents st) st)"
    using run rs loop by (auto simp: recover_zombie_slices_def Let_def split: if_splits sum.splits)
  note exp = expire_parents_effect [of st now "rn_expired_parents st", unfolded Let_def]
  show "sw_redis w' = sw_redis w" "sw_sent w' = sw_sent w" "keyed_orders (sw_db w')"
    using final rec exp keyed by auto
  show "row_evolves (db_order (sw_db w) c) (db_order (sw_db w') c)"
    using final rec exp by (auto intro: row_evolves_trans)
  show "js_get js i (sw_jobs w') = Some job \<Longrightarrow> js_get js i (sw_jobs w) = Some job \<or>
       (\<exists>r p k. db_order (sw_db w) (sd_client_order_id (sj_slice job)) = Some r \<and> is_pending_slice r \<and>
          o_parent_order_id r = Some p \<and> o_slice_num r = Some k \<and> i = slice_job_id p k \<and>
          sj_parent_order_id job = p)"
  proof -
    assume "js_get js i (sw_jobs w') = Some job"
    then have "js_get js i (sw_jobs (rn_world st)) = Some job" using final exp by auto
    then have "js_get js i (sw_jobs w) = Some job \<or>
        (\<exists>r \<in> set rs. \<exists>p k. o_parent_order_id r = Some p \<and> o_slice_num r = Some k \<and> i = slice_job_id p k \<and>
           sj_parent_order_id job = p \<and> sd_client_order_id (sj_slice job) = o_client_order_id r)"
      using rec by blast
    then show ?thesis using row_of by (metis (no_types, lifting))
  qed
  show "db_order (sw_db w') c = Some row"
    if row: "db_order (sw_db w) c = Some row" and st: "o_status row = ''canceled''"
  proof -
    have out: "c \<notin> o_client_order_id ` set rs"
      using row_of row st by (auto simp: is_pending_slice_def)
    have "db_order (sw_db (rn_world st)) c = Some row"
      using rec out row st by (simp add: image_iff)
    moreover have "c \<notin> set (rn_expired_parents st)"
      using recover_loop_expired [OF ok loop] row st out by simp
    ultimately show ?thesis using final exp by auto
  qed
qed

section \<open>Every eligible slice has its job\<close>

definition slice_has_job :: "'j job_store \<Rightarrow> rat \<Rightarrow> 'j \<Rightarrow> string \<Rightarrow> order_row \<Rightarrow> bool" where
  "slice_has_job js now j c r \<longleftrightarrow>
     (\<exists>p k t job. o_parent_order_id r = Some p \<and> o_slice_num r = Some k \<and> o_scheduled_time r = Some t \<and>
        now \<le> t \<and> js_get js (slice_job_id p k) j = Some job \<and> sj_run_date job = t \<and>
        sj_parent_order_id job = p \<and> sd_client_order_id (sj_slice job) = c \<and>
        sd_qty (sj_slice job) = o_qty r \<and> sd_slice_num (sj_slice job) = nat k)"

text \<open>The broker's clock, when closed, opens next in the future.\<close>

definition clock_ok :: "'s slice_env \<Rightarrow> rat \<Rightarrow> bool" where
  "clock_ok env now \<longleftrightarrow>
     (\<forall>s c s' t. get_market_clock_snapshot env s = (Inr c, s') \<longrightarrow> sc_next_open c = Some t \<longrightarrow> now \<le> t)"

lemma slice_job_id_inject: "slice_job_id p k = slice_job_id p' k' \<longleftrightarrow> p = p' \<and> k = k'"
proof -
  have digits: "CHR ''_'' \<notin> set (show_int i)" for i
    using show_int_chars [of "CHR ''_''" i] by (auto simp: is_digit_def)
  have rev: "rev (slice_job_id p k) = rev (show_int k) @ CHR ''_'' # rev (p @ ''_slice'')" for p k
    by (simp add: slice_job_id_def)
  have "slice_job_id p k = slice_job_id p' k' \<longleftrightarrow> rev (slice_job_id p k) = rev (slice_job_id p' k')"
    by simp
  also have "\<dots> \<longleftrightarrow> rev (show_int k) = rev (show_int k') \<and> rev (p @ ''_slice'') = rev (p' @ ''_slice'')"
    unfolding rev by (rule split_at_first) (simp_all add: digits)
  also have "\<dots> \<longleftrightarrow> p = p' \<and> k = k'"
    by (auto simp: show_int_inject)
  finally show ?thesis .
qed

text \<open>A mark takes an open slice out of the pending ones.\<close>

lemma marked_not_pending:
  assumes "status \<in> set MARKS" "db_order (sw_db w) cid = Some r" "slice_open now r"
  shows "\<exists>r'. db_order (sw_db (mark_in_recovery now cid status m w)) cid = Some r' \<and> \<not> is_pending_slice r'"
  using assms MARKS_ok [OF assms(1)]
  by (auto simp: mark_in_recovery_rows cas_row_def slice_open_cas is_pending_slice_def)

lemma slice_run_time_future:
  assumes "slice_run_time env now t s = (Inr (Inr rt), s')" "clock_ok env now"
  shows "now \<le> rt"
  using assms by (auto simp: slice_run_time_def clock_ok_def Let_def
      split: if_splits sum.splits prod.splits option.splits)

lemma reschedule_slice_done:
  assumes run: "reschedule_slice env js now p t k r st = (Inr (), st')"
    and ok: "job_store_ok js" and clock: "clock_ok env now"
    and r: "o_parent_order_id r = Some p" "o_slice_num r = Some k" "o_scheduled_time r = Some t"
    and row: "db_order (sw_db (rn_world st)) (o_client_order_id r) = Some r" and live: "slice_open now r"
    and fresh: "js_get js (slice_job_id p k) (sw_jobs (rn_world st)) = None"
  shows "\<exists>r'. db_order (sw_db (rn_world st')) (o_client_order_id r) = Some r' \<and>
    (\<not> is_pending_slice r' \<or> slice_has_job js now (sw_jobs (rn_world st')) (o_client_order_id r) r')"
proof -
  let ?w = "rn_world st" and ?cid = "o_client_order_id r"
  have failed: "''failed'' \<in> set MARKS" by (simp add: MARKS_def)
  obtain y s' where y: "slice_run_time env now t (sw_server ?w) = (y, s')" by (metis prod.exhaust)
  then obtain z where z: "y = Inr z" using run by (cases y) (auto simp: reschedule_slice_def)
  show ?thesis
  proof (cases z)
    case (Inl m)
    with run y z have st': "rn_world st' = mark_in_recovery now ?cid ''failed'' m (?w\<lparr>sw_server := s'\<rparr>)"
      by (auto simp: reschedule_slice_def fail_in_recovery_def)
    have "db_order (sw_db (?w\<lparr>sw_server := s'\<rparr>)) ?cid = Some r" using row by simp
    from marked_not_pending [OF failed this live, of m] show ?thesis unfolding st' by blast
  next
    case (Inr rt)
    have future: "now \<le> rt" using slice_run_time_future [OF _ clock] y z Inr by blast
    define d' where "d' = (if rt \<noteq> t then snd (update_order_scheduled_time now ?cid rt (sw_db ?w)) else sw_db ?w)"
    obtain j' where j': "js_add js (slice_job_id p k) (recovered_job p k rt r) (sw_jobs ?w) = Some j'"
      and st': "rn_world st' = ?w\<lparr>sw_server := s', sw_db := d', sw_jobs := j'\<rparr>"
      using run fresh unfolding reschedule_slice_def y z Inr Let_def d'_def
      by (auto split: if_splits option.splits)
    obtain r' where r': "db_order d' ?cid = Some r'" "same_slice r r'" "o_scheduled_time r' = Some rt"
    proof (cases "rt = t")
      case True
      with row r(3) that [of r] show ?thesis by (simp add: d'_def)
    next
      case False
      with row that [of "r\<lparr>o_scheduled_time := Some rt, o_updated_at := now\<rparr>"] show ?thesis
        by (simp add: d'_def scheduled_time_row same_slice_def)
    qed
    have "slice_has_job js now j' ?cid r'"
      using js_add_Some [OF ok j', of "slice_job_id p k"] r' r future
      by (auto simp: slice_has_job_def same_slice_def recovered_job_def)
    then show ?thesis using r' st' by auto
  qed
qed

lemma recover_slice_done:
  assumes run: "recover_slice env js now r st = (Inr (), st')"
    and ok: "job_store_ok js" and clock: "clock_ok env now"
    and parent: "o_parent_order_id r = Some p" "recoverable_row (sw_db (rn_world st)) p"
    and row: "db_order (sw_db (rn_world st)) (o_client_order_id r) = Some r" and live: "slice_open now r"
    and fresh: "\<forall>k. o_slice_num r = Some k \<longrightarrow> js_get js (slice_job_id p k) (sw_jobs (rn_world st)) = None"
  shows "\<exists>r'. db_order (sw_db (rn_world st')) (o_client_order_id r) = Some r' \<and>
    (\<not> is_pending_slice r' \<or> slice_has_job js now (sw_jobs (rn_world st')) (o_client_order_id r) r')"
proof -
  let ?w = "rn_world st" and ?cid = "o_client_order_id r"
  have marks: "''failed'' \<in> set MARKS" "''expired'' \<in> set MARKS" "''blocked_circuit_breaker'' \<in> set MARKS"
    by (simp_all add: MARKS_def)
  obtain prow where prow: "db_order (sw_db ?w) p = Some prow" "o_status prow \<in> set RECOVERABLE_PARENTS"
    using parent(2) by (auto simp: recoverable_row_def)
  have read: "get_order_by_client_id p (sw_db ?w) = Inr (Some prow)"
    using prow by (auto simp: get_order_by_client_id_def order_detail_def RECOVERABLE_PARENTS_def ORDER_STATUSES_def)
  have alive: "o_status prow \<notin> set TERMINAL_PARENTS"
    using prow(2) by (auto simp: RECOVERABLE_PARENTS_def TERMINAL_PARENTS_def)
  show ?thesis
  proof (cases "p = [] \<or> is_slice_stale env r now \<or> breaker_is_tripped (sw_redis ?w) \<noteq> Inr False \<or>
      o_scheduled_time r = None \<or> o_slice_num r = None")
    case True
    define Q where "Q = (\<lambda>w'. \<exists>status m. status \<in> {''failed'', ''expired'', ''blocked_circuit_breaker''} \<and>
        w' = mark_in_recovery now ?cid status m ?w)"
    have Q: "Q (mark_in_recovery now ?cid ''failed'' m ?w)" "Q (mark_in_recovery now ?cid ''expired'' m ?w)"
      "Q (mark_in_recovery now ?cid ''blocked_circuit_breaker'' m ?w)" for m
      unfolding Q_def by blast+
    have "Q (rn_world st')"
    proof (cases "p = []")
      case True
      with run Q show ?thesis by (auto simp: recover_slice_def parent(1) fail_in_recovery_def Let_def)
    next
      case named: False
      show ?thesis
      proof (cases "is_slice_stale env r now")
        case True
        with run Q read alive prow(2) named show ?thesis by (auto simp: recover_slice_def parent(1) Let_def)
      next
        case recent: False
        show ?thesis
        proof (cases "breaker_is_tripped (sw_redis ?w) = Inr False")
          case False
          then have "breaker_is_tripped (sw_redis ?w) = Inr True"
            using run read alive prow(2) named recent
            by (cases "breaker_is_tripped (sw_redis ?w)") (auto simp: recover_slice_def parent(1) Let_def)
          with run Q read alive prow(2) named recent show ?thesis
            by (auto simp: recover_slice_def parent(1) Let_def split: sum.splits)
        next
          case calm: True
          with True run Q read alive prow(2) named recent show ?thesis
            by (auto simp: recover_slice_def parent(1) fail_in_recovery_def Let_def split: option.splits)
        qed
      qed
    qed
    then obtain status m where status: "status \<in> set MARKS"
      and st': "rn_world st' = mark_in_recovery now ?cid status m ?w"
      using marks unfolding Q_def by auto
    from marked_not_pending [OF status row live, of m] show ?thesis unfolding st' by blast
  next
    case False
    then obtain t k where tk: "o_scheduled_time r = Some t" "o_slice_num r = Some k" by auto
    with run read alive prow(2) False have "reschedule_slice env js now p t k r st = (Inr (), st')"
      by (simp add: recover_slice_def parent(1) Let_def)
    moreover have "js_get js (slice_job_id p k) (sw_jobs ?w) = None" using fresh tk(2) by simp
    ultimately show ?thesis
      using reschedule_slice_done [OF _ ok clock parent(1) tk(2,1) row live] by blast
  qed
qed

text \<open>A turn leaves the rows of other slices unless it cancels the slices of a final parent.\<close>

lemma turn_other_row:
  assumes "turn_changes js now r w w'" "c \<noteq> o_client_order_id r" "db_order (sw_db w) c = Some row"
  shows "db_order (sw_db w') c = Some row \<or>
    (\<exists>p prow row'. o_parent_order_id row = Some p \<and> db_order (sw_db w) p = Some prow \<and>
       o_status prow \<in> set TERMINAL_PARENTS \<and> db_order (sw_db w') c = Some row' \<and>
       o_status row' = ''canceled'')"
  using assms unfolding turn_changes_def
  by (elim exE disjE conjE)
    (auto simp: mark_in_recovery_rows scheduled_time_row cancel_pending_slices_spec)

lemma turn_keeps_jobs:
  assumes ok: "job_store_ok js" and turn: "turn_changes js now r w w'"
    and job: "js_get js i (sw_jobs w) = Some job"
  shows "js_get js i (sw_jobs w') = Some job"
proof -
  have "js_get js i j' = Some job" if add: "js_add js i' job' (sw_jobs w) = Some j'" for i' job' j'
  proof -
    have "js_get js i' (sw_jobs w) = None"
      using ok add unfolding job_store_ok_def by (metis (mono_tags, lifting) option.case(2))
    then show ?thesis using js_add_Some [OF ok add, of i] job by auto
  qed
  with turn job show ?thesis unfolding turn_changes_def by (elim exE disjE conjE) auto
qed

text \<open>The slices of parents that can be recovered, in terms of the rows before the recovery.\<close>

definition eligible :: "db \<Rightarrow> order_row \<Rightarrow> bool" where
  "eligible d0 r \<longleftrightarrow>
     (\<exists>p row. o_parent_order_id r = Some p \<and> db_order d0 p = Some row \<and> o_parent_order_id row = None \<and>
        o_status row \<in> set RECOVERABLE_PARENTS)"

definition parents_same :: "db \<Rightarrow> db \<Rightarrow> bool" where
  "parents_same d0 d \<longleftrightarrow>
     (\<forall>p row. db_order d0 p = Some row \<longrightarrow> o_parent_order_id row = None \<longrightarrow> db_order d p = Some row)"

text \<open>The invariant of the loop: the slices \<open>rs\<close> are still to be visited.\<close>

definition loop_inv ::
  "'j job_store \<Rightarrow> rat \<Rightarrow> db \<Rightarrow> order_row list \<Rightarrow> ('s, 'j) slice_world \<Rightarrow> bool" where
  "loop_inv js now d0 rs w \<longleftrightarrow>
     parents_same d0 (sw_db w) \<and>
     (\<forall>c. row_evolves (db_order d0 c) (db_order (sw_db w) c)) \<and>
     (\<forall>r \<in> set rs. eligible d0 r \<longrightarrow> db_order (sw_db w) (o_client_order_id r) = Some r) \<and>
     (\<forall>r \<in> set rs. \<forall>p k. o_parent_order_id r = Some p \<longrightarrow> o_slice_num r = Some k \<longrightarrow>
        js_get js (slice_job_id p k) (sw_jobs w) = None) \<and>
     (\<forall>c r. db_order (sw_db w) c = Some r \<longrightarrow> is_pending_slice r \<longrightarrow> eligible d0 r \<longrightarrow>
        c \<notin> o_client_order_id ` set rs \<longrightarrow> slice_has_job js now (sw_jobs w) c r)"

definition slices_listed :: "rat \<Rightarrow> db \<Rightarrow> order_row list \<Rightarrow> bool" where
  "slices_listed now d0 rs \<longleftrightarrow>
     (\<forall>r \<in> set rs. db_order d0 (o_client_order_id r) = Some r \<and> o_parent_order_id r \<noteq> None \<and> slice_open now r) \<and>
     distinct (map o_client_order_id rs) \<and>
     (\<forall>r \<in> set rs. \<forall>r' \<in> set rs. o_parent_order_id r = o_parent_order_id r' \<longrightarrow>
        o_slice_num r \<noteq> None \<longrightarrow> o_slice_num r = o_slice_num r' \<longrightarrow> r = r')"

lemma eligible_same: "row_evolves (Some r) (Some r') \<Longrightarrow> eligible d0 r' \<longleftrightarrow> eligible d0 r"
  by (simp add: eligible_def row_evolves_def same_slice_def)

lemma eligible_recoverable:
  "eligible d0 r \<Longrightarrow> parents_same d0 d \<Longrightarrow>
     \<exists>p row. o_parent_order_id r = Some p \<and> db_order d p = Some row \<and> o_status row \<in> set RECOVERABLE_PARENTS"
  by (auto simp: eligible_def parents_same_def)

lemma recoverable_not_terminal: "s \<in> set RECOVERABLE_PARENTS \<Longrightarrow> s \<notin> set TERMINAL_PARENTS"
  by (auto simp: RECOVERABLE_PARENTS_def TERMINAL_PARENTS_def)

lemma row_evolves_SomeD:
  "row_evolves a (Some r') \<Longrightarrow>
     \<exists>r. a = Some r \<and> same_slice r r' \<and> (o_status r' = ''pending_new'' \<longrightarrow> o_status r = ''pending_new'')"
  by (cases a) (auto simp: row_evolves_def)

lemma recovers_evolves: "recovers js S w w' \<Longrightarrow> row_evolves (db_order (sw_db w) c) (db_order (sw_db w') c)"
  unfolding recovers_def by blast

lemma recovers_new_job:
  "recovers js S w w' \<Longrightarrow> js_get js i (sw_jobs w') = Some job \<Longrightarrow> js_get js i (sw_jobs w) = None \<Longrightarrow>
     \<exists>r \<in> S. \<exists>p k. o_parent_order_id r = Some p \<and> o_slice_num r = Some k \<and> i = slice_job_id p k"
  unfolding recovers_def by (metis option.distinct(1))

lemma loop_inv_turn:
  assumes ok: "job_store_ok js" and clock: "clock_ok env now"
    and listed: "slices_listed now d0 (r # rs)" and inv: "loop_inv js now d0 (r # rs) (rn_world st)"
    and run: "recover_slice env js now r st = (Inr (), st1)"
  shows "loop_inv js now d0 rs (rn_world st1)"
proof -
  let ?w = "rn_world st" and ?w1 = "rn_world st1"
  note turn = recover_slice_changes(1) [OF run]
  note rec = turn_recovers [OF ok turn, unfolded recovers_def]
  note other = turn_other_row [OF turn]
  have r0: "db_order d0 (o_client_order_id r) = Some r" "o_parent_order_id r \<noteq> None" "slice_open now r"
    and dist: "distinct (map o_client_order_id (r # rs))"
    using listed unfolding slices_listed_def by simp_all
  have A: "parents_same d0 (sw_db ?w)" using inv by (simp add: loop_inv_def)
  have evolves: "row_evolves (db_order d0 c) (db_order (sw_db ?w1) c)" for c
    using inv rec row_evolves_trans unfolding loop_inv_def by blast
  have A1: "parents_same d0 (sw_db ?w1)"
    unfolding parents_same_def
  proof (intro allI impI)
    fix p row assume p: "db_order d0 p = Some row" "o_parent_order_id row = None"
    then have "db_order (sw_db ?w) p = Some row" "p \<noteq> o_client_order_id r"
      using A r0 by (auto simp: parents_same_def)
    from other [OF this(2,1)] p(2) show "db_order (sw_db ?w1) p = Some row" by auto
  qed
  have B1: "db_order (sw_db ?w1) (o_client_order_id r2) = Some r2"
    if r2: "r2 \<in> set rs" "eligible d0 r2" for r2
  proof -
    have row: "db_order (sw_db ?w) (o_client_order_id r2) = Some r2" using inv r2 by (auto simp: loop_inv_def)
    have ne: "o_client_order_id r2 \<noteq> o_client_order_id r" using dist imageI [OF r2(1), of o_client_order_id] by (auto simp del: imageI)
    obtain p prow where "o_parent_order_id r2 = Some p" "db_order (sw_db ?w) p = Some prow"
      "o_status prow \<notin> set TERMINAL_PARENTS"
      using eligible_recoverable [OF r2(2) A] recoverable_not_terminal by blast
    with other [OF ne row] show ?thesis by auto
  qed
  have C1: "js_get js (slice_job_id p k) (sw_jobs ?w1) = None"
    if r2: "r2 \<in> set rs" "o_parent_order_id r2 = Some p" "o_slice_num r2 = Some k" for r2 p k
  proof (rule ccontr)
    assume "js_get js (slice_job_id p k) (sw_jobs ?w1) \<noteq> None"
    then obtain job where "js_get js (slice_job_id p k) (sw_jobs ?w1) = Some job" by auto
    moreover have "js_get js (slice_job_id p k) (sw_jobs ?w) = None" using inv r2 by (auto simp: loop_inv_def)
    ultimately have "\<exists>r' \<in> {r}. \<exists>p' k'. o_parent_order_id r' = Some p' \<and> o_slice_num r' = Some k' \<and>
        slice_job_id p k = slice_job_id p' k'"
      using recovers_new_job [OF turn_recovers [OF ok turn]] by blast
    then have "o_parent_order_id r = Some p \<and> o_slice_num r = Some k"
      by (auto simp: slice_job_id_inject)
    then have pk: "o_parent_order_id r2 = o_parent_order_id r" "o_slice_num r2 \<noteq> None"
      "o_slice_num r2 = o_slice_num r"
      using r2 by simp_all
    have "\<forall>a \<in> set (r # rs). \<forall>b \<in> set (r # rs). o_parent_order_id a = o_parent_order_id b \<longrightarrow>
        o_slice_num a \<noteq> None \<longrightarrow> o_slice_num a = o_slice_num b \<longrightarrow> a = b"
      using listed unfolding slices_listed_def by (elim conjE)
    moreover have "r2 \<in> set (r # rs)" "r \<in> set (r # rs)" using r2(1) by simp_all
    ultimately have "r2 = r" using pk by blast
    moreover have "r \<notin> set rs" using dist by auto
    ultimately show False using r2(1) by simp
  qed
  have E1: "slice_has_job js now (sw_jobs ?w1) c r'"
    if r': "db_order (sw_db ?w1) c = Some r'" "is_pending_slice r'" "eligible d0 r'"
      "c \<notin> o_client_order_id ` set rs" for c r'
  proof (cases "c = o_client_order_id r")
    case True
    have "row_evolves (Some r) (Some r')" using evolves [of c] r0(1) r'(1) True by simp
    then have elig: "eligible d0 r" using eligible_same r'(3) by blast
    then obtain p row where p: "o_parent_order_id r = Some p" "recoverable_row (sw_db ?w) p"
      using eligible_recoverable [OF elig A] unfolding recoverable_row_def by blast
    have "db_order (sw_db ?w) (o_client_order_id r) = Some r" using inv elig by (auto simp: loop_inv_def)
    moreover have "\<forall>k. o_slice_num r = Some k \<longrightarrow> js_get js (slice_job_id p k) (sw_jobs ?w) = None"
      using inv p(1) by (auto simp: loop_inv_def)
    ultimately show ?thesis
      using recover_slice_done [OF run ok clock p _ r0(3)] r' True by auto
  next
    case False
    obtain r1 where r1: "db_order (sw_db ?w) c = Some r1"
      using row_evolves_SomeD [of _ r'] recovers_evolves [OF turn_recovers [OF ok turn], of c] r'(1) by metis
    have "r' = r1" using other [OF False r1] r'(1,2) by (auto simp: is_pending_slice_def)
    then have "slice_has_job js now (sw_jobs ?w) c r'"
      using inv r1 r' False by (auto simp: loop_inv_def)
    then show ?thesis using turn_keeps_jobs [OF ok turn] unfolding slice_has_job_def by blast
  qed
  show ?thesis unfolding loop_inv_def using A1 evolves B1 C1 E1 by blast
qed

lemma loop_inv_loop:
  assumes ok: "job_store_ok js" and clock: "clock_ok env now"
  shows "slices_listed now d0 rs \<Longrightarrow> loop_inv js now d0 rs (rn_world st) \<Longrightarrow>
    recover_loop env js now rs st = (Inr (), st') \<Longrightarrow> loop_inv js now d0 [] (rn_world st')"
proof (induction rs arbitrary: st)
  case Nil
  then show ?case by simp
next
  case (Cons r rs)
  obtain y st1 where turn: "recover_slice env js now r st = (y, st1)" by (metis prod.exhaust)
  with Cons.prems(3) have y: "y = Inr ()" "recover_loop env js now rs st1 = (Inr (), st')"
    by (cases y; simp)+
  have "slices_listed now d0 rs" using Cons.prems(1) unfolding slices_listed_def by (simp, blast)
  moreover have "loop_inv js now d0 rs (rn_world st1)"
    by (rule loop_inv_turn [OF ok clock Cons.prems(1,2) turn [unfolded y(1)]])
  ultimately show ?case using Cons.IH y(2) by blast
qed

lemma recover_loop_expired_parents:
  "recover_loop env js now rs st = (x, st') \<Longrightarrow>
     set (rn_expired_parents st') \<subseteq> set (rn_expired_parents st) \<union>
       {p. \<exists>r \<in> set rs. o_parent_order_id r = Some p}"
proof (induction rs arbitrary: st)
  case Nil
  then show ?case by simp
next
  case (Cons r rs)
  obtain y st1 where turn: "recover_slice env js now r st = (y, st1)" by (metis prod.exhaust)
  have one: "set (rn_expired_parents st1) \<subseteq> set (rn_expired_parents st) \<union> {p. o_parent_order_id r = Some p}"
    using recover_slice_changes(2) [OF turn] by blast
  show ?case
  proof (cases y)
    case (Inl e)
    with Cons.prems turn one show ?thesis by auto
  next
    case (Inr u)
    with Cons.prems turn have "recover_loop env js now rs st1 = (x, st')" by simp
    from Cons.IH [OF this] one show ?thesis by auto
  qed
qed

text \<open>
  The database and the jobs at a restart: the job store, in memory, is empty; the pending slices are
  as they were created, have parents that are not slices, and are told apart by parent and number.
\<close>

definition restarted :: "'j job_store \<Rightarrow> rat \<Rightarrow> ('s, 'j) slice_world \<Rightarrow> bool" where
  "restarted js now w \<longleftrightarrow>
     keyed_orders (sw_db w) \<and> (\<forall>i. js_get js i (sw_jobs w) = None) \<and>
     (\<forall>c r. db_order (sw_db w) c = Some r \<longrightarrow> is_pending_slice r \<longrightarrow> slice_open now r \<and>
        (\<forall>p row. o_parent_order_id r = Some p \<longrightarrow> db_order (sw_db w) p = Some row \<longrightarrow>
           o_parent_order_id row = None)) \<and>
     (\<forall>c c' r r'. db_order (sw_db w) c = Some r \<longrightarrow> db_order (sw_db w) c' = Some r' \<longrightarrow>
        is_pending_slice r \<longrightarrow> is_pending_slice r' \<longrightarrow> o_parent_order_id r = o_parent_order_id r' \<longrightarrow>
        o_slice_num r \<noteq> None \<longrightarrow> o_slice_num r = o_slice_num r' \<longrightarrow> r = r')"

lemma pending_slices_listed:
  assumes ready: "restarted js now w" and rs: "get_pending_child_slices (sw_db w) = Inr rs"
  shows "slices_listed now (sw_db w) rs" "loop_inv js now (sw_db w) rs w"
    "db_order (sw_db w) c = Some r \<Longrightarrow> is_pending_slice r \<Longrightarrow> r \<in> set rs"
proof -
  let ?d = "sw_db w"
  have keyed: "keyed_orders ?d" using ready by (simp add: restarted_def)
  have live: "slice_open now r" if "db_order ?d c = Some r" "is_pending_slice r" for c r
    using ready that unfolding restarted_def by blast
  have unique: "r = r'" if "db_order ?d c = Some r" "db_order ?d c' = Some r'" "is_pending_slice r" "is_pending_slice r'"
    "o_parent_order_id r = o_parent_order_id r'" "o_slice_num r \<noteq> None" "o_slice_num r = o_slice_num r'" for c c' r r'
    using ready that unfolding restarted_def by blast
  have empty: "js_get js i (sw_jobs w) = None" for i
    using ready unfolding restarted_def by blast
  have in_rs: "set rs = {r. \<exists>c. (c, r) \<in> set (db_orders ?d) \<and> is_pending_slice r}"
    using get_pending_child_slices_Inr [of ?d] rs by auto
  have mem: "r \<in> set rs \<longleftrightarrow> db_order ?d (o_client_order_id r) = Some r \<and> is_pending_slice r" for r
    using in_rs keyed_row [OF keyed] keyed by (auto simp: keyed_orders_def)
  show found: "r \<in> set rs" if "db_order ?d c = Some r" "is_pending_slice r" for c r
    using that mem keyed by (auto simp: keyed_orders_def)
  have "distinct (map o_client_order_id rs)"
  proof -
    have sorted: "rs = sort_key (\<lambda>r. (nulls_last (o_scheduled_time r), nulls_last (o_slice_num r)))
        (filter is_pending_slice (map snd (db_orders ?d)))"
      using rs details_Inr by (simp add: get_pending_child_slices_def)
    have "map o_client_order_id (map snd (db_orders ?d)) = map fst (db_orders ?d)"
      using keyed keyed_row [OF keyed] by (auto simp: keyed_orders_def)
    then have "distinct (map o_client_order_id (map snd (db_orders ?d)))"
      using keyed unfolding keyed_orders_def by metis
    then have "distinct (map o_client_order_id (filter is_pending_slice (map snd (db_orders ?d))))"
      by (rule distinct_map_filter)
    then show ?thesis unfolding sorted by (simp add: distinct_map)
  qed
  moreover have "\<forall>r \<in> set rs. db_order ?d (o_client_order_id r) = Some r \<and> o_parent_order_id r \<noteq> None \<and> slice_open now r"
  proof
    fix r assume "r \<in> set rs"
    then have r: "db_order ?d (o_client_order_id r) = Some r" "is_pending_slice r" using mem by simp_all
    from r live [OF r] show "db_order ?d (o_client_order_id r) = Some r \<and> o_parent_order_id r \<noteq> None \<and> slice_open now r"
      by (simp add: is_pending_slice_def)
  qed
  moreover have "\<forall>r \<in> set rs. \<forall>r' \<in> set rs. o_parent_order_id r = o_parent_order_id r' \<longrightarrow>
        o_slice_num r \<noteq> None \<longrightarrow> o_slice_num r = o_slice_num r' \<longrightarrow> r = r'"
    using mem unique by blast
  ultimately show "slices_listed now ?d rs" unfolding slices_listed_def by blast
  have key: "o_client_order_id r = c" if "db_order ?d c = Some r" for c r
    using that keyed by (simp add: keyed_orders_def)
  have "c \<in> o_client_order_id ` set rs" if "db_order ?d c = Some r" "is_pending_slice r" for c r
    using imageI [OF found [OF that], of o_client_order_id] key [OF that(1)] by simp
  then show "loop_inv js now ?d rs w"
    using mem unfolding loop_inv_def parents_same_def by (simp add: empty)
qed

lemma recovery_run:
  assumes ok: "job_store_ok js" and clock: "clock_ok env now" and ready: "restarted js now w"
    and run: "recover_zombie_slices env js now w = (Inr counts, w')"
  obtains rs st where "get_pending_child_slices (sw_db w) = Inr rs"
    "loop_inv js now (sw_db w) [] (rn_world st)"
    "set (rn_expired_parents st) \<subseteq> {p. \<exists>r \<in> set rs. o_parent_order_id r = Some p}"
    "w' = rn_world (fold (expire_parent now) (rn_expired_parents st) st)"
proof -
  let ?d = "sw_db w"
  obtain rs where rs: "get_pending_child_slices ?d = Inr rs" using get_pending_child_slices_Inr by blast
  note listed = pending_slices_listed [OF ready rs]
  let ?st0 = "\<lparr>rn_world = w, rn_canceled_parents = [], rn_expired_parents = [],
      rn_counts = \<lparr>rc_pending = length rs, rc_scheduled = 0, rc_blocked = 0, rc_failed = 0,
        rc_canceled = 0, rc_expired = 0, rc_parents_expired = 0\<rparr>\<rparr>"
  obtain y st where loop: "recover_loop env js now rs ?st0 = (y, st)" by (metis prod.exhaust)
  have y: "y = Inr ()"
    using run rs loop by (cases y) (auto simp: recover_zombie_slices_def Let_def split: if_splits)
  have inv: "loop_inv js now ?d [] (rn_world st)"
    by (rule loop_inv_loop [OF ok clock listed(1) _ loop [unfolded y]]) (use listed(2) in simp)
  have w': "w' = rn_world (fold (expire_parent now) (rn_expired_parents st) st)"
  proof (cases "rs = []")
    case True
    then have "st = ?st0" using loop by simp
    with True run rs show ?thesis by (simp add: recover_zombie_slices_def Let_def)
  next
    case False
    with run rs loop y show ?thesis by (simp add: recover_zombie_slices_def Let_def)
  qed
  from that [OF rs inv _ w'] recover_loop_expired_parents [OF loop] show thesis by auto
qed

text \<open>The parents of the pending slices are no slices themselves.\<close>

lemma restarted_parents:
  assumes ready: "restarted js now w" and rs: "get_pending_child_slices (sw_db w) = Inr rs"
    and r: "r \<in> set rs" "o_parent_order_id r = Some q" and row: "db_order (sw_db w) q = Some row"
  shows "o_parent_order_id row = None"
proof -
  have "db_order (sw_db w) (o_client_order_id r) = Some r" "is_pending_slice r"
    using pending_slices_listed(1) [OF ready rs] get_pending_child_slices_Inr [of "sw_db w"] rs r(1)
    by (auto simp: slices_listed_def)
  with r(2) row ready show ?thesis unfolding restarted_def by blast
qed

lemma row_evolves_slice:
  assumes "row_evolves x (Some r)" "o_parent_order_id r = Some p" "is_pending_slice r"
  shows "\<exists>r0. x = Some r0 \<and> o_parent_order_id r0 = Some p \<and> is_pending_slice r0"
proof (cases x)
  case None
  with assms show ?thesis by (simp add: row_evolves_def)
next
  case (Some r0)
  with assms have "o_parent_order_id r0 = Some p" "is_pending_slice r0"
    by (auto simp: row_evolves_def same_slice_def is_pending_slice_def split: option.splits)
  with Some show ?thesis by blast
qed

text \<open>C19. A recovery that ends leaves no eligible slice behind.  After a restart, when the pending slices
  are as the database keeps them and the broker's clock names future times, every slice that is still
  pending under a recoverable parent has a job under its identifier, for its client identifier and
  quantity, at the time its row shows, and that time is not in the past.\<close>

theorem recovery_leaves_no_zombie:
  assumes ok: "job_store_ok js" and clock: "clock_ok env now" and ready: "restarted js now w"
    and run: "recover_zombie_slices env js now w = (Inr counts, w')"
    and row: "db_order (sw_db w') c = Some r" "is_pending_slice r"
    and parent: "o_parent_order_id r = Some p" "recoverable_row (sw_db w') p"
  shows "slice_has_job js now (sw_jobs w') c r"
proof -
  let ?d = "sw_db w"
  obtain rs st where rs: "get_pending_child_slices ?d = Inr rs" and inv: "loop_inv js now ?d [] (rn_world st)"
    and expired: "set (rn_expired_parents st) \<subseteq> {p. \<exists>r \<in> set rs. o_parent_order_id r = Some p}"
    and w': "w' = rn_world (fold (expire_parent now) (rn_expired_parents st) st)"
    by (rule recovery_run [OF ok clock ready run])
  define w1 where "w1 = rn_world st"
  note exp = expire_parents_effect [of st now "rn_expired_parents st", unfolded Let_def, folded w' w1_def]
  note inv = inv [folded w1_def]
  have "row_evolves (db_order ?d c) (Some r)"
    using inv exp row_evolves_trans row(1) unfolding loop_inv_def by metis
  then obtain r0 where r0: "db_order ?d c = Some r0" "o_parent_order_id r0 = Some p" "is_pending_slice r0"
    using row_evolves_slice parent(1) row(2) by blast
  have "r0 \<in> set rs" by (rule pending_slices_listed(3) [OF ready rs r0(1,3)])
  have "c \<notin> set (rn_expired_parents st)"
    using expired restarted_parents [OF ready rs _ _ r0(1)] r0(2) by fastforce
  then have row1: "db_order (sw_db w1) c = Some r" using exp row(1) by auto
  obtain prow where prow: "db_order (sw_db w') p = Some prow" "o_status prow \<in> set RECOVERABLE_PARENTS"
    using parent(2) by (auto simp: recoverable_row_def)
  then have prow1: "db_order (sw_db w1) p = Some prow"
    using exp by (metis (no_types, lifting) RECOVERABLE_PARENTS_def TERMINAL_PARENTS_def list.set_intros
        option.inject recoverable_not_terminal)
  then have "row_evolves (db_order ?d p) (Some prow)" using inv unfolding loop_inv_def by metis
  then obtain prow0 where prow0: "db_order ?d p = Some prow0"
    by (cases "db_order ?d p") (auto simp: row_evolves_def)
  have top: "o_parent_order_id prow0 = None"
    by (rule restarted_parents [OF ready rs \<open>r0 \<in> set rs\<close> r0(2) prow0])
  with prow0 inv prow1 have "prow0 = prow" by (auto simp: loop_inv_def parents_same_def)
  with prow0 top prow(2) parent(1) have "eligible ?d r" by (auto simp: eligible_def)
  with inv row1 row(2) have "slice_has_job js now (sw_jobs w1) c r" by (auto simp: loop_inv_def)
  then show ?thesis using exp by simp
qed

definition demo_restart :: "(string list \<times> nat, (string \<times> slice_job) list) slice_world" where
  "demo_restart = demo_slice_world demo_redis ''accepted'' ''pending_new'' []"

lemma demo_rows:
  "db_order (demo_slices_db parent child) c =
     (if c = ''p1'' then Some (demo_parent parent) else if c = ''c1'' then Some (demo_child child) else None)"
  by (simp add: demo_slices_db_def db_order_def)

lemma demo_row_fields [simp]:
  "o_client_order_id (demo_parent st) = ''p1''" "o_parent_order_id (demo_parent st) = None"
  "o_status (demo_parent st) = st" "o_client_order_id (demo_child st) = ''c1''"
  "o_parent_order_id (demo_child st) = Some ''p1''" "o_slice_num (demo_child st) = Some 0"
  "o_status (demo_child st) = st" "o_is_terminal (demo_child st) \<longleftrightarrow> False"
  "o_last_updated_at (demo_child st) = None"
  by (simp_all add: demo_parent_def demo_child_def fresh_row_def)

lemma demo_keyed: "keyed_orders (demo_slices_db parent child)"
  by (auto simp: keyed_orders_def demo_rows) (simp add: demo_slices_db_def)

lemma demo_restarted: "restarted list_jobs 150 demo_restart"
  by (auto simp: restarted_def demo_restart_def demo_slice_world_def demo_keyed demo_rows is_pending_slice_def
      slice_open_def list_jobs_def split: if_splits)

lemma demo_clock: "clock_ok demo_slice_env t"
  by (auto simp: clock_ok_def get_market_clock_snapshot_def demo_slice_env_def)

lemma recovery_leaves_no_zombie_witness:
  "\<exists>counts w' r. recover_zombie_slices demo_slice_env list_jobs 150 demo_restart = (Inr counts, w') \<and>
     rc_scheduled counts = 1 \<and> db_order (sw_db w') ''c1'' = Some r \<and>
     slice_has_job list_jobs 150 (sw_jobs w') ''c1'' r"
proof -
  let ?run = "recover_zombie_slices demo_slice_env list_jobs 150 demo_restart"
  have c: "map_sum id rc_scheduled (fst ?run) = Inr 1"
    by code_simp
  have r: "(case db_order (sw_db (snd ?run)) ''c1'' of None \<Rightarrow> False
      | Some r \<Rightarrow> is_pending_slice r \<and> o_parent_order_id r = Some ''p1'')"
    by code_simp
  have p: "(case db_order (sw_db (snd ?run)) ''p1'' of None \<Rightarrow> False
      | Some r \<Rightarrow> o_status r \<in> set RECOVERABLE_PARENTS)"
    by code_simp
  obtain counts w' where run: "?run = (Inr counts, w')" and one: "rc_scheduled counts = 1"
    using c by (cases ?run; cases "fst ?run") auto
  obtain row where row: "db_order (sw_db w') ''c1'' = Some row" "is_pending_slice row"
    "o_parent_order_id row = Some ''p1''"
    using r run by (auto split: option.splits)
  have parent: "recoverable_row (sw_db w') ''p1''"
    using p run by (auto simp: recoverable_row_def split: option.splits)
  from recovery_leaves_no_zombie [OF list_jobs_ok demo_clock demo_restarted run row parent]
  show ?thesis using run one row(1) by blast
qed

text \<open>
  The parents the gateway creates are in none of the statuses the recovery asks for: with every parent
  still as it was created, \<open>pending_new\<close> or \<open>scheduled\<close>, the recovery changes nothing at all.
\<close>

lemma recovery_skips_created_parents:
  assumes keyed: "keyed_orders (sw_db w)"
    and parents: "\<And>c r. db_order (sw_db w) c = Some r \<Longrightarrow> is_pending_slice r \<Longrightarrow>
      \<exists>p row. o_parent_order_id r = Some p \<and> p \<noteq> [] \<and> db_order (sw_db w) p = Some row \<and>
        o_status row \<in> {''pending_new'', ''scheduled''}"
  shows "\<exists>counts. recover_zombie_slices env js now w = (Inr counts, w) \<and> rc_scheduled counts = 0"
proof -
  obtain rs where rs: "get_pending_child_slices (sw_db w) = Inr rs"
    and pending: "set rs = {r. \<exists>c. (c, r) \<in> set (db_orders (sw_db w)) \<and> is_pending_slice r}"
    using get_pending_child_slices_Inr by blast
  have skip: "recover_slice env js now r st = (Inr (), st)" if r: "r \<in> set rs" and st: "rn_world st = w" for r st
  proof -
    obtain c where "db_order (sw_db w) c = Some r" "is_pending_slice r"
      using r pending keyed_row [OF keyed] by auto
    then obtain p row where p: "o_parent_order_id r = Some p" "p \<noteq> []" "db_order (sw_db w) p = Some row"
      "o_status row \<in> {''pending_new'', ''scheduled''}" using parents by blast
    then have "get_order_by_client_id p (sw_db w) = Inr (Some row)"
      by (auto simp: get_order_by_client_id_def order_detail_def ORDER_STATUSES_def)
    moreover have "o_status row \<notin> set TERMINAL_PARENTS" "o_status row \<notin> set RECOVERABLE_PARENTS"
      using p(4) by (auto simp: TERMINAL_PARENTS_def RECOVERABLE_PARENTS_def)
    ultimately show ?thesis using p(1,2) st by (simp add: recover_slice_def Let_def)
  qed
  have loop: "recover_loop env js now qs st = (Inr (), st)" if "set qs \<subseteq> set rs" "rn_world st = w" for qs st
    using that by (induction qs) (auto simp: skip)
  show ?thesis
    using rs loop [OF order_refl] by (auto simp: recover_zombie_slices_def Let_def)
qed

end
