(* ===== verification/Slice_Machine.thy ===== *)
theory Slice_Machine
  imports Slice_Recovery
begin

text \<open>
  What the execution of slices guarantees, \<^verbatim>\<open>apps/execution_gateway/slice_scheduler.py\<close>: the outcome of
  an attempt, the submissions of a job with its retries, and the scheduler as a state machine in
  which the attempts of several jobs, cancellations and recoveries interleave.
\<close>

section \<open>One attempt\<close>

lemma connection_error_Inl:
  "is_connection_error (Inl e) \<longleftrightarrow> (\<exists>m. e = AlpacaConnectionError m)"
  by (cases e) simp_all

lemma execute_slice_effect:
  assumes "execute_slice env n job w = (x, w')"
  shows "only_row (sd_client_order_id (sj_slice job)) w w'"
    and "sw_sent w' = sw_sent w \<or>
         slice_clear job w \<and> sl_executor env \<noteq> None \<and>
         sw_sent w' = sw_sent w @ [(sd_client_order_id (sj_slice job), slice_order job)]"
    and "is_connection_error x \<Longrightarrow> sw_sent w' \<noteq> sw_sent w"
proof -
  let ?cid = "sd_client_order_id (sj_slice job)"
  obtain y w1 where g: "slice_guards env n job w = (y, w1)" by (metis prod.exhaust)
  note e1 = slice_guards_effect [OF g]
  have clear: "y = Inr True \<Longrightarrow> slice_submit env n job w = (x, w') \<and> slice_clear job w"
    using assms e1(3) by (simp add: execute_slice_def g)
  have stop: "y \<noteq> Inr True \<Longrightarrow> w' = w1 \<and> \<not> is_connection_error x"
    using assms e1(4) by (auto simp: execute_slice_def g connection_error_Inl split: sum.splits bool.splits)
  show "only_row ?cid w w'"
    using e1(1) slice_submit_effect(1) [of env n job w x w'] clear stop by (cases "y = Inr True") auto
  show "sw_sent w' = sw_sent w \<or> slice_clear job w \<and> sl_executor env \<noteq> None \<and>
         sw_sent w' = sw_sent w @ [(?cid, slice_order job)]"
    using e1(2) slice_submit_effect(2) [of env n job w x w'] clear stop
    by (cases "y = Inr True") (auto simp: sends_nothing_def split: option.splits)
  show "sw_sent w' \<noteq> sw_sent w" if err: "is_connection_error x"
  proof -
    have submit: "slice_submit env n job w = (x, w')" using clear stop err by blast
    have "sl_executor env \<noteq> None"
    proof
      assume none: "sl_executor env = None"
      obtain u w2 where m: "mark_slice env n MarkDryRun ?cid ''dry_run'' None None w = (u, w2)" by (metis prod.exhaust)
      from submit err none m show False
        by (cases u) (auto simp: slice_submit_def Let_def raised_def)
    qed
    then show ?thesis using slice_submit_effect(2) [OF submit] by (auto split: option.splits)
  qed
qed

lemma mark_slice_row:
  assumes "mark_slice env n call cid status bid m w = (Inr (), w')" "status \<in> set MARKS"
    "db_order (sw_db w) cid = Some r" "slice_open (sl_now env n) r"
  shows "db_order (sw_db w') cid =
    Some (cas_set (sl_now env n) (slice_cas (sl_now env n) cid status bid m) r)"
  using mark_slice_effect(3) [OF assms(1,2) refl] MARKS_ok [OF assms(2)] assms(3)
    slice_open_cas [OF assms(4), of "slice_cas (sl_now env n) cid status bid m"]
  by (simp add: slice_cas_row cas_row_def)

lemma cas_set_texts [simp]:
  "o_broker_order_id (cas_set now u r) = coalesce (c_broker_order_id u) (o_broker_order_id r)"
  "o_error_message (cas_set now u r) = c_error_message u"
  by (simp_all add: cas_set_def)

lemma record_submission_row:
  assumes "record_submission env n cid bid ks m w = (Inr (), w')"
    "db_order (sw_db w) cid = Some r" "slice_open (sl_now env n) r"
  shows "\<exists>r'. db_order (sw_db w') cid = Some r' \<and>
    o_status r' \<in> {''submitted'', ''submitted_unconfirmed''} \<and>
    o_broker_order_id r' = coalesce bid (o_broker_order_id r)"
  using assms(1,2)
proof (induction ks arbitrary: w m)
  case Nil
  from mark_slice_row [OF Nil(1) [unfolded record_submission.simps] _ Nil(2) assms(3)]
  show ?case by (simp add: MARKS_def)
next
  case (Cons k ks)
  obtain y w1 where m: "mark_slice env n (MarkSubmitted k) cid ''submitted'' bid (Some []) w = (y, w1)"
    by (metis prod.exhaust)
  have mark: "''submitted'' \<in> set MARKS" by (simp add: MARKS_def)
  show ?case
  proof (cases y)
    case (Inl e)
    then have "w1 = w" using mark_slice_effect(4) [OF m mark] by simp
    with Cons m Inl show ?thesis by simp
  next
    case (Inr u)
    with Cons.prems m have "w' = w1" by simp
    have "y = Inr ()" using Inr by simp
    from mark_slice_row [OF m [unfolded this] mark Cons.prems(2) assms(3)] \<open>w' = w1\<close> show ?thesis
      by simp
  qed
qed

lemma slice_guards_stop:
  assumes stop: "slice_guards env n job w = (Inr False, w')"
    and cid: "cid = sd_client_order_id (sj_slice job)"
    and row: "db_order (sw_db w) cid = Some r" and live: "slice_open (sl_now env n) r"
  shows "o_status r = ''canceled'' \<and> w' = w \<or>
    sends_nothing w w' \<and> (\<exists>r'. db_order (sw_db w') cid = Some r' \<and>
      (ks_is_engaged (sw_redis w) = Inr True \<and> o_status r' = ''blocked_kill_switch'' \<or>
       breaker_is_tripped (sw_redis w) = Inr True \<and> o_status r' = ''blocked_circuit_breaker''))"
proof -
  have marks: "''blocked_kill_switch'' \<in> set MARKS" "''blocked_circuit_breaker'' \<in> set MARKS"
    by (simp_all add: MARKS_def)
  have marked: "sends_nothing w w2 \<and> (\<exists>r'. db_order (sw_db w2) cid = Some r' \<and> o_status r' = status)"
    if "mark_slice env n call cid status bid m w = (Inr (), w2)" "status \<in> set MARKS" for call status bid m w2
    using mark_slice_effect(2) [OF that(1,2)] mark_slice_row [OF that row live] by simp
  obtain x1 w1 where pre: "pre_submission_checks env n cid w = (x1, w1)" by (metis prod.exhaust)
  show ?thesis
  proof (cases "x1 = Inr True")
    case True
    then have "w1 = w" "\<not> is_canceled_row (db_order (sw_db w) cid)"
      using pre_submission_effect(3) [OF pre] by simp_all
    moreover from this have "map_sum id (\<lambda>row. \<not> is_canceled_row row) (get_order_by_client_id cid (sw_db w)) \<noteq> Inr False"
      by (cases "get_order_by_client_id cid (sw_db w)") (auto dest: get_order_Inr)
    ultimately show ?thesis using stop
      unfolding slice_guards_def Let_def cid [symmetric] pre True
      by (auto simp: infra_guard_def read_call_def split: option.splits sum.splits if_splits prod.splits)
  next
    case False
    then have x1: "x1 = Inr False" and w1: "w1 = w'"
      using stop unfolding slice_guards_def Let_def cid [symmetric] pre
      by (auto simp: infra_guard_def split: sum.splits if_splits prod.splits bool.splits)
    show ?thesis
      using pre row unfolding x1 w1
      by (auto simp: pre_submission_checks_def read_call_Inr is_canceled_row_def
          split: sum.splits if_splits bool.splits prod.splits
          dest!: get_order_Inr dest: marked [OF _ marks(1)] marked [OF _ marks(2)])
  qed
qed

text \<open>What a submission with every guard clear leaves behind.\<close>

lemma slice_submit_outcome:
  assumes submit: "slice_submit env n job w = (Inr (), w')"
    and cid: "cid = sd_client_order_id (sj_slice job)"
    and row: "db_order (sw_db w) cid = Some r" and live: "slice_open (sl_now env n) r"
  shows "\<exists>r'. db_order (sw_db w') cid = Some r' \<and>
    (sw_sent w' = sw_sent w \<and> sw_server w' = sw_server w \<and> sl_executor env = None \<and> o_status r' = ''dry_run'' \<or>
     (\<exists>api y. sl_executor env = Some api \<and>
        alpaca_submit_order api (slice_order job) cid (sw_server w) = (y, sw_server w') \<and>
        sw_sent w' = sw_sent w @ [(cid, slice_order job)] \<and>
        ((\<exists>bo. y = Inr bo \<and> o_status r' \<in> {''submitted'', ''submitted_unconfirmed''} \<and>
               o_broker_order_id r' = coalesce (b_id bo) (o_broker_order_id r)) \<or>
         (\<exists>m. y \<in> {Inl (AlpacaValidationError m), Inl (AlpacaRejectionError m)} \<and>
              o_status r' = ''rejected'' \<and> o_error_message r' = Some m))))"
proof -
  have marks: "''dry_run'' \<in> set MARKS" "''rejected'' \<in> set MARKS" by (simp_all add: MARKS_def)
  have marked: "sends_nothing w1 w2 \<and> db_order (sw_db w2) cid =
      Some (cas_set (sl_now env n) (slice_cas (sl_now env n) cid status bid m) r)"
    if "mark_slice env n call cid status bid m w1 = (Inr (), w2)" "status \<in> set MARKS"
      "db_order (sw_db w1) cid = Some r" for call status bid m and w1 w2 :: "('a, 'b) slice_world"
    using mark_slice_effect(2) [OF that(1,2)] mark_slice_row [OF that live] by simp
  show ?thesis
  proof (cases "sl_executor env")
    case None
    obtain u w2 where m: "mark_slice env n MarkDryRun cid ''dry_run'' None None w = (u, w2)" by (metis prod.exhaust)
    with submit None cid have "u = Inr ()" "w2 = w'" by (cases u; simp add: slice_submit_def Let_def)+
    with m marked [OF _ marks(1) row, of MarkDryRun None None w'] None show ?thesis
      by (auto simp: sends_nothing_def)
  next
    case (Some api)
    obtain y s' where y: "alpaca_submit_order api (slice_order job) cid (sw_server w) = (y, s')"
      by (metis prod.exhaust)
    let ?w1 = "w\<lparr>sw_server := s', sw_sent := sw_sent w @ [(cid, slice_order job)]\<rparr>"
    have row1: "db_order (sw_db ?w1) cid = Some r" by (simp add: row)
    show ?thesis
    proof (cases y)
      case (Inr bo)
      obtain x1 w2 where r: "record_submission env n cid (b_id bo) [0, 1, 2] [] ?w1 = (x1, w2)"
        by (metis prod.exhaust)
      with submit Some y Inr cid have x1: "x1 = Inr ()" "w2 = w'"
        by (cases x1; simp add: slice_submit_def Let_def)+
      from record_submission_row [OF r [unfolded x1] row1 live] record_submission_effect(2) [OF r]
      show ?thesis using y Inr Some x1 by (auto simp: sends_nothing_def)
    next
      case (Inl e)
      then obtain m where e: "e = AlpacaValidationError m \<or> e = AlpacaRejectionError m"
        using submit Some y cid by (cases e) (auto simp: slice_submit_def Let_def)
      obtain u w2 where m: "mark_slice env n MarkRejected cid ''rejected'' None (Some m) ?w1 = (u, w2)"
        by (metis prod.exhaust)
      with submit Some y Inl e cid have u: "u = Inr ()" "w2 = w'"
        by (cases u; auto simp: slice_submit_def Let_def)+
      from marked [OF m [unfolded u] marks(2) row1] show ?thesis
        using y Inl e Some by (auto simp: sends_nothing_def)
    qed
  qed
qed

text \<open>An attempt that ends normally leaves no slice in limbo.  For a pending slice it has either
  been canceled before, or blocked because the kill switch is engaged or the breaker tripped, or
  logged without a broker; or it was sent once with every guard clear, and its row shows what the
  broker answered: submitted under the broker's identifier, confirmed or not, or rejected.\<close>

theorem slice_outcome:
  assumes run: "execute_slice env n job w = (Inr (), w')"
    and cid: "cid = sd_client_order_id (sj_slice job)"
    and row: "db_order (sw_db w) cid = Some r" and live: "slice_open (sl_now env n) r"
  shows "\<exists>r'. db_order (sw_db w') cid = Some r' \<and>
    (o_status r = ''canceled'' \<and> w' = w \<or>
     sw_sent w' = sw_sent w \<and> sw_server w' = sw_server w \<and>
       (ks_is_engaged (sw_redis w) = Inr True \<and> o_status r' = ''blocked_kill_switch'' \<or>
        breaker_is_tripped (sw_redis w) = Inr True \<and> o_status r' = ''blocked_circuit_breaker'' \<or>
        sl_executor env = None \<and> slice_clear job w \<and> o_status r' = ''dry_run'') \<or>
     (\<exists>api y. sl_executor env = Some api \<and> slice_clear job w \<and>
        alpaca_submit_order api (slice_order job) cid (sw_server w) = (y, sw_server w') \<and>
        sw_sent w' = sw_sent w @ [(cid, slice_order job)] \<and>
        ((\<exists>bo. y = Inr bo \<and> o_status r' \<in> {''submitted'', ''submitted_unconfirmed''} \<and>
               o_broker_order_id r' = coalesce (b_id bo) (o_broker_order_id r)) \<or>
         (\<exists>m. y \<in> {Inl (AlpacaValidationError m), Inl (AlpacaRejectionError m)} \<and>
              o_status r' = ''rejected'' \<and> o_error_message r' = Some m))))"
proof -
  obtain y w1 where g: "slice_guards env n job w = (y, w1)" by (metis prod.exhaust)
  show ?thesis
  proof (cases "y = Inr True")
    case True
    then have "w1 = w" and clear: "slice_clear job w" using slice_guards_effect(3) [OF g] by auto
    with run g True have "slice_submit env n job w = (Inr (), w')" by (simp add: execute_slice_def)
    from slice_submit_outcome [OF this cid row live] clear show ?thesis by blast
  next
    case False
    then have y: "y = Inr False" and w1: "w1 = w'"
      using run g by (auto simp: execute_slice_def split: sum.splits bool.splits)
    from slice_guards_stop [OF g [unfolded y w1] cid row live] row show ?thesis
      by (auto simp: sends_nothing_def)
  qed
qed

lemma slice_outcome_witness:
  "\<exists>w' r'. execute_slice demo_slice_env 0 demo_slice_job (demo_slice_world demo_redis ''accepted'' ''pending_new'' []) =
       (Inr (), w') \<and>
     db_order (sw_db w') ''c1'' = Some r' \<and> o_status r' = ''submitted'' \<and> o_broker_order_id r' = Some ''b-1''"
proof -
  let ?w = "demo_slice_world demo_redis ''accepted'' ''pending_new'' []"
  let ?run = "execute_slice demo_slice_env 0 demo_slice_job ?w"
  have "map_sum id id (fst ?run) = Inr () \<and>
      map_option o_status (db_order (sw_db (snd ?run)) ''c1'') = Some ''submitted'' \<and>
      map_option o_broker_order_id (db_order (sw_db (snd ?run)) ''c1'') = Some (Some ''b-1'')"
    by code_simp
  then obtain w' r' where run: "?run = (Inr (), w')"
    and r': "db_order (sw_db w') ''c1'' = Some r'" "o_status r' = ''submitted''" "o_broker_order_id r' = Some ''b-1''"
    by (cases ?run; cases "fst ?run") auto
  have "\<exists>r'. db_order (sw_db w') ''c1'' = Some r'"
    using slice_outcome [OF run, of "''c1''" "demo_child ''pending_new''"]
    by (auto simp: demo_slice_job_def recovered_job_def demo_slice_world_def demo_rows slice_open_def)
  with run r' show ?thesis by auto
qed

text \<open>A missing kill-switch state raises \<open>RuntimeError\<close>, which no clause of the attempt catches: the job
  ends there, and its slice stays as it is, pending.\<close>

lemma missing_state_drops_slice:
  assumes "db_order (sw_db w) (sd_client_order_id (sj_slice job)) = Some r" "o_status r = ''pending_new''"
    and "redis_get (sw_redis w) ks_state_key = None" "\<And>c. sl_fault env n c = None"
  shows "\<exists>m. execute_slice env n job w = (Inl (UncaughtError m), w)"
proof -
  have "get_order_by_client_id (sd_client_order_id (sj_slice job)) (sw_db w) = Inr (Some r)"
    using assms(1,2) by (simp add: get_order_by_client_id_def order_detail_def ORDER_STATUSES_def)
  moreover have "ks_is_engaged (sw_redis w) = Inl ks_missing"
    using assms(3) by (simp add: ks_is_engaged_def ks_get_state_def load_obj_def)
  ultimately have "pre_submission_checks env n (sd_client_order_id (sj_slice job)) w = (Inl ks_missing, w)"
    using assms(2,4) by (simp add: pre_submission_checks_def read_call_def is_canceled_row_def)
  then show ?thesis
    by (simp add: execute_slice_def slice_guards_def infra_guard_def Let_def ks_missing_def raised_def)
qed

section \<open>A job with its retries\<close>

lemma slice_attempts_guarded:
  assumes "retrying i (slice_attempt env job) (n, w) = (x, n', w')"
  shows "\<exists>m \<le> Suc i.
    sw_sent w' = sw_sent w @ replicate m (sd_client_order_id (sj_slice job), slice_order job) \<and>
    (\<forall>j<m. slice_clear job (snd (state_after (slice_attempt env job) j (n, w))))"
  using assms
proof (induction i arbitrary: n w)
  case 0
  obtain y w1 where run: "execute_slice env n job w = (y, w1)" by (metis prod.exhaust)
  have "sw_sent w' = sw_sent w1" using 0 run by (auto simp: slice_attempt_def)
  with execute_slice_effect(2) [OF run] show ?case
    by (elim disjE conjE) (intro exI [of _ 0] exI [of _ 1]; simp)+
next
  case (Suc i)
  let ?e = "(sd_client_order_id (sj_slice job), slice_order job)"
  obtain y w1 where run: "execute_slice env n job w = (y, w1)" by (metis prod.exhaust)
  define w2 where "w2 = w1\<lparr>sw_redis := sl_redis_meanwhile env n (sw_redis w1), sw_db := sl_db_meanwhile env n (sw_db w1)\<rparr>"
  have att: "slice_attempt env job (n, w) = (y, Suc n, w2)"
    by (simp add: slice_attempt_def run w2_def)
  have sent2: "sw_sent w2 = sw_sent w1" by (simp add: w2_def)
  note eff = execute_slice_effect(2,3) [OF run]
  show ?case
  proof (cases "is_connection_error y")
    case False
    then have "w' = w2" using Suc.prems att by simp
    with eff(1) sent2 show ?thesis
      by (elim disjE conjE) (intro exI [of _ 0] exI [of _ 1]; simp)+
  next
    case True
    then have one: "slice_clear job w" "sw_sent w1 = sw_sent w @ [?e]" using eff by auto
    have "retrying i (slice_attempt env job) (Suc n, w2) = (x, n', w')"
      using Suc.prems att True by simp
    from Suc.IH [OF this] obtain m where m: "m \<le> Suc i" "sw_sent w' = sw_sent w2 @ replicate m ?e"
      "\<forall>j<m. slice_clear job (snd (state_after (slice_attempt env job) j (Suc n, w2)))" by blast
    have "\<forall>j<Suc m. slice_clear job (snd (state_after (slice_attempt env job) j (n, w)))"
      using m(3) one(1) att by (auto simp: less_Suc_eq_0_disj)
    moreover have "sw_sent w' = sw_sent w @ replicate (Suc m) ?e" using m(2) one(2) sent2 by simp
    ultimately show ?thesis using m(1) by (intro exI [of _ "Suc m"]) simp
  qed
qed

text \<open>C18. A job submits its slice at most three times, whatever else happens while it waits, and each
  submission goes out from a state in which the slice is not canceled, the kill switch answers that
  it is not engaged, the breaker that it is not tripped, and the order is valid.\<close>

theorem slice_submissions_guarded:
  assumes run: "execute_slice_job_wrapper env job w = (x, w')"
  shows "\<exists>m \<le> RETRY_ATTEMPTS.
    sw_sent w' = sw_sent w @ replicate m (sd_client_order_id (sj_slice job), slice_order job) \<and>
    (\<forall>j<m. slice_clear job (snd (state_after (slice_attempt env job) j (0, w))))"
proof -
  obtain y n w1 where r: "retrying (RETRY_ATTEMPTS - 1) (slice_attempt env job) (0, w) = (y, n, w1)"
    by (metis prod_cases3)
  then have e: "with_retry (slice_attempt env job) (0, w) = (y, n, w1)"
    by (simp only: with_retry_def)
  have failed: "''failed'' \<in> set MARKS" by (simp add: MARKS_def)
  have "sw_sent w' = sw_sent w1"
  proof (cases "\<exists>m. y = Inl (AlpacaConnectionError m)")
    case True
    then obtain m where m: "y = Inl (AlpacaConnectionError m)" by blast
    obtain z w2 where mark: "mark_slice env n MarkExhausted (sd_client_order_id (sj_slice job)) ''failed'' None
        (Some (''Retry exhausted: '' @ m)) w1 = (z, w2)" by (metis prod.exhaust)
    have "w' = w2"
      using run m mark by (simp add: execute_slice_job_wrapper_def e mark_exhausted_def)
    with mark_slice_effect(2) [OF mark failed] show ?thesis by (simp add: sends_nothing_def)
  next
    case False
    then have "w' = w1"
      using run by (auto simp: execute_slice_job_wrapper_def e split: sum.splits client_error.splits)
    then show ?thesis by simp
  qed
  moreover have "Suc (RETRY_ATTEMPTS - 1) = RETRY_ATTEMPTS" by (simp add: RETRY_ATTEMPTS_def)
  ultimately show ?thesis using slice_attempts_guarded [OF r] by metis
qed

lemma slice_submissions_guarded_witness:
  "\<exists>w' m. snd (execute_slice_job_wrapper demo_slice_env demo_slice_job
       (demo_slice_world demo_redis ''accepted'' ''pending_new'' [])) = w' \<and> m \<le> RETRY_ATTEMPTS \<and>
     sw_sent w' = replicate m (''c1'', slice_order demo_slice_job)"
  using slice_submissions_guarded [of demo_slice_env demo_slice_job
      "demo_slice_world demo_redis ''accepted'' ''pending_new'' []"]
  by (cases "execute_slice_job_wrapper demo_slice_env demo_slice_job
       (demo_slice_world demo_redis ''accepted'' ''pending_new'' [])")
    (auto simp: demo_slice_world_def demo_slice_job_def recovered_job_def)

section \<open>The scheduler as a state machine\<close>

text \<open>
  A run is a job the library has started: it waits for its next attempt, or it has passed the guards of
  that attempt and is about to submit.  The guards and the submission are separate steps, so that
  anything may happen between them.  The library starts a job or drops one that is too late; both
  take it out of the store.  A cancellation is two steps, the database first.  A recovery happens
  while no job runs, at startup.  Redis may change at any moment, which is how operators and the other
  processes engage the kill switch and trip the breaker.  Each step has its own surroundings (clock,
  faults); the broker is fixed.
\<close>

record slice_run =
  ru_job :: slice_job
  ru_attempt :: nat
  ru_cleared :: bool

record ('s, 'j) machine =
  mc_world :: "('s, 'j) slice_world"
  mc_runs :: "slice_run list"

definition job_cid :: "slice_job \<Rightarrow> string" where
  "job_cid job = sd_client_order_id (sj_slice job)"

definition run_cid :: "slice_run \<Rightarrow> string" where
  "run_cid r = job_cid (ru_job r)"

text \<open>What becomes of a run after its submission: another attempt, the final mark, or the end.\<close>

definition after_submit ::
  "'s slice_env \<Rightarrow> slice_run \<Rightarrow> unit client_result \<Rightarrow> ('s, 'j) slice_world \<Rightarrow>
   slice_run list \<times> ('s, 'j) slice_world" where
  "after_submit env r x w =
     (case x of
        Inl (AlpacaConnectionError m) \<Rightarrow>
          if Suc (ru_attempt r) < RETRY_ATTEMPTS
          then ([r\<lparr>ru_attempt := Suc (ru_attempt r), ru_cleared := False\<rparr>], w)
          else ([], snd (mark_exhausted env (Suc (ru_attempt r)) (ru_job r) m w))
      | _ \<Rightarrow> ([], w))"

inductive sched_step ::
  "'j job_store \<Rightarrow> 's alpaca_api option \<Rightarrow> ('s, 'j) machine \<Rightarrow> ('s, 'j) machine \<Rightarrow> bool"
  for js :: "'j job_store" and ex :: "'s alpaca_api option" where
  fire: "js_get js i (sw_jobs w) = Some job \<Longrightarrow> js_remove js i (sw_jobs w) = Some j' \<Longrightarrow>
    sched_step js ex \<lparr>mc_world = w, mc_runs = rs\<rparr>
      \<lparr>mc_world = w\<lparr>sw_jobs := j'\<rparr>, mc_runs = rs @ [\<lparr>ru_job = job, ru_attempt = 0, ru_cleared = False\<rparr>]\<rparr>"
| misfire: "js_remove js i (sw_jobs w) = Some j' \<Longrightarrow>
    sched_step js ex \<lparr>mc_world = w, mc_runs = rs\<rparr> \<lparr>mc_world = w\<lparr>sw_jobs := j'\<rparr>, mc_runs = rs\<rparr>"
| check: "sl_executor env = ex \<Longrightarrow> \<not> ru_cleared r \<Longrightarrow>
    slice_guards env (ru_attempt r) (ru_job r) w = (x, w') \<Longrightarrow>
    sched_step js ex \<lparr>mc_world = w, mc_runs = rs @ r # rs'\<rparr>
      \<lparr>mc_world = w', mc_runs = rs @ (if x = Inr True then [r\<lparr>ru_cleared := True\<rparr>] else []) @ rs'\<rparr>"
| submit: "sl_executor env = ex \<Longrightarrow> ru_cleared r \<Longrightarrow>
    slice_submit env (ru_attempt r) (ru_job r) w = (x, w1) \<Longrightarrow> after_submit env r x w1 = (again, w') \<Longrightarrow>
    sched_step js ex \<lparr>mc_world = w, mc_runs = rs @ r # rs'\<rparr> \<lparr>mc_world = w', mc_runs = rs @ again @ rs'\<rparr>"
| cancel_db: "sched_step js ex \<lparr>mc_world = w, mc_runs = rs\<rparr>
    \<lparr>mc_world = w\<lparr>sw_db := snd (cancel_pending_slices now p (sw_db w))\<rparr>, mc_runs = rs\<rparr>"
| cancel_jobs: "sched_step js ex \<lparr>mc_world = w, mc_runs = rs\<rparr>
    \<lparr>mc_world = w\<lparr>sw_jobs := snd (remove_jobs js prefix ids (0, sw_jobs w))\<rparr>, mc_runs = rs\<rparr>"
| recover: "sl_executor env = ex \<Longrightarrow> recover_zombie_slices env js now w = (x, w') \<Longrightarrow>
    sched_step js ex \<lparr>mc_world = w, mc_runs = []\<rparr> \<lparr>mc_world = w', mc_runs = []\<rparr>"
| others: "sched_step js ex \<lparr>mc_world = w, mc_runs = rs\<rparr> \<lparr>mc_world = w\<lparr>sw_redis := redis\<rparr>, mc_runs = rs\<rparr>"

text \<open>Every job is of a slice of the database and under its identifier; a slice has a job or a run, not
  both, and one run at most.\<close>

definition jobs_ok :: "'j job_store \<Rightarrow> ('s, 'j) machine \<Rightarrow> bool" where
  "jobs_ok js m \<longleftrightarrow>
     keyed_orders (sw_db (mc_world m)) \<and>
     (\<forall>i job. js_get js i (sw_jobs (mc_world m)) = Some job \<longrightarrow>
        (\<exists>r k. db_order (sw_db (mc_world m)) (job_cid job) = Some r \<and>
           o_parent_order_id r = Some (sj_parent_order_id job) \<and> o_slice_num r = Some k \<and>
           i = slice_job_id (sj_parent_order_id job) k)) \<and>
     distinct (map run_cid (mc_runs m)) \<and>
     (\<forall>i job. js_get js i (sw_jobs (mc_world m)) = Some job \<longrightarrow> job_cid job \<notin> run_cid ` set (mc_runs m))"

text \<open>A slice that is canceled and not about to be submitted, or that is settled: not pending, without
  a job and without a run.\<close>

definition slice_stopped :: "'j job_store \<Rightarrow> string \<Rightarrow> ('s, 'j) machine \<Rightarrow> bool" where
  "slice_stopped js cid m \<longleftrightarrow>
     (\<exists>r. db_order (sw_db (mc_world m)) cid = Some r \<and>
       (o_status r = ''canceled'' \<and> (\<forall>u \<in> set (mc_runs m). run_cid u = cid \<longrightarrow> \<not> ru_cleared u) \<or>
        o_status r \<noteq> ''pending_new'' \<and> cid \<notin> run_cid ` set (mc_runs m) \<and>
        (\<forall>i job. js_get js i (sw_jobs (mc_world m)) = Some job \<longrightarrow> job_cid job \<noteq> cid)))"

definition sent_for :: "string \<Rightarrow> ('s, 'j) machine \<Rightarrow> (string \<times> order_request) list" where
  "sent_for cid m = filter (\<lambda>e. fst e = cid) (sw_sent (mc_world m))"

lemma run_cid_simps [simp]:
  "run_cid (r\<lparr>ru_attempt := k\<rparr>) = run_cid r" "run_cid (r\<lparr>ru_cleared := b\<rparr>) = run_cid r"
  by (simp_all add: run_cid_def)

lemma js_remove_Some:
  assumes "job_store_ok js" "js_remove js i j = Some j'"
  shows "js_get js k j' = (if k = i then None else js_get js k j)"
proof -
  have "case js_remove js i j of
        None \<Rightarrow> js_get js i j = None
      | Some j' \<Rightarrow> js_get js i j \<noteq> None \<and>
          (\<forall>k. js_get js k j' = (if k = i then None else js_get js k j))"
    using assms(1) unfolding job_store_ok_def by blast
  then show ?thesis by (simp add: assms(2))
qed

lemma js_remove_None: "job_store_ok js \<Longrightarrow> js_remove js i j = None \<Longrightarrow> js_get js i j = None"
  and js_remove_there: "job_store_ok js \<Longrightarrow> js_remove js i j = Some j' \<Longrightarrow> js_get js i j \<noteq> None"
proof -
  assume "job_store_ok js"
  then have "case js_remove js i j of
        None \<Rightarrow> js_get js i j = None
      | Some j' \<Rightarrow> js_get js i j \<noteq> None \<and>
          (\<forall>k. js_get js k j' = (if k = i then None else js_get js k j))"
    unfolding job_store_ok_def by blast
  then show "js_remove js i j = None \<Longrightarrow> js_get js i j = None"
    and "js_remove js i j = Some j' \<Longrightarrow> js_get js i j \<noteq> None" by simp_all
qed

lemma remove_jobs_get:
  assumes ok: "job_store_ok js"
  shows "js_get js k (snd (remove_jobs js prefix ids (n, j))) = Some job \<Longrightarrow> js_get js k j = Some job"
proof (induction ids arbitrary: n j)
  case Nil
  then show ?case by simp
next
  case (Cons i ids)
  show ?case
  proof (cases "take (length prefix) i = prefix \<and> js_remove js i j \<noteq> None")
    case False
    then have "remove_jobs js prefix (i # ids) (n, j) = remove_jobs js prefix ids (n, j)" by auto
    with Cons show ?thesis by (simp del: remove_jobs.simps)
  next
    case True
    then obtain j' where j': "js_remove js i j = Some j'" by blast
    then have "remove_jobs js prefix (i # ids) (n, j) = remove_jobs js prefix ids (Suc n, j')" using True by simp
    with Cons have "js_get js k j' = Some job" by (simp del: remove_jobs.simps)
    with js_remove_Some [OF ok j', of k] show ?thesis by (simp split: if_splits)
  qed
qed

lemma after_submit_effect:
  assumes "after_submit env r x w = (again, w')"
  shows "only_row (run_cid r) w w'" "sw_sent w' = sw_sent w"
    "again = [] \<or> (\<exists>k. again = [r\<lparr>ru_attempt := k, ru_cleared := False\<rparr>])"
proof -
  have failed: "''failed'' \<in> set MARKS" by (simp add: MARKS_def)
  have mark: "only_row (run_cid r) w (snd (mark_exhausted env n (ru_job r) m w)) \<and>
      sends_nothing w (snd (mark_exhausted env n (ru_job r) m w))" for n m
  proof -
    obtain u w2 where mk: "mark_slice env n MarkExhausted (sd_client_order_id (sj_slice (ru_job r))) ''failed'' None
          (Some (''Retry exhausted: '' @ m)) w = (u, w2)" by (metis prod.exhaust)
    from mark_slice_effect(1,2) [OF mk failed] mk show ?thesis
      by (simp add: mark_exhausted_def run_cid_def job_cid_def)
  qed
  have "only_row (run_cid r) w w' \<and> sw_sent w' = sw_sent w \<and>
      (again = [] \<or> (\<exists>k. again = [r\<lparr>ru_attempt := k, ru_cleared := False\<rparr>]))"
  proof (cases "\<exists>m. x = Inl (AlpacaConnectionError m)")
    case True
    then obtain m where "x = Inl (AlpacaConnectionError m)" by blast
    with assms mark [of "Suc (ru_attempt r)" m] show ?thesis
      by (auto simp: after_submit_def sends_nothing_def split: if_splits)
  next
    case False
    with assms show ?thesis by (auto simp: after_submit_def split: sum.splits client_error.splits)
  qed
  then show "only_row (run_cid r) w w'" "sw_sent w' = sw_sent w"
    "again = [] \<or> (\<exists>k. again = [r\<lparr>ru_attempt := k, ru_cleared := False\<rparr>])" by simp_all
qed

lemma only_row_rows:
  assumes "only_row cid w w'"
  shows "sw_redis w' = sw_redis w" "sw_jobs w' = sw_jobs w" "c \<noteq> cid \<Longrightarrow> db_order (sw_db w') c = db_order (sw_db w) c"
    "row_evolves (db_order (sw_db w) c) (db_order (sw_db w') c)" "keyed_orders (sw_db w) \<Longrightarrow> keyed_orders (sw_db w')"
  using assms by (cases "c = cid"; simp add: only_row_def)+

lemma jobs_ok_job:
  assumes "jobs_ok js m" "js_get js i (sw_jobs (mc_world m)) = Some job"
  shows "\<exists>r k. db_order (sw_db (mc_world m)) (job_cid job) = Some r \<and>
       o_parent_order_id r = Some (sj_parent_order_id job) \<and> o_slice_num r = Some k \<and>
       i = slice_job_id (sj_parent_order_id job) k"
    and "job_cid job \<notin> run_cid ` set (mc_runs m)"
  using assms unfolding jobs_ok_def by blast+

lemma jobs_okI:
  assumes "keyed_orders (sw_db (mc_world m))"
    and "\<And>i job. js_get js i (sw_jobs (mc_world m)) = Some job \<Longrightarrow>
      \<exists>r k. db_order (sw_db (mc_world m)) (job_cid job) = Some r \<and>
         o_parent_order_id r = Some (sj_parent_order_id job) \<and> o_slice_num r = Some k \<and>
         i = slice_job_id (sj_parent_order_id job) k"
    and "distinct (map run_cid (mc_runs m))"
    and "\<And>i job. js_get js i (sw_jobs (mc_world m)) = Some job \<Longrightarrow> job_cid job \<notin> run_cid ` set (mc_runs m)"
  shows "jobs_ok js m"
  using assms unfolding jobs_ok_def by blast

lemma jobs_ok_step:
  assumes inv: "jobs_ok js \<lparr>mc_world = w, mc_runs = rs\<rparr>"
    and jobs: "\<And>i job. js_get js i (sw_jobs w') = Some job \<Longrightarrow> js_get js i (sw_jobs w) = Some job"
    and rows: "\<And>c. row_evolves (db_order (sw_db w) c) (db_order (sw_db w') c)"
    and keyed: "keyed_orders (sw_db w')"
    and runs: "distinct (map run_cid rs')" "run_cid ` set rs' \<subseteq> run_cid ` set rs"
  shows "jobs_ok js \<lparr>mc_world = w', mc_runs = rs'\<rparr>"
proof (rule jobs_okI)
  fix i job
  assume "js_get js i (sw_jobs (mc_world \<lparr>mc_world = w', mc_runs = rs'\<rparr>)) = Some job"
  then have job: "js_get js i (sw_jobs w') = Some job" by simp
  show "job_cid job \<notin> run_cid ` set (mc_runs \<lparr>mc_world = w', mc_runs = rs'\<rparr>)"
    using jobs_ok_job(2) [OF inv, of i job] jobs [OF job] runs(2) by auto
  show "\<exists>r k. db_order (sw_db (mc_world \<lparr>mc_world = w', mc_runs = rs'\<rparr>)) (job_cid job) = Some r \<and>
           o_parent_order_id r = Some (sj_parent_order_id job) \<and> o_slice_num r = Some k \<and>
           i = slice_job_id (sj_parent_order_id job) k"
  proof -
    obtain r k where r: "db_order (sw_db w) (job_cid job) = Some r"
      "o_parent_order_id r = Some (sj_parent_order_id job)" "o_slice_num r = Some k"
      "i = slice_job_id (sj_parent_order_id job) k"
      using jobs_ok_job [OF inv, of i job] jobs [OF job] by auto
    from rows [of "job_cid job"] r show ?thesis
      by (auto simp: row_evolves_def same_slice_def split: option.splits)
  qed
qed (use keyed runs in simp_all)

text \<open>Two jobs of the same slice are the same job.\<close>

lemma jobs_ok_unique:
  "jobs_ok js m \<Longrightarrow> js_get js i (sw_jobs (mc_world m)) = Some job \<Longrightarrow>
     js_get js i' (sw_jobs (mc_world m)) = Some job' \<Longrightarrow> job_cid job = job_cid job' \<Longrightarrow> i = i'"
  by (metis jobs_ok_job(1) option.inject)

lemma sched_step_jobs_ok:
  assumes ok: "job_store_ok js" and step: "sched_step js ex m m'" and inv: "jobs_ok js m"
  shows "jobs_ok js m'"
  using step inv
proof cases
  case (fire i w job j' rs)
  let ?r = "\<lparr>ru_job = job, ru_attempt = 0, ru_cleared = False\<rparr>"
  note inv = inv [unfolded fire(1)]
  have got: "js_get js i (sw_jobs (mc_world \<lparr>mc_world = w, mc_runs = rs\<rparr>)) = Some job" using fire(3) by simp
  have base: "jobs_ok js \<lparr>mc_world = w\<lparr>sw_jobs := j'\<rparr>, mc_runs = rs\<rparr>"
    by (rule jobs_ok_step [OF inv]) (use inv in \<open>auto simp: js_remove_Some [OF ok fire(4)] jobs_ok_def split: if_splits\<close>)
  have "run_cid ?r \<notin> run_cid ` set rs" using inv fire(3) by (auto simp: jobs_ok_def run_cid_def)
  moreover have "job_cid job' \<noteq> job_cid job" if job': "js_get js i' j' = Some job'" for i' job'
  proof
    assume same: "job_cid job' = job_cid job"
    have old: "i' \<noteq> i" "js_get js i' (sw_jobs (mc_world \<lparr>mc_world = w, mc_runs = rs\<rparr>)) = Some job'"
      using job' js_remove_Some [OF ok fire(4), of i'] by (auto split: if_splits)
    from jobs_ok_unique [OF inv old(2) got same] old(1) show False by simp
  qed
  ultimately show ?thesis
    using base unfolding fire(2) jobs_ok_def by (auto simp: run_cid_def)
next
  case (misfire i w j' rs)
  show ?thesis unfolding misfire(2)
    by (rule jobs_ok_step [OF inv [unfolded misfire(1)]])
      (use inv misfire in \<open>auto simp: js_remove_Some [OF ok misfire(3)] jobs_ok_def split: if_splits\<close>)
next
  case (check env r w x w' rs rs')
  note only = only_row_rows [OF slice_guards_effect(1) [OF check(5)]]
  have "distinct (map run_cid (rs @ r # rs'))" "keyed_orders (sw_db w)"
    using inv check(1) by (simp_all add: jobs_ok_def)
  then show ?thesis unfolding check(2)
    by (intro jobs_ok_step [OF inv [unfolded check(1)]]) (auto simp: only)
next
  case (submit env r w x w1 again w' rs rs')
  note e = only_row_trans [OF slice_submit_effect(1) [OF submit(5), folded job_cid_def run_cid_def]
      after_submit_effect(1) [OF submit(6)]]
  note only = only_row_rows [OF e]
  have "distinct (map run_cid (rs @ r # rs'))" "keyed_orders (sw_db w)"
    using inv submit(1) by (simp_all add: jobs_ok_def)
  then show ?thesis unfolding submit(2) using after_submit_effect(3) [OF submit(6)]
    by (intro jobs_ok_step [OF inv [unfolded submit(1)]]) (auto simp: only intro: rev_image_eqI)
next
  case (cancel_db w rs now p)
  have "keyed_orders (sw_db w)" using inv cancel_db(1) by (simp add: jobs_ok_def)
  then show ?thesis unfolding cancel_db(2)
    using inv cancel_db(1)
    by (intro jobs_ok_step [OF inv [unfolded cancel_db(1)]])
      (auto simp: cancel_pending_slices_spec row_evolves_def same_slice_def keyed_cancel jobs_ok_def
        split: option.splits)
next
  case (cancel_jobs w rs prefix ids)
  show ?thesis unfolding cancel_jobs(2)
    by (rule jobs_ok_step [OF inv [unfolded cancel_jobs(1)]])
      (use inv cancel_jobs(1) in \<open>auto simp: jobs_ok_def dest: remove_jobs_get [OF ok]\<close>)
next
  case (recover env now w x w')
  have keyed: "keyed_orders (sw_db w)" using inv recover(1) by (simp add: jobs_ok_def)
  note e = recover_zombie_effect [OF ok keyed recover(4)]
  have "\<exists>r k. db_order (sw_db w') (job_cid job) = Some r \<and>
           o_parent_order_id r = Some (sj_parent_order_id job) \<and> o_slice_num r = Some k \<and>
           i = slice_job_id (sj_parent_order_id job) k"
    if job: "js_get js i (sw_jobs w') = Some job" for i job
  proof -
    obtain r k where r: "db_order (sw_db w) (job_cid job) = Some r"
      "o_parent_order_id r = Some (sj_parent_order_id job)" "o_slice_num r = Some k"
      "i = slice_job_id (sj_parent_order_id job) k"
    proof (cases "js_get js i (sw_jobs w) = Some job")
      case True
      with that jobs_ok_job(1) [OF inv, of i job] show ?thesis by (auto simp: recover(1))
    next
      case False
      with that e(6) [OF job] show ?thesis by (auto simp: job_cid_def)
    qed
    from e(4) [of "job_cid job"] r show ?thesis
      by (auto simp: row_evolves_def same_slice_def split: option.splits)
  qed
  with e(3) show ?thesis unfolding recover(2) jobs_ok_def by simp
next
  case (others w rs redis)
  then show ?thesis using inv unfolding others(2) by (simp add: jobs_ok_def)
qed

section \<open>A canceled slice\<close>

lemma stopped_frame:
  assumes stop: "slice_stopped js cid \<lparr>mc_world = w, mc_runs = rs\<rparr>"
    and row: "db_order (sw_db w') cid = db_order (sw_db w) cid"
    and jobs: "\<And>i job. js_get js i (sw_jobs w') = Some job \<Longrightarrow> job_cid job = cid \<Longrightarrow>
      js_get js i (sw_jobs w) = Some job"
    and runs: "\<And>u. u \<in> set rs' \<Longrightarrow> run_cid u = cid \<Longrightarrow>
      u \<in> set rs \<or> \<not> ru_cleared u \<and> (\<exists>i job. js_get js i (sw_jobs w) = Some job \<and> job_cid job = cid)"
  shows "slice_stopped js cid \<lparr>mc_world = w', mc_runs = rs'\<rparr>"
proof -
  obtain r where r: "db_order (sw_db w) cid = Some r"
    and cases: "o_status r = ''canceled'' \<and> (\<forall>u \<in> set rs. run_cid u = cid \<longrightarrow> \<not> ru_cleared u) \<or>
        o_status r \<noteq> ''pending_new'' \<and> cid \<notin> run_cid ` set rs \<and>
        (\<forall>i job. js_get js i (sw_jobs w) = Some job \<longrightarrow> job_cid job \<noteq> cid)"
    using stop by (auto simp: slice_stopped_def)
  from cases show ?thesis
  proof
    assume "o_status r = ''canceled'' \<and> (\<forall>u \<in> set rs. run_cid u = cid \<longrightarrow> \<not> ru_cleared u)"
    then show ?thesis using r row runs by (auto simp: slice_stopped_def)
  next
    assume *: "o_status r \<noteq> ''pending_new'' \<and> cid \<notin> run_cid ` set rs \<and>
        (\<forall>i job. js_get js i (sw_jobs w) = Some job \<longrightarrow> job_cid job \<noteq> cid)"
    have "cid \<notin> run_cid ` set rs'"
    proof
      assume "cid \<in> run_cid ` set rs'"
      then obtain u where u: "u \<in> set rs'" "run_cid u = cid" by auto
      from runs [OF u] u(2) * show False by auto
    qed
    moreover have "job_cid job \<noteq> cid" if "js_get js i (sw_jobs w') = Some job" for i job
      using jobs [OF that] * by blast
    ultimately show ?thesis using * r row unfolding slice_stopped_def by simp
  qed
qed

text \<open>An attempt of another slice, whatever becomes of its run.\<close>

lemma stopped_other_run:
  assumes stop: "slice_stopped js cid \<lparr>mc_world = w, mc_runs = rs @ r # rs'\<rparr>"
    and only: "only_row (run_cid r) w w'" and other: "run_cid r \<noteq> cid"
    and again: "\<And>u. u \<in> set again \<Longrightarrow> run_cid u = run_cid r"
  shows "slice_stopped js cid \<lparr>mc_world = w', mc_runs = rs @ again @ rs'\<rparr>"
  by (rule stopped_frame [OF stop]) (use only_row_rows [OF only] other again in auto)

lemma stopped_status:
  assumes "slice_stopped js cid m" "u \<in> set (mc_runs m)" "run_cid u = cid"
  shows "\<not> ru_cleared u" "is_canceled_row (db_order (sw_db (mc_world m)) cid)"
  using assms by (auto simp: slice_stopped_def is_canceled_row_def)

lemma sched_step_stopped:
  assumes ok: "job_store_ok js" and step: "sched_step js ex m m'" and inv: "jobs_ok js m"
    and stop: "slice_stopped js cid m"
  shows "slice_stopped js cid m' \<and> sent_for cid m' = sent_for cid m"
  using step
proof cases
  case (fire i w job j' rs)
  have "slice_stopped js cid m'" unfolding fire(2)
    by (rule stopped_frame [OF stop [unfolded fire(1)]])
      (use fire(3) in \<open>auto simp: js_remove_Some [OF ok fire(4)] run_cid_def intro: exI [of _ i] exI [of _ job] split: if_splits\<close>)
  then show ?thesis by (simp add: fire(1,2) sent_for_def)
next
  case (misfire i w j' rs)
  have "slice_stopped js cid m'" unfolding misfire(2)
    by (rule stopped_frame [OF stop [unfolded misfire(1)]])
      (auto simp: js_remove_Some [OF ok misfire(3)] split: if_splits)
  then show ?thesis by (simp add: misfire(1,2) sent_for_def)
next
  case (check env r w x w' rs rs')
  note only = slice_guards_effect(1) [OF check(5), folded job_cid_def run_cid_def]
  have sent: "sent_for cid m' = sent_for cid m"
    using slice_guards_effect(2) [OF check(5)] by (simp add: check(1,2) sent_for_def sends_nothing_def)
  have "slice_stopped js cid m'"
  proof (cases "run_cid r = cid")
    case False
    show ?thesis unfolding check(2)
      by (rule stopped_other_run [OF stop [unfolded check(1)] only False]) (auto split: if_splits)
  next
    case True
    have canceled: "is_canceled_row (db_order (sw_db w) cid)"
      using stopped_status(2) [OF stop [unfolded check(1)], of r] True by simp
    then have x: "x \<noteq> Inr True"
      using slice_guards_effect(3) [OF check(5)] True by (auto simp: slice_clear_def run_cid_def job_cid_def)
    obtain r1 where r1: "db_order (sw_db w') cid = Some r1" "o_status r1 \<noteq> ''pending_new''"
      using canceled only_row_rows(4) [OF only, of cid]
      by (auto simp: is_canceled_row_def row_evolves_def split: option.splits)
    have "cid \<notin> run_cid ` set (rs @ rs')"
      using inv True by (auto simp: check(1) jobs_ok_def)
    moreover have "job_cid job \<noteq> cid" if "js_get js i (sw_jobs w') = Some job" for i job
    proof -
      have "js_get js i (sw_jobs (mc_world m)) = Some job"
        using that only_row_rows(2) [OF only] by (simp add: check(1))
      from jobs_ok_job(2) [OF inv this] True show ?thesis by (simp add: check(1))
    qed
    ultimately show ?thesis using r1 x unfolding check(2) slice_stopped_def by auto
  qed
  with sent show ?thesis by simp
next
  case (submit env r w x w1 again w' rs rs')
  have other: "run_cid r \<noteq> cid"
    using stopped_status(1) [OF stop [unfolded submit(1)], of r] submit(4) by auto
  note only = only_row_trans [OF slice_submit_effect(1) [OF submit(5), folded job_cid_def run_cid_def]
      after_submit_effect(1) [OF submit(6)]]
  have "slice_stopped js cid m'" unfolding submit(2)
    by (rule stopped_other_run [OF stop [unfolded submit(1)] only other])
      (use after_submit_effect(3) [OF submit(6)] in auto)
  moreover have "sent_for cid m' = sent_for cid m"
    using slice_submit_effect(2) [OF submit(5)] after_submit_effect(2) [OF submit(6)] other
    by (auto simp: submit(1,2) sent_for_def run_cid_def job_cid_def split: option.splits)
  ultimately show ?thesis by simp
next
  case (cancel_db w rs now p)
  have row: "db_order (snd (cancel_pending_slices now p (sw_db w))) cid = db_order (sw_db w) cid"
    using stop by (auto simp: cancel_db(1) slice_stopped_def cancel_pending_slices_spec)
  have "slice_stopped js cid m'" unfolding cancel_db(2)
    by (rule stopped_frame [OF stop [unfolded cancel_db(1)]]) (simp_all add: row)
  then show ?thesis by (simp add: cancel_db(1,2) sent_for_def)
next
  case (cancel_jobs w rs prefix ids)
  have "slice_stopped js cid m'" unfolding cancel_jobs(2)
    by (rule stopped_frame [OF stop [unfolded cancel_jobs(1)]]) (auto dest: remove_jobs_get [OF ok])
  then show ?thesis by (simp add: cancel_jobs(1,2) sent_for_def)
next
  case (recover env now w x w')
  have keyed: "keyed_orders (sw_db w)" using inv recover(1) by (simp add: jobs_ok_def)
  note e = recover_zombie_effect [OF ok keyed recover(4)]
  obtain r where r: "db_order (sw_db w) cid = Some r" "o_status r \<noteq> ''pending_new''"
    and cases: "o_status r = ''canceled'' \<or>
        (\<forall>i job. js_get js i (sw_jobs w) = Some job \<longrightarrow> job_cid job \<noteq> cid)"
    using stop by (auto simp: recover(1) slice_stopped_def)
  have "slice_stopped js cid m'"
  proof (cases "o_status r = ''canceled''")
    case True
    then show ?thesis using e(5) [OF r(1)] by (simp add: recover(2) slice_stopped_def)
  next
    case False
    then have none: "job_cid job \<noteq> cid" if "js_get js i (sw_jobs w) = Some job" for i job
      using cases that by blast
    have "job_cid job \<noteq> cid" if "js_get js i (sw_jobs w') = Some job" for i job
      using e(6) [OF that] none [of i job] r by (auto simp: job_cid_def is_pending_slice_def)
    moreover obtain r1 where "db_order (sw_db w') cid = Some r1" "o_status r1 \<noteq> ''pending_new''"
      using e(4) [of cid] r by (auto simp: row_evolves_def split: option.splits)
    ultimately show ?thesis by (simp add: recover(2) slice_stopped_def)
  qed
  then show ?thesis using e(2) by (simp add: recover(1,2) sent_for_def)
next
  case (others w rs redis)
  have "slice_stopped js cid m'" unfolding others(2)
    by (rule stopped_frame [OF stop [unfolded others(1)]]) simp_all
  then show ?thesis by (simp add: others(1,2) sent_for_def)
qed

lemma sched_steps_stopped:
  assumes ok: "job_store_ok js" and steps: "(sched_step js ex)\<^sup>*\<^sup>* m m'"
    and inv: "jobs_ok js m" and stop: "slice_stopped js cid m"
  shows "jobs_ok js m' \<and> slice_stopped js cid m' \<and> sent_for cid m' = sent_for cid m"
  using steps
proof (induction rule: rtranclp_induct)
  case base
  with inv stop show ?case by simp
next
  case (step y z)
  then show ?case using sched_step_jobs_ok [OF ok step(2)] sched_step_stopped [OF ok step(2)] by auto
qed

text \<open>C15. A canceled slice is never sent.  As soon as the database part of a cancellation has run, no
  pending slice of the parent whose guards have not been passed yet is sent in any continuation:
  whatever jobs fire, misfire or retry, whatever is canceled, recovered after a restart or changed in
  Redis, and although the scheduler's jobs are only removed afterwards.\<close>

theorem canceled_slice_never_sent:
  assumes ok: "job_store_ok js" and inv: "jobs_ok js \<lparr>mc_world = w, mc_runs = rs\<rparr>"
    and row: "db_order (sw_db w) cid = Some r" "o_parent_order_id r = Some p" "o_status r = ''pending_new''"
    and waiting: "\<And>u. u \<in> set rs \<Longrightarrow> run_cid u = cid \<Longrightarrow> \<not> ru_cleared u"
    and run: "(sched_step js ex)\<^sup>*\<^sup>*
      \<lparr>mc_world = w\<lparr>sw_db := snd (cancel_pending_slices now p (sw_db w))\<rparr>, mc_runs = rs\<rparr> m'"
  shows "filter (\<lambda>e. fst e = cid) (sw_sent (mc_world m')) = filter (\<lambda>e. fst e = cid) (sw_sent w) \<and>
    (\<exists>r'. db_order (sw_db (mc_world m')) cid = Some r' \<and> o_status r' \<noteq> ''pending_new'')"
proof -
  let ?m = "\<lparr>mc_world = w\<lparr>sw_db := snd (cancel_pending_slices now p (sw_db w))\<rparr>, mc_runs = rs\<rparr>"
  have "jobs_ok js ?m" by (rule sched_step_jobs_ok [OF ok sched_step.cancel_db inv])
  moreover have "slice_stopped js cid ?m"
    using row waiting by (auto simp: slice_stopped_def cancel_pending_slices_spec)
  ultimately have "slice_stopped js cid m' \<and> sent_for cid m' = sent_for cid ?m"
    using sched_steps_stopped [OF ok run] by blast
  then show ?thesis by (auto simp: slice_stopped_def sent_for_def)
qed

definition demo_machine :: "string \<Rightarrow> (string list \<times> nat, (string \<times> slice_job) list) machine" where
  "demo_machine child =
     \<lparr>mc_world = demo_slice_world demo_redis ''accepted'' child [(''p1_slice_0'', demo_slice_job)], mc_runs = []\<rparr>"

lemma demo_job_fields [simp]:
  "job_cid demo_slice_job = ''c1''" "sj_parent_order_id demo_slice_job = ''p1''"
  by (simp_all add: demo_slice_job_def recovered_job_def job_cid_def)

lemma demo_job_id: "slice_job_id ''p1'' 0 = ''p1_slice_0''"
  by code_simp

lemma demo_machine_ok: "jobs_ok list_jobs (demo_machine child)"
  by (auto simp: jobs_ok_def demo_machine_def demo_slice_world_def demo_keyed demo_rows list_jobs_def
      demo_job_id split: if_splits)

lemma canceled_slice_never_sent_witness:
  "\<exists>m'. (sched_step list_jobs (sl_executor demo_slice_env))\<^sup>*\<^sup>*
      \<lparr>mc_world = (mc_world (demo_machine ''pending_new''))
         \<lparr>sw_db := snd (cancel_pending_slices 200 ''p1'' (demo_slices_db ''accepted'' ''pending_new''))\<rparr>,
       mc_runs = []\<rparr> m' \<and>
     map run_cid (mc_runs m') = [''c1''] \<and> filter (\<lambda>e. fst e = ''c1'') (sw_sent (mc_world m')) = []"
proof -
  let ?w = "mc_world (demo_machine ''pending_new'')"
  let ?w1 = "?w\<lparr>sw_db := snd (cancel_pending_slices 200 ''p1'' (sw_db ?w))\<rparr>"
  let ?m' = "\<lparr>mc_world = ?w1\<lparr>sw_jobs := []\<rparr>,
    mc_runs = [] @ [\<lparr>ru_job = demo_slice_job, ru_attempt = 0, ru_cleared = False\<rparr>]\<rparr>"
  have db: "sw_db ?w = demo_slices_db ''accepted'' ''pending_new''"
    by (simp add: demo_machine_def demo_slice_world_def)
  have "sched_step list_jobs (sl_executor demo_slice_env) \<lparr>mc_world = ?w1, mc_runs = []\<rparr> ?m'"
    by (rule sched_step.fire [of _ "''p1_slice_0''"])
      (simp_all add: list_jobs_def demo_machine_def demo_slice_world_def)
  then have step: "(sched_step list_jobs (sl_executor demo_slice_env))\<^sup>*\<^sup>* \<lparr>mc_world = ?w1, mc_runs = []\<rparr> ?m'"
    by blast
  have "\<lparr>mc_world = ?w, mc_runs = []\<rparr> = demo_machine ''pending_new''" by (simp add: demo_machine_def)
  with demo_machine_ok have "jobs_ok list_jobs \<lparr>mc_world = ?w, mc_runs = []\<rparr>" by simp
  from canceled_slice_never_sent [OF list_jobs_ok this, of "''c1''" "demo_child ''pending_new''" "''p1''", OF _ _ _ _ step]
  have "filter (\<lambda>e. fst e = ''c1'') (sw_sent (mc_world ?m')) = filter (\<lambda>e. fst e = ''c1'') (sw_sent ?w)"
    by (simp add: db demo_rows)
  then show ?thesis using step unfolding db
    by (intro exI [of _ ?m']) (simp add: run_cid_def demo_machine_def demo_slice_world_def)
qed

section \<open>A halt of trading\<close>

text \<open>The kill switch or the breaker does not answer that trading is allowed: it is engaged or tripped,
  or its state is missing or malformed.\<close>

definition trading_halted :: "('s, 'j) machine \<Rightarrow> bool" where
  "trading_halted m \<longleftrightarrow>
     ks_is_engaged (sw_redis (mc_world m)) \<noteq> Inr False \<or> breaker_is_tripped (sw_redis (mc_world m)) \<noteq> Inr False"

definition nothing_cleared :: "('s, 'j) machine \<Rightarrow> bool" where
  "nothing_cleared m \<longleftrightarrow> (\<forall>u \<in> set (mc_runs m). \<not> ru_cleared u)"

lemma halted_step:
  assumes ok: "job_store_ok js" and step: "sched_step js ex m m'" and inv: "jobs_ok js m"
    and halt: "trading_halted m" and idle: "nothing_cleared m"
  shows "nothing_cleared m' \<and> sw_sent (mc_world m') = sw_sent (mc_world m)"
  using step
proof cases
  case (check env r w x w' rs rs')
  have "x \<noteq> Inr True"
    using slice_guards_effect(3) [OF check(5)] halt by (auto simp: check(1) slice_clear_def trading_halted_def)
  then show ?thesis
    using slice_guards_effect(2) [OF check(5)] idle by (auto simp: check(1,2) nothing_cleared_def sends_nothing_def)
next
  case (recover env now w x w')
  have keyed: "keyed_orders (sw_db w)" using inv recover(1) by (simp add: jobs_ok_def)
  show ?thesis using recover_zombie_effect(2) [OF ok keyed recover(4)] by (simp add: recover(1,2) nothing_cleared_def)
qed (use idle in \<open>auto simp: nothing_cleared_def\<close>)

text \<open>C16. While trading is halted no new run sends.  From a state in which no run has already passed its
  guards, and as long as the kill switch or the breaker does not answer that trading is allowed, the
  scheduler sends nothing to the broker and no run passes its guards, whatever fires, retries, is
  canceled or recovered.  (A run that has passed its guards when the halt comes still sends.)\<close>

theorem halted_scheduler_sends_nothing:
  assumes ok: "job_store_ok js" and inv: "jobs_ok js m"
    and halt: "trading_halted m" and idle: "nothing_cleared m"
    and run: "(\<lambda>a b. sched_step js ex a b \<and> trading_halted b)\<^sup>*\<^sup>* m m'"
  shows "sw_sent (mc_world m') = sw_sent (mc_world m) \<and> nothing_cleared m'"
proof -
  have "jobs_ok js m' \<and> trading_halted m' \<and> sw_sent (mc_world m') = sw_sent (mc_world m) \<and> nothing_cleared m'"
    using run
  proof (induction rule: rtranclp_induct)
    case base
    with inv halt idle show ?case by simp
  next
    case (step y z)
    then show ?case using sched_step_jobs_ok [OF ok, of ex y z] halted_step [OF ok, of ex y z] by auto
  qed
  then show ?thesis by simp
qed

lemma halted_scheduler_sends_nothing_witness:
  "\<exists>m'. (\<lambda>a b. sched_step list_jobs (sl_executor demo_slice_env) a b \<and> trading_halted b)\<^sup>*\<^sup>*
       \<lparr>mc_world = (mc_world (demo_machine ''pending_new''))\<lparr>sw_redis := empty_redis\<rparr>, mc_runs = []\<rparr> m' \<and>
     map run_cid (mc_runs m') = [''c1''] \<and> sw_sent (mc_world m') = []"
proof -
  let ?w = "(mc_world (demo_machine ''pending_new''))\<lparr>sw_redis := empty_redis\<rparr>"
  let ?m = "\<lparr>mc_world = ?w, mc_runs = []\<rparr>"
  let ?m' = "\<lparr>mc_world = ?w\<lparr>sw_jobs := []\<rparr>,
    mc_runs = [] @ [\<lparr>ru_job = demo_slice_job, ru_attempt = 0, ru_cleared = False\<rparr>]\<rparr>"
  have halted: "trading_halted ?m" "trading_halted ?m'"
    by (simp_all add: trading_halted_def ks_is_engaged_def ks_get_state_def empty_redis_def redis_get_def load_obj_def)
  have inv: "jobs_ok list_jobs ?m" using demo_machine_ok [of "''pending_new''"] by (simp add: jobs_ok_def demo_machine_def)
  have "sched_step list_jobs (sl_executor demo_slice_env) ?m ?m'"
    by (rule sched_step.fire [of _ "''p1_slice_0''"])
      (simp_all add: list_jobs_def demo_machine_def demo_slice_world_def)
  with halted(2) have run: "(\<lambda>a b. sched_step list_jobs (sl_executor demo_slice_env) a b \<and> trading_halted b)\<^sup>*\<^sup>* ?m ?m'"
    by (intro r_into_rtranclp) simp
  from halted_scheduler_sends_nothing [OF list_jobs_ok inv halted(1) _ run] run show ?thesis
    by (intro exI [of _ ?m']) (simp add: nothing_cleared_def run_cid_def demo_machine_def demo_slice_world_def)
qed

section \<open>The wrapper of a job is a path of the machine\<close>

lemma mark_slice_redis:
  "mark_slice env n call cid status bid m (w\<lparr>sw_redis := redis\<rparr>) =
     map_prod id (\<lambda>w. w\<lparr>sw_redis := redis\<rparr>) (mark_slice env n call cid status bid m w)"
  by (simp add: mark_slice_def split: option.splits prod.splits sum.splits)

text \<open>What the wrapper makes of the last attempt.\<close>

definition wrapper_end ::
  "'s slice_env \<Rightarrow> slice_job \<Rightarrow> unit client_result \<times> nat \<times> ('s, 'j) slice_world \<Rightarrow>
   unit client_result \<times> ('s, 'j) slice_world" where
  "wrapper_end env job r =
     (case r of
        (Inl (AlpacaConnectionError m), n, w') \<Rightarrow> mark_exhausted env n job m w'
      | (x, n, w') \<Rightarrow> (x, w'))"

lemma wrapper_end_simps:
  "wrapper_end env job (Inl (AlpacaConnectionError m), n, w) = mark_exhausted env n job m w"
  "\<not> is_connection_error x \<Longrightarrow> wrapper_end env job (x, n, w) = (x, w)"
  by (auto simp: wrapper_end_def connection_error_Inl split: sum.splits client_error.splits)

lemma execute_slice_path:
  assumes "sl_executor env = ex" "execute_slice env n job w = (x, w')"
    and "after_submit env \<lparr>ru_job = job, ru_attempt = n, ru_cleared = True\<rparr> x w' = (again, w2)"
  shows "(sched_step js ex)\<^sup>*\<^sup>*
    \<lparr>mc_world = w, mc_runs = rs @ \<lparr>ru_job = job, ru_attempt = n, ru_cleared = False\<rparr> # rs'\<rparr>
    \<lparr>mc_world = w2, mc_runs = rs @ again @ rs'\<rparr>"
proof -
  let ?r = "\<lparr>ru_job = job, ru_attempt = n, ru_cleared = False\<rparr>"
  obtain y w1 where g: "slice_guards env n job w = (y, w1)" by (metis prod.exhaust)
  have check: "sched_step js ex \<lparr>mc_world = w, mc_runs = rs @ ?r # rs'\<rparr>
      \<lparr>mc_world = w1, mc_runs = rs @ (if y = Inr True then [?r\<lparr>ru_cleared := True\<rparr>] else []) @ rs'\<rparr>"
    by (rule sched_step.check [OF assms(1)]) (simp_all add: g)
  show ?thesis
  proof (cases "y = Inr True")
    case True
    then have "slice_submit env n job w1 = (x, w')" using assms(2) g by (simp add: execute_slice_def)
    then have "sched_step js ex
        \<lparr>mc_world = w1, mc_runs = rs @ \<lparr>ru_job = job, ru_attempt = n, ru_cleared = True\<rparr> # rs'\<rparr>
        \<lparr>mc_world = w2, mc_runs = rs @ again @ rs'\<rparr>"
      by (intro sched_step.submit [OF assms(1) _ _ assms(3)]) simp_all
    with check True show ?thesis by (auto intro: converse_rtranclp_into_rtranclp)
  next
    case False
    then have "w' = w1 \<and> \<not> is_connection_error x"
      using assms(2) g slice_guards_effect(4) [OF g]
      by (auto simp: execute_slice_def connection_error_Inl split: sum.splits bool.splits)
    then have "again = []" "w2 = w1"
      using assms(3) by (auto simp: after_submit_def connection_error_Inl split: sum.splits client_error.splits)
    with check False show ?thesis by auto
  qed
qed

lemma attempts_path:
  assumes ex: "sl_executor env = ex" and alone: "\<And>n d. sl_db_meanwhile env n d = d"
  shows "n + i + 1 = RETRY_ATTEMPTS \<Longrightarrow>
    (sched_step js ex)\<^sup>*\<^sup>*
      \<lparr>mc_world = w, mc_runs = rs @ \<lparr>ru_job = job, ru_attempt = n, ru_cleared = False\<rparr> # rs'\<rparr>
      \<lparr>mc_world = snd (wrapper_end env job (retrying i (slice_attempt env job) (n, w))), mc_runs = rs @ rs'\<rparr>"
proof (induction i arbitrary: n w)
  case (0 n w)
  obtain x w1 where run: "execute_slice env n job w = (x, w1)" by (metis prod.exhaust)
  let ?redis = "sl_redis_meanwhile env n (sw_redis w1)"
  obtain again w2 where after: "after_submit env \<lparr>ru_job = job, ru_attempt = n, ru_cleared = True\<rparr> x w1 = (again, w2)"
    by (metis prod.exhaust)
  have last: "Suc n = RETRY_ATTEMPTS" using 0 by simp
  have "again = [] \<and> snd (wrapper_end env job (x, Suc n, w1\<lparr>sw_redis := ?redis\<rparr>)) = w2\<lparr>sw_redis := ?redis\<rparr>"
  proof (cases "is_connection_error x")
    case True
    then obtain m where "x = Inl (AlpacaConnectionError m)"
      by (cases x) (auto simp: connection_error_Inl)
    with after last show ?thesis
      by (auto simp: after_submit_def wrapper_end_simps mark_exhausted_def mark_slice_redis)
  next
    case False
    with after show ?thesis
      by (auto simp: after_submit_def wrapper_end_simps connection_error_Inl split: sum.splits client_error.splits)
  qed
  with execute_slice_path [OF ex run after, of js rs rs'] sched_step.others [of js ex w2 "rs @ rs'" ?redis]
  show ?case by (simp add: slice_attempt_def run alone rtranclp.rtrancl_into_rtrancl)
next
  case (Suc i n w)
  obtain x w1 where run: "execute_slice env n job w = (x, w1)" by (metis prod.exhaust)
  let ?redis = "sl_redis_meanwhile env n (sw_redis w1)"
  have att: "slice_attempt env job (n, w) = (x, Suc n, w1\<lparr>sw_redis := ?redis\<rparr>)"
    by (simp add: slice_attempt_def run alone)
  obtain again w2 where after: "after_submit env \<lparr>ru_job = job, ru_attempt = n, ru_cleared = True\<rparr> x w1 = (again, w2)"
    by (metis prod.exhaust)
  note path = execute_slice_path [OF ex run after, of js rs rs']
  show ?case
  proof (cases "is_connection_error x")
    case True
    then obtain m where "x = Inl (AlpacaConnectionError m)"
      by (cases x) (auto simp: connection_error_Inl)
    then have again: "again = [\<lparr>ru_job = job, ru_attempt = Suc n, ru_cleared = False\<rparr>]" "w2 = w1"
      using after Suc.prems by (auto simp: after_submit_def)
    have "(sched_step js ex)\<^sup>*\<^sup>*
        \<lparr>mc_world = w1\<lparr>sw_redis := ?redis\<rparr>, mc_runs = rs @ \<lparr>ru_job = job, ru_attempt = Suc n, ru_cleared = False\<rparr> # rs'\<rparr>
        \<lparr>mc_world = snd (wrapper_end env job (retrying (Suc i) (slice_attempt env job) (n, w))), mc_runs = rs @ rs'\<rparr>"
      using Suc.IH [of "Suc n" "w1\<lparr>sw_redis := ?redis\<rparr>"] Suc.prems att True by simp
    moreover have "sched_step js ex
        \<lparr>mc_world = w1, mc_runs = rs @ \<lparr>ru_job = job, ru_attempt = Suc n, ru_cleared = False\<rparr> # rs'\<rparr>
        \<lparr>mc_world = w1\<lparr>sw_redis := ?redis\<rparr>, mc_runs = rs @ \<lparr>ru_job = job, ru_attempt = Suc n, ru_cleared = False\<rparr> # rs'\<rparr>"
      by (rule sched_step.others)
    ultimately show ?thesis using path unfolding again by (auto intro: rtranclp_trans converse_rtranclp_into_rtranclp)
  next
    case False
    then have "again = []" "w2 = w1"
      using after by (auto simp: after_submit_def connection_error_Inl split: sum.splits client_error.splits)
    with path False att sched_step.others [of js ex w1 "rs @ rs'" ?redis] show ?thesis
      by (simp add: wrapper_end_simps rtranclp.rtrancl_into_rtrancl)
  qed
qed

text \<open>C17. The machine has every behaviour of the code's job: the wrapper with its retries, run while Redis
  changes as it may between the attempts, takes the machine from a state in which the job has fired
  to the wrapper's result, with the other runs untouched.  So what holds of all paths of the machine
  holds of the jobs as they are written.\<close>

theorem job_wrapper_refines_machine:
  assumes "\<And>n d. sl_db_meanwhile env n d = d"
  shows "(sched_step js (sl_executor env))\<^sup>*\<^sup>*
    \<lparr>mc_world = w, mc_runs = rs @ \<lparr>ru_job = job, ru_attempt = 0, ru_cleared = False\<rparr> # rs'\<rparr>
    \<lparr>mc_world = snd (execute_slice_job_wrapper env job w), mc_runs = rs @ rs'\<rparr>"
proof -
  have "execute_slice_job_wrapper env job w =
      wrapper_end env job (retrying (RETRY_ATTEMPTS - 1) (slice_attempt env job) (0, w))"
    by (simp add: execute_slice_job_wrapper_def wrapper_end_def with_retry_def)
  moreover have "0 + (RETRY_ATTEMPTS - 1) + 1 = RETRY_ATTEMPTS" by (simp add: RETRY_ATTEMPTS_def)
  ultimately show ?thesis using attempts_path [OF refl assms, of 0 "RETRY_ATTEMPTS - 1" js w rs job rs'] by metis
qed

lemma job_wrapper_refines_machine_witness:
  "(sched_step list_jobs (Some (demo_api [])))\<^sup>*\<^sup>*
     \<lparr>mc_world = mc_world (demo_machine ''pending_new''),
      mc_runs = [\<lparr>ru_job = demo_slice_job, ru_attempt = 0, ru_cleared = False\<rparr>]\<rparr>
     \<lparr>mc_world = snd (execute_slice_job_wrapper demo_slice_env demo_slice_job (mc_world (demo_machine ''pending_new''))),
      mc_runs = []\<rparr>"
  using job_wrapper_refines_machine [of demo_slice_env list_jobs "mc_world (demo_machine ''pending_new'')" "[]" demo_slice_job "[]"]
  by (simp add: demo_slice_env_def)

section \<open>Canceling the rest of a parent\<close>

lemma remove_all_get:
  assumes "job_store_ok js"
  shows "js_get js k (remove_all js ids j) = (if k \<in> set ids then None else js_get js k j)"
proof (induction ids arbitrary: j)
  case Nil
  then show ?case by (simp add: remove_all_def)
next
  case (Cons i ids)
  let ?j = "case js_remove js i j of None \<Rightarrow> j | Some j' \<Rightarrow> j'"
  have get: "js_get js k ?j = (if k = i then None else js_get js k j)"
    using js_remove_Some [OF assms, of i j _ k] js_remove_None [OF assms, of i j]
    by (auto split: option.splits)
  have "remove_all js (i # ids) j = remove_all js ids ?j" by (simp add: remove_all_def)
  then show ?case unfolding Cons.IH [of ?j] get by (simp only: Cons.IH [of ?j] get) simp
qed

lemma remove_jobs_spec:
  assumes ok: "job_store_ok js" and "distinct ids"
  shows "fst (remove_jobs js prefix ids (n, j)) =
      n + length (filter (\<lambda>i. take (length prefix) i = prefix \<and> js_get js i j \<noteq> None) ids)"
    and "js_get js k (snd (remove_jobs js prefix ids (n, j))) =
      (if k \<in> set ids \<and> take (length prefix) k = prefix then None else js_get js k j)"
proof -
  have "fst (remove_jobs js prefix ids (n, j)) =
        n + length (filter (\<lambda>i. take (length prefix) i = prefix \<and> js_get js i j \<noteq> None) ids) \<and>
      js_get js k (snd (remove_jobs js prefix ids (n, j))) =
        (if k \<in> set ids \<and> take (length prefix) k = prefix then None else js_get js k j)"
    using assms(2)
  proof (induction ids arbitrary: n j)
    case Nil
    then show ?case by simp
  next
    case (Cons i ids)
    show ?case
    proof (cases "js_remove js i j")
      case None
      then show ?thesis using Cons js_remove_None [OF ok None] by auto
    next
      case (Some j')
      note get = js_remove_Some [OF ok Some]
      have "filter (\<lambda>i. take (length prefix) i = prefix \<and> js_get js i j' \<noteq> None) ids =
          filter (\<lambda>i. take (length prefix) i = prefix \<and> js_get js i j \<noteq> None) ids"
        using Cons.prems by (intro filter_cong) (auto simp: get)
      moreover have "js_get js i j \<noteq> None" using js_remove_there [OF ok Some] .
      ultimately show ?thesis using Some Cons.IH [of n j] Cons.IH [of "Suc n" j'] Cons.prems
        by (auto simp: get)
    qed
  qed
  then show "fst (remove_jobs js prefix ids (n, j)) =
      n + length (filter (\<lambda>i. take (length prefix) i = prefix \<and> js_get js i j \<noteq> None) ids)"
    and "js_get js k (snd (remove_jobs js prefix ids (n, j))) =
      (if k \<in> set ids \<and> take (length prefix) k = prefix then None else js_get js k j)" by blast+
qed

lemma slice_job_prefix: "take (length (p @ ''_slice_'')) (slice_job_id p k) = p @ ''_slice_''"
  by (simp add: slice_job_id_def)

lemma cancel_remaining_parts:
  assumes ok: "job_store_ok js"
    and run: "cancel_remaining_slices js now fired p w = ((removed, canceled), w')"
  shows "db_order (sw_db w') c =
      map_option (\<lambda>r. if o_parent_order_id r = Some p \<and> o_status r = ''pending_new''
        then r\<lparr>o_status := ''canceled'', o_updated_at := now\<rparr> else r) (db_order (sw_db w) c)"
    and "js_get js (slice_job_id p k) (sw_jobs w') = None"
    and "take (length p + 7) i \<noteq> p @ ''_slice_'' \<Longrightarrow>
      js_get js i (sw_jobs w') = (if i \<in> set fired then None else js_get js i (sw_jobs w))"
    and "canceled = length (filter (\<lambda>r. o_parent_order_id r = Some p \<and> o_status r = ''pending_new'')
        (map snd (db_orders (sw_db w))))"
    and "removed = length (filter (\<lambda>i. take (length p + 7) i = p @ ''_slice_'' \<and> i \<notin> set fired)
        (js_ids js (sw_jobs w)))"
    and "sw_redis w' = sw_redis w \<and> sw_sent w' = sw_sent w"
proof -
  let ?ids = "js_ids js (sw_jobs w)" and ?prefix = "p @ ''_slice_''"
  have ids: "distinct ?ids" "set ?ids = {i. js_get js i (sw_jobs w) \<noteq> None}"
    using ok by (simp_all add: job_store_ok_def)
  let ?rest = "remove_all js fired (sw_jobs w)"
  note spec = remove_jobs_spec [OF ok ids(1), where prefix = ?prefix and n = 0 and j = ?rest] and rest = remove_all_get [OF ok, of _ fired "sw_jobs w"]
  have w': "w' = w\<lparr>sw_db := snd (cancel_pending_slices now p (sw_db w)),
        sw_jobs := snd (remove_jobs js ?prefix ?ids (0, ?rest))\<rparr>"
    "removed = fst (remove_jobs js ?prefix ?ids (0, ?rest))"
    "canceled = fst (cancel_pending_slices now p (sw_db w))"
    using run by (auto simp: cancel_remaining_slices_def Let_def split: prod.splits)
  show "db_order (sw_db w') c =
      map_option (\<lambda>r. if o_parent_order_id r = Some p \<and> o_status r = ''pending_new''
        then r\<lparr>o_status := ''canceled'', o_updated_at := now\<rparr> else r) (db_order (sw_db w) c)"
    and "canceled = length (filter (\<lambda>r. o_parent_order_id r = Some p \<and> o_status r = ''pending_new'')
        (map snd (db_orders (sw_db w))))"
    by (simp_all add: w' cancel_pending_slices_spec)
  show "js_get js (slice_job_id p k) (sw_jobs w') = None"
    using ids(2) slice_job_prefix [of p k] by (simp add: w' spec(2) rest)
  show "take (length p + 7) i \<noteq> ?prefix \<Longrightarrow>
      js_get js i (sw_jobs w') = (if i \<in> set fired then None else js_get js i (sw_jobs w))"
    by (simp add: w' spec(2) rest numeral_eq_Suc)
  have "filter (\<lambda>i. take (length ?prefix) i = ?prefix \<and> js_get js i ?rest \<noteq> None) ?ids =
      filter (\<lambda>i. take (length p + 7) i = ?prefix \<and> i \<notin> set fired) ?ids"
    using ids(2) by (intro filter_cong) (auto simp: rest numeral_eq_Suc)
  then show "removed = length (filter (\<lambda>i. take (length p + 7) i = ?prefix \<and> i \<notin> set fired) ?ids)"
    by (simp add: w' spec(1))
  show "sw_redis w' = sw_redis w \<and> sw_sent w' = sw_sent w" by (simp add: w')
qed

text \<open>C21. A cancellation of the rest of a parent is complete and exact.  Afterwards no pending slice of the
  parent is left and none of its slices has a job; every other row is as it was, and so is every job
  whose identifier does not start with the parent's.  The answers count the canceled rows and the
  removed jobs; a job that starts in between is removed by the library and not counted.\<close>

theorem cancel_remaining_slices_exact:
  assumes "job_store_ok js"
    and "cancel_remaining_slices js now fired p w = ((removed, canceled), w')"
  shows "(\<forall>c. db_order (sw_db w') c =
      map_option (\<lambda>r. if o_parent_order_id r = Some p \<and> o_status r = ''pending_new''
        then r\<lparr>o_status := ''canceled'', o_updated_at := now\<rparr> else r) (db_order (sw_db w) c)) \<and>
    (\<forall>k. js_get js (slice_job_id p k) (sw_jobs w') = None) \<and>
    (\<forall>i. take (length p + 7) i \<noteq> p @ ''_slice_'' \<longrightarrow>
      js_get js i (sw_jobs w') = (if i \<in> set fired then None else js_get js i (sw_jobs w))) \<and>
    canceled = length (filter (\<lambda>r. o_parent_order_id r = Some p \<and> o_status r = ''pending_new'')
        (map snd (db_orders (sw_db w)))) \<and>
    removed = length (filter (\<lambda>i. take (length p + 7) i = p @ ''_slice_'' \<and> i \<notin> set fired)
        (js_ids js (sw_jobs w))) \<and>
    sw_redis w' = sw_redis w \<and> sw_sent w' = sw_sent w"
  using cancel_remaining_parts [OF assms] by blast

lemma cancel_remaining_slices_exact_witness:
  "\<exists>w'. cancel_remaining_slices list_jobs 200 [] ''p1'' (mc_world (demo_machine ''pending_new'')) = ((1, 1), w') \<and>
     map_option o_status (db_order (sw_db w') ''c1'') = Some ''canceled'' \<and>
     js_get list_jobs ''p1_slice_0'' (sw_jobs w') = None"
proof -
  let ?w = "mc_world (demo_machine ''pending_new'')"
  let ?run = "cancel_remaining_slices list_jobs 200 [] ''p1'' ?w"
  have "fst ?run = (1, 1)" by code_simp
  then obtain w' where run: "?run = ((1, 1), w')" by (cases ?run) simp
  from cancel_remaining_slices_exact [OF list_jobs_ok run]
  have "db_order (sw_db w') ''c1'' =
      map_option (\<lambda>r. if o_parent_order_id r = Some ''p1'' \<and> o_status r = ''pending_new''
        then r\<lparr>o_status := ''canceled'', o_updated_at := 200\<rparr> else r) (db_order (sw_db ?w) ''c1'')"
    "js_get list_jobs (slice_job_id ''p1'' 0) (sw_jobs w') = None" by blast+
  then have "map_option o_status (db_order (sw_db w') ''c1'') = Some ''canceled'' \<and>
     js_get list_jobs ''p1_slice_0'' (sw_jobs w') = None"
    by (simp add: demo_job_id demo_machine_def demo_slice_world_def demo_rows)
  with run show ?thesis by blast
qed

end
