(* ===== verification/Twap_Orders.thy ===== *)
theory Twap_Orders
  imports Slice_Machine
begin

text \<open>
  The slicing endpoint, \<^verbatim>\<open>apps/execution_gateway/routes/slicing.py\<close>: the submission of a TWAP order with
  its gates, the search for an existing plan, the transaction that stores parent and slices, the
  scheduling with its compensation; the slices of a parent and their cancellation.  The quarantine and
  reconciliation gates are the functions of the order endpoint (\<open>Submit_Order\<close>), which the file
  repeats.  The share of the average daily volume that one slice may have is computed in floating
  point and an argument, as are the sampling of the slicer and what other requests do to the database
  between the search and the transaction.  The database is reachable.
\<close>

section \<open>The request and the surroundings\<close>

record slicing_request =
  tr_symbol :: string
  tr_side :: string
  tr_qty :: int
  tr_duration_minutes :: int
  tr_interval_seconds :: int
  tr_order_type :: string
  tr_limit_price :: "rat option"
  tr_stop_price :: "rat option"
  tr_time_in_force :: string
  tr_trade_date :: "date option"

definition slicing_request_ok :: "slicing_request \<Rightarrow> bool" where
  "slicing_request_ok q \<longleftrightarrow>
     tr_symbol q = upper (tr_symbol q) \<and> tr_side q \<in> {''buy'', ''sell''} \<and> 0 < tr_qty q \<and>
     0 < tr_duration_minutes q \<and> 0 < tr_interval_seconds q \<and>
     tr_order_type q \<in> {''market'', ''limit'', ''stop'', ''stop_limit''} \<and>
     positive_price (tr_limit_price q) \<and> positive_price (tr_stop_price q) \<and>
     tr_time_in_force q \<in> {''day'', ''gtc'', ''ioc'', ''fok''} \<and>
     base_slices (tr_duration_minutes q) (tr_interval_seconds q) \<le> tr_qty q"

record 'j twap_env =
  tw_gateway :: submit_env
  tw_sample :: "nat \<Rightarrow> nat \<Rightarrow> nat \<Rightarrow> nat list"
  tw_liquidity_enabled :: bool
  tw_share :: "int \<Rightarrow> int"
  tw_job_store :: "'j job_store"

section \<open>The gates\<close>

definition check_twap_prerequisites :: "recovery_state \<Rightarrow> redis \<Rightarrow> unit result" where
  "check_twap_prerequisites rv r =
     (if rv_slice_scheduler rv = None
      then Inl (HTTPException 503 ''TWAP order service unavailable (scheduler not initialized)'')
      else if rv_kill_switch_unavailable rv \<or> \<not> rv_kill_switch rv
      then Inl (HTTPException 503 ''Kill-switch unavailable'')
      else rbind (ks_is_engaged r) (\<lambda>engaged.
        if engaged
        then rbind (ks_get_status r) (\<lambda>status_info. Inl (HTTPException 503 ''Kill-switch engaged''))
        else Inr ()))"

definition twap_gates :: "submit_env \<Rightarrow> recovery_state \<Rightarrow> slicing_request \<Rightarrow> redis \<Rightarrow> unit result" where
  "twap_gates env rv q r =
     rbind (check_twap_prerequisites rv r) (\<lambda>_.
       rbind (check_quarantine env (tr_symbol q) r) (\<lambda>_.
         if is_reconciliation_ready env then Inr ()
         else if (case sv_reconciliation env of None \<Rightarrow> False | Some s \<Rightarrow> rs_override_active s) then Inr ()
         else Inl (HTTPException 503 ''Reconciliation in progress - TWAP orders blocked'')))"

text \<open>The largest slice the liquidity allows, at least one share.\<close>

definition max_slice_qty :: "'j twap_env \<Rightarrow> slicing_request \<Rightarrow> int option result" where
  "max_slice_qty env q =
     (if \<not> tw_liquidity_enabled env then Inr None
      else case sv_get_adv (tw_gateway env) of
        None \<Rightarrow> Inl (HTTPException 503 ''Liquidity service unavailable; please retry'')
      | Some get_adv \<Rightarrow>
          (case get_adv (tr_symbol q) of
             None \<Rightarrow> Inl (HTTPException 503 ''Liquidity data unavailable (ADV lookup failed); please retry'')
           | Some adv_20d \<Rightarrow> Inr (Some (max 1 (tw_share env adv_20d)))))"

section \<open>Existing plans\<close>

text \<open>\<open>SliceDetail(\<dots>)\<close> rejects a negative number and a quantity that is not positive.\<close>

fun convert_slices_to_details :: "order_row list \<Rightarrow> slice_detail list result" where
  "convert_slices_to_details [] = Inr []"
| "convert_slices_to_details (s # ss) =
     (case (o_slice_num s, o_scheduled_time s) of
        (Some k, Some t) \<Rightarrow>
          if k < 0 \<or> o_qty s \<le> 0 then Inl (ValueError ''validation error for SliceDetail'')
          else rbind (convert_slices_to_details ss) (\<lambda>ds.
            Inr (\<lparr>sd_slice_num = nat k, sd_qty = o_qty s, sd_scheduled_time = t,
                  sd_client_order_id = o_client_order_id s, sd_strategy_id = o_strategy_id s,
                  sd_status = o_status s\<rparr> # ds))
      | _ \<Rightarrow> Inl (HTTPException 500 ''Corrupt slice data found in database''))"

text \<open>The plan as it is stored; a plan without slices is rejected by its schema.\<close>

definition stored_plan ::
  "slicing_request \<Rightarrow> slicing_plan \<Rightarrow> string \<Rightarrow> string \<Rightarrow> db \<Rightarrow> slicing_plan result" where
  "stored_plan q sp parent_id strategy_id d =
     rbind (get_slices_by_parent_id parent_id d) (\<lambda>existing_slices.
       rbind (convert_slices_to_details existing_slices) (\<lambda>slice_details.
         if slice_details = [] then Inl (ValueError ''validation error for SlicingPlan'')
         else Inr \<lparr>sp_parent_order_id = parent_id, sp_parent_strategy_id = strategy_id,
           sp_symbol = tr_symbol q, sp_side = tr_side q, sp_total_qty = tr_qty q,
           sp_total_slices = int (length slice_details), sp_duration_minutes = tr_duration_minutes q,
           sp_interval_seconds = sp_interval_seconds sp, sp_slices = slice_details\<rparr>))"

definition LEGACY_TWAP_INTERVAL_SECONDS :: int where
  "LEGACY_TWAP_INTERVAL_SECONDS = 60"

definition legacy_parent_id :: "slicing_request \<Rightarrow> date \<Rightarrow> string \<Rightarrow> string" where
  "legacy_parent_id q trade_date strategy_id =
     reconstruct_order_params_hash (tr_symbol q) (tr_side q) (tr_qty q) (tr_limit_price q)
       (tr_stop_price q) (tr_order_type q) (tr_time_in_force q) strategy_id trade_date"

definition fallback_strategies :: "slicing_request \<Rightarrow> string list" where
  "fallback_strategies q = [''twap_parent_'' @ show_int (tr_duration_minutes q) @ ''m'', ''twap_parent'']"

text \<open>The first legacy parent with as many slices as requested.\<close>

fun find_legacy ::
  "slicing_request \<Rightarrow> int \<Rightarrow> date \<Rightarrow> string list \<Rightarrow> db \<Rightarrow> (string \<times> order_row) option result" where
  "find_legacy q n trade_date [] d = Inr None"
| "find_legacy q n trade_date (s # ss) d =
     rbind (get_order_by_client_id (legacy_parent_id q trade_date s) d) (\<lambda>legacy.
       case legacy of
         None \<Rightarrow> find_legacy q n trade_date ss d
       | Some row \<Rightarrow>
           if o_total_slices row = Some n then Inr (Some (legacy_parent_id q trade_date s, row))
           else find_legacy q n trade_date ss d)"

definition find_existing_twap_plan ::
  "slicing_request \<Rightarrow> slicing_plan \<Rightarrow> date \<Rightarrow> db \<Rightarrow> slicing_plan option result" where
  "find_existing_twap_plan q sp trade_date d =
     rbind (get_order_by_client_id (sp_parent_order_id sp) d) (\<lambda>existing.
       rbind (case existing of
           Some row \<Rightarrow> Inr (Some (sp_parent_order_id sp, row))
         | None \<Rightarrow>
             if tr_interval_seconds q \<noteq> LEGACY_TWAP_INTERVAL_SECONDS then Inr None
             else find_legacy q (sp_total_slices sp) trade_date (fallback_strategies q) d)
         (\<lambda>found. case found of
            None \<Rightarrow> Inr None
          | Some (parent_id, row) \<Rightarrow>
              rbind (stored_plan q sp parent_id (o_strategy_id row) d) (\<lambda>p. Inr (Some p))))"

section \<open>Storing and scheduling\<close>

definition twap_request :: "slicing_request \<Rightarrow> int \<Rightarrow> db_order_request" where
  "twap_request q qty =
     \<lparr>q_symbol = tr_symbol q, q_side = tr_side q, q_qty = qty, q_order_type = tr_order_type q,
      q_limit_price = tr_limit_price q, q_stop_price = tr_stop_price q,
      q_time_in_force = tr_time_in_force q\<rparr>"

fun create_children :: "rat \<Rightarrow> slicing_request \<Rightarrow> string \<Rightarrow> slice_detail list \<Rightarrow> db \<Rightarrow> unit result \<times> db" where
  "create_children now q parent [] d = (Inr (), d)"
| "create_children now q parent (sd # sds) d =
     (if \<not> order_request_ok (twap_request q (sd_qty sd))
      then (Inl (ValueError ''validation error for OrderRequest''), d)
      else case create_child_slice now (sd_client_order_id sd) parent (sd_slice_num sd) (sd_strategy_id sd)
          (twap_request q (sd_qty sd)) (sd_scheduled_time sd) ''pending_new'' d of
        (Inl e, d') \<Rightarrow> (Inl e, d')
      | (Inr _, d') \<Rightarrow> create_children now q parent sds d')"

text \<open>The body of the transaction.\<close>

definition insert_twap :: "rat \<Rightarrow> slicing_request \<Rightarrow> slicing_plan \<Rightarrow> db \<Rightarrow> unit result \<times> db" where
  "insert_twap now q sp d =
     (if \<not> order_request_ok (twap_request q (tr_qty q))
      then (Inl (ValueError ''validation error for OrderRequest''), d)
      else case create_parent_order now (sp_parent_order_id sp) (sp_parent_strategy_id sp)
          (twap_request q (tr_qty q)) (sp_total_slices sp) ''pending_new'' d of
        (Inl e, d') \<Rightarrow> (Inl e, d')
      | (Inr _, d') \<Rightarrow> create_children now q (sp_parent_order_id sp) (sp_slices sp) d')"

text \<open>The transaction: all or nothing; a violated key is answered with the plan that is there.\<close>

definition create_twap_in_db ::
  "rat \<Rightarrow> slicing_request \<Rightarrow> slicing_plan \<Rightarrow> db \<Rightarrow> slicing_plan option result \<times> db" where
  "create_twap_in_db now q sp d =
     (case insert_twap now q sp d of
        (Inr _, d') \<Rightarrow> (Inr None, d')
      | (Inl (IntegrityError m), _) \<Rightarrow>
          (rbind (get_order_by_client_id (sp_parent_order_id sp) d) (\<lambda>existing.
             case existing of
               None \<Rightarrow> Inl (HTTPException 500
                 ''Database inconsistency: parent order not found after UniqueViolation'')
             | Some row \<Rightarrow>
                 rbind (stored_plan q sp (sp_parent_order_id sp) (o_strategy_id row) d) (\<lambda>p. Inr (Some p))), d)
      | (Inl e, _) \<Rightarrow> (Inl e, d))"

text \<open>The compensation of a scheduling that failed with \<open>e\<close>.\<close>

definition compensate_scheduling ::
  "rat \<Rightarrow> string \<Rightarrow> py_error \<Rightarrow> ('s, 'j) slice_world \<Rightarrow> py_error \<times> ('s, 'j) slice_world" where
  "compensate_scheduling now parent e w =
     (let (canceled_count, d') = cancel_pending_slices now parent (sw_db w); w' = w\<lparr>sw_db := d'\<rparr> in
      case get_slices_by_parent_id parent d' of
        Inl (KeyError m) \<Rightarrow> (e, w')
      | Inl e' \<Rightarrow> (e', w')
      | Inr all_slices \<Rightarrow>
          if filter (\<lambda>s. o_status s \<noteq> ''pending_new'' \<and> o_status s \<noteq> ''canceled'') all_slices = []
          then (case update_order_status now parent ''canceled'' None None None
                    (Some (''Scheduling failed: '' @ error_text e)) d' of
                  (Inl (KeyError m), d'') \<Rightarrow> (e, w\<lparr>sw_db := d''\<rparr>)
                | (Inl e', d'') \<Rightarrow> (e', w\<lparr>sw_db := d''\<rparr>)
                | (Inr _, d'') \<Rightarrow> (e, w\<lparr>sw_db := d''\<rparr>))
          else (e, w'))"

definition schedule_slices_with_compensation ::
  "'j job_store \<Rightarrow> rat \<Rightarrow> slicing_request \<Rightarrow> slicing_plan \<Rightarrow> ('s, 'j) slice_world \<Rightarrow>
   string list result \<times> ('s, 'j) slice_world" where
  "schedule_slices_with_compensation js now q sp w =
     (case schedule_slices js (sp_parent_order_id sp) (sp_slices sp) (tr_symbol q) (tr_side q)
         (tr_order_type q) (tr_limit_price q) (tr_stop_price q) (tr_time_in_force q) w of
        (Inr ids, w') \<Rightarrow> (Inr ids, w')
      | (Inl e, w') \<Rightarrow>
          (case e of
             TypeError m \<Rightarrow> map_prod Inl id (compensate_scheduling now (sp_parent_order_id sp) e w')
           | ValueError m \<Rightarrow> map_prod Inl id (compensate_scheduling now (sp_parent_order_id sp) e w')
           | _ \<Rightarrow> (Inl e, w')))"

section \<open>The endpoints\<close>

text \<open>The \<open>except\<close> clauses of the submission.\<close>

fun twap_error :: "py_error \<Rightarrow> py_error" where
  "twap_error (ValueError m) = HTTPException 400 m"
| "twap_error (KeyError m) = HTTPException 500 (''TWAP order creation failed: '' @ m)"
| "twap_error (TypeError m) = HTTPException 500 (''TWAP order creation failed: '' @ m)"
| "twap_error DecodeError = HTTPException 400 ''JSONDecodeError''"
| "twap_error e = e"

definition place_twap ::
  "'j twap_env \<Rightarrow> slicing_request \<Rightarrow> ('s, 'j) slice_world \<Rightarrow> slicing_plan result \<times> ('s, 'j) slice_world" where
  "place_twap env q w =
     (let g = tw_gateway env;
          trade_date = (case tr_trade_date q of Some d \<Rightarrow> d | None \<Rightarrow> sv_today g)
      in case max_slice_qty env q of
        Inl e \<Rightarrow> (Inl e, w)
      | Inr cap \<Rightarrow>
      case plan (tw_sample env) (sv_now g) (sv_today g) (tr_symbol q) (tr_side q) (tr_qty q)
          (tr_duration_minutes q) (tr_order_type q) (tr_interval_seconds q) cap (tr_limit_price q)
          (tr_stop_price q) (tr_time_in_force q) (Some trade_date) of
        Inl e \<Rightarrow> (Inl e, w)
      | Inr sp \<Rightarrow>
      case find_existing_twap_plan q sp trade_date (sw_db w) of
        Inl e \<Rightarrow> (Inl e, w)
      | Inr (Some p) \<Rightarrow> (Inr p, w)
      | Inr None \<Rightarrow>
      case create_twap_in_db (sv_now g) q sp (sv_meanwhile g (sw_db w)) of
        (Inl e, d') \<Rightarrow> (Inl e, w\<lparr>sw_db := d'\<rparr>)
      | (Inr (Some p), d') \<Rightarrow> (Inr p, w\<lparr>sw_db := d'\<rparr>)
      | (Inr None, d') \<Rightarrow>
          (case schedule_slices_with_compensation (tw_job_store env) (sv_now g) q sp (w\<lparr>sw_db := d'\<rparr>) of
             (Inl e, w') \<Rightarrow> (Inl e, w')
           | (Inr ids, w') \<Rightarrow> (Inr sp, w')))"

definition submit_sliced_order ::
  "'j twap_env \<Rightarrow> recovery_state \<Rightarrow> slicing_request \<Rightarrow> ('s, 'j) slice_world \<Rightarrow>
   slicing_plan result \<times> ('s, 'j) slice_world" where
  "submit_sliced_order env rv q w =
     (case twap_gates (tw_gateway env) rv q (sw_redis w) of
        Inl e \<Rightarrow> (Inl e, w)
      | Inr _ \<Rightarrow> map_prod (map_sum twap_error id) id (place_twap env q w))"

definition get_slices_by_parent :: "string \<Rightarrow> db \<Rightarrow> order_row list result" where
  "get_slices_by_parent parent_id d =
     (case get_slices_by_parent_id parent_id d of
        Inl (KeyError m) \<Rightarrow> Inl (HTTPException 500 (''Failed to fetch slices: '' @ m))
      | Inl e \<Rightarrow> Inl e
      | Inr [] \<Rightarrow>
          (case get_order_by_client_id parent_id d of
             Inl (KeyError m) \<Rightarrow> Inl (HTTPException 500 (''Failed to fetch slices: '' @ m))
           | Inl e \<Rightarrow> Inl e
           | Inr None \<Rightarrow> Inl (HTTPException 404 ''Parent order not found'')
           | Inr (Some p) \<Rightarrow> Inr [])
      | Inr slices \<Rightarrow> Inr slices)"

definition cancel_slices ::
  "'j job_store \<Rightarrow> recovery_state \<Rightarrow> rat \<Rightarrow> string list \<Rightarrow> string \<Rightarrow> ('s, 'j) slice_world \<Rightarrow>
   (nat \<times> nat) result \<times> ('s, 'j) slice_world" where
  "cancel_slices js rv now fired parent_id w =
     (if rv_slice_scheduler rv = None
      then (Inl (HTTPException 503 ''Slice scheduler unavailable - cannot cancel slices''), w)
      else case get_order_by_client_id parent_id (sw_db w) of
        Inl e \<Rightarrow> (Inl e, w)
      | Inr None \<Rightarrow> (Inl (HTTPException 404 ''Parent order not found''), w)
      | Inr (Some parent) \<Rightarrow> map_prod Inr id (cancel_remaining_slices js now fired parent_id w))"

section \<open>A parent is never stored\<close>

lemma convert_slices_Inr:
  "convert_slices_to_details rs = Inr ds \<Longrightarrow>
     length ds = length rs \<and> map sd_client_order_id ds = map o_client_order_id rs \<and>
     map sd_qty ds = map o_qty rs \<and> map sd_status ds = map o_status rs \<and>
     map (Some \<circ> sd_scheduled_time) ds = map o_scheduled_time rs"
  by (induction rs arbitrary: ds) (auto simp: rbind_Inr_iff split: option.splits if_splits)

lemma stored_plan_Inr:
  assumes "stored_plan q sp parent strategy d = Inr p"
  shows "\<exists>rs. get_slices_by_parent_id parent d = Inr rs \<and> rs \<noteq> [] \<and> sp_parent_order_id p = parent \<and>
    map sd_client_order_id (sp_slices p) = map o_client_order_id rs \<and>
    map sd_qty (sp_slices p) = map o_qty rs \<and> map sd_status (sp_slices p) = map o_status rs"
  using assms by (auto simp: stored_plan_def rbind_Inr_iff split: if_splits dest!: convert_slices_Inr)

lemma get_order_Some: "get_order_by_client_id c d = Inr (Some row) \<Longrightarrow> db_order d c = Some row"
  by (drule get_order_Inr) simp

lemma find_legacy_Inr:
  "find_legacy q n date ss d = Inr (Some (c, row)) \<Longrightarrow> db_order d c = Some row"
proof (induction ss)
  case Nil
  then show ?case by simp
next
  case (Cons s ss)
  then obtain legacy where legacy: "get_order_by_client_id (legacy_parent_id q date s) d = Inr legacy"
    by (auto simp: rbind_Inr_iff)
  with Cons show ?case by (cases legacy) (auto dest: get_order_Some split: if_splits)
qed

lemma find_existing_Inr:
  assumes "find_existing_twap_plan q sp date d = Inr (Some p)"
  shows "db_order d (sp_parent_order_id p) \<noteq> None \<and>
    (\<exists>rs. get_slices_by_parent_id (sp_parent_order_id p) d = Inr rs \<and> rs \<noteq> [] \<and>
      map sd_client_order_id (sp_slices p) = map o_client_order_id rs \<and>
      map sd_qty (sp_slices p) = map o_qty rs \<and> map sd_status (sp_slices p) = map o_status rs)"
proof -
  obtain existing where existing: "get_order_by_client_id (sp_parent_order_id sp) d = Inr existing"
    using assms by (auto simp: find_existing_twap_plan_def rbind_Inr_iff)
  obtain c row where c: "db_order d c = Some row" "stored_plan q sp c (o_strategy_id row) d = Inr p"
  proof (cases existing)
    case None
    with assms existing that show ?thesis
      by (auto simp: find_existing_twap_plan_def rbind_Inr_iff split: option.splits if_splits)
        (blast dest: find_legacy_Inr)
  next
    case (Some row)
    with assms existing that [of "sp_parent_order_id sp" row] get_order_Some [of "sp_parent_order_id sp" d row]
    show ?thesis by (auto simp: find_existing_twap_plan_def rbind_Inr_iff)
  qed
  with stored_plan_Inr [OF c(2)] show ?thesis by auto
qed

lemma create_twap_fails:
  "create_twap_in_db now q sp d =
     (Inl (if order_request_ok (twap_request q (tr_qty q))
           then DatabaseError ''ProgrammingError: placeholders and parameters differ in number''
           else ValueError ''validation error for OrderRequest''), d)"
  by (simp add: create_twap_in_db_def insert_twap_def create_parent_order_fails)

lemma twap_submission_parts:
  assumes run: "submit_sliced_order env rv q w = (x, w')"
  shows "sw_redis w' = sw_redis w \<and> sw_jobs w' = sw_jobs w \<and> sw_server w' = sw_server w \<and>
      sw_sent w' = sw_sent w \<and> sw_db w' \<in> {sw_db w, sv_meanwhile (tw_gateway env) (sw_db w)}"
    and "x = Inr p \<Longrightarrow> w' = w \<and> db_order (sw_db w) (sp_parent_order_id p) \<noteq> None \<and>
      (\<exists>rs. get_slices_by_parent_id (sp_parent_order_id p) (sw_db w) = Inr rs \<and> rs \<noteq> [] \<and>
        map sd_client_order_id (sp_slices p) = map o_client_order_id rs \<and>
        map sd_qty (sp_slices p) = map o_qty rs \<and> map sd_status (sp_slices p) = map o_status rs)"
proof -
  let ?date = "case tr_trade_date q of Some d \<Rightarrow> d | None \<Rightarrow> sv_today (tw_gateway env)"
  define db1 where "db1 = sv_meanwhile (tw_gateway env) (sw_db w)"
  have place: "(\<exists>e. y = Inl e \<and> w1 \<in> {w, w\<lparr>sw_db := db1\<rparr>}) \<or>
      (\<exists>p sp. y = Inr p \<and> w1 = w \<and> find_existing_twap_plan q sp ?date (sw_db w) = Inr (Some p))"
    if "place_twap env q w = (y, w1)" for y w1
    using that unfolding place_twap_def Let_def db1_def [symmetric] create_twap_fails
    by (auto split: sum.splits option.splits)
  obtain y w1 where y: "place_twap env q w = (y, w1)" by (metis prod.exhaust)
  have cases: "(\<exists>e. x = Inl e \<and> w' \<in> {w, w\<lparr>sw_db := db1\<rparr>}) \<or>
      (\<exists>p sp. x = Inr p \<and> w' = w \<and> find_existing_twap_plan q sp ?date (sw_db w) = Inr (Some p))"
    using run y place [OF y] by (auto simp: submit_sliced_order_def split: sum.splits)
  show "sw_redis w' = sw_redis w \<and> sw_jobs w' = sw_jobs w \<and> sw_server w' = sw_server w \<and>
      sw_sent w' = sw_sent w \<and> sw_db w' \<in> {sw_db w, sv_meanwhile (tw_gateway env) (sw_db w)}"
    using cases unfolding db1_def by auto
  show "x = Inr p \<Longrightarrow> w' = w \<and> db_order (sw_db w) (sp_parent_order_id p) \<noteq> None \<and>
      (\<exists>rs. get_slices_by_parent_id (sp_parent_order_id p) (sw_db w) = Inr rs \<and> rs \<noteq> [] \<and>
        map sd_client_order_id (sp_slices p) = map o_client_order_id rs \<and>
        map sd_qty (sp_slices p) = map o_qty rs \<and> map sd_status (sp_slices p) = map o_status rs)"
    using cases find_existing_Inr by blast
qed

text \<open>C20. No TWAP order is ever accepted.  Whatever the request, a submission stores nothing, schedules
  nothing and sends nothing: because the statement that stores a parent order cannot be executed, the
  only plan it ever answers is that of a parent the database already had, with the slices stored
  under it; every other submission ends in an error.\<close>

theorem twap_submission_effect:
  assumes "submit_sliced_order env rv q w = (x, w')"
  shows "sw_redis w' = sw_redis w \<and> sw_jobs w' = sw_jobs w \<and> sw_server w' = sw_server w \<and>
      sw_sent w' = sw_sent w \<and> sw_db w' \<in> {sw_db w, sv_meanwhile (tw_gateway env) (sw_db w)} \<and>
    (\<forall>p. x = Inr p \<longrightarrow> w' = w \<and> db_order (sw_db w) (sp_parent_order_id p) \<noteq> None \<and>
      (\<exists>rs. get_slices_by_parent_id (sp_parent_order_id p) (sw_db w) = Inr rs \<and> rs \<noteq> [] \<and>
        map sd_client_order_id (sp_slices p) = map o_client_order_id rs \<and>
        map sd_qty (sp_slices p) = map o_qty rs \<and> map sd_status (sp_slices p) = map o_status rs))"
  using twap_submission_parts [OF assms] by blast

definition demo_slicing :: slicing_request where
  "demo_slicing =
     \<lparr>tr_symbol = ''AAPL'', tr_side = ''buy'', tr_qty = 10, tr_duration_minutes = 1, tr_interval_seconds = 60,
      tr_order_type = ''market'', tr_limit_price = None, tr_stop_price = None, tr_time_in_force = ''day'',
      tr_trade_date = Some (sv_today (demo_env (BrokerAccepted None) []))\<rparr>"

definition demo_twap_env :: "(string \<times> slice_job) list twap_env" where
  "demo_twap_env =
     \<lparr>tw_gateway = demo_env (BrokerAccepted None) [], tw_sample = demo_sample,
      tw_liquidity_enabled = False, tw_share = (\<lambda>n. n), tw_job_store = list_jobs\<rparr>"

definition demo_scheduler_up :: recovery_state where
  "demo_scheduler_up = demo_recovery\<lparr>rv_slice_scheduler := Some True\<rparr>"

definition demo_plan_id :: string where
  "demo_plan_id = legacy_parent_id demo_slicing (sv_today (demo_env (BrokerAccepted None) [])) ''twap_parent_1m_60s''"

definition demo_stored :: "(string list \<times> nat, (string \<times> slice_job) list) slice_world" where
  "demo_stored = (demo_slice_world demo_redis ''accepted'' ''pending_new'' [])
     \<lparr>sw_db := empty_db\<lparr>db_orders :=
        [(demo_plan_id, demo_parent ''accepted''),
         (''c1'', (demo_child ''pending_new'')\<lparr>o_parent_order_id := Some demo_plan_id\<rparr>)]\<rparr>\<rparr>"

lemma demo_twap_plan:
  "\<exists>sp. plan demo_sample 100 (sv_today (demo_env (BrokerAccepted None) [])) ''AAPL'' ''buy'' 10 1 ''market'' 60
     None None None ''day'' (Some (sv_today (demo_env (BrokerAccepted None) []))) = Inr sp \<and>
     sp_parent_order_id sp = demo_plan_id"
proof -
  have "slice_layout 10 1 60 None = Inr (1, 60)"
    by (simp add: slice_layout_def base_slices_def ceil_div_def Let_def)
  moreover have "show_int 1 = ''1''" "show_int 60 = ''60''" by code_simp+
  ultimately show ?thesis
    by (simp add: plan_def Let_def demo_plan_id_def legacy_parent_id_def demo_slicing_def)
qed

lemma twap_submission_effect_witness:
  "\<exists>p. submit_sliced_order demo_twap_env demo_scheduler_up demo_slicing demo_stored = (Inr p, demo_stored) \<and>
     map sd_client_order_id (sp_slices p) = [''c1''] \<and> db_order (sw_db demo_stored) (sp_parent_order_id p) \<noteq> None"
proof -
  obtain sp where sp: "plan demo_sample 100 (sv_today (demo_env (BrokerAccepted None) [])) ''AAPL'' ''buy'' 10 1
      ''market'' 60 None None None ''day'' (Some (sv_today (demo_env (BrokerAccepted None) []))) = Inr sp"
    "sp_parent_order_id sp = demo_plan_id" using demo_twap_plan by blast
  have gates: "twap_gates (tw_gateway demo_twap_env) demo_scheduler_up demo_slicing demo_redis = Inr ()" by code_simp
  have parent: "get_order_by_client_id demo_plan_id (sw_db demo_stored) = Inr (Some (demo_parent ''accepted''))"
    by (simp add: demo_stored_def get_order_by_client_id_def db_order_def order_detail_def ORDER_STATUSES_def)
  have slices: "get_slices_by_parent_id demo_plan_id (sw_db demo_stored) =
      Inr [(demo_child ''pending_new'')\<lparr>o_parent_order_id := Some demo_plan_id\<rparr>]"
    by (simp add: demo_stored_def get_slices_by_parent_id_def order_detail_def ORDER_STATUSES_def)
  have child: "o_scheduled_time (demo_child ''pending_new'') = Some 100" "o_qty (demo_child ''pending_new'') = 10"
    by (simp_all add: demo_child_def fresh_row_def demo_slice_request_def)
  have env: "sv_now (demo_env (BrokerAccepted None) []) = 100" "tw_liquidity_enabled demo_twap_env = False"
    "tw_gateway demo_twap_env = demo_env (BrokerAccepted None) []" "tw_sample demo_twap_env = demo_sample"
    by (simp_all add: demo_twap_env_def demo_env_def)
  obtain p where p: "stored_plan demo_slicing sp demo_plan_id (o_strategy_id (demo_parent ''accepted'')) (sw_db demo_stored) = Inr p"
    by (simp add: stored_plan_def slices child)
  then have "find_existing_twap_plan demo_slicing sp (sv_today (demo_env (BrokerAccepted None) [])) (sw_db demo_stored) = Inr (Some p)"
    by (simp add: find_existing_twap_plan_def sp(2) parent)
  moreover have "sw_redis demo_stored = demo_redis" by (simp add: demo_stored_def demo_slice_world_def)
  ultimately have run: "submit_sliced_order demo_twap_env demo_scheduler_up demo_slicing demo_stored = (Inr p, demo_stored)"
    using gates sp(1)
    by (simp add: submit_sliced_order_def place_twap_def env max_slice_qty_def demo_slicing_def Let_def)
  have "sp_parent_order_id p = demo_plan_id" using stored_plan_Inr [OF p] by auto
  with twap_submission_effect [OF run] slices run show ?thesis by auto
qed

end
