(* ===== verification/Manual_Controls.thy ===== *)
theory Manual_Controls
  imports Modify_Order Twap_Orders
begin

text \<open>
  The operator's endpoints, \<^verbatim>\<open>apps/execution_gateway/api/manual_controls.py\<close>: cancel an order or all
  orders of a symbol, close or adjust a position, flatten all positions, submit an order by hand, list
  pending orders and recent fills.  The state is Redis, the database, the jobs of the slice scheduler,
  the broker's servers, the logs of what was sent and canceled there, and the audit trail.  An entry
  of the trail is kept with its action, resource and outcome, without its details.  Arguments are the
  clock, the verdicts of the rate limiter and of the second factor, the printing of decimals, what
  happens to Redis between an insertion and the submission, and which database call fails
  (\<open>me_fault\<close>).  An exception that no clause names ends the request with status 500.
\<close>

section \<open>State and surroundings\<close>

record audit_entry =
  au_action :: string
  au_resource_type :: string
  au_resource_id :: string
  au_outcome :: string

record ('s, 'j) manual_world =
  mw_redis :: redis
  mw_db :: db
  mw_jobs :: 'j
  mw_server :: 's
  mw_sent :: "(string \<times> order_request) list"
  mw_canceled :: "string list"
  mw_audit :: "audit_entry list"

datatype manual_call =
    MarkPendingCancel string | MarkCanceled string | RevertStatus string | MarkFailed string
  | RecordAnswer string

record ('s, 'j) manual_env =
  me_user :: auth_context
  me_user_id :: string
  me_allowed :: "string \<Rightarrow> bool"
  me_executor :: "'s alpaca_api option"
  me_is_timeout :: "string \<Rightarrow> bool"
  me_fault :: "manual_call \<Rightarrow> py_error option"
  me_mfa :: "bool \<times> string option"
  me_redis :: bool
  me_gateway :: submit_env
  me_minute :: string
  me_str_dec :: "rat \<Rightarrow> string"
  me_str :: "json \<Rightarrow> string"
  me_redis_meanwhile :: "redis \<Rightarrow> redis"
  me_job_store :: "'j job_store"
  me_sample :: "nat \<Rightarrow> nat \<Rightarrow> nat \<Rightarrow> nat list"
  me_order_date :: date

text \<open>The next step of a handler, unless the last one raised.\<close>

definition sbind :: "'a result \<times> 'w \<Rightarrow> ('a \<Rightarrow> 'w \<Rightarrow> 'b result \<times> 'w) \<Rightarrow> 'b result \<times> 'w" where
  "sbind xw f = (case xw of (Inl e, w) \<Rightarrow> (Inl e, w) | (Inr a, w) \<Rightarrow> f a w)"

definition log_action ::
  "string \<Rightarrow> string \<Rightarrow> string \<Rightarrow> string \<Rightarrow> ('s, 'j) manual_world \<Rightarrow> ('s, 'j) manual_world" where
  "log_action action resource_type resource_id outcome w =
     w\<lparr>mw_audit := mw_audit w @ [\<lparr>au_action = action, au_resource_type = resource_type,
        au_resource_id = resource_id, au_outcome = outcome\<rparr>]\<rparr>"

text \<open>An entry of the trail, then an exception.\<close>

definition refuse ::
  "string \<Rightarrow> string \<Rightarrow> string \<Rightarrow> string \<Rightarrow> py_error \<Rightarrow> ('s, 'j) manual_world \<Rightarrow>
   'a result \<times> ('s, 'j) manual_world" where
  "refuse action resource_type resource_id outcome e w =
     (Inl e, log_action action resource_type resource_id outcome w)"

text \<open>What becomes of an exception of the broker's client that no clause names.\<close>

fun uncaught :: "client_error \<Rightarrow> py_error" where
  "uncaught (UncaughtError m) = HTTPException 500 m"
| "uncaught (AlpacaClientError m) = HTTPException 500 m"
| "uncaught (AlpacaConnectionError m) = HTTPException 500 m"
| "uncaught (AlpacaValidationError m) = HTTPException 500 m"
| "uncaught (AlpacaRejectionError m) = HTTPException 500 m"

fun client_text :: "client_error \<Rightarrow> string" where
  "client_text (UncaughtError m) = m"
| "client_text (AlpacaClientError m) = m"
| "client_text (AlpacaConnectionError m) = m"
| "client_text (AlpacaValidationError m) = m"
| "client_text (AlpacaRejectionError m) = m"

text \<open>\<open>AlpacaClientError\<close> and its subclasses.\<close>

fun is_client_error :: "client_error \<Rightarrow> bool" where
  "is_client_error (UncaughtError _) = False"
| "is_client_error _ = True"

text \<open>\<open>OperationalError\<close> and \<open>DatabaseError\<close> with their subclasses; \<open>ValidationError\<close>.\<close>

fun is_db_error :: "py_error \<Rightarrow> bool" where
  "is_db_error (DatabaseError _) = True"
| "is_db_error (IntegrityError _) = True"
| "is_db_error _ = False"

fun is_validation_error :: "py_error \<Rightarrow> bool" where
  "is_validation_error (ValueError _) = True"
| "is_validation_error _ = False"

section \<open>Permissions and strategies\<close>

text \<open>\<open>has_permission\<close> of \<^verbatim>\<open>permissions.py\<close> grants everything: there is one administrator.\<close>

definition has_permission :: "auth_context \<Rightarrow> string \<Rightarrow> bool" where
  "has_permission user permission = True"

definition MANUAL_CONTROL_STRATEGY_PREFIX :: string where
  "MANUAL_CONTROL_STRATEGY_PREFIX = ''manual_controls_''"

definition MANUAL_CONTROL_STRATEGIES :: "string list" where
  "MANUAL_CONTROL_STRATEGIES =
     map (\<lambda>s. MANUAL_CONTROL_STRATEGY_PREFIX @ s)
       [''close_position'', ''adjust_position'', ''flatten_all'', ''trade'']"

definition MANUAL_CONTROL_PERMISSIONS :: "string list" where
  "MANUAL_CONTROL_PERMISSIONS =
     [''CANCEL_ORDER'', ''CLOSE_POSITION'', ''ADJUST_POSITION'', ''FLATTEN_ALL'', ''SUBMIT_ORDER'']"

definition manual_controls_allowed :: "auth_context \<Rightarrow> bool" where
  "manual_controls_allowed user = list_ex (has_permission user) MANUAL_CONTROL_PERMISSIONS"

definition strategy_allowed :: "auth_context \<Rightarrow> string \<Rightarrow> bool" where
  "strategy_allowed user strategy_id =
     (if has_permission user ''VIEW_ALL_STRATEGIES'' then True
      else if take (length MANUAL_CONTROL_STRATEGY_PREFIX) strategy_id = MANUAL_CONTROL_STRATEGY_PREFIX
      then manual_controls_allowed user
      else strategy_id \<in> set (get_authorized_strategies user))"

definition apply_strategy_scope :: "auth_context \<Rightarrow> string list \<Rightarrow> string list option" where
  "apply_strategy_scope user strategies =
     (if has_permission user ''VIEW_ALL_STRATEGIES'' then None
      else Some (sort (remdups
        (strategies @ (if manual_controls_allowed user then MANUAL_CONTROL_STRATEGIES else [])))))"

definition require_non_empty_strategy_scope ::
  "('s, 'j) manual_env \<Rightarrow> string \<Rightarrow> string \<Rightarrow> string \<Rightarrow> ('s, 'j) manual_world \<Rightarrow>
   string list option result \<times> ('s, 'j) manual_world" where
  "require_non_empty_strategy_scope env action resource_type resource_id w =
     (let scope = apply_strategy_scope (me_user env) (get_authorized_strategies (me_user env)) in
      if scope = Some []
      then refuse action resource_type resource_id ''failed''
        (HTTPException 403 ''User has no authorized strategies'') w
      else (Inr scope, w))"

definition ensure_permission_with_audit ::
  "('s, 'j) manual_env \<Rightarrow> string \<Rightarrow> string \<Rightarrow> ('s, 'j) manual_world \<Rightarrow>
   unit result \<times> ('s, 'j) manual_world" where
  "ensure_permission_with_audit env permission action w =
     (if has_permission (me_user env) permission then (Inr (), w)
      else refuse action ''endpoint'' ''*'' ''denied'' (HTTPException 403 ''Permission required'') w)"

definition enforce_rate_limit ::
  "('s, 'j) manual_env \<Rightarrow> string \<Rightarrow> ('s, 'j) manual_world \<Rightarrow> unit result \<times> ('s, 'j) manual_world" where
  "enforce_rate_limit env action w =
     (if me_allowed env action then (Inr (), w)
      else refuse action ''rate_limit'' action ''rate_limited'' (HTTPException 429 ''Rate limit exceeded'') w)"

text \<open>Permission and rate limit, which open every handler.\<close>

definition manual_entry ::
  "('s, 'j) manual_env \<Rightarrow> string \<Rightarrow> string \<Rightarrow> string \<Rightarrow> ('s, 'j) manual_world \<Rightarrow>
   unit result \<times> ('s, 'j) manual_world" where
  "manual_entry env permission action limit_action w =
     sbind (ensure_permission_with_audit env permission action w)
       (\<lambda>_. enforce_rate_limit env limit_action)"

section \<open>Safety checks\<close>

definition py_str :: "(json \<Rightarrow> string) \<Rightarrow> json \<Rightarrow> string" where
  "py_str str j = (case j of JStr s \<Rightarrow> s | _ \<Rightarrow> str j)"

text \<open>A text that is not JSON is the state itself, a JSON value that is no object has none.\<close>

definition parse_circuit_breaker_state :: "(json \<Rightarrow> string) \<Rightarrow> rval \<Rightarrow> string" where
  "parse_circuit_breaker_state str v =
     (case v of
        RJson (JObj d) \<Rightarrow> upper (py_str str (dict_get_or d ''state'' (JStr [])))
      | RJson j \<Rightarrow> []
      | RRaw s \<Rightarrow> upper s
      | _ \<Rightarrow> [])"

text \<open>\<open>GET\<close> of the raw state: nothing for an absent key or an empty text, an error for a list or set.\<close>

definition breaker_raw :: "redis \<Rightarrow> rval option result" where
  "breaker_raw r =
     (case redis_get r breaker_state_key of
        None \<Rightarrow> Inr None
      | Some (RRaw []) \<Rightarrow> Inr None
      | Some (RList xs) \<Rightarrow> Inl (ResponseError ''WRONGTYPE'')
      | Some (RZset xs) \<Rightarrow> Inl (ResponseError ''WRONGTYPE'')
      | Some v \<Rightarrow> Inr (Some v))"

definition check_circuit_breaker ::
  "('s, 'j) manual_env \<Rightarrow> string \<Rightarrow> ('s, 'j) manual_world \<Rightarrow> unit result \<times> ('s, 'j) manual_world" where
  "check_circuit_breaker env action w =
     (let unavailable = refuse action ''circuit_breaker'' ''state'' ''failed''
            (HTTPException 503 ''Circuit breaker state unavailable'') w
      in if \<not> me_redis env then unavailable
         else case breaker_raw (mw_redis w) of
           Inl e \<Rightarrow> unavailable
         | Inr None \<Rightarrow> unavailable
         | Inr (Some v) \<Rightarrow>
             if parse_circuit_breaker_state (me_str env) v = ''TRIPPED''
             then refuse action ''circuit_breaker'' ''state'' ''denied''
               (HTTPException 503 ''Trading blocked: circuit breaker active'') w
             else (Inr (), w))"

definition check_kill_switch ::
  "recovery_state \<Rightarrow> string \<Rightarrow> ('s, 'j) manual_world \<Rightarrow> unit result \<times> ('s, 'j) manual_world" where
  "check_kill_switch rv action w =
     (if rv_kill_switch_unavailable rv \<or> \<not> rv_kill_switch rv
      then refuse action ''kill_switch'' ''state'' ''failed''
        (HTTPException 503 ''Kill switch state unavailable'') w
      else case ks_is_engaged (mw_redis w) of
        Inl e \<Rightarrow> (Inl e, w)
      | Inr True \<Rightarrow> refuse action ''kill_switch'' ''state'' ''denied''
          (HTTPException 503 ''Trading blocked: kill switch engaged'') w
      | Inr False \<Rightarrow> (Inr (), w))"

definition require_integral_qty :: "rat \<Rightarrow> int result" where
  "require_integral_qty qty =
     (if qty \<noteq> of_int \<lfloor>qty\<rfloor> then Inl (HTTPException 400 ''qty must be a whole number'')
      else if \<lfloor>qty\<rfloor> \<le> 0 then Inl (HTTPException 400 ''qty must be positive'')
      else Inr \<lfloor>qty\<rfloor>)"

section \<open>Identifiers\<close>

definition manual_order_components ::
  "('s, 'j) manual_env \<Rightarrow> string \<Rightarrow> string \<Rightarrow> string \<Rightarrow> int \<Rightarrow> string option \<Rightarrow> rat option \<Rightarrow> rat option \<Rightarrow>
   string option \<Rightarrow> string" where
  "manual_order_components env action symbol side qty order_type limit_price stop_price time_in_force =
     action @ '':'' @ symbol @ '':'' @ side @ '':'' @ show_int qty @ '':'' @ me_user_id env @ '':'' @
     me_minute env @
     (case order_type of None \<Rightarrow> [] | Some t \<Rightarrow> if t = [] then [] else '':'' @ t) @
     (case limit_price of None \<Rightarrow> [] | Some p \<Rightarrow> '':lp'' @ me_str_dec env p) @
     (case stop_price of None \<Rightarrow> [] | Some p \<Rightarrow> '':sp'' @ me_str_dec env p) @
     (case time_in_force of None \<Rightarrow> [] | Some t \<Rightarrow> if t = [] then [] else '':'' @ t)"

definition generate_manual_order_id ::
  "('s, 'j) manual_env \<Rightarrow> string \<Rightarrow> string \<Rightarrow> string \<Rightarrow> int \<Rightarrow> string option \<Rightarrow> rat option \<Rightarrow> rat option \<Rightarrow>
   string option \<Rightarrow> string" where
  "generate_manual_order_id env action symbol side qty order_type limit_price stop_price time_in_force =
     take 24 (sha256_hexdigest
       (manual_order_components env action symbol side qty order_type limit_price stop_price time_in_force))"

section \<open>Reads of the database\<close>

definition PENDING_STATUSES :: "string list" where
  "PENDING_STATUSES =
     [''new'', ''pending_new'', ''submitted'', ''submitted_unconfirmed'', ''accepted'', ''pending_cancel'',
      ''pending_replace'', ''partially_filled'']"

definition order_rows_by :: "string \<Rightarrow> string \<Rightarrow> order_row list \<Rightarrow> order_row list" where
  "order_rows_by sort_by sort_order rs =
     (let asc = (if sort_by = ''updated_at'' then sort_key o_updated_at rs
            else if sort_by = ''symbol'' then sort_key o_symbol rs
            else if sort_by = ''strategy_id'' then sort_key o_strategy_id rs
            else if sort_by = ''status'' then sort_key o_status rs
            else sort_key o_created_at rs)
      in if lower sort_order = ''asc'' then asc else rev asc)"

definition get_pending_orders ::
  "string option \<Rightarrow> string list option \<Rightarrow> string option \<Rightarrow> nat \<Rightarrow> nat \<Rightarrow> string \<Rightarrow> string \<Rightarrow> db \<Rightarrow>
   (order_row list \<times> nat) result" where
  "get_pending_orders symbol strategy_ids parent_order_id max_rows offset sort_by sort_order d =
     (let rows = filter (\<lambda>r. o_status r \<in> set PENDING_STATUSES \<and>
            (case symbol of None \<Rightarrow> True | Some s \<Rightarrow> s = [] \<or> o_symbol r = upper s) \<and>
            (case strategy_ids of None \<Rightarrow> True | Some ss \<Rightarrow> o_strategy_id r \<in> set ss) \<and>
            (case parent_order_id of None \<Rightarrow> True | Some p \<Rightarrow> p = [] \<or> o_parent_order_id r = Some p))
          (map snd (db_orders d))
      in rbind (details (take max_rows (drop offset (order_rows_by sort_by sort_order rows))))
           (\<lambda>rs. Inr (rs, length rows)))"

text \<open>A symbol belongs to a strategy if the orders name exactly one for it.\<close>

definition strategies_of_symbol :: "string \<Rightarrow> db \<Rightarrow> string list" where
  "strategies_of_symbol symbol d =
     remdups (map o_strategy_id (filter (\<lambda>r. o_symbol r = symbol) (map snd (db_orders d))))"

definition get_strategy_map_for_symbols :: "string list \<Rightarrow> db \<Rightarrow> (string \<times> string option) list" where
  "get_strategy_map_for_symbols symbols d =
     map (\<lambda>s. (s, case strategies_of_symbol s d of [x] \<Rightarrow> Some x | _ \<Rightarrow> None)) (remdups symbols)"

definition get_positions_for_strategies :: "string list \<Rightarrow> db \<Rightarrow> (string \<times> position_row) list" where
  "get_positions_for_strategies strategies d =
     (if strategies = [] then []
      else filter (\<lambda>(s, r). case strategies_of_symbol s d of [x] \<Rightarrow> x \<in> set strategies | _ \<Rightarrow> False)
        (get_all_positions d))"

section \<open>Canceling\<close>

definition set_status ::
  "('s, 'j) manual_env \<Rightarrow> manual_call \<Rightarrow> string \<Rightarrow> string \<Rightarrow> string option \<Rightarrow> string option \<Rightarrow>
   ('s, 'j) manual_world \<Rightarrow> order_row option result \<times> ('s, 'j) manual_world" where
  "set_status env call cid status broker_order_id message w =
     (case me_fault env call of
        Some e \<Rightarrow> (Inl e, w)
      | None \<Rightarrow>
          let (x, d') = update_order_status (sv_now (me_gateway env)) cid status broker_order_id None None
                message (mw_db w)
          in (x, w\<lparr>mw_db := d'\<rparr>))"

text \<open>An update whose database errors are logged and swallowed.\<close>

definition try_status ::
  "('s, 'j) manual_env \<Rightarrow> manual_call \<Rightarrow> string \<Rightarrow> string \<Rightarrow> string \<Rightarrow> ('s, 'j) manual_world \<Rightarrow>
   unit result \<times> ('s, 'j) manual_world" where
  "try_status env call cid status message w =
     (case set_status env call cid status None (Some message) w of
        (Inl e, w') \<Rightarrow> if is_db_error e then (Inr (), w') else (Inl e, w')
      | (Inr _, w') \<Rightarrow> (Inr (), w'))"

definition cancel_call ::
  "'s alpaca_api \<Rightarrow> string \<Rightarrow> ('s, 'j) manual_world \<Rightarrow> bool client_result \<times> ('s, 'j) manual_world" where
  "cancel_call api bid w =
     (let (x, s') = alpaca_cancel_order api bid (mw_server w)
      in (x, w\<lparr>mw_server := s', mw_canceled := mw_canceled w @ [bid]\<rparr>))"

text \<open>\<open>CancelOrderResponse\<close>, whose status is always the same, and the answer of the endpoint.\<close>

record cancel_response =
  cr_status :: string
  cr_order_id :: string
  cr_cancelled_at :: rat

definition cancel_answer :: "('s, 'j) manual_env \<Rightarrow> string \<Rightarrow> cancel_response" where
  "cancel_answer env order_id =
     \<lparr>cr_status = ''cancelled'', cr_order_id = order_id, cr_cancelled_at = sv_now (me_gateway env)\<rparr>"

definition cancel_at_alpaca ::
  "('s, 'j) manual_env \<Rightarrow> 's alpaca_api \<Rightarrow> string \<Rightarrow> string \<Rightarrow> string \<Rightarrow> ('s, 'j) manual_world \<Rightarrow>
   cancel_response result \<times> ('s, 'j) manual_world" where
  "cancel_at_alpaca env api order_id bid previous_status w =
     (case cancel_call api bid w of
        (Inr _, w') \<Rightarrow>
          (Inr (cancel_answer env order_id), log_action ''cancel_order'' ''order'' order_id ''success'' w')
      | (Inl e, w') \<Rightarrow>
          if is_client_error e
          then sbind (try_status env (RevertStatus order_id) order_id previous_status
                 (''cancel_failed_broker: '' @ client_text e) w')
               (\<lambda>_. refuse ''cancel_order'' ''order'' order_id ''failed''
                  (HTTPException 502 (''Broker error: '' @ client_text e)))
          else if me_is_timeout env (client_text e)
          then sbind (try_status env (RevertStatus order_id) order_id previous_status
                 (''cancel_failed_timeout: '' @ client_text e) w')
               (\<lambda>_. refuse ''cancel_order'' ''order'' order_id ''timeout''
                  (HTTPException 504 ''Broker timeout - order may or may not be cancelled''))
          else (Inl (uncaught e), w'))"

text \<open>The order has been found: mark it, cancel it at the broker if it is known there.\<close>

definition cancel_found ::
  "('s, 'j) manual_env \<Rightarrow> string \<Rightarrow> order_row \<Rightarrow> ('s, 'j) manual_world \<Rightarrow>
   cancel_response result \<times> ('s, 'j) manual_world" where
  "cancel_found env order_id order w =
     (case me_executor env of
        None \<Rightarrow> refuse ''cancel_order'' ''order'' order_id ''failed''
          (HTTPException 503 ''Broker connection unavailable'') w
      | Some api \<Rightarrow>
          (case set_status env (MarkPendingCancel order_id) order_id ''pending_cancel'' None None
              (log_action ''cancel_order'' ''order'' order_id ''pending'' w) of
             (Inl e, w1) \<Rightarrow>
               if is_db_error e
               then refuse ''cancel_order'' ''order'' order_id ''failed''
                 (HTTPException 500 ''Failed to update order status before cancel'') w1
               else if is_validation_error e
               then refuse ''cancel_order'' ''order'' order_id ''failed''
                 (HTTPException 500 ''Invalid order data after status update'') w1
               else (Inl e, w1)
           | (Inr _, w1) \<Rightarrow>
               (case o_broker_order_id order of
                  None \<Rightarrow> sbind (set_status env (MarkCanceled order_id) order_id ''canceled'' None None w1)
                    (\<lambda>_ w2. (Inr (cancel_answer env order_id),
                      log_action ''cancel_order'' ''order'' order_id ''success'' w2))
                | Some bid \<Rightarrow>
                    if bid = []
                    then sbind (set_status env (MarkCanceled order_id) order_id ''canceled'' None None w1)
                      (\<lambda>_ w2. (Inr (cancel_answer env order_id),
                        log_action ''cancel_order'' ''order'' order_id ''success'' w2))
                    else cancel_at_alpaca env api order_id bid (o_status order) w1)))"

definition manual_cancel_order ::
  "('s, 'j) manual_env \<Rightarrow> string \<Rightarrow> ('s, 'j) manual_world \<Rightarrow>
   cancel_response result \<times> ('s, 'j) manual_world" where
  "manual_cancel_order env order_id w =
     sbind (manual_entry env ''CANCEL_ORDER'' ''cancel_order'' ''cancel_order'' w) (\<lambda>_ w.
     sbind (require_non_empty_strategy_scope env ''cancel_order'' ''order'' order_id w) (\<lambda>_ w.
     case get_order_by_client_id order_id (mw_db w) of
       Inl e \<Rightarrow> (Inl e, w)
     | Inr found \<Rightarrow>
         (case found of
            Some order \<Rightarrow>
              if strategy_allowed (me_user env) (o_strategy_id order) then cancel_found env order_id order w
              else refuse ''cancel_order'' ''order'' order_id ''denied'' (HTTPException 404 ''Order not found'') w
          | None \<Rightarrow>
              refuse ''cancel_order'' ''order'' order_id ''denied'' (HTTPException 404 ''Order not found'') w)))"

record cancel_all_lists =
  ca_cancelled :: "string list"
  ca_failed :: "string list"
  ca_skipped :: "string list"
  ca_strategies :: "string list"

text \<open>One order of the loop.\<close>

definition cancel_one ::
  "('s, 'j) manual_env \<Rightarrow> 's alpaca_api \<Rightarrow> order_row \<Rightarrow> cancel_all_lists \<Rightarrow> ('s, 'j) manual_world \<Rightarrow>
   cancel_all_lists result \<times> ('s, 'j) manual_world" where
  "cancel_one env api order acc w =
     (let cid = o_client_order_id order;
          fail = (\<lambda>w. (Inr (acc\<lparr>ca_failed := ca_failed acc @ [cid],
              ca_strategies := ca_strategies acc @ [o_strategy_id order]\<rparr>),
              log_action ''cancel_order'' ''order'' cid ''failed'' w));
          done' = (\<lambda>w. (Inr (acc\<lparr>ca_cancelled := ca_cancelled acc @ [cid],
              ca_strategies := ca_strategies acc @ [o_strategy_id order]\<rparr>), w))
      in if \<not> strategy_allowed (me_user env) (o_strategy_id order)
         then (Inr (acc\<lparr>ca_skipped := ca_skipped acc @ [cid]\<rparr>),
               log_action ''cancel_order'' ''order'' cid ''denied'' w)
         else case set_status env (MarkPendingCancel cid) cid ''pending_cancel'' None None w of
           (Inl e, w1) \<Rightarrow> if is_db_error e \<or> is_validation_error e then fail w1 else (Inl e, w1)
         | (Inr _, w1) \<Rightarrow>
             (case o_broker_order_id order of
                None \<Rightarrow> sbind (set_status env (MarkCanceled cid) cid ''canceled'' None None w1) (\<lambda>_. done')
              | Some bid \<Rightarrow>
                  if bid = []
                  then sbind (set_status env (MarkCanceled cid) cid ''canceled'' None None w1) (\<lambda>_. done')
                  else (case cancel_call api bid w1 of
                     (Inr _, w2) \<Rightarrow> done' w2
                   | (Inl e, w2) \<Rightarrow>
                       if is_client_error e
                       then sbind (try_status env (RevertStatus cid) cid (o_status order)
                              (''cancel_failed_broker: '' @ client_text e) w2) (\<lambda>_. fail)
                       else (Inl (uncaught e), w2))))"

fun cancel_loop ::
  "('s, 'j) manual_env \<Rightarrow> 's alpaca_api \<Rightarrow> order_row list \<Rightarrow> cancel_all_lists \<Rightarrow> ('s, 'j) manual_world \<Rightarrow>
   cancel_all_lists result \<times> ('s, 'j) manual_world" where
  "cancel_loop env api [] acc w = (Inr acc, w)"
| "cancel_loop env api (r # rs) acc w = sbind (cancel_one env api r acc w) (cancel_loop env api rs)"

record cancel_all_response =
  cr_cancelled_count :: nat
  cr_order_ids :: "string list"
  cr_strategies_affected :: "string list"

text \<open>The orders are the first page of the pending ones: \<open>limit\<close> has its default, 100.\<close>

definition cancel_all_orders ::
  "('s, 'j) manual_env \<Rightarrow> string \<Rightarrow> ('s, 'j) manual_world \<Rightarrow>
   cancel_all_response result \<times> ('s, 'j) manual_world" where
  "cancel_all_orders env symbol w =
     sbind (manual_entry env ''CANCEL_ORDER'' ''cancel_all_orders'' ''cancel_all'' w) (\<lambda>_ w.
     sbind (require_non_empty_strategy_scope env ''cancel_all_orders'' ''symbol'' symbol w) (\<lambda>scope w.
     case get_pending_orders (Some symbol) scope None 100 0 ''created_at'' ''desc'' (mw_db w) of
       Inl e \<Rightarrow> (Inl e, w)
     | Inr (orders, n) \<Rightarrow>
         if orders = []
         then refuse ''cancel_all_orders'' ''symbol'' symbol ''no_op''
           (HTTPException 404 ''No pending orders found'') w
         else case me_executor env of
           None \<Rightarrow> refuse ''cancel_all_orders'' ''symbol'' symbol ''failed''
             (HTTPException 503 ''Broker connection unavailable'') w
         | Some api \<Rightarrow>
             sbind (cancel_loop env api orders
                 \<lparr>ca_cancelled = [], ca_failed = [], ca_skipped = [], ca_strategies = []\<rparr> w) (\<lambda>acc w.
               let outcome = (if ca_failed acc \<noteq> [] \<and> ca_cancelled acc = [] then ''failed''
                     else if ca_failed acc \<noteq> [] then ''partial'' else ''success'');
                   w' = log_action ''cancel_all_orders'' ''symbol'' symbol outcome w
               in if ca_failed acc \<noteq> [] \<and> ca_cancelled acc = []
                  then (Inl (HTTPException 502 ''All cancellations failed''), w')
                  else (Inr \<lparr>cr_cancelled_count = length (ca_cancelled acc), cr_order_ids = ca_cancelled acc,
                      cr_strategies_affected = sort (remdups (filter (\<lambda>s. s \<noteq> []) (ca_strategies acc)))\<rparr>,
                    w'))))"

section \<open>Lists\<close>

record pending_orders_response =
  po_orders :: "order_row list"
  po_total :: nat
  po_limit :: nat
  po_offset :: nat
  po_filtered_by_strategy :: bool
  po_user_strategies :: "string list"

text \<open>The strategies a listing is restricted to: the requested one, or the scope of the user.\<close>

definition listed_scope ::
  "('s, 'j) manual_env \<Rightarrow> string option \<Rightarrow> string list option \<Rightarrow> ('s, 'j) manual_world \<Rightarrow>
   string list option result \<times> ('s, 'j) manual_world" where
  "listed_scope env strategy_id scope w =
     (let wanted = (case strategy_id of Some [] \<Rightarrow> None | x \<Rightarrow> x) in
      if has_permission (me_user env) ''VIEW_ALL_STRATEGIES''
      then (Inr (map_option (\<lambda>s. [s]) wanted), w)
      else case scope of
        None \<Rightarrow> refuse ''list_pending_orders'' ''orders'' ''*'' ''denied''
          (HTTPException 403 ''User has no authorized strategies'') w
      | Some ss \<Rightarrow>
          if ss = []
          then refuse ''list_pending_orders'' ''orders'' ''*'' ''denied''
            (HTTPException 403 ''User has no authorized strategies'') w
          else (case wanted of
              None \<Rightarrow> (Inr scope, w)
            | Some s \<Rightarrow>
                if s \<notin> set ss
                then refuse ''list_pending_orders'' ''strategy'' s ''denied''
                  (HTTPException 403 (''User not authorized for strategy '' @ s)) w
                else (Inr (Some [s]), w)))"

definition list_pending_orders ::
  "('s, 'j) manual_env \<Rightarrow> string option \<Rightarrow> string option \<Rightarrow> string option \<Rightarrow> nat \<Rightarrow> nat \<Rightarrow> string \<Rightarrow>
   string \<Rightarrow> ('s, 'j) manual_world \<Rightarrow> pending_orders_response result \<times> ('s, 'j) manual_world" where
  "list_pending_orders env strategy_id symbol parent_order_id max_rows offset sort_by sort_order w =
     sbind (manual_entry env ''VIEW_TRADES'' ''list_pending_orders'' ''pending_orders'' w) (\<lambda>_ w.
     sbind (require_non_empty_strategy_scope env ''list_pending_orders'' ''orders'' ''*'' w) (\<lambda>scope w.
       let column = (if sort_by \<in> {''created_at'', ''updated_at'', ''symbol'', ''strategy_id'', ''status''}
                     then sort_by else ''created_at'');
           direction = (if sort_order \<in> {''asc'', ''desc''} then sort_order else ''desc'');
           filtered = (if has_permission (me_user env) ''VIEW_ALL_STRATEGIES'' then strategy_id \<noteq> None else True)
       in sbind (listed_scope env strategy_id scope w) (\<lambda>scope w.
         case get_pending_orders (case symbol of None \<Rightarrow> None | Some s \<Rightarrow> if s = [] then None else Some (upper s))
             scope parent_order_id max_rows offset column direction (mw_db w) of
           Inl e \<Rightarrow> (Inl e, w)
         | Inr (orders, n) \<Rightarrow>
             (Inr \<lparr>po_orders = orders, po_total = n, po_limit = max_rows, po_offset = offset,
                   po_filtered_by_strategy = filtered,
                   po_user_strategies = get_authorized_strategies (me_user env)\<rparr>,
              log_action ''list_pending_orders'' ''orders'' ''*'' ''success'' w))))"

record fill_event =
  fe_client_order_id :: string
  fe_symbol :: string
  fe_side :: string
  fe_status :: string
  fe_qty :: rat
  fe_price :: rat
  fe_realized_pl :: rat
  fe_timestamp :: rat

definition fill_events :: "order_row \<Rightarrow> fill_event list" where
  "fill_events r =
     map (\<lambda>f. \<lparr>fe_client_order_id = o_client_order_id r, fe_symbol = o_symbol r, fe_side = o_side r,
         fe_status = o_status r, fe_qty = (case f_qty f of None \<Rightarrow> 0 | Some q \<Rightarrow> q),
         fe_price = (case f_price f of None \<Rightarrow> 0 | Some p \<Rightarrow> p), fe_realized_pl = f_realized_pl f,
         fe_timestamp = (case f_timestamp f of None \<Rightarrow> o_updated_at r | Some t \<Rightarrow> t)\<rparr>)
       (filter (\<lambda>f. \<not> f_superseded f) (o_fills r))"

definition get_recent_fills ::
  "rat \<Rightarrow> string list option \<Rightarrow> int \<Rightarrow> int \<Rightarrow> db \<Rightarrow> fill_event list" where
  "get_recent_fills now strategy_ids max_rows lookback_hours d =
     (if strategy_ids = Some [] then []
      else
        let n = max 1 (min max_rows 200); hours = max 1 (min lookback_hours 168);
            since = now - of_int (hours * 3600);
            rows = filter (\<lambda>r. o_status r \<in> {''filled'', ''partially_filled''} \<and> o_updated_at r \<ge> since \<and>
                (case strategy_ids of None \<Rightarrow> True | Some ss \<Rightarrow> o_strategy_id r \<in> set ss))
              (map snd (db_orders d))
        in take (nat n) (rev (sort_key fe_timestamp
             (filter (\<lambda>e. fe_timestamp e \<ge> since) (concat (map fill_events rows))))))"

record recent_fills_response =
  rf_events :: "fill_event list"
  rf_limit :: int
  rf_filtered_by_strategy :: bool
  rf_user_strategies :: "string list"

definition list_recent_fills ::
  "('s, 'j) manual_env \<Rightarrow> int \<Rightarrow> ('s, 'j) manual_world \<Rightarrow> recent_fills_response result \<times> ('s, 'j) manual_world" where
  "list_recent_fills env max_rows w =
     sbind (manual_entry env ''VIEW_TRADES'' ''list_recent_fills'' ''recent_fills'' w) (\<lambda>_ w.
       let strategies = get_authorized_strategies (me_user env);
           filtered = (\<not> has_permission (me_user env) ''VIEW_ALL_STRATEGIES'')
       in if filtered \<and> strategies = []
          then refuse ''list_recent_fills'' ''orders'' ''*'' ''denied''
            (HTTPException 403 ''User has no authorized strategies'') w
          else (Inr \<lparr>rf_events = get_recent_fills (sv_now (me_gateway env)) (if filtered then Some strategies else None)
                       max_rows 24 (mw_db w),
                     rf_limit = max_rows, rf_filtered_by_strategy = filtered, rf_user_strategies = strategies\<rparr>,
                log_action ''list_recent_fills'' ''orders'' ''*'' ''success'' w))"

end
