(* ===== verification/Manual_Orders.thy ===== *)
theory Manual_Orders
  imports Manual_Controls
begin

text \<open>
  The operator's endpoints that place orders, \<^verbatim>\<open>apps/execution_gateway/api/manual_controls.py\<close>: close and
  adjust a position, flatten all positions, submit an order by hand, instantly or as a TWAP order.
\<close>

section \<open>Positions\<close>

definition submit_call ::
  "'s alpaca_api \<Rightarrow> order_request \<Rightarrow> string \<Rightarrow> ('s, 'j) manual_world \<Rightarrow>
   broker_order client_result \<times> ('s, 'j) manual_world" where
  "submit_call api order cid w =
     (let (x, s') = alpaca_submit_order api order cid (mw_server w)
      in (x, w\<lparr>mw_server := s', mw_sent := mw_sent w @ [(cid, order)]\<rparr>))"

definition manual_order :: "string \<Rightarrow> string \<Rightarrow> int \<Rightarrow> string \<Rightarrow> rat option \<Rightarrow> order_request" where
  "manual_order symbol side qty order_type limit_price =
     \<lparr>or_symbol = upper symbol, or_side = side, or_qty = qty, or_order_type = order_type,
      or_limit_price = limit_price, or_stop_price = None, or_time_in_force = ''day'',
      or_execution_style = ''instant'', or_client_order_id = None\<rparr>"

text \<open>Storing and sending, as closing and adjusting do it; the answer says whether the order was new.\<close>

definition store_and_send ::
  "('s, 'j) manual_env \<Rightarrow> 's alpaca_api \<Rightarrow> string \<Rightarrow> string \<Rightarrow> order_request \<Rightarrow> string \<Rightarrow>
   ('s, 'j) manual_world \<Rightarrow> bool result \<times> ('s, 'j) manual_world" where
  "store_and_send env api action symbol order order_id w =
     (case create_order (sv_now (me_gateway env)) order_id (MANUAL_CONTROL_STRATEGY_PREFIX @ action)
         (db_request order) ''pending_new'' None None (mw_db w) of
        (Inl (IntegrityError m), d') \<Rightarrow>
          (case get_order_by_client_id order_id (mw_db w) of
             Inl e \<Rightarrow> (Inl e, w)
           | Inr (Some existing) \<Rightarrow> (Inr False, log_action action ''position'' symbol ''success'' w)
           | Inr None \<Rightarrow> (Inl (HTTPException 500 ''Order creation conflict''), w))
      | (Inl e, d') \<Rightarrow> (Inl e, w\<lparr>mw_db := d'\<rparr>)
      | (Inr _, d') \<Rightarrow>
          (case submit_call api order order_id (w\<lparr>mw_db := d'\<rparr>) of
             (Inr _, w') \<Rightarrow> (Inr True, log_action action ''position'' symbol ''success'' w')
           | (Inl e, w') \<Rightarrow>
               if is_client_error e
               then refuse action ''position'' symbol ''failed''
                 (HTTPException 502 (''Broker error: '' @ client_text e)) w'
               else (Inl (uncaught e), w')))"

text \<open>The positions the user may act on.\<close>

definition manual_positions ::
  "('s, 'j) manual_env \<Rightarrow> string \<Rightarrow> string \<Rightarrow> ('s, 'j) manual_world \<Rightarrow>
   (string \<times> position_row) list result \<times> ('s, 'j) manual_world" where
  "manual_positions env action symbol w =
     (let strategies = get_authorized_strategies (me_user env);
          all_strategies = has_permission (me_user env) ''VIEW_ALL_STRATEGIES''
      in if \<not> all_strategies \<and> strategies = []
         then refuse action ''position'' symbol ''failed''
           (HTTPException 403 ''User has no authorized strategies'') w
         else sbind (require_non_empty_strategy_scope env action ''position'' symbol w) (\<lambda>_ w.
           (Inr (if \<not> all_strategies then get_positions_for_strategies strategies (mw_db w)
                 else get_all_positions (mw_db w)), w)))"

record close_response =
  cl_status :: string
  cl_order_id :: "string option"
  cl_qty_to_close :: rat
  cl_idempotent :: bool

definition close_found ::
  "('s, 'j) manual_env \<Rightarrow> string \<Rightarrow> rat option \<Rightarrow> position_row \<Rightarrow> ('s, 'j) manual_world \<Rightarrow>
   close_response result \<times> ('s, 'j) manual_world" where
  "close_found env symbol requested position w =
     (let fail = (\<lambda>outcome e. refuse ''close_position'' ''position'' symbol outcome e w);
          position_qty = p_qty position;
          max_closeable = \<bar>position_qty\<bar>;
          qty_to_close = (case requested of Some q \<Rightarrow> q | None \<Rightarrow> max_closeable)
      in if position_qty = 0
         then (Inr \<lparr>cl_status = ''already_flat'', cl_order_id = None, cl_qty_to_close = 0, cl_idempotent = False\<rparr>,
               log_action ''close_position'' ''position'' symbol ''no_op'' w)
         else if position_qty \<noteq> of_int \<lfloor>position_qty\<rfloor>
         then fail ''failed'' (HTTPException 422 ''fractional_position_unsupported'')
         else if qty_to_close > max_closeable
         then fail ''rejected'' (HTTPException 422 ''qty_exceeds_position'')
         else case require_integral_qty qty_to_close of
           Inl e \<Rightarrow> (Inl e, w)
         | Inr qty \<Rightarrow>
             (case me_executor env of
                None \<Rightarrow> fail ''failed'' (HTTPException 503 ''Broker connection unavailable'')
              | Some api \<Rightarrow>
                  let side = (if position_qty > 0 then ''sell'' else ''buy'');
                      order_id = generate_manual_order_id env ''close_position'' symbol side qty None None None None
                  in sbind (store_and_send env api ''close_position'' symbol
                       (manual_order symbol side qty ''market'' None) order_id w) (\<lambda>fresh w.
                     (Inr \<lparr>cl_status = ''closing'', cl_order_id = Some order_id,
                           cl_qty_to_close = qty_to_close, cl_idempotent = \<not> fresh\<rparr>, w))))"

definition close_position ::
  "('s, 'j) manual_env \<Rightarrow> string \<Rightarrow> rat option \<Rightarrow> ('s, 'j) manual_world \<Rightarrow>
   close_response result \<times> ('s, 'j) manual_world" where
  "close_position env symbol requested w =
     (let sym = upper symbol in
      sbind (manual_entry env ''CLOSE_POSITION'' ''close_position'' ''close_position'' w) (\<lambda>_ w.
      sbind (manual_positions env ''close_position'' sym w) (\<lambda>positions w.
      case map_of positions sym of
        None \<Rightarrow> refuse ''close_position'' ''position'' sym ''failed'' (HTTPException 404 ''Position not found'') w
      | Some position \<Rightarrow> close_found env sym requested position w)))"

record adjust_request =
  aj_target_qty :: rat
  aj_order_type :: string
  aj_limit_price :: "rat option"

record adjust_response =
  ad_current_qty :: rat
  ad_target_qty :: rat
  ad_order_id :: "string option"
  ad_idempotent :: bool

text \<open>The breaker as an adjustment that increases the exposure asks for it.\<close>

definition adjust_breaker_check ::
  "('s, 'j) manual_env \<Rightarrow> string \<Rightarrow> ('s, 'j) manual_world \<Rightarrow> unit result \<times> ('s, 'j) manual_world" where
  "adjust_breaker_check env symbol w =
     (let unavailable = refuse ''adjust_position'' ''circuit_breaker'' symbol ''blocked''
            (HTTPException 503 ''Circuit breaker state unavailable'') w
      in if \<not> me_redis env then unavailable
         else case breaker_raw (mw_redis w) of
           Inl e \<Rightarrow> unavailable
         | Inr v \<Rightarrow>
             let cb_state = (case v of None \<Rightarrow> [] | Some v \<Rightarrow> parse_circuit_breaker_state (me_str env) v)
             in if cb_state = [] then unavailable
                else if cb_state = ''TRIPPED''
                then refuse ''adjust_position'' ''circuit_breaker'' symbol ''blocked''
                  (HTTPException 503 ''Trading blocked: circuit breaker active'') w
                else (Inr (), w))"

definition adjust_found ::
  "('s, 'j) manual_env \<Rightarrow> string \<Rightarrow> adjust_request \<Rightarrow> position_row \<Rightarrow> ('s, 'j) manual_world \<Rightarrow>
   adjust_response result \<times> ('s, 'j) manual_world" where
  "adjust_found env symbol q position w =
     (let current_qty = p_qty position; target_qty = aj_target_qty q; delta = target_qty - current_qty;
          answer = (\<lambda>order_id old. \<lparr>ad_current_qty = current_qty, ad_target_qty = target_qty,
                      ad_order_id = order_id, ad_idempotent = old\<rparr>)
      in if current_qty \<noteq> of_int \<lfloor>current_qty\<rfloor>
         then refuse ''adjust_position'' ''position'' symbol ''failed''
           (HTTPException 422 ''fractional_position_unsupported'') w
         else sbind (if \<not> \<bar>target_qty\<bar> < \<bar>current_qty\<bar> \<and> delta \<noteq> 0 then adjust_breaker_check env symbol w
                     else (Inr (), w)) (\<lambda>_ w.
           if delta = 0
           then (Inr (answer None False), log_action ''adjust_position'' ''position'' symbol ''no_op'' w)
           else case me_executor env of
             None \<Rightarrow> refuse ''adjust_position'' ''position'' symbol ''failed''
               (HTTPException 503 ''Broker connection unavailable'') w
           | Some api \<Rightarrow>
               let side = (if delta > 0 then ''buy'' else ''sell'') in
               case require_integral_qty \<bar>delta\<bar> of
                 Inl e \<Rightarrow> (Inl e, w)
               | Inr qty \<Rightarrow>
                   let order = manual_order symbol side qty (aj_order_type q) (aj_limit_price q);
                       order_id = generate_manual_order_id env ''adjust_position'' symbol side qty
                         (Some (aj_order_type q)) (aj_limit_price q) None None
                   in if \<not> order_request_ok (db_request order)
                      then (Inl (ValueError ''validation error for OrderRequest''), w)
                      else sbind (store_and_send env api ''adjust_position'' symbol order order_id w)
                        (\<lambda>fresh w. (Inr (answer (Some order_id) (\<not> fresh)), w))))"

definition adjust_position ::
  "('s, 'j) manual_env \<Rightarrow> string \<Rightarrow> adjust_request \<Rightarrow> ('s, 'j) manual_world \<Rightarrow>
   adjust_response result \<times> ('s, 'j) manual_world" where
  "adjust_position env symbol q w =
     (let sym = upper symbol in
      sbind (manual_entry env ''ADJUST_POSITION'' ''adjust_position'' ''adjust_position'' w) (\<lambda>_ w.
      sbind (manual_positions env ''adjust_position'' sym w) (\<lambda>positions w.
      case map_of positions sym of
        None \<Rightarrow> refuse ''adjust_position'' ''position'' sym ''failed'' (HTTPException 404 ''Position not found'') w
      | Some position \<Rightarrow> adjust_found env sym q position w)))"

section \<open>Flattening\<close>

text \<open>The status of the answer to a failed second factor.\<close>

definition mfa_status :: "string option \<Rightarrow> nat" where
  "mfa_status err =
     (if err = Some ''mfa_misconfigured'' \<or> err = Some ''mfa_unavailable'' then 503 else 403)"

text \<open>One position: its order, stored and sent unless it is there already.\<close>

definition flatten_one ::
  "('s, 'j) manual_env \<Rightarrow> 's alpaca_api \<Rightarrow> string \<times> position_row \<Rightarrow> string list \<Rightarrow> ('s, 'j) manual_world \<Rightarrow>
   string list result \<times> ('s, 'j) manual_world" where
  "flatten_one env api sp created w =
     (case sp of (symbol, position) \<Rightarrow>
        if p_qty position = 0 then (Inr created, w)
        else
          let side = (if p_qty position > 0 then ''sell'' else ''buy'');
              qty = \<lfloor>\<bar>p_qty position\<bar>\<rfloor>;
              order = manual_order symbol side qty ''market'' None;
              order_id = generate_manual_order_id env ''flatten_all'' symbol side qty None None None None
          in if \<not> order_request_ok (db_request order)
             then (Inl (ValueError ''validation error for OrderRequest''), w)
             else case create_order (sv_now (me_gateway env)) order_id
                 (MANUAL_CONTROL_STRATEGY_PREFIX @ ''flatten_all'') (db_request order) ''pending_new'' None None
                 (mw_db w) of
               (Inl (IntegrityError m), d') \<Rightarrow> (Inr (created @ [order_id]), w)
             | (Inl e, d') \<Rightarrow> (Inl e, w\<lparr>mw_db := d'\<rparr>)
             | (Inr _, d') \<Rightarrow>
                 (case submit_call api order order_id (w\<lparr>mw_db := d'\<rparr>) of
                    (Inr _, w') \<Rightarrow> (Inr (created @ [order_id]), w')
                  | (Inl e, w') \<Rightarrow>
                      if is_client_error e
                      then refuse ''flatten_all'' ''positions'' ''*'' ''failed''
                        (HTTPException 502 (''Broker error: '' @ client_text e)) w'
                      else (Inl (uncaught e), w')))"

fun flatten_loop ::
  "('s, 'j) manual_env \<Rightarrow> 's alpaca_api \<Rightarrow> (string \<times> position_row) list \<Rightarrow> string list \<Rightarrow>
   ('s, 'j) manual_world \<Rightarrow> string list result \<times> ('s, 'j) manual_world" where
  "flatten_loop env api [] created w = (Inr created, w)"
| "flatten_loop env api (p # ps) created w = sbind (flatten_one env api p created w) (flatten_loop env api ps)"

record flatten_response =
  fl_positions_closed :: nat
  fl_orders_created :: "string list"
  fl_strategies_affected :: "string list"

text \<open>The strategies of the flattened positions, taken from the map read before the loop.\<close>

definition flattened_strategies ::
  "(string \<times> position_row) list \<Rightarrow> (string \<times> string option) list \<Rightarrow> string list" where
  "flattened_strategies positions strategy_map =
     sort (remdups (filter (\<lambda>s. s \<noteq> []) (map (\<lambda>(symbol, p).
       case map_of strategy_map symbol of
         Some (Some s) \<Rightarrow> if s = [] then MANUAL_CONTROL_STRATEGY_PREFIX @ ''flatten_all'' else s
       | _ \<Rightarrow> MANUAL_CONTROL_STRATEGY_PREFIX @ ''flatten_all'')
       (filter (\<lambda>(symbol, p). p_qty p \<noteq> 0) positions))))"

definition flatten_all_positions ::
  "('s, 'j) manual_env \<Rightarrow> ('s, 'j) manual_world \<Rightarrow> flatten_response result \<times> ('s, 'j) manual_world" where
  "flatten_all_positions env w =
     sbind (manual_entry env ''FLATTEN_ALL'' ''flatten_all'' ''flatten_all'' w) (\<lambda>_ w.
       let fail = (\<lambda>outcome e. refuse ''flatten_all'' ''positions'' ''*'' outcome e w);
           all_strategies = has_permission (me_user env) ''VIEW_ALL_STRATEGIES'';
           strategies = get_authorized_strategies (me_user env);
           positions = (if all_strategies then get_all_positions (mw_db w)
                        else get_positions_for_strategies strategies (mw_db w))
       in if \<not> fst (me_mfa env)
          then fail ''failed'' (HTTPException (mfa_status (snd (me_mfa env))) ''MFA verification failed'')
          else if \<not> all_strategies \<and> strategies = []
          then fail ''failed'' (HTTPException 403 ''User has no authorized strategies'')
          else if positions = []
          then (Inr \<lparr>fl_positions_closed = 0, fl_orders_created = [], fl_strategies_affected = []\<rparr>,
                log_action ''flatten_all'' ''positions'' ''*'' ''no_op'' w)
          else case me_executor env of
            None \<Rightarrow> fail ''failed'' (HTTPException 503 ''Broker connection unavailable'')
          | Some api \<Rightarrow>
              let strategy_map = get_strategy_map_for_symbols (map fst positions) (mw_db w) in
              sbind (flatten_loop env api positions [] w) (\<lambda>created w.
                (Inr \<lparr>fl_positions_closed = length created, fl_orders_created = created,
                      fl_strategies_affected = flattened_strategies positions strategy_map\<rparr>,
                 log_action ''flatten_all'' ''positions'' ''*'' ''success'' w)))"

section \<open>Orders by hand\<close>

record manual_request =
  mq_symbol :: string
  mq_side :: string
  mq_qty :: rat
  mq_order_type :: string
  mq_limit_price :: "rat option"
  mq_stop_price :: "rat option"
  mq_time_in_force :: string
  mq_execution_style :: string
  mq_twap_duration_minutes :: "int option"
  mq_twap_interval_seconds :: "int option"
  mq_start_time :: "rat option"

text \<open>The constraints on TWAP orders of the order's schema.\<close>

definition twap_fields_ok :: "manual_request \<Rightarrow> int \<Rightarrow> rat \<Rightarrow> bool" where
  "twap_fields_ok q qty now \<longleftrightarrow>
     (mq_execution_style q = ''twap'' \<longrightarrow>
        mq_order_type q \<in> {''market'', ''limit''} \<and> mq_time_in_force q = ''day'' \<and>
        (case (mq_twap_duration_minutes q, mq_twap_interval_seconds q) of
           (Some dur, Some iv) \<Rightarrow>
             5 \<le> dur \<and> dur \<le> 480 \<and> 30 \<le> iv \<and> iv \<le> 300 \<and> 2 \<le> base_slices dur iv \<and>
             10 \<le> qty div base_slices dur iv
         | _ \<Rightarrow> False) \<and>
        (case mq_start_time q of None \<Rightarrow> True
         | Some t \<Rightarrow> now - 60 \<le> t \<and> t \<le> now + 5 * 86400))"

definition manual_request_order :: "manual_request \<Rightarrow> int \<Rightarrow> order_request" where
  "manual_request_order q qty =
     \<lparr>or_symbol = upper (mq_symbol q), or_side = mq_side q, or_qty = qty, or_order_type = mq_order_type q,
      or_limit_price = mq_limit_price q, or_stop_price = mq_stop_price q,
      or_time_in_force = mq_time_in_force q, or_execution_style = mq_execution_style q,
      or_client_order_id = None\<rparr>"

text \<open>The answer, without the number of slices and their first and last time.\<close>

definition manual_response ::
  "order_request \<Rightarrow> string \<Rightarrow> string \<Rightarrow> string option \<Rightarrow> rat \<Rightarrow> string \<Rightarrow> order_response" where
  "manual_response order cid status broker_order_id created_at message =
     \<lparr>os_client_order_id = cid, os_status = status, os_broker_order_id = broker_order_id,
      os_symbol = or_symbol order, os_side = or_side order, os_qty = or_qty order,
      os_order_type = or_order_type order, os_limit_price = or_limit_price order,
      os_stop_price = or_stop_price order, os_created_at = created_at, os_message = message\<rparr>"

definition handle_idempotent_order_retry ::
  "string \<Rightarrow> ('s, 'j) manual_world \<Rightarrow> order_response result \<times> ('s, 'j) manual_world" where
  "handle_idempotent_order_retry order_id w =
     (case get_order_by_client_id order_id (mw_db w) of
        Inl e \<Rightarrow> (Inl e, w)
      | Inr (Some existing) \<Rightarrow>
          (Inr (existing_response order_id existing ''Order already submitted (idempotent retry)''), w)
      | Inr None \<Rightarrow> (Inl (HTTPException 409 ''Order already submitted''), w))"

definition submit_dry_run_manual_order ::
  "('s, 'j) manual_env \<Rightarrow> order_request \<Rightarrow> string \<Rightarrow> ('s, 'j) manual_world \<Rightarrow>
   order_response result \<times> ('s, 'j) manual_world" where
  "submit_dry_run_manual_order env order order_id w =
     (case create_order (sv_now (me_gateway env)) order_id (MANUAL_CONTROL_STRATEGY_PREFIX @ ''trade'')
         (db_request order) ''dry_run'' None None (mw_db w) of
        (Inl (IntegrityError m), d') \<Rightarrow> handle_idempotent_order_retry order_id w
      | (Inl e, d') \<Rightarrow> (Inl e, w\<lparr>mw_db := d'\<rparr>)
      | (Inr _, d') \<Rightarrow>
          (Inr (manual_response order order_id ''dry_run'' None (sv_now (me_gateway env))
             ''Order logged (manual DRY_RUN)''),
           log_action ''manual_order'' ''order'' order_id ''success'' (w\<lparr>mw_db := d'\<rparr>)))"

text \<open>The broker has accepted: its answer is recorded; a status of \<open>None\<close> violates the column.\<close>

definition record_answer ::
  "('s, 'j) manual_env \<Rightarrow> order_request \<Rightarrow> string \<Rightarrow> rat \<Rightarrow> broker_order \<Rightarrow> ('s, 'j) manual_world \<Rightarrow>
   order_response result \<times> ('s, 'j) manual_world" where
  "record_answer env order order_id created_at bo w =
     (let update = (case b_status bo of
            None \<Rightarrow> (Inl (DatabaseError ''NotNullViolation''), w)
          | Some status \<Rightarrow> set_status env (RecordAnswer order_id) order_id status (b_id bo) None w)
      in case update of
        (Inr row, w1) \<Rightarrow>
          (Inr (manual_response order order_id (case b_status bo of None \<Rightarrow> [] | Some s \<Rightarrow> s) (b_id bo)
             (case row of None \<Rightarrow> created_at | Some r \<Rightarrow> o_created_at r) ''Order submitted (manual)''),
           log_action ''manual_order'' ''order'' order_id ''success'' w1)
      | (Inl e, w1) \<Rightarrow>
          if is_db_error e
          then refuse ''manual_order'' ''order'' order_id ''failed''
            (HTTPException 500 ''Failed to persist manual order'') w1
          else if is_validation_error e
          then refuse ''manual_order'' ''order'' order_id ''failed''
            (HTTPException 500 ''Invalid order data after status update'') w1
          else (Inl e, w1))"

definition submit_live_manual_order ::
  "('s, 'j) manual_env \<Rightarrow> 's alpaca_api \<Rightarrow> order_request \<Rightarrow> string \<Rightarrow> ('s, 'j) manual_world \<Rightarrow>
   order_response result \<times> ('s, 'j) manual_world" where
  "submit_live_manual_order env api order order_id w =
     (case create_order (sv_now (me_gateway env)) order_id (MANUAL_CONTROL_STRATEGY_PREFIX @ ''trade'')
         (db_request order) ''pending_new'' None None (mw_db w) of
        (Inl (IntegrityError m), d') \<Rightarrow> handle_idempotent_order_retry order_id w
      | (Inl e, d') \<Rightarrow> (Inl e, w\<lparr>mw_db := d'\<rparr>)
      | (Inr row, d') \<Rightarrow>
          (case check_circuit_breaker env ''manual_order''
              (w\<lparr>mw_db := d', mw_redis := me_redis_meanwhile env (mw_redis w)\<rparr>) of
             (Inl e, w1) \<Rightarrow> sbind (try_status env (MarkFailed order_id) order_id ''failed''
                 ''circuit_breaker_tripped_before_submit'' w1) (\<lambda>_ w2. (Inl e, w2))
           | (Inr _, w1) \<Rightarrow>
               (case submit_call api order order_id w1 of
                  (Inr bo, w2) \<Rightarrow> record_answer env order order_id (o_created_at row) bo w2
                | (Inl e, w2) \<Rightarrow>
                    if is_client_error e
                    then sbind (try_status env (MarkFailed order_id) order_id ''failed'' (client_text e) w2)
                      (\<lambda>_. refuse ''manual_order'' ''order'' order_id ''failed''
                         (HTTPException 502 (''Broker error: '' @ client_text e)))
                    else (Inl (uncaught e), w2))))"

section \<open>TWAP orders by hand\<close>

definition manual_twap_strategy :: "('s, 'j) manual_env \<Rightarrow> int \<Rightarrow> int \<Rightarrow> string" where
  "manual_twap_strategy env dur iv =
     MANUAL_CONTROL_STRATEGY_PREFIX @ ''twap_'' @ me_user_id env @ ''_'' @ show_int dur @ ''m_'' @
     show_int iv @ ''s''"

definition manual_twap_slice ::
  "order_request \<Rightarrow> string \<Rightarrow> date \<Rightarrow> slice_detail \<Rightarrow> slice_detail" where
  "manual_twap_slice order parent_strategy_id trade_date sd =
     (let strategy = parent_strategy_id @ ''_slice_'' @ show_nat (sd_slice_num sd)
      in sd\<lparr>sd_client_order_id := reconstruct_order_params_hash (or_symbol order) (or_side order) (sd_qty sd)
              (or_limit_price order) (or_stop_price order) (or_order_type order) (or_time_in_force order)
              strategy trade_date,
            sd_strategy_id := strategy, sd_status := ''pending_new''\<rparr>)"

text \<open>The transaction.  The rows of \<open>slice_schedules\<close> are not kept in the database of this model.\<close>

fun insert_manual_slices :: "rat \<Rightarrow> order_request \<Rightarrow> string \<Rightarrow> slice_detail list \<Rightarrow> db \<Rightarrow> unit result \<times> db" where
  "insert_manual_slices now order parent [] d = (Inr (), d)"
| "insert_manual_slices now order parent (sd # sds) d =
     (let q = (db_request order)\<lparr>q_qty := sd_qty sd\<rparr> in
      if \<not> order_request_ok q then (Inl (ValueError ''validation error for OrderRequest''), d)
      else case create_child_slice now (sd_client_order_id sd) parent (sd_slice_num sd) (sd_strategy_id sd)
          q (sd_scheduled_time sd) ''pending_new'' d of
        (Inl e, d') \<Rightarrow> (Inl e, d')
      | (Inr _, d') \<Rightarrow> insert_manual_slices now order parent sds d')"

definition insert_manual_twap ::
  "rat \<Rightarrow> order_request \<Rightarrow> string \<Rightarrow> string \<Rightarrow> int \<Rightarrow> slice_detail list \<Rightarrow> db \<Rightarrow> unit result \<times> db" where
  "insert_manual_twap now order parent strategy total_slices slices d =
     (case create_parent_order now parent strategy (db_request order) total_slices ''scheduled'' d of
        (Inl e, d') \<Rightarrow> (Inl e, d)
      | (Inr _, d') \<Rightarrow>
          (case insert_manual_slices now order parent slices d' of
             (Inl e, d'') \<Rightarrow> (Inl e, d)
           | (Inr _, d'') \<Rightarrow> (Inr (), d'')))"

definition submit_twap_manual_order ::
  "('s, 'j) manual_env \<Rightarrow> recovery_state \<Rightarrow> order_request \<Rightarrow> manual_request \<Rightarrow> ('s, 'j) manual_world \<Rightarrow>
   order_response result \<times> ('s, 'j) manual_world" where
  "submit_twap_manual_order env rv order q w =
     (let g = me_gateway env; trade_date = me_order_date env;
          dur = (case mq_twap_duration_minutes q of None \<Rightarrow> 0 | Some n \<Rightarrow> n);
          iv = (case mq_twap_interval_seconds q of None \<Rightarrow> 0 | Some n \<Rightarrow> n)
      in if me_executor env = None \<and> \<not> sv_dry_run g
         then refuse ''manual_order'' ''order'' (''twap_'' @ or_symbol order) ''failed''
           (HTTPException 503 ''Broker connection unavailable'') w
         else if rv_slice_scheduler rv = None
         then (Inl (HTTPException 503 ''TWAP scheduler unavailable''), w)
         else if mq_start_time q \<noteq> None
         then (Inl (HTTPException 400 ''Manual TWAP start_time is not supported yet''), w)
         else case plan (me_sample env) (sv_now g) (sv_today g) (or_symbol order) (or_side order) (or_qty order)
             dur (or_order_type order) iv None (or_limit_price order) (or_stop_price order)
             (or_time_in_force order) (Some trade_date) of
           Inl (ValueError m) \<Rightarrow> (Inl (HTTPException 422 m), w)
         | Inl e \<Rightarrow> (Inl e, w)
         | Inr p \<Rightarrow>
             let strategy = manual_twap_strategy env dur iv;
                 parent = reconstruct_order_params_hash (or_symbol order) (or_side order) (or_qty order)
                   (or_limit_price order) (or_stop_price order) (or_order_type order)
                   (or_time_in_force order) strategy trade_date;
                 slices = map (manual_twap_slice order strategy trade_date) (sp_slices p)
             in (case insert_manual_twap (sv_now g) order parent strategy (sp_total_slices p) slices (mw_db w) of
                   (Inl (IntegrityError m), d') \<Rightarrow>
                     (case get_order_by_client_id parent (mw_db w) of
                        Inl e \<Rightarrow> (Inl e, w)
                      | Inr None \<Rightarrow> (Inl (HTTPException 409 ''Order already submitted''), w)
                      | Inr (Some existing) \<Rightarrow>
                          (case get_slices_by_parent_id parent (mw_db w) of
                             Inl e \<Rightarrow> (Inl e, w)
                           | Inr rows \<Rightarrow> (Inr (existing_response parent existing
                               ''Order already submitted (idempotent retry)''), w)))
                 | (Inl e, d') \<Rightarrow> (Inl e, w\<lparr>mw_db := d'\<rparr>)
                 | (Inr _, d') \<Rightarrow>
                     (case add_jobs (me_job_store env) (\<lambda>sd.
                          \<lparr>sj_parent_order_id = parent, sj_slice = sd, sj_symbol = or_symbol order,
                           sj_side = or_side order, sj_order_type = or_order_type order,
                           sj_limit_price = or_limit_price order, sj_stop_price = or_stop_price order,
                           sj_time_in_force = or_time_in_force order, sj_run_date = sd_scheduled_time sd\<rparr>)
                         slices (mw_jobs w) of
                        (Inl e, j') \<Rightarrow> (Inl e, w\<lparr>mw_db := d', mw_jobs := j'\<rparr>)
                      | (Inr ids, j') \<Rightarrow>
                          (Inr (manual_response order parent ''scheduled'' None (sv_now g)
                             ''TWAP order scheduled (manual)''),
                           log_action ''manual_order'' ''order'' parent ''success''
                             (w\<lparr>mw_db := d', mw_jobs := j'\<rparr>)))))"

section \<open>The endpoint\<close>

text \<open>The gates of an order by hand; the check of the position limit only writes a log line.\<close>

definition manual_order_gates ::
  "('s, 'j) manual_env \<Rightarrow> recovery_state \<Rightarrow> order_request \<Rightarrow> string \<Rightarrow> ('s, 'j) manual_world \<Rightarrow>
   unit result \<times> ('s, 'j) manual_world" where
  "manual_order_gates env rv order order_id w =
     sbind (check_kill_switch rv ''manual_order'' w) (\<lambda>_ w.
     sbind (check_circuit_breaker env ''manual_order'' w) (\<lambda>_ w.
       if fat_finger_breached (me_gateway env) order
       then refuse ''manual_order'' ''order'' order_id ''denied''
         (HTTPException 400 ''Order rejected by fat-finger checks'') w
       else (Inr (), w)))"

definition place_manual_order ::
  "('s, 'j) manual_env \<Rightarrow> recovery_state \<Rightarrow> manual_request \<Rightarrow> order_request \<Rightarrow> string \<Rightarrow>
   ('s, 'j) manual_world \<Rightarrow> order_response result \<times> ('s, 'j) manual_world" where
  "place_manual_order env rv q order order_id w =
     (if or_execution_style order = ''twap'' then submit_twap_manual_order env rv order q w
      else case me_executor env of
        None \<Rightarrow>
          if \<not> sv_dry_run (me_gateway env)
          then refuse ''manual_order'' ''order'' order_id ''failed''
            (HTTPException 503 ''Broker connection unavailable'') w
          else submit_dry_run_manual_order env order order_id w
      | Some api \<Rightarrow> submit_live_manual_order env api order order_id w)"

definition submit_manual_order ::
  "('s, 'j) manual_env \<Rightarrow> recovery_state \<Rightarrow> manual_request \<Rightarrow> ('s, 'j) manual_world \<Rightarrow>
   order_response result \<times> ('s, 'j) manual_world" where
  "submit_manual_order env rv q w =
     sbind (manual_entry env ''SUBMIT_ORDER'' ''manual_order'' ''manual_order'' w) (\<lambda>_ w.
     sbind (require_non_empty_strategy_scope env ''manual_order'' ''order'' ''*'' w) (\<lambda>_ w.
     case require_integral_qty (mq_qty q) of
       Inl e \<Rightarrow> (Inl e, w)
     | Inr qty \<Rightarrow>
         let order = manual_request_order q qty;
             order_id = generate_manual_order_id env ''manual_trade'' (or_symbol order) (or_side order) qty
               (Some (mq_order_type q)) (mq_limit_price q) (mq_stop_price q) (Some (mq_time_in_force q))
         in if \<not> order_request_ok (db_request order) \<or> \<not> twap_fields_ok q qty (sv_now (me_gateway env))
            then (Inl (ValueError ''validation error for OrderRequest''), w)
            else sbind (manual_order_gates env rv order order_id w) (\<lambda>_.
              place_manual_order env rv q order order_id)))"

end
