(* ===== verification/Manual_Safety.thy ===== *)
theory Manual_Safety
  imports Manual_Orders
begin

text \<open>
  What the operator's endpoints guarantee: checks and refusals only write the audit trail; closing
  never flips a position, adjusting reaches its target and needs the breaker unless the exposure
  shrinks; and when the breaker read by these endpoints agrees with the breaker of the library.
\<close>

section \<open>Requests that only write the audit trail\<close>

definition audit_only :: "('s, 'j) manual_world \<Rightarrow> ('s, 'j) manual_world \<Rightarrow> bool" where
  "audit_only w w' \<longleftrightarrow> (\<exists>es. w' = w\<lparr>mw_audit := mw_audit w @ es\<rparr>)"

lemma audit_only_refl [simp, intro]: "audit_only w w"
  unfolding audit_only_def by (rule exI [of _ "[]"]) simp

lemma audit_only_trans [trans]: "audit_only w w1 \<Longrightarrow> audit_only w1 w2 \<Longrightarrow> audit_only w w2"
  by (auto simp: audit_only_def)

lemma audit_only_log [simp, intro]: "audit_only w (log_action a t i out w)"
  by (auto simp: audit_only_def log_action_def)

lemma audit_only_fields:
  assumes "audit_only w w'"
  shows "mw_redis w' = mw_redis w" "mw_db w' = mw_db w" "mw_jobs w' = mw_jobs w"
    "mw_server w' = mw_server w" "mw_sent w' = mw_sent w" "mw_canceled w' = mw_canceled w"
  using assms by (auto simp: audit_only_def)

lemma log_action_fields [simp]:
  "mw_redis (log_action a t i out w) = mw_redis w" "mw_db (log_action a t i out w) = mw_db w"
  "mw_jobs (log_action a t i out w) = mw_jobs w" "mw_server (log_action a t i out w) = mw_server w"
  "mw_sent (log_action a t i out w) = mw_sent w" "mw_canceled (log_action a t i out w) = mw_canceled w"
  by (simp_all add: log_action_def)

lemma sbind_simps [simp]:
  "sbind (Inl e, w) f = (Inl e, w)" "sbind (Inr a, w) f = f a w"
  by (simp_all add: sbind_def)

lemma sbind_cases:
  assumes "sbind xw f = (y, w')"
  obtains (stop) e where "xw = (Inl e, w')" "y = Inl e"
    | (go) a w1 where "xw = (Inr a, w1)" "f a w1 = (y, w')"
  using assms by (cases xw; cases "fst xw") (auto simp: sbind_def)

lemma refuse_simps [simp]: "refuse a t i out e w = (Inl e, log_action a t i out w)"
  by (simp add: refuse_def)

lemma manual_entry_audit: "manual_entry env p a l w = (x, w') \<Longrightarrow> audit_only w w'"
  by (auto simp: manual_entry_def ensure_permission_with_audit_def enforce_rate_limit_def split: if_splits)

lemma scope_audit: "require_non_empty_strategy_scope env a t i w = (x, w') \<Longrightarrow> audit_only w w'"
  by (auto simp: require_non_empty_strategy_scope_def Let_def split: if_splits)

lemma entry_scope_cases:
  assumes "sbind (manual_entry env perm a l w) (\<lambda>_ w.
      sbind (require_non_empty_strategy_scope env a' t i w) f) = (x, w')"
  obtains (refused) e where "audit_only w w'" "x = Inl e"
    | (on) scope w1 where "audit_only w w1" "f scope w1 = (x, w')"
  using assms
proof (cases rule: sbind_cases)
  case (stop e)
  with manual_entry_audit refused show ?thesis by metis
next
  case (go u w1)
  note entry = manual_entry_audit [OF go(1)]
  from go(2) show ?thesis
  proof (cases rule: sbind_cases)
    case (stop e)
    with refused [OF audit_only_trans [OF entry scope_audit [OF stop(1)]]] show ?thesis by blast
  next
    case (go sc w2)
    with on [OF audit_only_trans [OF entry scope_audit [OF go(1)]]] show ?thesis by blast
  qed
qed

lemma check_circuit_breaker_audit: "check_circuit_breaker env a w = (x, w') \<Longrightarrow> audit_only w w'"
  by (auto simp: check_circuit_breaker_def Let_def split: if_splits sum.splits option.splits)

lemma adjust_breaker_audit: "adjust_breaker_check env a w = (x, w') \<Longrightarrow> audit_only w w'"
  by (auto simp: adjust_breaker_check_def Let_def split: if_splits sum.splits option.splits)

lemma check_kill_switch_audit: "check_kill_switch rv a w = (x, w') \<Longrightarrow> audit_only w w'"
  by (auto simp: check_kill_switch_def split: if_splits sum.splits bool.splits)

lemma manual_positions_effect:
  assumes "manual_positions env a s w = (x, w')"
  shows "audit_only w w'" "x = Inr ps \<Longrightarrow> ps = get_all_positions (mw_db w) \<and> w' = w"
  using assms scope_audit [of env a "''position''" s w]
  by (auto simp: manual_positions_def Let_def has_permission_def require_non_empty_strategy_scope_def
      apply_strategy_scope_def split: if_splits)

section \<open>Storing and sending\<close>

definition order_delta :: "order_request \<Rightarrow> rat" where
  "order_delta order = of_int (signed_qty (or_side order) (or_qty order))"

text \<open>The order is new: its row is inserted first, then it is sent once.\<close>

definition stored_and_sent ::
  "('s, 'j) manual_env \<Rightarrow> string \<Rightarrow> string \<Rightarrow> order_request \<Rightarrow> ('s, 'j) manual_world \<Rightarrow>
   ('s, 'j) manual_world \<Rightarrow> bool" where
  "stored_and_sent env strategy cid order w w' \<longleftrightarrow>
     db_order (mw_db w) cid = None \<and> mw_sent w' = mw_sent w @ [(cid, order)] \<and>
     mw_redis w' = mw_redis w \<and> mw_canceled w' = mw_canceled w \<and> mw_jobs w' = mw_jobs w \<and>
     (\<exists>row. mw_db w' = db_set_order cid row (mw_db w) \<and>
        new_order_row (sv_now (me_gateway env)) cid strategy (db_request order) ''pending_new'' None None row)"

lemma stored_and_sent_row:
  assumes "stored_and_sent env strategy cid order w w'"
  shows "\<exists>row. db_order (mw_db w') cid = Some row \<and> o_status row = ''pending_new'' \<and>
    o_broker_order_id row = None \<and> o_qty row = or_qty order \<and> o_side row = or_side order"
  using assms by (auto simp: stored_and_sent_def new_order_row_def db_request_def)

lemma pending_new_status: "''pending_new'' \<in> set ORDER_STATUSES"
  by (simp add: ORDER_STATUSES_def)

lemma store_and_send_effect:
  assumes run: "store_and_send env api action symbol order cid w = (x, w')"
  shows "audit_only w w' \<and> db_order (mw_db w) cid \<noteq> None \<and> x \<noteq> Inr True \<or>
    stored_and_sent env (MANUAL_CONTROL_STRATEGY_PREFIX @ action) cid order w w' \<and> x \<noteq> Inr False \<and>
    (\<exists>y s'. alpaca_submit_order api order cid (mw_server w) = (y, s') \<and> mw_server w' = s' \<and>
       (x = Inr True \<longleftrightarrow> (\<exists>bo. y = Inr bo)))"
proof (rule create_order_cases [OF pending_new_status, where d = "mw_db w" and cid = cid and
      now = "sv_now (me_gateway env)" and sid = "MANUAL_CONTROL_STRATEGY_PREFIX @ action" and
      q = "db_request order" and bid = None and em = None])
  fix r assume "db_order (mw_db w) cid = Some r"
    "create_order (sv_now (me_gateway env)) cid (MANUAL_CONTROL_STRATEGY_PREFIX @ action) (db_request order)
       ''pending_new'' None None (mw_db w) = (Inl (IntegrityError cid), mw_db w)"
  then show ?thesis using run
    by (auto simp: store_and_send_def split: sum.splits option.splits)
next
  fix row assume row: "db_order (mw_db w) cid = None"
    "create_order (sv_now (me_gateway env)) cid (MANUAL_CONTROL_STRATEGY_PREFIX @ action) (db_request order)
       ''pending_new'' None None (mw_db w) = (Inr row, db_set_order cid row (mw_db w))"
    "new_order_row (sv_now (me_gateway env)) cid (MANUAL_CONTROL_STRATEGY_PREFIX @ action) (db_request order)
       ''pending_new'' None None row"
  obtain y s' where y: "alpaca_submit_order api order cid (mw_server w) = (y, s')" by (metis prod.exhaust)
  show ?thesis
  proof (cases y)
    case (Inl e)
    with run row y show ?thesis
      by (auto simp: store_and_send_def submit_call_def stored_and_sent_def split: if_splits)
  next
    case (Inr bo)
    with run row y show ?thesis
      by (auto simp: store_and_send_def submit_call_def stored_and_sent_def)
  qed
qed

lemma require_integral_qty_Inr:
  "require_integral_qty q = Inr n \<Longrightarrow> 0 < n \<and> q = of_int n"
  by (auto simp: require_integral_qty_def split: if_splits)

section \<open>Closing and adjusting\<close>

definition opposite_side :: "rat \<Rightarrow> string" where
  "opposite_side q = (if q > 0 then ''sell'' else ''buy'')"

definition closing_qty :: "rat option \<Rightarrow> position_row \<Rightarrow> rat" where
  "closing_qty requested position = (case requested of None \<Rightarrow> \<bar>p_qty position\<bar> | Some q \<Rightarrow> q)"

lemma close_found_cases:
  assumes "close_found env symbol requested position w = (x, w')" "p_qty position \<noteq> 0"
  obtains (refused) e where "audit_only w w'" "x = Inl e"
    | (order) n api where "require_integral_qty (closing_qty requested position) = Inr n"
      "closing_qty requested position \<le> \<bar>p_qty position\<bar>"
      "let cid = generate_manual_order_id env ''close_position'' symbol (opposite_side (p_qty position)) n None None None None
       in sbind (store_and_send env api ''close_position'' symbol
           (manual_order symbol (opposite_side (p_qty position)) n ''market'' None) cid w)
         (\<lambda>fresh w. (Inr \<lparr>cl_status = ''closing'', cl_order_id = Some cid,
            cl_qty_to_close = closing_qty requested position, cl_idempotent = \<not> fresh\<rparr>, w)) = (x, w')"
  using assms unfolding close_found_def Let_def closing_qty_def [symmetric] opposite_side_def [symmetric]
  by (auto simp: not_less split: if_splits sum.splits option.splits)

lemma market_order_ok: "0 < n \<Longrightarrow> order_request_ok (db_request (manual_order s side n ''market'' None))"
  by (simp add: order_request_ok_def db_request_def manual_order_def positive_price_def)

lemma close_found_effect:
  assumes run: "close_found env symbol requested position w = (x, w')"
    and pos: "p_qty position \<noteq> 0" and sym: "upper symbol = symbol"
  shows "audit_only w w' \<and> (\<forall>r. x = Inr r \<longrightarrow>
      cl_idempotent r \<and> (\<exists>cid. cl_order_id r = Some cid \<and> db_order (mw_db w) cid \<noteq> None)) \<or>
    (\<exists>cid order. stored_and_sent env ''manual_controls_close_position'' cid order w w' \<and>
       or_symbol order = symbol \<and> or_order_type order = ''market'' \<and> 0 < or_qty order \<and>
       order_request_ok (db_request order) \<and> or_side order = opposite_side (p_qty position) \<and>
       of_int (or_qty order) = closing_qty requested position \<and>
       of_int (or_qty order) \<le> \<bar>p_qty position\<bar>)"
  using run pos
proof (cases rule: close_found_cases)
  case refused
  then show ?thesis by simp
next
  case (order n api)
  let ?order = "manual_order symbol (opposite_side (p_qty position)) n ''market'' None"
  have n: "0 < n" "closing_qty requested position = of_int n"
    using require_integral_qty_Inr [OF order(1)] by simp_all
  have fields: "or_symbol ?order = symbol" "or_order_type ?order = ''market''" "or_qty ?order = n"
    "or_side ?order = opposite_side (p_qty position)"
    "MANUAL_CONTROL_STRATEGY_PREFIX @ ''close_position'' = ''manual_controls_close_position''"
    by (simp_all add: manual_order_def sym MANUAL_CONTROL_STRATEGY_PREFIX_def)
  note ok = market_order_ok [OF n(1), of symbol "opposite_side (p_qty position)"]
  show ?thesis using order(3) unfolding Let_def
  proof (cases rule: sbind_cases)
    case (stop e)
    from store_and_send_effect [OF stop(1), unfolded fields] stop(2) n order(2) ok fields show ?thesis
      by (metis Inl_Inr_False)
  next
    case (go fresh w1)
    from store_and_send_effect [OF go(1), unfolded fields] go(2) n order(2) ok fields show ?thesis
      by (cases fresh) (auto, metis+)
  qed
qed

lemma upper_upper [simp]: "upper (upper s) = upper s"
proof -
  have "upper_char (upper_char c) = upper_char c" for c
  proof (cases "97 \<le> (of_char c :: nat) \<and> (of_char c :: nat) \<le> 122")
    case True
    then have "(of_char c :: nat) - 32 < 256" by linarith
    then have "((of_char c :: nat) - 32) mod 256 = of_char c - 32" by (rule mod_less)
    moreover have "\<not> 97 \<le> (of_char c :: nat) - 32" using True by linarith
    ultimately show ?thesis using True by (simp add: upper_char_def Let_def)
  next
    case False
    then have "upper_char c = c" by (auto simp: upper_char_def Let_def)
    then show ?thesis by simp
  qed
  then show ?thesis by (simp add: upper_def)
qed

lemma opposite_closes:
  assumes "or_side order = opposite_side p" "0 < or_qty order" "of_int (or_qty order) \<le> \<bar>p\<bar>"
  shows "\<bar>p + order_delta order\<bar> = \<bar>p\<bar> - of_int (or_qty order)"
  using assms by (auto simp: order_delta_def signed_qty_def opposite_side_def)

lemma all_positions_open: "map_of (get_all_positions d) s = Some p \<Longrightarrow> p_qty p \<noteq> 0"
  by (auto simp: get_all_positions_def dest!: map_of_SomeD)

lemma position_endpoint_cases:
  assumes "sbind (manual_entry env perm a l w) (\<lambda>_ w. sbind (manual_positions env a s w) (\<lambda>positions w.
      case map_of positions s of None \<Rightarrow> refuse a t s out e w | Some position \<Rightarrow> f position w)) = (x, w')"
  obtains (refused) e' where "audit_only w w'" "x = Inl e'"
    | (found) position w1 where "audit_only w w1" "map_of (get_all_positions (mw_db w)) s = Some position"
      "f position w1 = (x, w')"
  using assms
proof (cases rule: sbind_cases)
  case (stop e)
  with manual_entry_audit that(1) show ?thesis by metis
next
  case (go u w1)
  note entry = manual_entry_audit [OF go(1)]
  from go(2) show ?thesis
  proof (cases rule: sbind_cases)
    case (stop e)
    with manual_positions_effect(1) entry audit_only_trans that(1) show ?thesis by metis
  next
    case (go ps w2)
    from manual_positions_effect(2) [OF go(1)] have ps: "ps = get_all_positions (mw_db w)" "w2 = w1"
      using audit_only_fields(2) [OF entry] by auto
    show ?thesis
    proof (cases "map_of ps s")
      case None
      with go(2) ps have "x = Inl e" "w' = log_action a t s out w1" by auto
      with that(1) audit_only_trans [OF entry audit_only_log] show ?thesis by blast
    next
      case (Some p)
      with go(2) ps entry that(2) show ?thesis by auto
    qed
  qed
qed

text \<open>C24. Closing never flips a position.  The order the operator's request sends is a market order for
  the symbol that takes its whole quantity off the position, all of it when no quantity is asked for;
  its row was inserted before it was sent.  A request that sends nothing changes nothing but the audit
  trail, and is answered only when the same order is in the database already.\<close>

theorem close_never_flips:
  assumes run: "close_position env symbol requested w = (x, w')"
  shows "audit_only w w' \<and> (\<forall>r. x = Inr r \<longrightarrow>
      cl_idempotent r \<and> (\<exists>cid. cl_order_id r = Some cid \<and> db_order (mw_db w) cid \<noteq> None)) \<or>
    (\<exists>position cid order w1. map_of (get_all_positions (mw_db w)) (upper symbol) = Some position \<and>
       audit_only w w1 \<and> stored_and_sent env ''manual_controls_close_position'' cid order w1 w' \<and>
       or_symbol order = upper symbol \<and> or_order_type order = ''market'' \<and> 0 < or_qty order \<and>
       \<bar>p_qty position + order_delta order\<bar> = \<bar>p_qty position\<bar> - of_int (or_qty order) \<and>
       (requested = None \<longrightarrow> p_qty position + order_delta order = 0))"
  using run unfolding close_position_def Let_def
proof (cases rule: position_endpoint_cases)
  case refused
  then show ?thesis by simp
next
  case (found position w1)
  have "upper (upper symbol) = upper symbol" by (rule upper_upper)
  from close_found_effect [OF found(3) all_positions_open [OF found(2)] this] show ?thesis
  proof
    assume "audit_only w1 w' \<and> (\<forall>r. x = Inr r \<longrightarrow>
      cl_idempotent r \<and> (\<exists>cid. cl_order_id r = Some cid \<and> db_order (mw_db w1) cid \<noteq> None))"
    with found(1) show ?thesis using audit_only_trans audit_only_fields(2) by metis
  next
    assume "\<exists>cid order. stored_and_sent env ''manual_controls_close_position'' cid order w1 w' \<and>
       or_symbol order = upper symbol \<and> or_order_type order = ''market'' \<and> 0 < or_qty order \<and>
       order_request_ok (db_request order) \<and> or_side order = opposite_side (p_qty position) \<and>
       of_int (or_qty order) = closing_qty requested position \<and> of_int (or_qty order) \<le> \<bar>p_qty position\<bar>"
    then obtain cid order where o: "stored_and_sent env ''manual_controls_close_position'' cid order w1 w'"
      "or_symbol order = upper symbol" "or_order_type order = ''market''" "0 < or_qty order"
      "or_side order = opposite_side (p_qty position)" "of_int (or_qty order) = closing_qty requested position"
      "of_int (or_qty order) \<le> \<bar>p_qty position\<bar>" by blast
    have "requested = None \<Longrightarrow> p_qty position + order_delta order = 0"
      using opposite_closes [OF o(5,4,7)] o(6) by (simp add: closing_qty_def)
    with opposite_closes [OF o(5,4,7)] o found(1,2) show ?thesis by blast
  qed
qed


text \<open>The breaker is read and names a state other than \<open>TRIPPED\<close>.\<close>

definition breaker_names_state :: "('s, 'j) manual_env \<Rightarrow> redis \<Rightarrow> bool" where
  "breaker_names_state env r \<longleftrightarrow> me_redis env \<and>
     (\<exists>v. breaker_raw r = Inr (Some v) \<and> parse_circuit_breaker_state (me_str env) v \<notin> {[], ''TRIPPED''})"

lemma adjust_breaker_check_effect:
  assumes "adjust_breaker_check env s w = (x, w')"
  shows "audit_only w w'" "x = Inr u \<Longrightarrow> breaker_names_state env (mw_redis w) \<and> w' = w"
  using assms adjust_breaker_audit [OF assms]
  by (auto simp: adjust_breaker_check_def breaker_names_state_def Let_def
      split: if_splits sum.splits option.splits)

definition adjust_answer :: "string \<Rightarrow> adjust_request \<Rightarrow> position_row \<Rightarrow> bool \<Rightarrow> adjust_response" where
  "adjust_answer cid q position old =
     \<lparr>ad_current_qty = p_qty position, ad_target_qty = aj_target_qty q, ad_order_id = Some cid, ad_idempotent = old\<rparr>"

definition risk_increasing :: "adjust_request \<Rightarrow> position_row \<Rightarrow> bool" where
  "risk_increasing q position \<longleftrightarrow>
     \<not> \<bar>aj_target_qty q\<bar> < \<bar>p_qty position\<bar> \<and> aj_target_qty q - p_qty position \<noteq> 0"

lemma adjust_found_cases:
  assumes "adjust_found env symbol q position w = (x, w')"
  obtains (refused) e where "audit_only w w'" "x = Inl e"
    | (same) r where "audit_only w w'" "x = Inr r" "ad_current_qty r = ad_target_qty r"
    | (order) n api side cid where
      "risk_increasing q position \<Longrightarrow> breaker_names_state env (mw_redis w)"
      "require_integral_qty \<bar>aj_target_qty q - p_qty position\<bar> = Inr n"
      "side = (if aj_target_qty q - p_qty position > 0 then ''buy'' else ''sell'')"
      "order_request_ok (db_request (manual_order symbol side n (aj_order_type q) (aj_limit_price q)))"
      "sbind (store_and_send env api ''adjust_position'' symbol
           (manual_order symbol side n (aj_order_type q) (aj_limit_price q)) cid w)
         (\<lambda>fresh w. (Inr (adjust_answer cid q position (\<not> fresh)), w)) = (x, w')"
proof -
  let ?delta = "aj_target_qty q - p_qty position"
  let ?check = "if risk_increasing q position then adjust_breaker_check env symbol w else (Inr (), w)"
  show thesis
  proof (cases "p_qty position \<noteq> of_int \<lfloor>p_qty position\<rfloor>")
    case True
    with assms refused show thesis by (auto simp: adjust_found_def Let_def)
  next
    case False
    define rest where "rest = (\<lambda>_::unit. \<lambda>w.
           if ?delta = 0
           then (Inr \<lparr>ad_current_qty = p_qty position, ad_target_qty = aj_target_qty q, ad_order_id = None,
                  ad_idempotent = False\<rparr>, log_action ''adjust_position'' ''position'' symbol ''no_op'' w)
           else case me_executor env of
             None \<Rightarrow> refuse ''adjust_position'' ''position'' symbol ''failed''
               (HTTPException 503 ''Broker connection unavailable'') w
           | Some api \<Rightarrow>
               let side = (if ?delta > 0 then ''buy'' else ''sell'') in
               case require_integral_qty \<bar>?delta\<bar> of
                 Inl e \<Rightarrow> (Inl e, w)
               | Inr qty \<Rightarrow>
                   let order = manual_order symbol side qty (aj_order_type q) (aj_limit_price q);
                       order_id = generate_manual_order_id env ''adjust_position'' symbol side qty
                         (Some (aj_order_type q)) (aj_limit_price q) None None
                   in if \<not> order_request_ok (db_request order)
                      then (Inl (ValueError ''validation error for OrderRequest''), w)
                      else sbind (store_and_send env api ''adjust_position'' symbol order order_id w)
                        (\<lambda>fresh w. (Inr (adjust_answer order_id q position (\<not> fresh)), w)))"
    have "sbind ?check rest = (x, w')"
      using assms False unfolding adjust_found_def Let_def rest_def adjust_answer_def risk_increasing_def
      by (simp only: if_False)
    then show thesis
    proof (cases rule: sbind_cases)
      case (stop e)
      with adjust_breaker_check_effect(1) refused show thesis by (metis (full_types) Inl_Inr_False prod.inject)
    next
      case (go u w1)
      have w1: "w1 = w" and br: "risk_increasing q position \<Longrightarrow> breaker_names_state env (mw_redis w)"
        using go(1) adjust_breaker_check_effect(2) [of env symbol w "Inr u" w1 u] by (auto split: if_splits)
      from go(2) refused same order [OF br] show thesis
        unfolding w1 rest_def Let_def
        by (auto split: if_splits option.splits sum.splits)
    qed
  qed
qed


lemma adjust_order_hits_target:
  assumes "require_integral_qty \<bar>target - p\<bar> = Inr n"
    "or_side order = (if target - p > 0 then ''buy'' else ''sell'')" "or_qty order = n"
  shows "p + order_delta order = target"
  using require_integral_qty_Inr [OF assms(1)] assms(2,3)
  by (auto simp: order_delta_def signed_qty_def abs_if split: if_splits)

lemma adjust_found_effect:
  assumes run: "adjust_found env symbol q position w = (x, w')" and sym: "upper symbol = symbol"
  shows "audit_only w w' \<and> (\<forall>r. x = Inr r \<longrightarrow> ad_current_qty r = ad_target_qty r \<or> ad_idempotent r) \<or>
    (\<exists>cid order. stored_and_sent env ''manual_controls_adjust_position'' cid order w w' \<and>
       or_symbol order = symbol \<and> order_request_ok (db_request order) \<and>
       p_qty position + order_delta order = aj_target_qty q \<and>
       (\<bar>aj_target_qty q\<bar> < \<bar>p_qty position\<bar> \<or> breaker_names_state env (mw_redis w)))"
  using run
proof (cases rule: adjust_found_cases)
  case (order n api side cid)
  let ?order = "manual_order symbol side n (aj_order_type q) (aj_limit_price q)"
  have fields: "or_symbol ?order = symbol" "or_qty ?order = n" "or_side ?order = side"
    "MANUAL_CONTROL_STRATEGY_PREFIX @ ''adjust_position'' = ''manual_controls_adjust_position''"
    by (simp_all add: manual_order_def sym MANUAL_CONTROL_STRATEGY_PREFIX_def)
  have target: "p_qty position + order_delta ?order = aj_target_qty q"
    using adjust_order_hits_target [OF order(2)] fields(2,3) order(3) by simp
  have "aj_target_qty q \<noteq> p_qty position"
    using require_integral_qty_Inr [OF order(2)] by auto
  with order(1) have br: "\<bar>aj_target_qty q\<bar> < \<bar>p_qty position\<bar> \<or> breaker_names_state env (mw_redis w)"
    by (auto simp: risk_increasing_def)
  from order(5) show ?thesis
  proof (cases rule: sbind_cases)
    case (stop e)
    from store_and_send_effect [OF stop(1), unfolded fields] stop(2) order(4) target br fields(1) show ?thesis
      by (metis Inl_Inr_False)
  next
    case (go fresh w1)
    then have "w1 = w'" "\<And>r. x = Inr r \<Longrightarrow> ad_idempotent r = (\<not> fresh)" by (auto simp: adjust_answer_def)
    note eff = store_and_send_effect [OF go(1), unfolded fields \<open>w1 = w'\<close>]
    show ?thesis
    proof (cases fresh)
      case True
      with eff order(4) target br fields(1) show ?thesis by blast
    next
      case False
      with eff \<open>\<And>r. x = Inr r \<Longrightarrow> ad_idempotent r = (\<not> fresh)\<close> show ?thesis by auto
    qed
  qed
qed auto

text \<open>C25. Adjusting reaches its target, past the breaker.  The order sent for the symbol passes the
  schema's checks and, filled, leaves the position at exactly the requested quantity; unless the target
  is smaller in size than the position, the breaker's state could be read, has a value and is not
  tripped.  A request that sends nothing writes the audit trail at most, and is answered only when the
  position is there already or the same order is.\<close>

theorem adjust_reaches_target:
  assumes run: "adjust_position env symbol q w = (x, w')"
  shows "audit_only w w' \<and> (\<forall>r. x = Inr r \<longrightarrow> ad_current_qty r = ad_target_qty r \<or> ad_idempotent r) \<or>
    (\<exists>position cid order w1. map_of (get_all_positions (mw_db w)) (upper symbol) = Some position \<and>
       audit_only w w1 \<and> stored_and_sent env ''manual_controls_adjust_position'' cid order w1 w' \<and>
       or_symbol order = upper symbol \<and> order_request_ok (db_request order) \<and>
       p_qty position + order_delta order = aj_target_qty q \<and>
       (\<bar>aj_target_qty q\<bar> < \<bar>p_qty position\<bar> \<or> breaker_names_state env (mw_redis w)))"
  using run unfolding adjust_position_def Let_def
proof (cases rule: position_endpoint_cases)
  case refused
  then show ?thesis by simp
next
  case (found position w1)
  from adjust_found_effect [OF found(3) upper_upper] show ?thesis
    using found(1,2) audit_only_trans [OF found(1)] unfolding audit_only_fields(1) [OF found(1)] by metis
qed

section \<open>The breaker of the operator and the breaker of the library\<close>

lemma upper_states:
  "upper ''OPEN'' = ''OPEN''" "upper ''TRIPPED'' = ''TRIPPED''" "upper ''QUIET_PERIOD'' = ''QUIET_PERIOD''"
  by code_simp+

lemma breaker_is_tripped_Inr:
  assumes "breaker_is_tripped r = Inr b"
  obtains d st where "redis_get r breaker_state_key = Some (RJson (JObj d))" "dict_get d ''state'' = Some (JStr st)"
    "st \<in> {''OPEN'', ''TRIPPED'', ''QUIET_PERIOD''}" "b \<longleftrightarrow> st = ''TRIPPED''"
  using assms
  by (auto simp: breaker_is_tripped_def breaker_get_state_def load_obj_def dict_index_def breaker_state_of_def
      split: option.splits rval.splits json.splits if_splits)

text \<open>The raw read lets the request of the operator pass.\<close>

definition operator_passes :: "('s, 'j) manual_env \<Rightarrow> string \<Rightarrow> ('s, 'j) manual_world \<Rightarrow> bool" where
  "operator_passes env action w \<longleftrightarrow> fst (check_circuit_breaker env action w) = Inr ()"

text \<open>C28. Where the two readings of the breaker agree, and where not.  When the library's breaker can tell
  its state, the raw read of the operator's endpoints lets the request pass exactly when the breaker is
  not tripped; when there is no state at all, both refuse.  When there is a state the library cannot
  read, which refuses then, the raw read refuses an empty text, a list and a set, and what spells
  TRIPPED; it lets every other text pass, every JSON value that is no object, and every object whose
  state, absent or unknown to the library, does not spell TRIPPED.\<close>

theorem breaker_checks_agree:
  assumes redis: "me_redis env"
  shows "(\<forall>b. breaker_is_tripped (mw_redis w) = Inr b \<longrightarrow> operator_passes env action w = (\<not> b)) \<and>
    (redis_get (mw_redis w) breaker_state_key = None \<longrightarrow>
      (\<exists>e. breaker_is_tripped (mw_redis w) = Inl e) \<and> \<not> operator_passes env action w) \<and>
    (\<forall>e v. breaker_is_tripped (mw_redis w) = Inl e \<and> redis_get (mw_redis w) breaker_state_key = Some v \<longrightarrow>
      operator_passes env action w = (case v of
          RRaw s \<Rightarrow> s \<noteq> [] \<and> upper s \<noteq> ''TRIPPED''
        | RJson (JObj d) \<Rightarrow> upper (py_str (me_str env) (dict_get_or d ''state'' (JStr []))) \<noteq> ''TRIPPED''
        | RJson _ \<Rightarrow> True
        | _ \<Rightarrow> False))"
proof (intro conjI allI impI)
  fix b assume "breaker_is_tripped (mw_redis w) = Inr b"
  then obtain d st where d: "redis_get (mw_redis w) breaker_state_key = Some (RJson (JObj d))"
    "dict_get d ''state'' = Some (JStr st)" "st \<in> {''OPEN'', ''TRIPPED'', ''QUIET_PERIOD''}" "b \<longleftrightarrow> st = ''TRIPPED''"
    by (rule breaker_is_tripped_Inr)
  have "upper st = st" using d(3) upper_states by blast
  with d redis show "operator_passes env action w = (\<not> b)"
    by (simp add: operator_passes_def check_circuit_breaker_def breaker_raw_def Let_def parse_circuit_breaker_state_def
        dict_get_or_def py_str_def)
next
  assume none: "redis_get (mw_redis w) breaker_state_key = None"
  then show "\<exists>e. breaker_is_tripped (mw_redis w) = Inl e"
    by (simp add: breaker_is_tripped_def breaker_get_state_def load_obj_def)
  from none show "\<not> operator_passes env action w"
    by (simp add: operator_passes_def check_circuit_breaker_def breaker_raw_def Let_def redis)
next
  fix e v assume "breaker_is_tripped (mw_redis w) = Inl e \<and> redis_get (mw_redis w) breaker_state_key = Some v"
  then have v: "redis_get (mw_redis w) breaker_state_key = Some v" by simp
  have raw: "breaker_raw (mw_redis w) = (case v of
      RRaw [] \<Rightarrow> Inr None | RList xs \<Rightarrow> Inl (ResponseError ''WRONGTYPE'')
    | RZset xs \<Rightarrow> Inl (ResponseError ''WRONGTYPE'') | _ \<Rightarrow> Inr (Some v))"
    by (simp add: breaker_raw_def v split: rval.splits list.splits)
  show "operator_passes env action w = (case v of
          RRaw s \<Rightarrow> s \<noteq> [] \<and> upper s \<noteq> ''TRIPPED''
        | RJson (JObj d) \<Rightarrow> upper (py_str (me_str env) (dict_get_or d ''state'' (JStr []))) \<noteq> ''TRIPPED''
        | RJson _ \<Rightarrow> True
        | _ \<Rightarrow> False)"
    using redis unfolding operator_passes_def check_circuit_breaker_def Let_def raw
    by (simp add: parse_circuit_breaker_state_def split: rval.splits json.splits list.splits)
qed

text \<open>A stored object without a state: the library refuses, the operator's endpoints let it pass.\<close>

lemma stateless_breaker_passes:
  assumes "me_redis env" "redis_get (mw_redis w) breaker_state_key = Some (RJson (JObj []))"
  shows "check_circuit_breaker env action w = (Inr (), w)" "breaker_is_tripped (mw_redis w) = Inl (KeyError ''state'')"
  using assms
  by (simp_all add: check_circuit_breaker_def breaker_raw_def Let_def parse_circuit_breaker_state_def dict_get_or_def
      dict_get_def py_str_def upper_def breaker_is_tripped_def breaker_get_state_def dict_index_def)

section \<open>Concrete requests\<close>

text \<open>Ten shares of AAPL, a broker that accepts, everything initialised, no orders yet.\<close>

definition demo_position :: position_row where
  "demo_position = \<lparr>p_qty = 10, p_avg_entry_price = 100, p_current_price = None, p_realized_pl = 0,
     p_updated_at = 0, p_last_trade_at = None\<rparr>"

definition demo_manual_world :: "(string list \<times> nat, (string \<times> slice_job) list) manual_world" where
  "demo_manual_world =
     \<lparr>mw_redis = demo_redis, mw_db = empty_db\<lparr>db_positions := [(''AAPL'', demo_position)]\<rparr>, mw_jobs = [],
      mw_server = ([], 0), mw_sent = [], mw_canceled = [], mw_audit = []\<rparr>"

definition demo_manual_env :: "(string list \<times> nat, (string \<times> slice_job) list) manual_env" where
  "demo_manual_env =
     \<lparr>me_user = demo_auth, me_user_id = ''u1'', me_allowed = (\<lambda>_. True), me_executor = Some (demo_api []),
      me_is_timeout = (\<lambda>_. False), me_fault = (\<lambda>_. None), me_mfa = (True, None), me_redis = True,
      me_gateway = demo_env (BrokerAccepted None) [], me_minute = ''2025-01-02T10:30:00'', me_str_dec = (\<lambda>_. []),
      me_str = (\<lambda>_. []), me_redis_meanwhile = (\<lambda>r. r), me_job_store = list_jobs, me_sample = demo_sample,
      me_order_date = \<lparr>d_year = 2025, d_month = 1, d_day = 2\<rparr>\<rparr>"

lemma demo_manual_fields [simp]:
  "mw_redis demo_manual_world = demo_redis" "mw_sent demo_manual_world = []" "mw_canceled demo_manual_world = []"
  "db_order (mw_db demo_manual_world) c = None" "mw_server demo_manual_world = ([], 0)"
  "me_executor demo_manual_env = Some (demo_api [])" "me_redis demo_manual_env" "me_fault demo_manual_env call = None"
  "me_redis_meanwhile demo_manual_env r = r" "p_qty demo_position = 10" "fst (me_mfa demo_manual_env)"
  by (simp_all add: demo_manual_world_def demo_manual_env_def demo_position_def db_order_def empty_db_def)

lemma demo_positions: "get_all_positions (mw_db demo_manual_world) = [(''AAPL'', demo_position)]"
  by (simp add: get_all_positions_def demo_manual_world_def empty_db_def demo_position_def)

lemma demo_entry [simp]:
  "manual_entry demo_manual_env p a l w = (Inr (), w)"
  "manual_positions demo_manual_env a s w = (Inr (get_all_positions (mw_db w)), w)"
  by (simp_all add: manual_entry_def ensure_permission_with_audit_def enforce_rate_limit_def has_permission_def
      manual_positions_def require_non_empty_strategy_scope_def apply_strategy_scope_def Let_def)
    (simp add: demo_manual_env_def)

lemma demo_symbol: "upper ''aapl'' = ''AAPL''"
  by code_simp

text \<open>With no order in the database, storing and sending sends.\<close>

lemma demo_store_and_send:
  "store_and_send demo_manual_env (demo_api []) action symbol order cid demo_manual_world = (y, w') \<Longrightarrow>
     mw_sent w' \<noteq> []"
  using store_and_send_effect [of demo_manual_env "demo_api []" action symbol order cid demo_manual_world y w']
  by (auto simp: stored_and_sent_def)

lemma sbind_sent:
  assumes "sbind (y, w1) (\<lambda>a w. (Inr (g a), w)) = (x, w')"
  shows "w' = w1"
  using assms by (cases y) auto

lemma demo_close_sends:
  assumes run: "close_position demo_manual_env ''aapl'' None demo_manual_world = (x, w')"
  shows "mw_sent w' \<noteq> []"
proof -
  let ?cid = "generate_manual_order_id demo_manual_env ''close_position'' ''AAPL'' ''sell'' 10 None None None None"
  obtain y w1 where send: "store_and_send demo_manual_env (demo_api []) ''close_position'' ''AAPL''
      (manual_order ''AAPL'' ''sell'' 10 ''market'' None) ?cid demo_manual_world = (y, w1)" by fastforce
  have "require_integral_qty 10 = Inr 10" by (simp add: require_integral_qty_def)
  with run send have "w' = w1"
    by (cases y) (auto simp: close_position_def Let_def demo_symbol demo_positions close_found_def)
  with demo_store_and_send [OF send] show ?thesis by simp
qed

lemma close_never_flips_witness:
  "\<exists>x w' cid order. close_position demo_manual_env ''aapl'' None demo_manual_world = (x, w') \<and>
     mw_sent w' = [(cid, order)] \<and> or_symbol order = ''AAPL'' \<and> 10 + order_delta order = 0"
proof -
  obtain x w' where run: "close_position demo_manual_env ''aapl'' None demo_manual_world = (x, w')" by fastforce
  from close_never_flips [OF run] run demo_close_sends [OF run] show ?thesis
    by (auto simp: audit_only_fields demo_symbol demo_positions stored_and_sent_def split: if_splits)
qed

lemma demo_breaker:
  "breaker_names_state demo_manual_env demo_redis" "breaker_is_tripped demo_redis = Inr False"
proof -
  have "(case breaker_raw demo_redis of Inr (Some v) \<Rightarrow>
      parse_circuit_breaker_state (me_str demo_manual_env) v = ''OPEN'' | _ \<Rightarrow> False)" by code_simp
  then show "breaker_names_state demo_manual_env demo_redis"
    by (auto simp: breaker_names_state_def split: sum.splits option.splits)
  show "breaker_is_tripped demo_redis = Inr False" by code_simp
qed

definition demo_adjust :: adjust_request where
  "demo_adjust = \<lparr>aj_target_qty = - 15, aj_order_type = ''market'', aj_limit_price = None\<rparr>"

lemma adjust_reaches_target_witness:
  "\<exists>x w' cid order. adjust_position demo_manual_env ''aapl'' demo_adjust demo_manual_world = (x, w') \<and>
     mw_sent w' = [(cid, order)] \<and> 10 + order_delta order = - 15"
proof -
  obtain x w' where run: "adjust_position demo_manual_env ''aapl'' demo_adjust demo_manual_world = (x, w')" by fastforce
  let ?o = "manual_order ''AAPL'' ''sell'' 25 ''market'' None"
  let ?cid = "generate_manual_order_id demo_manual_env ''adjust_position'' ''AAPL'' ''sell'' 25 (Some ''market'') None None None"
  obtain y w1 where send: "store_and_send demo_manual_env (demo_api []) ''adjust_position'' ''AAPL'' ?o ?cid
      demo_manual_world = (y, w1)" by fastforce
  have q: "aj_target_qty demo_adjust = - 15" "aj_order_type demo_adjust = ''market''" "aj_limit_price demo_adjust = None"
    by (simp_all add: demo_adjust_def)
  have check: "adjust_breaker_check demo_manual_env ''AAPL'' demo_manual_world = (Inr (), demo_manual_world)"
    using demo_breaker(1)
    by (auto simp: adjust_breaker_check_def breaker_names_state_def Let_def)
  have "require_integral_qty 25 = Inr 25" by (simp add: require_integral_qty_def)
  with run send check market_order_ok [of 25 "''AAPL''" "''sell''"] have "w' = w1"
    by (cases y) (auto simp: adjust_position_def Let_def demo_symbol demo_positions adjust_found_def q)
  with demo_store_and_send [OF send] have "mw_sent w' \<noteq> []" by simp
  with adjust_reaches_target [OF run] run show ?thesis
    by (auto simp: audit_only_fields demo_symbol demo_positions stored_and_sent_def q split: if_splits)
qed

lemma breaker_checks_agree_witness:
  "fst (check_circuit_breaker demo_manual_env ''manual_order'' demo_manual_world) = Inr ()"
proof -
  have "me_redis demo_manual_env" by (simp add: demo_manual_env_def)
  from breaker_checks_agree [OF this, of demo_manual_world "''manual_order''", THEN conjunct1]
  have "operator_passes demo_manual_env ''manual_order'' demo_manual_world = (\<not> False)"
    by (rule allE [of _ False]) (use demo_breaker(2) in simp)
  then show ?thesis by (simp add: operator_passes_def)
qed

end
