(* ===== verification/Manual_Machine.thy ===== *)
theory Manual_Machine
  imports Manual_Safety
begin

text \<open>
  Orders by hand pass the kill switch and, twice, the breaker; a cancellation leaves the row as its
  outcome says; flattening covers every position; and the state machine of all the operator's
  requests, over any sequence of which no identifier is sent twice.
\<close>

section \<open>What every request keeps\<close>

definition orders_kept :: "db \<Rightarrow> db \<Rightarrow> bool" where
  "orders_kept d d' \<longleftrightarrow> (\<forall>c r. db_order d c = Some r \<longrightarrow> (\<exists>r'. db_order d' c = Some r' \<and>
     o_symbol r' = o_symbol r \<and> o_side r' = o_side r \<and> o_qty r' = o_qty r))"

lemma orders_kept_refl [simp, intro]: "orders_kept d d"
  by (auto simp: orders_kept_def)

lemma orders_kept_trans: "orders_kept d d1 \<Longrightarrow> orders_kept d1 d2 \<Longrightarrow> orders_kept d d2"
  unfolding orders_kept_def by metis

lemma orders_kept_insert [intro]: "db_order d c = None \<Longrightarrow> orders_kept d (db_set_order c r d)"
  by (auto simp: orders_kept_def)

lemma update_order_status_effect:
  assumes "update_order_status now cid status bid q p m d = (x, d')"
  shows "orders_kept d d'" "\<And>c. c \<noteq> cid \<Longrightarrow> db_order d' c = db_order d c"
    "db_order d cid = Some r \<Longrightarrow> \<exists>r'. db_order d' cid = Some r' \<and> o_status r' = status \<and>
       o_broker_order_id r' = coalesce bid (o_broker_order_id r) \<and> o_error_message r' = m \<and>
       o_symbol r' = o_symbol r \<and> o_side r' = o_side r \<and> o_qty r' = o_qty r"
  using assms
  by (auto simp: update_order_status_def update_order_where_def Let_def orders_kept_def
      split: option.splits prod.splits if_splits)

text \<open>Only rows of orders and the audit trail change, and no row goes away.\<close>

definition rows_only :: "('s, 'j) manual_world \<Rightarrow> ('s, 'j) manual_world \<Rightarrow> bool" where
  "rows_only w w' \<longleftrightarrow> mw_sent w' = mw_sent w \<and> mw_canceled w' = mw_canceled w \<and> mw_redis w' = mw_redis w \<and>
     mw_jobs w' = mw_jobs w \<and> mw_server w' = mw_server w \<and> orders_kept (mw_db w) (mw_db w')"

lemma rows_only_refl [simp, intro]: "rows_only w w"
  by (simp add: rows_only_def)

lemma rows_only_trans: "rows_only w w1 \<Longrightarrow> rows_only w1 w2 \<Longrightarrow> rows_only w w2"
  by (auto simp: rows_only_def intro: orders_kept_trans)

lemma audit_rows_only: "audit_only w w' \<Longrightarrow> rows_only w w'"
  by (auto simp: rows_only_def audit_only_fields)

lemma set_status_effect:
  assumes "set_status env call cid status bid m w = (x, w')"
  shows "rows_only w w'" "\<And>c. c \<noteq> cid \<Longrightarrow> db_order (mw_db w') c = db_order (mw_db w) c"
    "x = Inr y \<Longrightarrow> db_order (mw_db w) cid = Some r \<Longrightarrow> \<exists>r'. db_order (mw_db w') cid = Some r' \<and>
       o_status r' = status \<and> o_broker_order_id r' = coalesce bid (o_broker_order_id r) \<and> o_error_message r' = m \<and>
       o_symbol r' = o_symbol r \<and> o_side r' = o_side r \<and> o_qty r' = o_qty r"
    "mw_audit w' = mw_audit w" "x = Inr y \<Longrightarrow> me_fault env call = None"
    "me_fault env call \<noteq> None \<Longrightarrow> w' = w"
  using assms update_order_status_effect [where now = "sv_now (me_gateway env)" and cid = cid and status = status
      and bid = bid and m = m and d = "mw_db w"]
  by (auto simp: set_status_def rows_only_def split: option.splits prod.splits)

lemma set_status_row:
  assumes "set_status env call cid status bid m w = (x, w')" "me_fault env call = None"
    "db_order (mw_db w) cid = Some r"
  shows "\<exists>r'. db_order (mw_db w') cid = Some r' \<and> o_status r' = status"
proof -
  obtain d' where "update_order_status (sv_now (me_gateway env)) cid status bid None None m (mw_db w) = (x, d')"
    "w' = w\<lparr>mw_db := d'\<rparr>"
    using assms(1,2) by (auto simp: set_status_def split: prod.splits)
  with update_order_status_effect(3) [OF this(1) assms(3)] show ?thesis by auto
qed

lemma try_status_effect:
  assumes "try_status env call cid status m w = (x, w')"
  shows "rows_only w w'" "\<And>c. c \<noteq> cid \<Longrightarrow> db_order (mw_db w') c = db_order (mw_db w) c"
  using assms by (auto simp: try_status_def split: sum.splits prod.splits if_splits dest: set_status_effect)


section \<open>An order by hand\<close>

definition breaker_passes :: "('s, 'j) manual_env \<Rightarrow> redis \<Rightarrow> bool" where
  "breaker_passes env r \<longleftrightarrow> me_redis env \<and>
     (\<exists>v. breaker_raw r = Inr (Some v) \<and> parse_circuit_breaker_state (me_str env) v \<noteq> ''TRIPPED'')"

lemma check_circuit_breaker_passed:
  "check_circuit_breaker env a w = (Inr u, w') \<Longrightarrow> w' = w \<and> breaker_passes env (mw_redis w)"
  by (auto simp: check_circuit_breaker_def breaker_passes_def Let_def split: if_splits sum.splits option.splits)

lemma check_circuit_breaker_stopped:
  "check_circuit_breaker env a w = (Inl e, w') \<Longrightarrow> \<not> breaker_passes env (mw_redis w)"
  by (auto simp: check_circuit_breaker_def breaker_passes_def Let_def split: if_splits sum.splits option.splits)

lemma check_kill_switch_passed:
  "check_kill_switch rv a w = (Inr u, w') \<Longrightarrow> w' = w \<and> ks_is_engaged (mw_redis w) = Inr False"
  by (auto simp: check_kill_switch_def split: if_splits sum.splits bool.splits)

lemma manual_order_gates_effect:
  assumes "manual_order_gates env rv order cid w = (x, w')"
  shows "audit_only w w'"
    "x = Inr u \<Longrightarrow> w' = w \<and> ks_is_engaged (mw_redis w) = Inr False \<and> breaker_passes env (mw_redis w) \<and>
       \<not> fat_finger_breached (me_gateway env) order"
proof -
  have "audit_only w w' \<and> (x = Inr u \<longrightarrow> w' = w \<and> ks_is_engaged (mw_redis w) = Inr False \<and>
      breaker_passes env (mw_redis w) \<and> \<not> fat_finger_breached (me_gateway env) order)"
    using assms unfolding manual_order_gates_def
  proof (cases rule: sbind_cases)
    case (stop e)
    with check_kill_switch_audit show ?thesis by blast
  next
    case (go v w1)
    note ks = check_kill_switch_passed [OF go(1)]
    from go(2) show ?thesis
    proof (cases rule: sbind_cases)
      case (stop e)
      with check_circuit_breaker_audit [OF stop(1)] ks show ?thesis by simp
    next
      case (go v' w2)
      from check_circuit_breaker_passed [OF go(1)] go(2) ks show ?thesis
        by (auto split: if_splits)
    qed
  qed
  then show "audit_only w w'" "x = Inr u \<Longrightarrow> w' = w \<and> ks_is_engaged (mw_redis w) = Inr False \<and>
      breaker_passes env (mw_redis w) \<and> \<not> fat_finger_breached (me_gateway env) order" by blast+
qed

text \<open>One new order was sent, after its row had been inserted.\<close>

definition sends_order :: "string \<Rightarrow> order_request \<Rightarrow> ('s, 'j) manual_world \<Rightarrow> ('s, 'j) manual_world \<Rightarrow> bool" where
  "sends_order cid order w w' \<longleftrightarrow> db_order (mw_db w) cid = None \<and> mw_sent w' = mw_sent w @ [(cid, order)] \<and>
     mw_canceled w' = mw_canceled w \<and> orders_kept (mw_db w) (mw_db w') \<and>
     (\<exists>r. db_order (mw_db w') cid = Some r \<and> o_symbol r = or_symbol order \<and> o_side r = or_side order \<and>
        o_qty r = or_qty order)"

definition keeps_sent :: "('s, 'j) manual_world \<Rightarrow> ('s, 'j) manual_world \<Rightarrow> bool" where
  "keeps_sent w w' \<longleftrightarrow> mw_sent w' = mw_sent w \<and> orders_kept (mw_db w) (mw_db w')"

lemma keeps_sent_trans: "keeps_sent w w1 \<Longrightarrow> keeps_sent w1 w2 \<Longrightarrow> keeps_sent w w2"
  by (auto simp: keeps_sent_def intro: orders_kept_trans)

lemma keeps_sent_refl [simp, intro]: "keeps_sent w w"
  by (simp add: keeps_sent_def)

lemma rows_keep_sent: "rows_only w w' \<Longrightarrow> keeps_sent w w'"
  by (simp add: rows_only_def keeps_sent_def)

lemma audit_keeps_sent: "audit_only w w' \<Longrightarrow> keeps_sent w w'"
  by (simp add: audit_rows_only rows_keep_sent)

lemma sends_order_rows: "sends_order cid order w w1 \<Longrightarrow> rows_only w1 w2 \<Longrightarrow> sends_order cid order w w2"
proof -
  assume s: "sends_order cid order w w1" and r: "rows_only w1 w2"
  then obtain row where row: "db_order (mw_db w1) cid = Some row" "o_symbol row = or_symbol order"
    "o_side row = or_side order" "o_qty row = or_qty order" by (auto simp: sends_order_def)
  with r obtain row' where "db_order (mw_db w2) cid = Some row'" "o_symbol row' = or_symbol order"
    "o_side row' = or_side order" "o_qty row' = or_qty order"
    unfolding rows_only_def orders_kept_def by metis
  with s r show ?thesis
    by (auto simp: sends_order_def rows_only_def intro: orders_kept_trans)
qed

lemma sends_order_from: "audit_only w w0 \<Longrightarrow> sends_order cid order w0 w1 \<Longrightarrow> sends_order cid order w w1"
  by (auto simp: sends_order_def audit_only_fields)

lemma stored_sends_order: "stored_and_sent env strategy cid order w w' \<Longrightarrow> sends_order cid order w w'"
  by (auto simp: stored_and_sent_def sends_order_def new_order_row_def db_request_def)

text \<open>What the database shows of the broker's answer.\<close>

definition answer_recorded :: "string \<Rightarrow> broker_order \<Rightarrow> order_response \<Rightarrow> db \<Rightarrow> bool" where
  "answer_recorded cid bo resp d \<longleftrightarrow> os_client_order_id resp = cid \<and> b_status bo = Some (os_status resp) \<and>
     (\<exists>r. db_order d cid = Some r \<and> o_status r = os_status resp \<and> o_broker_order_id r = b_id bo)"

lemma record_answer_effect:
  assumes "record_answer env order cid t bo w = (x, w')"
  shows "rows_only w w'"
    "x = Inr resp \<Longrightarrow> db_order (mw_db w) cid = Some r \<Longrightarrow> o_broker_order_id r = None \<Longrightarrow>
       answer_recorded cid bo resp (mw_db w')"
proof -
  have logged: "rows_only w1 (log_action a ty i out w1)" for a ty i out and w1 :: "('a, 'b) manual_world"
    by (simp add: audit_rows_only)
  show "rows_only w w'"
  proof (cases "b_status bo")
    case None
    with assms logged show ?thesis by (auto simp: record_answer_def Let_def)
  next
    case (Some st)
    obtain y w1 where u: "set_status env (RecordAnswer cid) cid st (b_id bo) None w = (y, w1)" by (metis prod.exhaust)
    from set_status_effect(1) [OF u] logged [of w1] assms Some u show ?thesis
      by (auto simp: record_answer_def Let_def split: sum.splits if_splits intro: rows_only_trans)
  qed
  show "answer_recorded cid bo resp (mw_db w')"
    if x: "x = Inr resp" and r: "db_order (mw_db w) cid = Some r" "o_broker_order_id r = None"
  proof (cases "b_status bo")
    case None
    with assms x show ?thesis by (auto simp: record_answer_def Let_def is_db_error.simps)
  next
    case (Some st)
    obtain y w1 where u: "set_status env (RecordAnswer cid) cid st (b_id bo) None w = (y, w1)" by (metis prod.exhaust)
    with assms x Some obtain row where y: "y = Inr row" and w': "mw_db w' = mw_db w1"
      and resp: "os_client_order_id resp = cid" "os_status resp = st"
      by (cases y) (auto simp: record_answer_def manual_response_def Let_def split: if_splits)
    from set_status_effect(3) [OF u y r(1)] r(2) resp w' Some show ?thesis
      by (cases "b_id bo") (auto simp: answer_recorded_def coalesce_def)
  qed
qed


lemma idempotent_retry_keeps: "handle_idempotent_order_retry cid w = (x, w') \<Longrightarrow> w' = w"
  by (auto simp: handle_idempotent_order_retry_def split: sum.splits option.splits)

lemma dry_run_keeps:
  assumes "submit_dry_run_manual_order env order cid w = (x, w')"
  shows "keeps_sent w w'"
proof (rule create_order_cases [where d = "mw_db w" and cid = cid and st = "''dry_run''" and
      now = "sv_now (me_gateway env)" and sid = "MANUAL_CONTROL_STRATEGY_PREFIX @ ''trade''" and
      q = "db_request order" and bid = None and em = None])
  fix r assume "create_order (sv_now (me_gateway env)) cid (MANUAL_CONTROL_STRATEGY_PREFIX @ ''trade'')
      (db_request order) ''dry_run'' None None (mw_db w) = (Inl (IntegrityError cid), mw_db w)"
  with assms idempotent_retry_keeps show ?thesis by (fastforce simp: submit_dry_run_manual_order_def)
next
  fix row assume "db_order (mw_db w) cid = None"
    "create_order (sv_now (me_gateway env)) cid (MANUAL_CONTROL_STRATEGY_PREFIX @ ''trade'')
      (db_request order) ''dry_run'' None None (mw_db w) = (Inr row, db_set_order cid row (mw_db w))"
  with assms show ?thesis by (auto simp: submit_dry_run_manual_order_def keeps_sent_def)
qed (simp add: ORDER_STATUSES_def)

text \<open>The outcomes of a live order: nothing sent, or sent once past a second look at the breaker.\<close>

definition live_order_sent ::
  "('s, 'j) manual_env \<Rightarrow> 's alpaca_api \<Rightarrow> order_request \<Rightarrow> string \<Rightarrow> ('s, 'j) manual_world \<Rightarrow>
   order_response result \<Rightarrow> ('s, 'j) manual_world \<Rightarrow> bool" where
  "live_order_sent env api order cid w x w' \<longleftrightarrow>
     breaker_passes env (me_redis_meanwhile env (mw_redis w)) \<and> sends_order cid order w w' \<and>
     (\<exists>y. alpaca_submit_order api order cid (mw_server w) = (y, mw_server w') \<and>
        (\<forall>resp. x = Inr resp \<longrightarrow> (\<exists>bo. y = Inr bo \<and> answer_recorded cid bo resp (mw_db w'))))"

lemma rows_only_server: "rows_only w w' \<Longrightarrow> mw_server w' = mw_server w"
  by (simp add: rows_only_def)

lemma submit_call_effect:
  assumes "db_order (mw_db w) cid = None"
    and row: "o_symbol row = or_symbol order" "o_side row = or_side order" "o_qty row = or_qty order"
    and call: "submit_call api order cid (w\<lparr>mw_db := db_set_order cid row (mw_db w), mw_redis := r\<rparr>) = (y, w1)"
  shows "sends_order cid order w w1" "alpaca_submit_order api order cid (mw_server w) = (y, mw_server w1)"
    "db_order (mw_db w1) cid = Some row"
  using assms by (auto simp: submit_call_def sends_order_def split: prod.splits)

lemma submit_live_effect:
  assumes run: "submit_live_manual_order env api order cid w = (x, w')"
  shows "keeps_sent w w' \<and>
      (db_order (mw_db w) cid \<noteq> None \<or> \<not> breaker_passes env (me_redis_meanwhile env (mw_redis w))) \<or>
    live_order_sent env api order cid w x w'"
proof (rule create_order_cases [OF pending_new_status, where d = "mw_db w" and cid = cid and
      now = "sv_now (me_gateway env)" and sid = "MANUAL_CONTROL_STRATEGY_PREFIX @ ''trade''" and
      q = "db_request order" and bid = None and em = None])
  fix r assume "db_order (mw_db w) cid = Some r" "create_order (sv_now (me_gateway env)) cid (MANUAL_CONTROL_STRATEGY_PREFIX @ ''trade'')
      (db_request order) ''pending_new'' None None (mw_db w) = (Inl (IntegrityError cid), mw_db w)"
  with run idempotent_retry_keeps show ?thesis by (fastforce simp: submit_live_manual_order_def)
next
  fix row assume none: "db_order (mw_db w) cid = None"
    and create: "create_order (sv_now (me_gateway env)) cid (MANUAL_CONTROL_STRATEGY_PREFIX @ ''trade'')
      (db_request order) ''pending_new'' None None (mw_db w) = (Inr row, db_set_order cid row (mw_db w))"
    and new: "new_order_row (sv_now (me_gateway env)) cid (MANUAL_CONTROL_STRATEGY_PREFIX @ ''trade'')
      (db_request order) ''pending_new'' None None row"
  let ?w0 = "w\<lparr>mw_db := db_set_order cid row (mw_db w), mw_redis := me_redis_meanwhile env (mw_redis w)\<rparr>"
  have kept: "keeps_sent w ?w0" using none by (auto simp: keeps_sent_def)
  obtain y w1 where c: "check_circuit_breaker env ''manual_order'' ?w0 = (y, w1)" by (metis prod.exhaust)
  show ?thesis
  proof (cases y)
    case (Inl e)
    obtain z w2 where t: "try_status env (MarkFailed cid) cid ''failed'' ''circuit_breaker_tripped_before_submit'' w1 = (z, w2)"
      by (metis prod.exhaust)
    have "w' = w2" using run create c Inl t by (cases z) (auto simp: submit_live_manual_order_def)
    with kept audit_keeps_sent [OF check_circuit_breaker_audit [OF c]] rows_keep_sent [OF try_status_effect(1) [OF t]]
      check_circuit_breaker_stopped [OF c [unfolded Inl]]
    show ?thesis by (auto intro: keeps_sent_trans)
  next
    case (Inr u)
    then have w1: "w1 = ?w0" and br: "breaker_passes env (me_redis_meanwhile env (mw_redis w))"
      using check_circuit_breaker_passed [of env _ ?w0 u w1] c by auto
    obtain a w2 where call: "submit_call api order cid ?w0 = (a, w2)" by (metis prod.exhaust)
    have row: "o_symbol row = or_symbol order" "o_side row = or_side order" "o_qty row = or_qty order"
      "o_broker_order_id row = None" using new by (simp_all add: new_order_row_def db_request_def)
    note sent = submit_call_effect [OF none row(1-3) call]
    have "rows_only w2 w' \<and> (\<forall>resp. x = Inr resp \<longrightarrow> (\<exists>bo. a = Inr bo \<and> answer_recorded cid bo resp (mw_db w')))"
    proof (cases a)
      case (Inr bo)
      then have "record_answer env order cid (o_created_at row) bo w2 = (x, w')"
        using run create c \<open>y = Inr u\<close> w1 call by (simp add: submit_live_manual_order_def)
      from record_answer_effect [OF this] sent(3) row(4) Inr show ?thesis by blast
    next
      case (Inl e)
      obtain z w3 where t: "try_status env (MarkFailed cid) cid ''failed'' (client_text e) w2 = (z, w3)"
        by (metis prod.exhaust)
      have "rows_only w3 (log_action ''manual_order'' ''order'' cid ''failed'' w3)" by (simp add: audit_rows_only)
      with run create c \<open>y = Inr u\<close> w1 call Inl t rows_only_trans [OF try_status_effect(1) [OF t]]
        try_status_effect(1) [OF t] show ?thesis
        by (cases z) (auto simp: submit_live_manual_order_def split: if_splits)
    qed
    with sent br sends_order_rows [OF sent(1)] rows_only_server [of w2 w'] show ?thesis
      by (auto simp: live_order_sent_def)
  qed
qed

text \<open>A TWAP order by hand stops at the insertion of its parent.\<close>

lemma submit_twap_manual_keeps:
  assumes "submit_twap_manual_order env rv order q w = (x, w')"
  shows "audit_only w w' \<and> (\<exists>e. x = Inl e)"
  using assms
  by (auto simp: submit_twap_manual_order_def insert_manual_twap_def create_parent_order_fails Let_def
      split: if_splits sum.splits py_error.splits)


lemma manual_request_order_style [simp]:
  "or_execution_style (manual_request_order q n) = mq_execution_style q"
  "or_qty (manual_request_order q n) = n"
  by (simp_all add: manual_request_order_def)

lemma place_manual_order_effect:
  assumes "place_manual_order env rv q order cid w = (x, w')"
  shows "keeps_sent w w' \<or> (\<exists>api. me_executor env = Some api \<and> or_execution_style order \<noteq> ''twap'' \<and>
    live_order_sent env api order cid w x w')"
  using assms unfolding place_manual_order_def
  by (auto split: if_splits option.splits dest: submit_twap_manual_keeps dry_run_keeps submit_live_effect
      intro: audit_keeps_sent)

lemma submit_manual_order_effect:
  assumes run: "submit_manual_order env rv q w = (x, w')"
  shows "keeps_sent w w' \<or>
    (\<exists>api n cid w1. me_executor env = Some api \<and> audit_only w w1 \<and>
       mq_qty q = of_int n \<and> 0 < n \<and> mq_execution_style q \<noteq> ''twap'' \<and>
       order_request_ok (db_request (manual_request_order q n)) \<and>
       ks_is_engaged (mw_redis w) = Inr False \<and> breaker_passes env (mw_redis w) \<and>
       \<not> fat_finger_breached (me_gateway env) (manual_request_order q n) \<and>
       live_order_sent env api (manual_request_order q n) cid w1 x w')"
  using run unfolding submit_manual_order_def
proof (cases rule: entry_scope_cases)
  case refused
  with audit_keeps_sent show ?thesis by blast
next
  case (on scope w2)
  show ?thesis
  proof (cases "require_integral_qty (mq_qty q)")
    case (Inl e)
    with on audit_keeps_sent show ?thesis by auto
  next
    case (Inr n)
    let ?o = "manual_request_order q n"
    let ?cid = "generate_manual_order_id env ''manual_trade'' (or_symbol ?o) (or_side ?o) n
             (Some (mq_order_type q)) (mq_limit_price q) (mq_stop_price q) (Some (mq_time_in_force q))"
    show ?thesis
    proof (cases "order_request_ok (db_request ?o) \<and> twap_fields_ok q n (sv_now (me_gateway env))")
      case False
      with on Inr audit_keeps_sent [OF on(1)] show ?thesis by (auto simp: Let_def)
    next
      case True
      then have "sbind (manual_order_gates env rv ?o ?cid w2) (\<lambda>_. place_manual_order env rv q ?o ?cid) = (x, w')"
        using on(2) Inr by (simp add: Let_def)
      then show ?thesis
      proof (cases rule: sbind_cases)
        case (stop e)
        from manual_order_gates_effect(1) [OF stop(1)] audit_only_trans [OF on(1)] audit_keeps_sent show ?thesis
          by blast
      next
        case (go v w3)
        note g = manual_order_gates_effect(2) [OF go(1) refl]
        from g have w3: "w3 = w2" by blast
        from place_manual_order_effect [OF go(2) [unfolded w3]] show ?thesis
          using keeps_sent_trans [OF audit_keeps_sent [OF on(1)]] g True on(1)
            require_integral_qty_Inr [OF Inr] audit_only_fields(1) [OF on(1)] by auto
      qed
    qed
  qed
qed


text \<open>C23. An order by hand passes its guards.  Whatever happens to Redis between its insertion and its
  submission, an order reaches the broker only as the validated request, for a whole positive quantity
  and not as a TWAP order, when the kill switch is not engaged, the breaker lets it pass before the
  insertion and again before the submission, and no fat-finger threshold is breached; it is new, it is
  sent once, and an answer to the operator is what the broker said and what the database then shows.
  Otherwise nothing is sent and no row is lost.\<close>

theorem manual_order_guarded:
  assumes run: "submit_manual_order env rv q w = (x, w')"
  shows "keeps_sent w w' \<or>
    (\<exists>api n cid w1. me_executor env = Some api \<and> audit_only w w1 \<and>
       mq_qty q = of_int n \<and> 0 < n \<and> mq_execution_style q \<noteq> ''twap'' \<and>
       order_request_ok (db_request (manual_request_order q n)) \<and>
       ks_is_engaged (mw_redis w) = Inr False \<and> breaker_passes env (mw_redis w) \<and>
       \<not> fat_finger_breached (me_gateway env) (manual_request_order q n) \<and>
       live_order_sent env api (manual_request_order q n) cid w1 x w')"
  using submit_manual_order_effect [OF run] .

section \<open>Canceling by hand\<close>

lemma set_status_Inr:
  assumes "set_status env call cid status bid m w = (x, w')" "me_fault env call = None" "status \<in> set ORDER_STATUSES"
  shows "\<exists>y. x = Inr y"
proof -
  have "order_detail (f r) = Inr (f r)" if "o_status (f r) = status" for f and r :: order_row
    using that assms(3) by (simp add: order_detail_def)
  with assms(1,2) show ?thesis
    by (auto simp: set_status_def update_order_status_def update_order_where_def Let_def order_detail_def assms(3)
        split: option.splits prod.splits)
qed

definition reverted :: "('s, 'j) manual_env \<Rightarrow> string \<Rightarrow> client_error \<Rightarrow> bool" where
  "reverted env cid e \<longleftrightarrow> (is_client_error e \<or> me_is_timeout env (client_text e)) \<and> me_fault env (RevertStatus cid) = None"

lemma try_status_row:
  assumes "try_status env call cid status m w = (x, w')" "db_order (mw_db w) cid = Some r"
  shows "\<exists>r'. db_order (mw_db w') cid = Some r' \<and>
    o_status r' = (if me_fault env call = None then status else o_status r)"
proof -
  obtain y w1 where s: "set_status env call cid status None (Some m) w = (y, w1)" by (metis prod.exhaust)
  then have "w' = w1" using assms(1) by (auto simp: try_status_def split: sum.splits if_splits)
  with set_status_row [OF s _ assms(2)] set_status_effect(6) [OF s] assms(2) show ?thesis by auto
qed

lemma cancel_at_alpaca_effect:
  assumes run: "cancel_at_alpaca env api cid bid previous w = (x, w')" and row: "db_order (mw_db w) cid = Some r"
  shows "\<exists>y r'. alpaca_cancel_order api bid (mw_server w) = (y, mw_server w') \<and>
    mw_canceled w' = mw_canceled w @ [bid] \<and> mw_sent w' = mw_sent w \<and>
    orders_kept (mw_db w) (mw_db w') \<and> (\<forall>c. c \<noteq> cid \<longrightarrow> db_order (mw_db w') c = db_order (mw_db w) c) \<and>
    db_order (mw_db w') cid = Some r' \<and>
    (case y of Inr _ \<Rightarrow> x = Inr (cancel_answer env cid) \<and> r' = r
     | Inl e \<Rightarrow> (\<exists>err. x = Inl err) \<and> o_status r' = (if reverted env cid e then previous else o_status r))"
proof -
  obtain y s' where y: "alpaca_cancel_order api bid (mw_server w) = (y, s')" by (metis prod.exhaust)
  let ?w = "w\<lparr>mw_server := s', mw_canceled := mw_canceled w @ [bid]\<rparr>"
  have row1: "db_order (mw_db ?w) cid = Some r" using row by simp
  have call: "cancel_call api bid w = (y, ?w)" by (simp add: cancel_call_def y)
  show ?thesis
  proof (cases y)
    case (Inr b)
    with run call y row show ?thesis by (auto simp: cancel_at_alpaca_def)
  next
    case (Inl e)
    have *: ?thesis if t: "try_status env (RevertStatus cid) cid previous m ?w = (z, w2)"
      and w': "mw_server w' = mw_server w2" "mw_canceled w' = mw_canceled w2" "mw_sent w' = mw_sent w2"
        "mw_db w' = mw_db w2" "\<exists>err. x = Inl err"
      and tried: "is_client_error e \<or> me_is_timeout env (client_text e)" for m z w2
      using try_status_row [OF t row1] try_status_effect [OF t] w' tried y Inl
      by (auto simp: rows_only_def reverted_def)
    show ?thesis
    proof (cases "is_client_error e \<or> me_is_timeout env (client_text e)")
      case False
      with run call Inl y row show ?thesis by (auto simp: cancel_at_alpaca_def reverted_def)
    next
      case True
      let ?m = "(if is_client_error e then ''cancel_failed_broker: '' else ''cancel_failed_timeout: '') @ client_text e"
      obtain z w2 where t: "try_status env (RevertStatus cid) cid previous ?m ?w = (z, w2)" by (metis prod.exhaust)
      show ?thesis
        by (rule * [OF t _ _ _ _ _ True]; use run call Inl True t in \<open>cases z; auto simp: cancel_at_alpaca_def split: if_splits\<close>)
    qed
  qed
qed


text \<open>What a cancellation of a row leaves behind: for an order without a broker's identifier, and for others.\<close>

definition canceled_locally ::
  "('s, 'j) manual_env \<Rightarrow> string \<Rightarrow> ('s, 'j) manual_world \<Rightarrow> cancel_response result \<Rightarrow>
   ('s, 'j) manual_world \<Rightarrow> order_row \<Rightarrow> bool" where
  "canceled_locally env cid w x w' r' \<longleftrightarrow> mw_canceled w' = mw_canceled w \<and> mw_server w' = mw_server w \<and>
     (x = Inr (cancel_answer env cid) \<and> o_status r' = ''canceled'' \<or> (\<exists>e. x = Inl e) \<and> o_status r' = ''pending_cancel'')"

definition cancel_asked ::
  "('s, 'j) manual_env \<Rightarrow> string \<Rightarrow> string \<Rightarrow> order_row \<Rightarrow> ('s, 'j) manual_world \<Rightarrow> cancel_response result \<Rightarrow>
   ('s, 'j) manual_world \<Rightarrow> order_row \<Rightarrow> bool" where
  "cancel_asked env cid bid r w x w' r' \<longleftrightarrow>
     (\<exists>api y. me_executor env = Some api \<and> alpaca_cancel_order api bid (mw_server w) = (y, mw_server w') \<and>
        mw_canceled w' = mw_canceled w @ [bid] \<and>
        (case y of Inr _ \<Rightarrow> x = Inr (cancel_answer env cid) \<and> o_status r' = ''pending_cancel''
         | Inl e \<Rightarrow> (\<exists>err. x = Inl err) \<and>
             o_status r' = (if reverted env cid e then o_status r else ''pending_cancel'')))"



lemma mark_canceled_effect:
  assumes run: "sbind (set_status env (MarkCanceled cid) cid ''canceled'' None None w1)
      (\<lambda>_ w2. (Inr (cancel_answer env cid), log_action ''cancel_order'' ''order'' cid ''success'' w2)) = (x, w')"
    and row: "db_order (mw_db w1) cid = Some r1" "o_status r1 = ''pending_cancel''"
  shows "rows_only w1 w' \<and> (\<forall>c. c \<noteq> cid \<longrightarrow> db_order (mw_db w') c = db_order (mw_db w1) c) \<and>
    (\<exists>r'. db_order (mw_db w') cid = Some r' \<and> canceled_locally env cid w1 x w' r')"
proof -
  obtain y w2 where s: "set_status env (MarkCanceled cid) cid ''canceled'' None None w1 = (y, w2)" by (metis prod.exhaust)
  note eff = set_status_effect(1,2) [OF s]
  have w2: "rows_only w2 (log_action ''cancel_order'' ''order'' cid ''success'' w2)" by (simp add: audit_rows_only)
  show ?thesis
  proof (cases "me_fault env (MarkCanceled cid)")
    case (Some e)
    then have "w2 = w1" "y = Inl e" using set_status_effect(6) [OF s] s by (auto simp: set_status_def)
    with run s row show ?thesis by (auto simp: canceled_locally_def)
  next
    case None
    have "''canceled'' \<in> set ORDER_STATUSES" by (simp add: ORDER_STATUSES_def)
    with set_status_Inr [OF s None] obtain u where "y = Inr u" by blast
    with run s have "x = Inr (cancel_answer env cid)" "w' = log_action ''cancel_order'' ''order'' cid ''success'' w2" by auto
    with set_status_row [OF s None row(1)] eff rows_only_trans [OF eff(1) w2] show ?thesis
      by (auto simp: canceled_locally_def rows_only_def)
  qed
qed

lemma cancel_found_effect:
  assumes run: "cancel_found env cid r w = (x, w')" and row: "db_order (mw_db w) cid = Some r"
  shows "audit_only w w' \<and> (\<exists>e. x = Inl e) \<or>
    mw_sent w' = mw_sent w \<and> orders_kept (mw_db w) (mw_db w') \<and>
    (\<forall>c. c \<noteq> cid \<longrightarrow> db_order (mw_db w') c = db_order (mw_db w) c) \<and>
    (\<exists>r'. db_order (mw_db w') cid = Some r' \<and>
       (if o_broker_order_id r \<in> {None, Some []} then canceled_locally env cid w x w' r'
        else cancel_asked env cid (the (o_broker_order_id r)) r w x w' r'))"
proof (cases "me_executor env")
  case None
  with run show ?thesis by (auto simp: cancel_found_def)
next
  case (Some api)
  let ?w0 = "log_action ''cancel_order'' ''order'' cid ''pending'' w"
  obtain y w1 where s: "set_status env (MarkPendingCancel cid) cid ''pending_cancel'' None None ?w0 = (y, w1)"
    by (metis prod.exhaust)
  show ?thesis
  proof (cases "me_fault env (MarkPendingCancel cid)")
    case (Some e)
    then have "w1 = ?w0" "y = Inl e" using set_status_effect(6) [OF s] s by (auto simp: set_status_def)
    with run s \<open>me_executor env = Some api\<close> show ?thesis
      by (auto simp: cancel_found_def intro: audit_only_trans [OF audit_only_log] split: if_splits)
  next
    case None
    have "''pending_cancel'' \<in> set ORDER_STATUSES" by (simp add: ORDER_STATUSES_def)
    with set_status_Inr [OF s None] obtain u where y: "y = Inr u" by blast
    obtain r1 where r1: "db_order (mw_db w1) cid = Some r1" "o_status r1 = ''pending_cancel''"
      using set_status_row [OF s None, of r] row by auto
    have w1: "rows_only w w1" "\<And>c. c \<noteq> cid \<Longrightarrow> db_order (mw_db w1) c = db_order (mw_db w) c"
      using set_status_effect(1,2) [OF s] by (auto simp: rows_only_def)
    show ?thesis
    proof (cases "o_broker_order_id r \<in> {None, Some []}")
      case True
      with run s y \<open>me_executor env = Some api\<close>
      have "sbind (set_status env (MarkCanceled cid) cid ''canceled'' None None w1)
          (\<lambda>_ w2. (Inr (cancel_answer env cid), log_action ''cancel_order'' ''order'' cid ''success'' w2)) = (x, w')"
        by (auto simp: cancel_found_def)
      from mark_canceled_effect [OF this r1] True w1 rows_only_trans [OF w1(1)] show ?thesis
        by (auto simp: canceled_locally_def rows_only_def)
    next
      case False
      then obtain bid where bid: "o_broker_order_id r = Some bid" "bid \<noteq> []" by auto
      with run s y \<open>me_executor env = Some api\<close> have "cancel_at_alpaca env api cid bid (o_status r) w1 = (x, w')"
        by (auto simp: cancel_found_def)
      from cancel_at_alpaca_effect [OF this r1(1)] obtain z r' where z:
        "alpaca_cancel_order api bid (mw_server w1) = (z, mw_server w')" "mw_canceled w' = mw_canceled w1 @ [bid]"
        "mw_sent w' = mw_sent w1" "orders_kept (mw_db w1) (mw_db w')"
        "\<forall>c. c \<noteq> cid \<longrightarrow> db_order (mw_db w') c = db_order (mw_db w1) c" "db_order (mw_db w') cid = Some r'"
        "case z of Inr _ \<Rightarrow> x = Inr (cancel_answer env cid) \<and> r' = r1
         | Inl e \<Rightarrow> (\<exists>err. x = Inl err) \<and> o_status r' = (if reverted env cid e then o_status r else o_status r1)"
        by blast
      have "cancel_asked env cid bid r w x w' r'"
        using z r1(2) w1(1) \<open>me_executor env = Some api\<close>
        by (auto simp: cancel_asked_def rows_only_def split: sum.splits)
      with z w1 bid show ?thesis by (auto simp: rows_only_def intro: orders_kept_trans)
    qed
  qed
qed




section \<open>Flattening\<close>

definition flatten_order :: "string \<times> position_row \<Rightarrow> order_request" where
  "flatten_order sp = (case sp of (s, p) \<Rightarrow>
     manual_order s (opposite_side (p_qty p)) \<lfloor>\<bar>p_qty p\<bar>\<rfloor> ''market'' None)"

definition flatten_id :: "('s, 'j) manual_env \<Rightarrow> string \<times> position_row \<Rightarrow> string" where
  "flatten_id env sp = (case sp of (s, p) \<Rightarrow>
     generate_manual_order_id env ''flatten_all'' s (opposite_side (p_qty p)) \<lfloor>\<bar>p_qty p\<bar>\<rfloor> None None None None)"

lemma flatten_one_effect:
  assumes run: "flatten_one env api sp created w = (x, w')" and open_pos: "p_qty (snd sp) \<noteq> 0"
  shows "w' = w \<and> ((\<exists>e. x = Inl e) \<or> x = Inr (created @ [flatten_id env sp]) \<and> db_order (mw_db w) (flatten_id env sp) \<noteq> None) \<or>
    order_request_ok (db_request (flatten_order sp)) \<and> sends_order (flatten_id env sp) (flatten_order sp) w w' \<and>
      (\<forall>c. c \<noteq> flatten_id env sp \<longrightarrow> db_order (mw_db w') c = db_order (mw_db w) c) \<and>
      ((\<exists>e. x = Inl e) \<or> x = Inr (created @ [flatten_id env sp]))"
proof (cases "order_request_ok (db_request (flatten_order sp))")
  case False
  with run open_pos show ?thesis
    by (auto simp: flatten_one_def flatten_order_def opposite_side_def Let_def split: prod.splits)
next
  case True
  obtain s p where sp: "sp = (s, p)" by fastforce
  let ?cid = "flatten_id env sp" and ?o = "flatten_order sp"
  let ?create = "create_order (sv_now (me_gateway env)) ?cid (MANUAL_CONTROL_STRATEGY_PREFIX @ ''flatten_all'')
      (db_request ?o) ''pending_new'' None None (mw_db w)"
  have run': "(case ?create of
        (Inl (IntegrityError m), d') \<Rightarrow> (Inr (created @ [?cid]), w)
      | (Inl e, d') \<Rightarrow> (Inl e, w\<lparr>mw_db := d'\<rparr>)
      | (Inr _, d') \<Rightarrow>
          (case submit_call api ?o ?cid (w\<lparr>mw_db := d'\<rparr>) of
             (Inr _, w') \<Rightarrow> (Inr (created @ [?cid]), w')
           | (Inl e, w') \<Rightarrow>
               if is_client_error e
               then refuse ''flatten_all'' ''positions'' ''*'' ''failed''
                 (HTTPException 502 (''Broker error: '' @ client_text e)) w'
               else (Inl (uncaught e), w'))) = (x, w')"
    using run open_pos True unfolding sp flatten_one_def flatten_order_def flatten_id_def opposite_side_def Let_def
      prod.case snd_conv by (simp only: if_False not_True_eq_False)
  show ?thesis
  proof (rule create_order_cases [OF pending_new_status, where d = "mw_db w" and cid = ?cid and
      now = "sv_now (me_gateway env)" and sid = "MANUAL_CONTROL_STRATEGY_PREFIX @ ''flatten_all''" and
      q = "db_request ?o" and bid = None and em = None])
    fix r assume "db_order (mw_db w) ?cid = Some r" "?create = (Inl (IntegrityError ?cid), mw_db w)"
    with run' show ?thesis by auto
  next
    fix row assume none: "db_order (mw_db w) ?cid = None" and c: "?create = (Inr row, db_set_order ?cid row (mw_db w))"
      and new: "new_order_row (sv_now (me_gateway env)) ?cid (MANUAL_CONTROL_STRATEGY_PREFIX @ ''flatten_all'')
        (db_request ?o) ''pending_new'' None None row"
    obtain y w1 where call: "submit_call api ?o ?cid (w\<lparr>mw_db := db_set_order ?cid row (mw_db w), mw_redis := mw_redis w\<rparr>) = (y, w1)"
      by (metis prod.exhaust)
    have row: "o_symbol row = or_symbol ?o" "o_side row = or_side ?o" "o_qty row = or_qty ?o"
      using new by (simp_all add: new_order_row_def db_request_def)
    note sent = submit_call_effect(1) [OF none row call]
    have same: "c \<noteq> ?cid \<Longrightarrow> db_order (mw_db w1) c = db_order (mw_db w) c" for c
      using call by (auto simp: submit_call_def split: prod.splits)
    have "audit_only w1 w' \<and> ((\<exists>e. x = Inl e) \<or> x = Inr (created @ [?cid]))"
      using run' c call by (auto split: sum.splits if_splits)
    with sent same sends_order_rows [OF sent audit_rows_only] True show ?thesis
      by (auto simp: audit_only_fields)
  qed
qed

lemma flatten_loop_sends:
  assumes "flatten_loop env api ps created w = (Inr cs, w')" "\<forall>sp \<in> set ps. p_qty (snd sp) \<noteq> 0"
    "distinct (map (flatten_id env) ps)"
  shows "cs = created @ map (flatten_id env) ps \<and>
    mw_sent w' = mw_sent w @ filter (\<lambda>e. db_order (mw_db w) (fst e) = None) (map (\<lambda>sp. (flatten_id env sp, flatten_order sp)) ps) \<and>
    (\<forall>c. c \<notin> flatten_id env ` set ps \<longrightarrow> db_order (mw_db w') c = db_order (mw_db w) c) \<and>
    (\<forall>sp \<in> set ps. db_order (mw_db w') (flatten_id env sp) \<noteq> None)"
  using assms
proof (induction ps arbitrary: created w)
  case Nil
  then show ?case by simp
next
  case (Cons sp ps)
  let ?cid = "flatten_id env sp"
  from Cons.prems(1) have "sbind (flatten_one env api sp created w) (flatten_loop env api ps) = (Inr cs, w')" by simp
  then obtain created1 w1 where one: "flatten_one env api sp created w = (Inr created1, w1)"
    and rest: "flatten_loop env api ps created1 w1 = (Inr cs, w')"
    by (cases rule: sbind_cases) auto
  note IH = Cons.IH [OF rest] Cons.prems(2,3)
  have fresh: "?cid \<notin> flatten_id env ` set ps" using Cons.prems(3) by auto
  have step: "created1 = created @ [?cid]"
    "mw_sent w1 = mw_sent w @ (if db_order (mw_db w) ?cid = None then [(?cid, flatten_order sp)] else [])"
    "\<forall>c. c \<noteq> ?cid \<longrightarrow> db_order (mw_db w1) c = db_order (mw_db w) c" "db_order (mw_db w1) ?cid \<noteq> None"
    using flatten_one_effect [OF one] Cons.prems(2) by (auto simp: sends_order_def)
  have same: "filter (\<lambda>e. db_order (mw_db w1) (fst e) = None) (map (\<lambda>sp. (flatten_id env sp, flatten_order sp)) ps) =
      filter (\<lambda>e. db_order (mw_db w) (fst e) = None) (map (\<lambda>sp. (flatten_id env sp, flatten_order sp)) ps)"
  proof (intro filter_cong refl)
    fix e assume "e \<in> set (map (\<lambda>sp. (flatten_id env sp, flatten_order sp)) ps)"
    then have "fst e \<in> flatten_id env ` set ps" by force
    with fresh have "fst e \<noteq> ?cid" by metis
    with step(3) show "(db_order (mw_db w1) (fst e) = None) = (db_order (mw_db w) (fst e) = None)" by simp
  qed
  from IH step same fresh show ?case by (auto simp: image_iff)
qed

lemma flatten_remainder:
  assumes "p_qty p \<noteq> 0"
  shows "\<bar>p_qty p + order_delta (flatten_order (s, p))\<bar> < 1"
    "p_qty p = of_int \<lfloor>p_qty p\<rfloor> \<Longrightarrow> p_qty p + order_delta (flatten_order (s, p)) = 0"
proof -
  have f: "of_int \<lfloor>\<bar>p_qty p\<bar>\<rfloor> \<le> \<bar>p_qty p\<bar>" "\<bar>p_qty p\<bar> < of_int \<lfloor>\<bar>p_qty p\<bar>\<rfloor> + 1"
    using floor_correct [of "\<bar>p_qty p\<bar>"] by simp_all
  have d: "order_delta (flatten_order (s, p)) = (if p_qty p > 0 then - of_int \<lfloor>\<bar>p_qty p\<bar>\<rfloor> else of_int \<lfloor>\<bar>p_qty p\<bar>\<rfloor>)"
    by (simp add: order_delta_def flatten_order_def manual_order_def opposite_side_def signed_qty_def)
  have remainder: "\<bar>q + (if q > 0 then - n else n)\<bar> < 1" if "n \<le> \<bar>q\<bar>" "\<bar>q\<bar> < n + 1" for n q :: rat
    using that by (auto simp: abs_if split: if_splits)
  show "\<bar>p_qty p + order_delta (flatten_order (s, p))\<bar> < 1"
    unfolding d using f by (rule remainder)
  assume whole: "p_qty p = of_int \<lfloor>p_qty p\<rfloor>"
  then have "of_int \<lfloor>\<bar>p_qty p\<bar>\<rfloor> = \<bar>p_qty p\<bar>" by (metis floor_of_int of_int_abs)
  with d assms show "p_qty p + order_delta (flatten_order (s, p)) = 0" by (auto simp: abs_if split: if_splits)
qed

text \<open>C26. Flattening closes every position.  When the request is answered and the generated identifiers
  differ, each open position has an order in the database under its identifier, the broker was sent
  exactly the orders that were not there before, in the order of the positions, and filled they leave
  less than one share of each position, and nothing of one that is a whole number.\<close>

theorem flatten_closes_everything:
  assumes run: "flatten_all_positions env w = (Inr resp, w')"
    and ids: "distinct (map (flatten_id env) (get_all_positions (mw_db w)))"
  shows "fl_orders_created resp = map (flatten_id env) (get_all_positions (mw_db w)) \<and>
    mw_sent w' = mw_sent w @ filter (\<lambda>e. db_order (mw_db w) (fst e) = None)
      (map (\<lambda>sp. (flatten_id env sp, flatten_order sp)) (get_all_positions (mw_db w))) \<and>
    (\<forall>(s, p) \<in> set (get_all_positions (mw_db w)). db_order (mw_db w') (flatten_id env (s, p)) \<noteq> None \<and>
       \<bar>p_qty p + order_delta (flatten_order (s, p))\<bar> < 1 \<and>
       (p_qty p = of_int \<lfloor>p_qty p\<rfloor> \<longrightarrow> p_qty p + order_delta (flatten_order (s, p)) = 0))"
  using run unfolding flatten_all_positions_def
proof (cases rule: sbind_cases)
  case (stop e)
  then show ?thesis by simp
next
  case (go u w1)
  note a = audit_only_fields [OF manual_entry_audit [OF go(1)]]
  have open_pos: "\<forall>sp \<in> set (get_all_positions (mw_db w)). p_qty (snd sp) \<noteq> 0"
    by (auto simp: get_all_positions_def)
  from go(2) a show ?thesis
  proof (cases "get_all_positions (mw_db w) = []")
    case True
    with go(2) a show ?thesis
      by (auto simp: has_permission_def Let_def split: if_splits)
  next
    case False
    with go(2) a(2) obtain api created w2 where
      loop: "flatten_loop env api (get_all_positions (mw_db w)) [] w1 = (Inr created, w2)"
      and resp: "fl_orders_created resp = created" "mw_sent w' = mw_sent w2" "mw_db w' = mw_db w2"
      by (auto simp: has_permission_def Let_def split: if_splits option.splits elim!: sbind_cases)
    from flatten_loop_sends [OF loop open_pos ids] resp a open_pos flatten_remainder show ?thesis
      by auto
  qed
qed


text \<open>A position of less than one share ends the request: its order has no quantity.\<close>

lemma flatten_stops_at_fraction:
  assumes "p_qty p \<noteq> 0" "\<bar>p_qty p\<bar> < 1"
  shows "flatten_one env api (s, p) created w = (Inl (ValueError ''validation error for OrderRequest''), w)"
proof -
  have "\<lfloor>\<bar>p_qty p\<bar>\<rfloor> = 0" using assms(2) by (simp add: floor_eq_iff)
  then show ?thesis using assms(1)
    by (simp add: flatten_one_def manual_order_def db_request_def order_request_ok_def)
qed

section \<open>All requests together\<close>

text \<open>Rows are kept, and a new valid order may be sent: the steps a request is made of.\<close>

definition manual_move :: "('s, 'j) manual_world \<Rightarrow> ('s, 'j) manual_world \<Rightarrow> bool" where
  "manual_move w w' \<longleftrightarrow> keeps_sent w w' \<or>
     (\<exists>cid order. sends_order cid order w w' \<and> order_request_ok (db_request order))"

lemma keeps_moves: "keeps_sent w w' \<Longrightarrow> manual_move\<^sup>*\<^sup>* w w'"
  by (rule r_into_rtranclp) (simp add: manual_move_def)

lemma sends_moves: "sends_order cid order w w' \<Longrightarrow> order_request_ok (db_request order) \<Longrightarrow> manual_move\<^sup>*\<^sup>* w w'"
  by (rule r_into_rtranclp) (auto simp: manual_move_def)

lemma close_moves:
  assumes "close_position env symbol requested w = (x, w')"
  shows "manual_move\<^sup>*\<^sup>* w w'"
  using assms unfolding close_position_def Let_def
proof (cases rule: position_endpoint_cases)
  case refused
  then show ?thesis by (intro keeps_moves audit_keeps_sent)
next
  case (found position w1)
  from close_found_effect [OF found(3) all_positions_open [OF found(2)] upper_upper]
  have "manual_move\<^sup>*\<^sup>* w1 w'" by (auto intro: keeps_moves audit_keeps_sent sends_moves stored_sends_order)
  with keeps_moves [OF audit_keeps_sent [OF found(1)]] show ?thesis by (rule rtranclp_trans)
qed

lemma adjust_moves:
  assumes "adjust_position env symbol q w = (x, w')"
  shows "manual_move\<^sup>*\<^sup>* w w'"
  using assms unfolding adjust_position_def Let_def
proof (cases rule: position_endpoint_cases)
  case refused
  then show ?thesis by (intro keeps_moves audit_keeps_sent)
next
  case (found position w1)
  from adjust_found_effect [OF found(3) upper_upper]
  have "manual_move\<^sup>*\<^sup>* w1 w'" by (auto intro: keeps_moves audit_keeps_sent sends_moves stored_sends_order)
  with keeps_moves [OF audit_keeps_sent [OF found(1)]] show ?thesis by (rule rtranclp_trans)
qed

lemma cancel_one_keeps:
  assumes "cancel_one env api r acc w = (x, w')"
  shows "keeps_sent w w'"
proof (cases "strategy_allowed (me_user env) (o_strategy_id r)")
  case False
  with assms audit_keeps_sent [OF audit_only_log] show ?thesis by (auto simp: cancel_one_def Let_def)
next
  case True
  let ?cid = "o_client_order_id r"
  obtain y w1 where s: "set_status env (MarkPendingCancel ?cid) ?cid ''pending_cancel'' None None w = (y, w1)"
    by (metis prod.exhaust)
  note k1 = rows_keep_sent [OF set_status_effect(1) [OF s]]
  have logged: "keeps_sent w2 (log_action a t i out w2)" for a t i out and w2 :: "('a, 'b) manual_world"
    by (simp add: audit_keeps_sent)
  obtain z w2 where m: "set_status env (MarkCanceled ?cid) ?cid ''canceled'' None None w1 = (z, w2)"
    by (metis prod.exhaust)
  note k2 = rows_keep_sent [OF set_status_effect(1) [OF m]]
  show ?thesis
  proof (cases y)
    case (Inl e)
    with assms s True k1 keeps_sent_trans [OF k1 logged] show ?thesis
      by (auto simp: cancel_one_def Let_def split: if_splits)
  next
    case (Inr u)
    show ?thesis
    proof (cases "o_broker_order_id r \<in> {None, Some []}")
      case True
      with assms s Inr m \<open>strategy_allowed (me_user env) (o_strategy_id r)\<close> have "w' = w2"
        by (cases z) (auto simp: cancel_one_def Let_def)
      with keeps_sent_trans [OF k1 k2] show ?thesis by simp
    next
      case False
      then obtain bid where bid: "o_broker_order_id r = Some bid" "bid \<noteq> []" by auto
      obtain c w3 where call: "cancel_call api bid w1 = (c, w3)" by (metis prod.exhaust)
      then have k3: "keeps_sent w1 w3" by (auto simp: cancel_call_def keeps_sent_def split: prod.splits)
      have rev: "keeps_sent w3 w'" if "c = Inl e"
        "sbind (try_status env (RevertStatus ?cid) ?cid (o_status r) m' w3) (\<lambda>_. f) = (x, w')"
        "\<And>w x w'. f w = (x, w') \<Longrightarrow> keeps_sent w w'" for e m' f
        using that(2)
      proof (cases rule: sbind_cases)
        case (stop e)
        from rows_keep_sent [OF try_status_effect(1) [OF stop(1)]] show ?thesis .
      next
        case (go a w4)
        from keeps_sent_trans [OF rows_keep_sent [OF try_status_effect(1) [OF go(1)]] that(3) [OF go(2)]] show ?thesis .
      qed
      have "keeps_sent w3 w'"
        using assms s Inr bid call \<open>strategy_allowed (me_user env) (o_strategy_id r)\<close>
        by (auto simp: cancel_one_def Let_def logged split: sum.splits if_splits elim!: rev)
      with keeps_sent_trans [OF k1 keeps_sent_trans [OF k3]] show ?thesis by blast
    qed
  qed
qed

lemma cancel_loop_keeps:
  "cancel_loop env api rs acc w = (x, w') \<Longrightarrow> keeps_sent w w'"
proof (induction rs arbitrary: acc w)
  case (Cons r rs)
  from Cons.prems have "sbind (cancel_one env api r acc w) (cancel_loop env api rs) = (x, w')" by simp
  then show ?case
    by (cases rule: sbind_cases) (auto dest: cancel_one_keeps Cons.IH intro: keeps_sent_trans)
qed auto

lemma keeps_logged: "keeps_sent w w1 \<Longrightarrow> keeps_sent w (log_action a t i out w1)"
  by (erule keeps_sent_trans) (intro audit_keeps_sent audit_only_log)

lemma cancel_all_moves:
  assumes "cancel_all_orders env symbol w = (x, w')"
  shows "manual_move\<^sup>*\<^sup>* w w'"
  using assms unfolding cancel_all_orders_def
proof (cases rule: entry_scope_cases)
  case refused
  then show ?thesis by (intro keeps_moves audit_keeps_sent)
next
  case (on scope w1)
  have "keeps_sent w1 w'"
    using on(2)
    by (auto simp: Let_def split: sum.splits prod.splits option.splits if_splits elim!: sbind_cases
        dest: cancel_loop_keeps intro!: keeps_logged)
  with keeps_sent_trans [OF audit_keeps_sent [OF on(1)]] show ?thesis by (blast intro: keeps_moves)
qed

lemma cancel_moves:
  assumes "manual_cancel_order env cid w = (x, w')"
  shows "manual_move\<^sup>*\<^sup>* w w'"
  using assms unfolding manual_cancel_order_def
proof (cases rule: entry_scope_cases)
  case refused
  then show ?thesis by (intro keeps_moves audit_keeps_sent)
next
  case (on scope w1)
  have "keeps_sent w1 w'"
  proof (cases "get_order_by_client_id cid (mw_db w1)")
    case (Inl e)
    with on(2) show ?thesis by auto
  next
    case (Inr found)
    then have row: "found = Some r \<Longrightarrow> db_order (mw_db w1) cid = Some r" for r
      by (auto simp: get_order_by_client_id_def order_detail_def rbind_def split: option.splits if_splits sum.splits)
    from on(2) Inr show ?thesis
      by (auto simp: strategy_allowed_def has_permission_def audit_keeps_sent split: option.splits
          dest!: cancel_found_effect [OF _ row] intro: audit_keeps_sent) (auto simp: keeps_sent_def)
  qed
  with keeps_sent_trans [OF audit_keeps_sent [OF on(1)]] show ?thesis by (blast intro: keeps_moves)
qed

lemma submit_moves:
  assumes "submit_manual_order env rv q w = (x, w')"
  shows "manual_move\<^sup>*\<^sup>* w w'"
  using submit_manual_order_effect [OF assms]
  by (auto simp: live_order_sent_def intro: keeps_moves sends_moves sends_order_from)

lemma flatten_loop_moves:
  "flatten_loop env api ps created w = (x, w') \<Longrightarrow> \<forall>sp \<in> set ps. p_qty (snd sp) \<noteq> 0 \<Longrightarrow> manual_move\<^sup>*\<^sup>* w w'"
proof (induction ps arbitrary: created w)
  case (Cons sp ps)
  have one: "manual_move\<^sup>*\<^sup>* w w1" if "flatten_one env api sp created w = (y, w1)" for y w1
    using flatten_one_effect [OF that] Cons.prems(2) by (auto intro: sends_moves)
  from Cons.prems(1) have "sbind (flatten_one env api sp created w) (flatten_loop env api ps) = (x, w')" by simp
  then show ?case
    using Cons.prems(2) by (cases rule: sbind_cases) (auto dest: one Cons.IH intro: rtranclp_trans)
qed auto

lemma flatten_moves:
  assumes "flatten_all_positions env w = (x, w')"
  shows "manual_move\<^sup>*\<^sup>* w w'"
  using assms unfolding flatten_all_positions_def
proof (cases rule: sbind_cases)
  case (stop e)
  from keeps_moves [OF audit_keeps_sent [OF manual_entry_audit [OF stop(1)]]] show ?thesis .
next
  case (go u w1)
  note entry = manual_entry_audit [OF go(1)]
  have open_pos: "\<forall>sp \<in> set (get_all_positions (mw_db w1)). p_qty (snd sp) \<noteq> 0"
    by (auto simp: get_all_positions_def)
  have logged: "manual_move\<^sup>*\<^sup>* w2 (log_action a t i out w2)" for a t i out and w2 :: "('a, 'b) manual_world"
    by (intro keeps_moves audit_keeps_sent audit_only_log)
  have "manual_move\<^sup>*\<^sup>* w1 w'"
    using go(2) open_pos
    by (auto simp: has_permission_def Let_def logged split: if_splits option.splits elim!: sbind_cases
        dest!: flatten_loop_moves intro: rtranclp_trans logged)
  with keeps_moves [OF audit_keeps_sent [OF entry]] show ?thesis by (rule rtranclp_trans)
qed

text \<open>
  A step of the operator's state: one of the requests, with whatever environment, or a change by others,
  who may update rows and positions, change Redis, the jobs and the broker, but send no order under the
  log of this endpoint and delete no row.
\<close>

inductive manual_step :: "('s, 'j) manual_world \<Rightarrow> ('s, 'j) manual_world \<Rightarrow> bool" where
  cancels: "manual_cancel_order env cid w = (x1, w') \<Longrightarrow> manual_step w w'"
| cancels_all: "cancel_all_orders env symbol w = (x2, w') \<Longrightarrow> manual_step w w'"
| closes: "close_position env symbol requested w = (x3, w') \<Longrightarrow> manual_step w w'"
| adjusts: "adjust_position env symbol q w = (x4, w') \<Longrightarrow> manual_step w w'"
| flattens: "flatten_all_positions env w = (x5, w') \<Longrightarrow> manual_step w w'"
| submits: "submit_manual_order env rv m w = (x6, w') \<Longrightarrow> manual_step w w'"
| others: "keeps_sent w w' \<Longrightarrow> manual_step w w'"

inductive_cases manual_stepE: "manual_step w w'"

text \<open>Every identifier was sent at most once, with a valid order that its row describes.\<close>

definition send_log_ok :: "('s, 'j) manual_world \<Rightarrow> bool" where
  "send_log_ok w \<longleftrightarrow> distinct (map fst (mw_sent w)) \<and>
     (\<forall>(cid, order) \<in> set (mw_sent w). order_request_ok (db_request order) \<and>
        (\<exists>r. db_order (mw_db w) cid = Some r \<and> o_symbol r = or_symbol order \<and> o_side r = or_side order \<and>
           o_qty r = or_qty order))"

lemma send_log_kept:
  assumes ok: "send_log_ok w" and kept: "keeps_sent w w'"
  shows "send_log_ok w'"
proof -
  have "\<exists>r. db_order (mw_db w') cid = Some r \<and> o_symbol r = or_symbol order \<and> o_side r = or_side order \<and>
      o_qty r = or_qty order" if "(cid, order) \<in> set (mw_sent w)" for cid order
  proof -
    from ok that obtain r where "db_order (mw_db w) cid = Some r" "o_symbol r = or_symbol order"
      "o_side r = or_side order" "o_qty r = or_qty order" unfolding send_log_ok_def by blast
    with kept show ?thesis unfolding keeps_sent_def orders_kept_def by metis
  qed
  with ok kept show ?thesis unfolding send_log_ok_def keeps_sent_def by auto
qed

lemma send_log_move:
  assumes ok: "send_log_ok w" and move: "manual_move w w'"
  shows "send_log_ok w'"
  using move unfolding manual_move_def
proof (elim disjE exE conjE)
  fix cid order assume sent: "sends_order cid order w w'" and valid: "order_request_ok (db_request order)"
  have new: "cid \<notin> fst ` set (mw_sent w)"
    using ok sent by (auto simp: send_log_ok_def sends_order_def)
  have "send_log_ok (w'\<lparr>mw_sent := mw_sent w\<rparr>)"
    by (rule send_log_kept [OF ok]) (use sent in \<open>simp add: keeps_sent_def sends_order_def\<close>)
  with new valid sent show ?thesis by (auto simp: send_log_ok_def sends_order_def)
qed (rule send_log_kept [OF ok])

lemma manual_step_moves: "manual_step w w' \<Longrightarrow> manual_move\<^sup>*\<^sup>* w w'"
  by (erule manual_stepE)
    (blast intro: cancel_moves cancel_all_moves close_moves adjust_moves flatten_moves submit_moves keeps_moves)+

text \<open>C22. Every order of the operator is well formed and sent once.  Over any sequence of requests, with
  any environments, and any changes by others in between, the log of what was sent holds each identifier
  at most once; each order in it passes the schema's checks and has a row in the database with its
  symbol, side and quantity.\<close>

theorem manual_orders_well_formed:
  assumes steps: "manual_step\<^sup>*\<^sup>* w w'" and ok: "send_log_ok w"
  shows "send_log_ok w'"
  using steps
proof induction
  case base
  from ok show ?case .
next
  case (step w1 w2)
  from manual_step_moves [OF step(2)] step(3) show ?case
    by induction (auto intro: send_log_move)
qed

section \<open>Concrete requests\<close>

definition demo_manual_request :: manual_request where
  "demo_manual_request =
     \<lparr>mq_symbol = ''aapl'', mq_side = ''buy'', mq_qty = 10, mq_order_type = ''limit'', mq_limit_price = Some 150,
      mq_stop_price = None, mq_time_in_force = ''day'', mq_execution_style = ''instant'',
      mq_twap_duration_minutes = None, mq_twap_interval_seconds = None, mq_start_time = None\<rparr>"

lemma demo_scope [simp]:
  "require_non_empty_strategy_scope demo_manual_env a t i w = (Inr None, w)"
  by (simp add: require_non_empty_strategy_scope_def apply_strategy_scope_def has_permission_def)

lemma demo_passes: "breaker_passes demo_manual_env demo_redis"
  using demo_breaker(1) by (auto simp: breaker_names_state_def breaker_passes_def)

lemma manual_order_guarded_witness:
  "\<exists>x w' cid order. submit_manual_order demo_manual_env demo_recovery demo_manual_request demo_manual_world = (x, w') \<and>
     mw_sent w' = [(cid, order)] \<and> or_qty order = 10 \<and> ks_is_engaged demo_redis = Inr False"
proof -
  obtain x w' where run: "submit_manual_order demo_manual_env demo_recovery demo_manual_request demo_manual_world = (x, w')"
    by fastforce
  let ?o = "manual_request_order demo_manual_request 10"
  let ?cid = "generate_manual_order_id demo_manual_env ''manual_trade'' (or_symbol ?o) (or_side ?o) 10
     (Some (mq_order_type demo_manual_request)) (mq_limit_price demo_manual_request)
     (mq_stop_price demo_manual_request) (Some (mq_time_in_force demo_manual_request))"
  have qty: "require_integral_qty (mq_qty demo_manual_request) = Inr 10"
    by (simp add: require_integral_qty_def demo_manual_request_def)
  have ok: "order_request_ok (db_request ?o)"
    "twap_fields_ok demo_manual_request 10 (sv_now (me_gateway demo_manual_env))"
    "mq_execution_style demo_manual_request = ''instant''"
    by (simp_all add: order_request_ok_def db_request_def manual_request_order_def demo_manual_request_def
        positive_price_def twap_fields_ok_def)
  have ks: "ks_is_engaged demo_redis = Inr False" by code_simp
  have ff: "\<not> fat_finger_breached (me_gateway demo_manual_env) ?o" by code_simp
  have cb: "check_circuit_breaker demo_manual_env a demo_manual_world = (Inr (), demo_manual_world)" for a
    using demo_passes by (auto simp: check_circuit_breaker_def breaker_passes_def Let_def)
  have gates: "manual_order_gates demo_manual_env demo_recovery ?o ?cid demo_manual_world = (Inr (), demo_manual_world)"
    using ks ff cb by (simp add: manual_order_gates_def check_kill_switch_def demo_recovery_def)
  have "submit_live_manual_order demo_manual_env (demo_api []) ?o ?cid demo_manual_world = (x, w')"
    using run qty ok gates by (simp add: submit_manual_order_def Let_def place_manual_order_def)
  from submit_live_effect [OF this] have "mw_sent w' \<noteq> []"
    using demo_passes by (auto simp: live_order_sent_def sends_order_def)
  with manual_order_guarded [OF run] run ks qty show ?thesis
    by (auto simp: keeps_sent_def live_order_sent_def sends_order_def demo_manual_request_def audit_only_fields)
qed




lemma demo_submit: "\<exists>bo s'. alpaca_submit_order (demo_api []) (manual_order ''AAPL'' ''sell'' 10 ''market'' None) cid ([], 0) = (Inr bo, s')"
proof -
  have "(case fst (alpaca_submit_order (demo_api []) (manual_order ''AAPL'' ''sell'' 10 ''market'' None) cid ([], 0)) of
      Inl e \<Rightarrow> False | Inr bo \<Rightarrow> True)" by code_simp
  then show ?thesis by (cases "alpaca_submit_order (demo_api []) (manual_order ''AAPL'' ''sell'' 10 ''market'' None) cid ([], 0)")
    (auto split: sum.splits)
qed

lemma flatten_closes_everything_witness:
  "\<exists>resp w' cid order. flatten_all_positions demo_manual_env demo_manual_world = (Inr resp, w') \<and>
     mw_sent w' = [(cid, order)] \<and> 10 + order_delta order = 0"
proof -
  let ?o = "manual_order ''AAPL'' ''sell'' 10 ''market'' None"
  let ?cid = "generate_manual_order_id demo_manual_env ''flatten_all'' ''AAPL'' ''sell'' 10 None None None None"
  obtain bo s' where submit: "alpaca_submit_order (demo_api []) ?o ?cid ([], 0) = (Inr bo, s')" using demo_submit by blast
  obtain row where create: "create_order (sv_now (me_gateway demo_manual_env)) ?cid
      (MANUAL_CONTROL_STRATEGY_PREFIX @ ''flatten_all'') (db_request ?o) ''pending_new'' None None (mw_db demo_manual_world) =
      (Inr row, db_set_order ?cid row (mw_db demo_manual_world))"
    by (rule create_order_cases [OF pending_new_status, of "mw_db demo_manual_world" ?cid]) auto
  have ok: "order_request_ok (db_request ?o)" by (rule market_order_ok) simp
  obtain w1 where one: "flatten_one demo_manual_env (demo_api []) (''AAPL'', demo_position) [] demo_manual_world = (Inr [?cid], w1)"
    using submit create ok by (auto simp: flatten_one_def Let_def submit_call_def)
  then obtain resp w' where run: "flatten_all_positions demo_manual_env demo_manual_world = (Inr resp, w')"
    by (auto simp: flatten_all_positions_def has_permission_def Let_def demo_positions)
  have ids: "distinct (map (flatten_id demo_manual_env) (get_all_positions (mw_db demo_manual_world)))"
    by (simp add: demo_positions)
  from flatten_closes_everything [OF run ids] run show ?thesis
    by (auto simp: demo_positions)
qed

lemma manual_orders_well_formed_witness:
  "\<exists>x w'. close_position demo_manual_env ''aapl'' None demo_manual_world = (x, w') \<and> mw_sent w' \<noteq> [] \<and> send_log_ok w'"
proof -
  obtain x w' where run: "close_position demo_manual_env ''aapl'' None demo_manual_world = (x, w')" by fastforce
  have "manual_step\<^sup>*\<^sup>* demo_manual_world w'" using closes [OF run] by blast
  moreover have "send_log_ok demo_manual_world" by (simp add: send_log_ok_def)
  ultimately have "send_log_ok w'" by (rule manual_orders_well_formed)
  with run demo_close_sends [OF run] show ?thesis by blast
qed

end
