(* ===== verification/Orchestrator.thy ===== *)
theory Orchestrator
  imports Gateway
begin

text \<open>
  The orchestrator, \<^verbatim>\<open>apps/orchestrator\<close>: signals are fetched, weighed against prices from Redis, turned
  into orders and posted to the execution gateway, and the run is stored.  The state of a run is its
  cache of prices with the number of clock readings and of calls to Redis so far, and the gateway behind
  HTTP.  Arguments are the clock, the contents of Redis at every call and which calls fail, the parsers
  of numbers and dates, the answers of the signal service, the allocator of several strategies and the
  gateway's answers.  Weights are the decimals that \<^verbatim>\<open>Decimal(str(w))\<close> reads, decimals are
  exact, and messages are shortened where they list values.
\<close>

section \<open>Signals, orders and errors\<close>

record signal =
  sg_symbol :: string
  sg_predicted_return :: rat
  sg_rank :: int
  sg_target_weight :: rat

record signal_response =
  sr_signals :: "signal list"
  sr_as_of_date :: string

record signal_order_mapping =
  sm_symbol :: string
  sm_predicted_return :: rat
  sm_rank :: int
  sm_target_weight :: rat
  sm_client_order_id :: "string option"
  sm_order_qty :: "int option"
  sm_order_side :: "string option"
  sm_broker_order_id :: "string option"
  sm_order_status :: "string option"
  sm_skip_reason :: "string option"

record order_submission =
  ob_client_order_id :: string
  ob_status :: string
  ob_broker_order_id :: "string option"

text \<open>The exceptions the orchestrator tells apart; \<open>Unexpected\<close> are all others.\<close>

datatype orch_error =
    ConnectTimeout string | HTTPStatusError nat string | HttpNetworkError string
  | InvalidResponse string | InvalidData string | Unexpected string

text \<open>
  What one POST comes to: an answer with its body, or an exception of the HTTP client; \<open>TimeoutException\<close>
  includes the connection timeouts.
\<close>

datatype 'b http_body = Parsed 'b | ValidationFailed string | NotJson string | NotAMapping string

datatype 'b http_reply =
    Response nat "'b http_body" | TimeoutException string | ConnectError string | NetworkError string
  | OtherRaised string

text \<open>The common part of the two clients; \<open>None\<close> is an exception the decorator retries on.\<close>

fun http_result :: "'b http_reply \<Rightarrow> (orch_error + 'b) option" where
  "http_result (TimeoutException m) = None"
| "http_result (ConnectError m) = None"
| "http_result (NetworkError m) = Some (Inl (HttpNetworkError m))"
| "http_result (OtherRaised m) = Some (Inl (Unexpected m))"
| "http_result (Response code body) =
     Some (if code < 200 \<or> 300 \<le> code then Inl (HTTPStatusError code ''error response'')
           else case body of
             Parsed x \<Rightarrow> Inr x
           | ValidationFailed m \<Rightarrow> Inl (InvalidResponse m)
           | NotJson m \<Rightarrow> Inl (InvalidData m)
           | NotAMapping m \<Rightarrow> Inl (Unexpected m))"

record 'g orch_env =
  oe_capital :: rat
  oe_max_position_size :: rat
  oe_max_price_age :: int
  oe_allocation_method :: string
  oe_redis :: "(nat \<Rightarrow> redis) option"
  oe_redis_fails :: "nat \<Rightarrow> bool"
  oe_now :: "nat \<Rightarrow> rat"
  oe_decimal :: "json \<Rightarrow> rat option"
  oe_fromiso :: "json \<Rightarrow> rat option"
  oe_fetch :: "string \<Rightarrow> nat \<Rightarrow> signal_response http_reply"
  oe_allocate :: "string \<Rightarrow> bool \<Rightarrow> (string \<times> (string \<times> rat \<times> rat) list) list \<Rightarrow>
    orch_error + (string \<times> rat) list"
  oe_post :: "order_request \<Rightarrow> 'g \<Rightarrow> order_submission http_reply \<times> 'g"
  oe_today :: string

section \<open>Prices\<close>

record price_state =
  ps_cache :: "string \<Rightarrow> rat option"
  ps_timestamps :: "string \<Rightarrow> rat option"
  ps_redis_unavailable :: bool
  ps_prefetch_attempted :: "string list"
  ps_clock :: nat
  ps_reads :: nat

definition orch_init :: "rat \<Rightarrow> int \<Rightarrow> string \<Rightarrow> (string \<times> rat) list \<Rightarrow> orch_error + price_state" where
  "orch_init now max_price_age allocation_method price_cache =
     (if max_price_age \<le> 0 then Inl (InvalidData ''max_price_age_seconds must be > 0'')
      else if allocation_method = ''inverse_vol''
      then Inl (InvalidData ''allocation_method='inverse_vol' is not yet supported by the orchestrator'')
      else Inr \<lparr>ps_cache = map_of (rev price_cache),
                ps_timestamps = (\<lambda>s. if s \<in> fst ` set price_cache then Some now else None),
                ps_redis_unavailable = False, ps_prefetch_attempted = [], ps_clock = 0, ps_reads = 0\<rparr>)"

definition price_key :: "string \<Rightarrow> string" where
  "price_key symbol = ''price:'' @ symbol"

text \<open>\<open>MGET\<close>: a value that is no string counts as absent.\<close>

definition redis_mget :: "redis \<Rightarrow> string list \<Rightarrow> rval option list" where
  "redis_mget r keys =
     map (\<lambda>k. case redis_get r k of Some (RJson j) \<Rightarrow> Some (RJson j) | Some (RRaw s) \<Rightarrow> Some (RRaw s) | _ \<Rightarrow> None) keys"

text \<open>A payload is a price and its time, or is ignored; every exception of the parsing is caught.\<close>

definition parse_redis_price_json ::
  "'g orch_env \<Rightarrow> rat \<Rightarrow> string \<Rightarrow> rval \<Rightarrow> (rat \<times> rat) option" where
  "parse_redis_price_json env now expected_symbol raw =
     (case raw of
        RJson (JObj price_data) \<Rightarrow>
          if dict_get price_data ''symbol'' \<noteq> Some (JStr expected_symbol) then None
          else (case dict_get_or price_data ''timestamp'' JNull of
              JNull \<Rightarrow> None
            | ts_raw \<Rightarrow>
                (case oe_fromiso env ts_raw of
                   None \<Rightarrow> None
                 | Some price_ts \<Rightarrow>
                     let age = now - price_ts
                     in if age < - 5 then None
                        else if age > of_int (oe_max_price_age env) then None
                        else (case dict_get_or price_data ''mid'' JNull of
                            JNull \<Rightarrow> None
                          | mid_raw \<Rightarrow>
                              (case oe_decimal env mid_raw of
                                 None \<Rightarrow> None
                               | Some mid \<Rightarrow> if mid \<le> 0 then None else Some (mid, price_ts)))))
      | _ \<Rightarrow> None)"

definition parse_and_cache_price ::
  "'g orch_env \<Rightarrow> string \<Rightarrow> rval \<Rightarrow> price_state \<Rightarrow> rat option \<times> price_state" where
  "parse_and_cache_price env symbol raw st =
     (let st1 = st\<lparr>ps_clock := ps_clock st + 1\<rparr> in
      case parse_redis_price_json env (oe_now env (ps_clock st)) symbol raw of
        None \<Rightarrow> (None, st1)
      | Some (mid, ts) \<Rightarrow>
          (Some mid, st1\<lparr>ps_cache := (ps_cache st)(symbol := Some mid),
                         ps_timestamps := (ps_timestamps st)(symbol := Some ts)\<rparr>))"

definition needs_price :: "'g orch_env \<Rightarrow> rat \<Rightarrow> price_state \<Rightarrow> string \<Rightarrow> bool" where
  "needs_price env now st symb \<longleftrightarrow>
     (case ps_cache st symb of
        None \<Rightarrow> True
      | Some _ \<Rightarrow> (case ps_timestamps st symb of
          None \<Rightarrow> True | Some ts \<Rightarrow> now - ts > of_int (oe_max_price_age env)))"

definition evict :: "string \<Rightarrow> price_state \<Rightarrow> price_state" where
  "evict symb st = st\<lparr>ps_cache := (ps_cache st)(symb := None), ps_timestamps := (ps_timestamps st)(symb := None)\<rparr>"

fun cache_prices :: "'g orch_env \<Rightarrow> (string \<times> rval option) list \<Rightarrow> price_state \<Rightarrow> price_state" where
  "cache_prices env [] st = st"
| "cache_prices env ((symb, None) # rest) st = cache_prices env rest st"
| "cache_prices env ((symb, Some raw) # rest) st =
     cache_prices env rest (snd (parse_and_cache_price env symb raw st))"

definition prefetch_prices :: "'g orch_env \<Rightarrow> string list \<Rightarrow> price_state \<Rightarrow> price_state" where
  "prefetch_prices env symbols st =
     (case oe_redis env of
        None \<Rightarrow> st
      | Some redis_at \<Rightarrow>
          if symbols = [] then st
          else
            let now = oe_now env (ps_clock st); needed = filter (needs_price env now st) symbols;
                st1 = st\<lparr>ps_clock := ps_clock st + 1\<rparr>
            in if needed = [] then st1
               else
                 let st2 = (fold evict needed st1)\<lparr>ps_reads := ps_reads st + 1\<rparr>
                 in if oe_redis_fails env (ps_reads st) then st2\<lparr>ps_redis_unavailable := True\<rparr>
                    else
                      let raws = redis_mget (redis_at (ps_reads st)) (map price_key needed);
                          st3 = cache_prices env (zip needed raws) st2
                      in st3\<lparr>ps_prefetch_attempted := ps_prefetch_attempted st @ needed\<rparr>)"

text \<open>No price is the only exception: \<open>PriceUnavailableError\<close>.\<close>

definition fetch_price :: "'g orch_env \<Rightarrow> string \<Rightarrow> price_state \<Rightarrow> rat option \<times> price_state" where
  "fetch_price env symbol st =
     (case oe_redis env of
        None \<Rightarrow> (None, st)
      | Some redis_at \<Rightarrow>
          if ps_redis_unavailable st \<or> symbol \<in> set (ps_prefetch_attempted st) then (None, st)
          else
            let st1 = st\<lparr>ps_reads := ps_reads st + 1\<rparr>
            in if oe_redis_fails env (ps_reads st) then (None, st1\<lparr>ps_redis_unavailable := True\<rparr>)
               else (case redis_get (redis_at (ps_reads st)) (price_key symbol) of
                   None \<Rightarrow> (None, st1)
                 | Some (RJson j) \<Rightarrow> parse_and_cache_price env symbol (RJson j) st1
                 | Some (RRaw s) \<Rightarrow> parse_and_cache_price env symbol (RRaw s) st1
                 | Some _ \<Rightarrow> (None, st1\<lparr>ps_redis_unavailable := True\<rparr>)))"

definition get_current_price :: "'g orch_env \<Rightarrow> string \<Rightarrow> price_state \<Rightarrow> rat option \<times> price_state" where
  "get_current_price env symbol st =
     (case ps_cache st symbol of
        Some price \<Rightarrow>
          (case ps_timestamps st symbol of
             Some ts \<Rightarrow>
               if oe_now env (ps_clock st) - ts \<le> of_int (oe_max_price_age env)
               then (Some price, st\<lparr>ps_clock := ps_clock st + 1\<rparr>)
               else fetch_price env symbol (evict symbol (st\<lparr>ps_clock := ps_clock st + 1\<rparr>))
           | None \<Rightarrow> fetch_price env symbol (st\<lparr>ps_cache := (ps_cache st)(symbol := None)\<rparr>))
      | None \<Rightarrow> fetch_price env symbol st)"

section \<open>Position sizes\<close>

definition calculate_position_size :: "rat \<Rightarrow> rat \<Rightarrow> rat \<Rightarrow> rat \<Rightarrow> (int \<times> rat) option" where
  "calculate_position_size target_weight capital price size_cap =
     (let dollar_amount = min (\<bar>target_weight\<bar> * capital) size_cap
      in if price = 0 then None else Some (py_int (dollar_amount / price), dollar_amount))"

definition base_mapping :: "signal \<Rightarrow> signal_order_mapping" where
  "base_mapping s =
     \<lparr>sm_symbol = sg_symbol s, sm_predicted_return = sg_predicted_return s, sm_rank = sg_rank s,
      sm_target_weight = sg_target_weight s, sm_client_order_id = None, sm_order_qty = None,
      sm_order_side = None, sm_broker_order_id = None, sm_order_status = None, sm_skip_reason = None\<rparr>"

definition map_signal ::
  "'g orch_env \<Rightarrow> signal \<Rightarrow> price_state \<Rightarrow> (orch_error + signal_order_mapping) \<times> price_state" where
  "map_signal env s st =
     (let m = base_mapping s;
          dollar_amount = \<bar>sg_target_weight s\<bar> * oe_capital env;
          dollar_amount = (if dollar_amount > oe_max_position_size env then oe_max_position_size env else dollar_amount)
      in if sg_target_weight s = 0 then (Inr (m\<lparr>sm_skip_reason := Some ''zero_weight''\<rparr>), st)
         else case get_current_price env (sg_symbol s) st of
           (None, st1) \<Rightarrow>
             (Inr (m\<lparr>sm_skip_reason := Some (''price_unavailable: Price unavailable for '' @ sg_symbol s)\<rparr>), st1)
         | (Some price, st1) \<Rightarrow>
             if price = 0 then (Inl (Unexpected ''decimal.DivisionByZero''), st1)
             else
               let qty = py_int (dollar_amount / price)
               in if qty < 1 then (Inr (m\<lparr>sm_skip_reason := Some ''qty_less_than_one_share''\<rparr>), st1)
                  else (Inr (m\<lparr>sm_order_qty := Some qty, sm_order_side := Some (if sg_target_weight s > 0 then ''buy'' else ''sell'')\<rparr>), st1))"

fun map_signals ::
  "'g orch_env \<Rightarrow> signal list \<Rightarrow> price_state \<Rightarrow> (orch_error + signal_order_mapping list) \<times> price_state" where
  "map_signals env [] st = (Inr [], st)"
| "map_signals env (s # ss) st =
     (case map_signal env s st of
        (Inl e, st1) \<Rightarrow> (Inl e, st1)
      | (Inr m, st1) \<Rightarrow>
          (case map_signals env ss st1 of
             (Inl e, st2) \<Rightarrow> (Inl e, st2)
           | (Inr ms, st2) \<Rightarrow> (Inr (m # ms), st2)))"

text \<open>\<open>dict.fromkeys\<close> keeps the first of equal keys.\<close>

definition dedup :: "string list \<Rightarrow> string list" where
  "dedup xs = rev (remdups (rev xs))"

definition map_signals_to_orders ::
  "'g orch_env \<Rightarrow> signal list \<Rightarrow> price_state \<Rightarrow> (orch_error + signal_order_mapping list) \<times> price_state" where
  "map_signals_to_orders env signals st =
     map_signals env signals
       (prefetch_prices env (dedup (map sg_symbol (filter (\<lambda>s. sg_target_weight s \<noteq> 0) signals))) st)"

section \<open>Submission\<close>

definition orchestrated_order :: "string \<Rightarrow> string \<Rightarrow> int \<Rightarrow> order_request" where
  "orchestrated_order symbol side qty =
     \<lparr>or_symbol = symbol, or_side = side, or_qty = qty, or_order_type = ''market'', or_limit_price = None,
      or_stop_price = None, or_time_in_force = ''day'', or_execution_style = ''instant'', or_client_order_id = None\<rparr>"

text \<open>
  \<open>ExecutionGatewayClient.submit_order\<close> with as many attempts as its first argument says, three in the
  code; when the last one times out or cannot connect, the retry library raises its own exception.
\<close>

fun execution_submit ::
  "nat \<Rightarrow> 'g orch_env \<Rightarrow> order_request \<Rightarrow> 'g \<Rightarrow> (orch_error + order_submission) \<times> 'g" where
  "execution_submit 0 env order g = (Inl (Unexpected ''RetryError''), g)"
| "execution_submit (Suc n) env order g =
     (let (reply, g') = oe_post env order g
      in case http_result reply of None \<Rightarrow> execution_submit n env order g' | Some x \<Rightarrow> (x, g'))"

fun submission_failure :: "orch_error \<Rightarrow> string" where
  "submission_failure (ConnectTimeout m) = ''submission_failed: connection_timeout''"
| "submission_failure (HTTPStatusError c m) = ''submission_failed: '' @ show_nat c"
| "submission_failure (HttpNetworkError m) = ''submission_failed: network_error''"
| "submission_failure (InvalidResponse m) = ''submission_failed: invalid_response''"
| "submission_failure (InvalidData m) = ''unexpected_error: '' @ m"
| "submission_failure (Unexpected m) = ''unexpected_error: '' @ m"

definition submit_mapping ::
  "'g orch_env \<Rightarrow> signal_order_mapping \<Rightarrow> 'g \<Rightarrow> signal_order_mapping \<times> 'g" where
  "submit_mapping env m g =
     (case (sm_order_qty m, sm_order_side m) of
        (Some qty, Some side) \<Rightarrow>
          (case execution_submit 3 env (orchestrated_order (sm_symbol m) side qty) g of
             (Inr s, g') \<Rightarrow>
               (m\<lparr>sm_client_order_id := Some (ob_client_order_id s), sm_broker_order_id := ob_broker_order_id s,
                  sm_order_status := Some (ob_status s)\<rparr>, g')
           | (Inl e, g') \<Rightarrow>
               (m\<lparr>sm_order_status := Some ''rejected'', sm_skip_reason := Some (submission_failure e)\<rparr>, g'))
      | _ \<Rightarrow> (m, g))"

fun submit_orders ::
  "'g orch_env \<Rightarrow> signal_order_mapping list \<Rightarrow> 'g \<Rightarrow> signal_order_mapping list \<times> 'g" where
  "submit_orders env [] g = ([], g)"
| "submit_orders env (m # ms) g =
     (let (m', g1) = submit_mapping env m g; (ms', g2) = submit_orders env ms g1 in (m' # ms', g2))"

section \<open>A run\<close>

text \<open>\<open>SignalServiceClient.fetch_signals\<close>; its second argument counts the attempts that are left.\<close>

fun fetch_signals :: "nat \<Rightarrow> 'g orch_env \<Rightarrow> string \<Rightarrow> orch_error + signal_response" where
  "fetch_signals 0 env sid = Inl (Unexpected ''RetryError'')"
| "fetch_signals (Suc n) env sid =
     (case http_result (oe_fetch env sid n) of None \<Rightarrow> fetch_signals n env sid | Some x \<Rightarrow> x)"

fun fetch_all :: "'g orch_env \<Rightarrow> string list \<Rightarrow> orch_error + (string \<times> signal_response) list" where
  "fetch_all env [] = Inr []"
| "fetch_all env (sid # sids) =
     (case fetch_signals 3 env sid of
        Inl e \<Rightarrow> Inl e
      | Inr r \<Rightarrow> (case fetch_all env sids of Inl e \<Rightarrow> Inl e | Inr rs \<Rightarrow> Inr ((sid, r) # rs)))"

text \<open>The two conversions; a data frame is the list of its rows.\<close>

definition signals_to_dataframe :: "signal list \<Rightarrow> (string \<times> rat \<times> rat) list" where
  "signals_to_dataframe ss = map (\<lambda>s. (sg_symbol s, sg_predicted_return s, sg_target_weight s)) ss"

definition dataframe_to_signals :: "(string \<times> rat) list \<Rightarrow> signal list" where
  "dataframe_to_signals df =
     map (\<lambda>(symb, weight). \<lparr>sg_symbol = symb, sg_predicted_return = 0, sg_rank = 0, sg_target_weight = weight\<rparr>) df"

definition run_multi_strategy ::
  "'g orch_env \<Rightarrow> string list \<Rightarrow> orch_error + signal list \<times> string option" where
  "run_multi_strategy env strategy_ids =
     (case fetch_all env (dedup strategy_ids) of
        Inl e \<Rightarrow> Inl e
      | Inr responses \<Rightarrow>
          let unique_dates = remdups (map (sr_as_of_date \<circ> snd) responses);
              dfs = map (\<lambda>(sid, r). (sid, signals_to_dataframe (sr_signals r))) responses;
              allow_short_positions = list_ex (\<lambda>(sid, df). list_ex (\<lambda>(_, _, w). w < 0) df) dfs
          in if length unique_dates > 1 then Inl (InvalidData ''as_of_date mismatch across strategies'')
             else (case oe_allocate env (oe_allocation_method env) allow_short_positions dfs of
                 Inl e \<Rightarrow> Inl e
               | Inr blended \<Rightarrow>
                   Inr (dataframe_to_signals blended,
                        case unique_dates of [] \<Rightarrow> None | d # ds \<Rightarrow> Some d)))"

definition orch_signals :: "'g orch_env \<Rightarrow> string list \<Rightarrow> orch_error + signal list \<times> string option" where
  "orch_signals env strategy_ids =
     (if length strategy_ids > 1 then run_multi_strategy env strategy_ids
      else case fetch_signals 3 env (hd strategy_ids) of
        Inl e \<Rightarrow> Inl e
      | Inr r \<Rightarrow> Inr (sr_signals r, Some (sr_as_of_date r)))"

record orchestration_result =
  re_run_id :: string
  re_status :: string
  re_strategy_ids :: "string list"
  re_as_of_date :: string
  re_num_signals :: nat
  re_num_submitted :: nat
  re_num_accepted :: nat
  re_num_rejected :: nat
  re_mappings :: "signal_order_mapping list"
  re_error_message :: "string option"

definition count_if :: "('a \<Rightarrow> bool) \<Rightarrow> 'a list \<Rightarrow> nat" where
  "count_if p xs = length (filter p xs)"

definition is_rejected :: "signal_order_mapping \<Rightarrow> bool" where
  "is_rejected m \<longleftrightarrow> sm_order_status m \<in> {Some ''rejected'', Some ''cancelled''}"

definition is_accepted :: "signal_order_mapping \<Rightarrow> bool" where
  "is_accepted m \<longleftrightarrow> sm_order_status m \<notin> {None, Some []} \<and> \<not> is_rejected m"

definition run_result :: 
  "'g orch_env \<Rightarrow> string \<Rightarrow> string list \<Rightarrow> string option \<Rightarrow> nat \<Rightarrow> signal_order_mapping list \<Rightarrow>
   orchestration_result" where
  "run_result env run_id strategy_ids as_of n ms =
     (let submitted = count_if (\<lambda>m. sm_client_order_id m \<noteq> None) ms;
          accepted = count_if is_accepted ms; rejected = count_if is_rejected ms
      in \<lparr>re_run_id = run_id,
          re_status = (if rejected > 0 \<and> accepted > 0 then ''partial''
             else if rejected > 0 then ''failed'' else ''completed''),
          re_strategy_ids = strategy_ids,
          re_as_of_date = (case as_of of None \<Rightarrow> oe_today env | Some d \<Rightarrow> if d = [] then oe_today env else d),
          re_num_signals = n, re_num_submitted = submitted, re_num_accepted = accepted,
          re_num_rejected = rejected, re_mappings = ms, re_error_message = None\<rparr>)"

fun run_error_message :: "orch_error \<Rightarrow> string" where
  "run_error_message (ConnectTimeout m) = ''Signal service connection timeout: '' @ m"
| "run_error_message (HTTPStatusError c m) = ''Signal service HTTP error '' @ show_nat c @ '': '' @ m"
| "run_error_message (HttpNetworkError m) = ''Network error: '' @ m"
| "run_error_message (InvalidResponse m) = ''Invalid response from signal service: '' @ m"
| "run_error_message (InvalidData m) = m"
| "run_error_message (Unexpected m) = m"

definition failed_run ::
  "'g orch_env \<Rightarrow> string \<Rightarrow> string list \<Rightarrow> string option \<Rightarrow> orch_error \<Rightarrow> orchestration_result" where
  "failed_run env run_id strategy_ids as_of_date e =
     \<lparr>re_run_id = run_id, re_status = ''failed'', re_strategy_ids = strategy_ids,
      re_as_of_date = (case as_of_date of None \<Rightarrow> oe_today env | Some d \<Rightarrow> d), re_num_signals = 0,
      re_num_submitted = 0, re_num_accepted = 0, re_num_rejected = 0, re_mappings = [],
      re_error_message = Some (run_error_message e)\<rparr>"

text \<open>\<open>TradingOrchestrator.run\<close>; no strategy is the one exception that leaves it.\<close>

definition orch_run ::
  "'g orch_env \<Rightarrow> string \<Rightarrow> string list \<Rightarrow> string option \<Rightarrow> price_state \<Rightarrow> 'g \<Rightarrow>
   (orch_error + orchestration_result) \<times> 'g" where
  "orch_run env run_id strategy_ids as_of_date st g =
     (if strategy_ids = []
      then (Inl (InvalidData ''strategy_id must be a non-empty string or list of strings''), g)
      else case orch_signals env strategy_ids of
        Inl e \<Rightarrow> (Inr (failed_run env run_id strategy_ids as_of_date e), g)
      | Inr (signals, as_of) \<Rightarrow>
          (case map_signals_to_orders env signals st of
             (Inl e, st') \<Rightarrow> (Inr (failed_run env run_id strategy_ids as_of_date e), g)
           | (Inr ms, st') \<Rightarrow>
               let (ms', g') = submit_orders env ms g
               in (Inr (run_result env run_id strategy_ids as_of (length signals) ms'), g')))"

section \<open>Prices in use\<close>

text \<open>
  A price that Redis held for the symbol, and one that is not older than allowed at the clock reading
  \<open>k\<close>.  The readings are counted by \<open>ps_clock\<close>, so that those between two states are the
  numbers from the clock of the first up to that of the second.
\<close>

definition held_price :: "'g orch_env \<Rightarrow> string \<Rightarrow> rat \<Rightarrow> rat \<Rightarrow> bool" where
  "held_price env symb p ts \<longleftrightarrow>
     (\<exists>redis_at n raw now. oe_redis env = Some redis_at \<and> redis_get (redis_at n) (price_key symb) = Some raw \<and>
        parse_redis_price_json env now symb raw = Some (p, ts))"

definition redis_price :: "'g orch_env \<Rightarrow> string \<Rightarrow> rat \<Rightarrow> nat \<Rightarrow> bool" where
  "redis_price env symb p k \<longleftrightarrow>
     (\<exists>ts. held_price env symb p ts \<and> oe_now env k - ts \<le> of_int (oe_max_price_age env))"

definition fresh_between :: "'g orch_env \<Rightarrow> price_state \<Rightarrow> price_state \<Rightarrow> string \<Rightarrow> rat \<Rightarrow> bool" where
  "fresh_between env st st' symb p \<longleftrightarrow>
     (\<exists>k. ps_clock st \<le> k \<and> k < ps_clock st' \<and> redis_price env symb p k)"

lemma parse_price_SomeE:
  assumes "parse_redis_price_json env now symb raw = Some (p, ts)"
  obtains d mid ts_raw where "raw = RJson (JObj d)" "dict_get d ''symbol'' = Some (JStr symb)"
    "dict_get d ''timestamp'' = Some ts_raw" "oe_fromiso env ts_raw = Some ts"
    "dict_get d ''mid'' = Some mid" "oe_decimal env mid = Some p"
    "- 5 \<le> now - ts" "now - ts \<le> of_int (oe_max_price_age env)" "0 < p"
  using assms
  by (fastforce simp: parse_redis_price_json_def dict_get_or_def Let_def not_le
      split: rval.splits json.splits option.splits if_splits)

lemma fresh_between_pos: "fresh_between env st st' symb p \<Longrightarrow> 0 < p"
  by (auto simp: fresh_between_def redis_price_def held_price_def elim: parse_price_SomeE)

text \<open>What the cache holds came from Redis, with its time.\<close>

definition cache_ok :: "'g orch_env \<Rightarrow> price_state \<Rightarrow> bool" where
  "cache_ok env st \<longleftrightarrow>
     (\<forall>symb p ts. ps_cache st symb = Some p \<longrightarrow> ps_timestamps st symb = Some ts \<longrightarrow> held_price env symb p ts)"

lemma cache_ok_put:
  "cache_ok env st \<Longrightarrow> held_price env symb p ts \<Longrightarrow>
   cache_ok env (st\<lparr>ps_clock := c, ps_cache := (ps_cache st)(symb := Some p),
                    ps_timestamps := (ps_timestamps st)(symb := Some ts)\<rparr>)"
  by (simp add: cache_ok_def)

lemma cache_ok_other [simp]:
  "cache_ok env (st\<lparr>ps_clock := c\<rparr>) = cache_ok env st"
  "cache_ok env (st\<lparr>ps_reads := n\<rparr>) = cache_ok env st"
  "cache_ok env (st\<lparr>ps_redis_unavailable := b\<rparr>) = cache_ok env st"
  "cache_ok env (st\<lparr>ps_prefetch_attempted := xs\<rparr>) = cache_ok env st"
  by (simp_all add: cache_ok_def)

lemma cache_ok_evict: "cache_ok env st \<Longrightarrow> cache_ok env (evict symb st)"
  by (simp add: cache_ok_def evict_def)

lemma cache_ok_forget:
  "cache_ok env st \<Longrightarrow> cache_ok env (st\<lparr>ps_cache := (ps_cache st)(symb := None)\<rparr>)"
  by (simp add: cache_ok_def)

lemma cache_ok_evicts: "cache_ok env st \<Longrightarrow> cache_ok env (fold evict xs st)"
  by (induction xs arbitrary: st) (simp_all add: cache_ok_evict)

lemma parse_and_cache_ok:
  assumes "cache_ok env st" "oe_redis env = Some redis_at" "redis_get (redis_at n) (price_key symb) = Some raw"
    "parse_and_cache_price env symb raw st = (x, st')"
  shows "cache_ok env st' \<and> (\<forall>p. x = Some p \<longrightarrow> fresh_between env st st' symb p)"
proof (cases "parse_redis_price_json env (oe_now env (ps_clock st)) symb raw")
  case None
  with assms(1,4) show ?thesis by (auto simp: parse_and_cache_price_def Let_def)
next
  case (Some pt)
  obtain p ts where pt: "pt = (p, ts)" by (cases pt)
  note ts = Some [unfolded pt]
  then have held: "held_price env symb p ts"
    using assms(2,3) unfolding held_price_def by blast
  from ts have "oe_now env (ps_clock st) - ts \<le> of_int (oe_max_price_age env)"
    by (rule parse_price_SomeE)
  with held have "redis_price env symb p (ps_clock st)" unfolding redis_price_def by blast
  with ts assms(4) cache_ok_put [OF assms(1) held] show ?thesis
    by (auto simp: parse_and_cache_price_def fresh_between_def Let_def)
qed

lemma cache_prices_ok:
  assumes "cache_ok env st" "oe_redis env = Some redis_at"
    "\<And>symb raw. (symb, Some raw) \<in> set xs \<Longrightarrow> redis_get (redis_at n) (price_key symb) = Some raw"
  shows "cache_ok env (cache_prices env xs st)"
  using assms
proof (induction env xs st rule: cache_prices.induct)
  case (3 env symb raw rest st)
  have "cache_ok env (snd (parse_and_cache_price env symb raw st))"
    using parse_and_cache_ok [OF 3(2,3) 3(4) prod.collapse [symmetric]] by simp
  then show ?case using 3 by simp
qed auto

lemma redis_mget_keys:
  "(symb, Some raw) \<in> set (zip ss (redis_mget r (map price_key ss))) \<Longrightarrow> redis_get r (price_key symb) = Some raw"
  by (induction ss) (auto simp: redis_mget_def split: option.splits rval.splits)

lemma prefetch_ok: "cache_ok env st \<Longrightarrow> cache_ok env (prefetch_prices env symbols st)"
  by (auto simp: prefetch_prices_def Let_def cache_ok_evicts split: option.split
      intro!: cache_prices_ok dest: redis_mget_keys)

lemma fetch_price_ok:
  assumes "cache_ok env st" "fetch_price env symb st = (x, st')"
  shows "cache_ok env st' \<and> (\<forall>p. x = Some p \<longrightarrow> fresh_between env st st' symb p)"
proof -
  let ?st = "st\<lparr>ps_reads := ps_reads st + 1\<rparr>"
  have "x = None \<and> cache_ok env st' \<or>
    (\<exists>redis_at raw. oe_redis env = Some redis_at \<and>
       redis_get (redis_at (ps_reads st)) (price_key symb) = Some raw \<and>
       parse_and_cache_price env symb raw ?st = (x, st'))"
    using assms by (auto simp: fetch_price_def Let_def split: option.splits if_splits rval.splits)
  moreover have "fresh_between env ?st st' symb p = fresh_between env st st' symb p" for p
    by (simp add: fresh_between_def)
  ultimately show ?thesis using parse_and_cache_ok [of env ?st] assms(1) by fastforce
qed

lemma get_current_price_ok:
  assumes "cache_ok env st" "get_current_price env symb st = (x, st')"
  shows "cache_ok env st' \<and> (\<forall>p. x = Some p \<longrightarrow> fresh_between env st st' symb p)"
proof (cases "\<exists>q ts. ps_cache st symb = Some q \<and> ps_timestamps st symb = Some ts \<and>
      oe_now env (ps_clock st) - ts \<le> of_int (oe_max_price_age env)")
  case True
  then obtain q ts where q: "ps_cache st symb = Some q" "ps_timestamps st symb = Some ts"
    "oe_now env (ps_clock st) - ts \<le> of_int (oe_max_price_age env)"
    by blast
  then have "redis_price env symb q (ps_clock st)"
    using assms(1) unfolding cache_ok_def redis_price_def by blast
  with assms q show ?thesis by (auto simp: get_current_price_def fresh_between_def)
next
  case False
  have evicted: "cache_ok env (evict symb (st\<lparr>ps_clock := c\<rparr>))" for c
    using assms(1) by (simp add: cache_ok_evict)
  have "\<exists>st1. cache_ok env st1 \<and> ps_clock st \<le> ps_clock st1 \<and> fetch_price env symb st1 = (x, st')"
    using assms False evicted [of "ps_clock st + 1"] cache_ok_forget [OF assms(1), of symb]
    by (force simp: get_current_price_def evict_def split: option.splits if_splits)
  then obtain st1 where st1: "cache_ok env st1" "ps_clock st \<le> ps_clock st1" "fetch_price env symb st1 = (x, st')"
    by blast
  from st1(2) have "fresh_between env st1 st' symb p \<Longrightarrow> fresh_between env st st' symb p" for p
    unfolding fresh_between_def by (meson le_trans)
  with fetch_price_ok [OF st1(1,3)] show ?thesis by blast
qed

section \<open>Sizes\<close>

lemma py_int_floor: "0 \<le> x \<Longrightarrow> py_int x = \<lfloor>x\<rfloor>"
  by (simp add: py_int_def)

lemma py_int_pos: "1 \<le> py_int x \<Longrightarrow> 0 \<le> x"
  by (rule ccontr) (auto simp: py_int_def not_le)

lemma calculate_position_size_bounds:
  assumes "calculate_position_size weight capital p size_cap = Some (q, dollars)" "0 < p" "1 \<le> q"
  shows "of_int q * p \<le> dollars" "dollars < (of_int q + 1) * p" "dollars = min (\<bar>weight\<bar> * capital) size_cap"
proof -
  show d: "dollars = min (\<bar>weight\<bar> * capital) size_cap"
    using assms(1) by (auto simp: calculate_position_size_def Let_def split: if_splits)
  have "q = py_int (dollars / p)"
    using assms(1,2) unfolding calculate_position_size_def Let_def by auto
  with assms(3) have q: "q = \<lfloor>dollars / p\<rfloor>"
    using py_int_pos [of "dollars / p"] by (simp add: py_int_floor)
  show "of_int q * p \<le> dollars"
    using of_int_floor_le [of "dollars / p"] assms(2) unfolding q by (metis pos_le_divide_eq)
  show "dollars < (of_int q + 1) * p"
    using assms(2) floor_correct [of "dollars / p"] by (simp add: q pos_divide_less_eq)
qed

text \<open>
  What the mapping of a signal between two states is: skipped with a reason, or an order of the side of
  the weight whose quantity is the size at a price from Redis, fresh at a clock reading in between.
\<close>

definition sized_order ::
  "'g orch_env \<Rightarrow> price_state \<Rightarrow> price_state \<Rightarrow> signal \<Rightarrow> signal_order_mapping \<Rightarrow> bool" where
  "sized_order env st st' s m \<longleftrightarrow>
     (\<exists>p q dollars. fresh_between env st st' (sg_symbol s) p \<and>
        calculate_position_size (sg_target_weight s) (oe_capital env) p (oe_max_position_size env) = Some (q, dollars) \<and>
        1 \<le> q \<and> m = (base_mapping s)\<lparr>sm_order_qty := Some q,
          sm_order_side := Some (if sg_target_weight s > 0 then ''buy'' else ''sell'')\<rparr>)"

definition skipped_signal :: "signal \<Rightarrow> signal_order_mapping \<Rightarrow> bool" where
  "skipped_signal s m \<longleftrightarrow> (\<exists>reason. m = (base_mapping s)\<lparr>sm_skip_reason := Some reason\<rparr>)"

lemma map_signal_spec:
  assumes "cache_ok env st"
  obtains m st' where "map_signal env s st = (Inr m, st')" "cache_ok env st'"
    "sized_order env st st' s m \<or> skipped_signal s m"
proof (cases "sg_target_weight s = 0")
  case True
  with assms that show ?thesis by (auto simp: map_signal_def skipped_signal_def)
next
  case weight: False
  obtain x st1 where run: "get_current_price env (sg_symbol s) st = (x, st1)" by (metis prod.exhaust)
  note price = get_current_price_ok [OF assms run]
  show ?thesis
  proof (cases x)
    case None
    with run weight price that show ?thesis by (auto simp: map_signal_def skipped_signal_def Let_def)
  next
    case (Some p)
    let ?dollars = "min (\<bar>sg_target_weight s\<bar> * oe_capital env) (oe_max_position_size env)"
    have p: "fresh_between env st st1 (sg_symbol s) p" "p \<noteq> 0"
      using price Some fresh_between_pos by fastforce+
    have dollars: "(if \<bar>sg_target_weight s\<bar> * oe_capital env > oe_max_position_size env
        then oe_max_position_size env else \<bar>sg_target_weight s\<bar> * oe_capital env) = ?dollars"
      by (simp add: min_def)
    have m: "map_signal env s st =
        (Inr (if py_int (?dollars / p) < 1
              then (base_mapping s)\<lparr>sm_skip_reason := Some ''qty_less_than_one_share''\<rparr>
              else (base_mapping s)\<lparr>sm_order_qty := Some (py_int (?dollars / p)),
                sm_order_side := Some (if sg_target_weight s > 0 then ''buy'' else ''sell'')\<rparr>), st1)"
      using run weight p(2) by (simp add: map_signal_def Some Let_def dollars)
    have "calculate_position_size (sg_target_weight s) (oe_capital env) p (oe_max_position_size env) =
        Some (py_int (?dollars / p), ?dollars)"
      using p(2) by (simp add: calculate_position_size_def Let_def)
    with p(1) have "sized_order env st st1 s ((base_mapping s)\<lparr>sm_order_qty := Some (py_int (?dollars / p)),
        sm_order_side := Some (if sg_target_weight s > 0 then ''buy'' else ''sell'')\<rparr>)"
      if "\<not> py_int (?dollars / p) < 1"
      using that unfolding sized_order_def by (metis not_less)
    with m price show ?thesis by (intro that [OF m]) (auto simp: skipped_signal_def)
  qed
qed

text \<open>The states between the signals, and the whole list, signal by signal.\<close>

definition state_before :: "'g orch_env \<Rightarrow> signal list \<Rightarrow> price_state \<Rightarrow> nat \<Rightarrow> price_state" where
  "state_before env signals st i = snd (map_signals env (take i signals) st)"

lemma state_before_simps [simp]:
  "state_before env ss st 0 = st"
  "map_signal env s st = (Inr m, st1) \<Longrightarrow> state_before env (s # ss) st (Suc i) = state_before env ss st1 i"
  by (simp_all add: state_before_def split: prod.split sum.split)

lemma map_signals_spec:
  assumes "cache_ok env st"
  shows "\<exists>ms st'. map_signals env ss st = (Inr ms, st') \<and> length ms = length ss \<and>
    (\<forall>i < length ss. sized_order env (state_before env ss st i) (state_before env ss st (Suc i)) (ss ! i) (ms ! i) \<or>
       skipped_signal (ss ! i) (ms ! i))"
  using assms
proof (induction ss arbitrary: st)
  case (Cons s ss)
  obtain m st1 where m: "map_signal env s st = (Inr m, st1)" "cache_ok env st1"
    "sized_order env st st1 s m \<or> skipped_signal s m"
    using map_signal_spec [OF Cons.prems] .
  from Cons.IH [OF m(2)] obtain ms st' where ms: "map_signals env ss st1 = (Inr ms, st')" "length ms = length ss"
    "\<forall>i < length ss. sized_order env (state_before env ss st1 i) (state_before env ss st1 (Suc i)) (ss ! i) (ms ! i) \<or>
       skipped_signal (ss ! i) (ms ! i)" by blast
  have "sized_order env (state_before env (s # ss) st i) (state_before env (s # ss) st (Suc i)) ((s # ss) ! i)
      ((m # ms) ! i) \<or> skipped_signal ((s # ss) ! i) ((m # ms) ! i)" if "i < length (s # ss)" for i
    using that m(1,3) ms(3) by (cases i) simp_all
  with m(1) ms(1,2) show ?case by (intro exI [of _ "m # ms"] exI [of _ st']) simp
qed simp

lemma cache_ok_init:
  "orch_init now age method [] = Inr st \<Longrightarrow> cache_ok env st"
  by (auto simp: orch_init_def cache_ok_def split: if_splits)

definition order_symbols :: "signal list \<Rightarrow> string list" where
  "order_symbols ss = dedup (map sg_symbol (filter (\<lambda>s. sg_target_weight s \<noteq> 0) ss))"

lemma mapped_orders:
  fixes env :: "'g orch_env" and ss
  assumes "orch_init now age method [] = Inr st"
  defines "st0 \<equiv> prefetch_prices env (order_symbols ss) st"
  shows "\<exists>ms st'. map_signals_to_orders env ss st = (Inr ms, st') \<and> length ms = length ss \<and>
    (\<forall>i < length ss. sized_order env (state_before env ss st0 i) (state_before env ss st0 (Suc i)) (ss ! i) (ms ! i) \<or>
       skipped_signal (ss ! i) (ms ! i))"
  unfolding map_signals_to_orders_def st0_def order_symbols_def
  by (rule map_signals_spec [OF prefetch_ok [OF cache_ok_init [OF assms(1)]]])

section \<open>What a submission and a run do\<close>

text \<open>The gateway spells the status of a canceled order with one l; the orchestrator tests for two.\<close>

lemma canceled_counts_as_accepted: "sm_order_status m = Some ''canceled'' \<Longrightarrow> is_accepted m \<and> \<not> is_rejected m"
  by (simp add: is_accepted_def is_rejected_def)

text \<open>The retries end in an exception of the retry library: a connection timeout never leaves the client.\<close>

lemma execution_submit_no_timeout: "fst (execution_submit n env order g) \<noteq> Inl (ConnectTimeout m)"
proof (induction n arbitrary: g)
  case (Suc n)
  show ?case
  proof (cases "fst (oe_post env order g)")
    case (Response code body)
    then show ?thesis by (cases body) (simp_all add: case_prod_unfold Let_def)
  qed (simp_all add: case_prod_unfold Let_def Suc.IH)
qed simp

lemma submit_mapping_fields:
  assumes "submit_mapping env m g = (m', g')"
  shows "sm_symbol m' = sm_symbol m" "sm_order_qty m' = sm_order_qty m" "sm_order_side m' = sm_order_side m"
    "sm_order_qty m = None \<Longrightarrow> m' = m \<and> g' = g"
  using assms by (auto simp: submit_mapping_def split: option.splits prod.splits sum.splits)

lemma submit_mapping_status:
  assumes "submit_mapping env m g = (m', g')" "sm_order_qty m = Some q" "sm_order_side m = Some side"
    "sm_client_order_id m = None"
  shows "(\<exists>s. fst (execution_submit 3 env (orchestrated_order (sm_symbol m) side q) g) = Inr s \<and>
       sm_client_order_id m' = Some (ob_client_order_id s) \<and> sm_order_status m' = Some (ob_status s)) \<or>
    (\<exists>e. fst (execution_submit 3 env (orchestrated_order (sm_symbol m) side q) g) = Inl e \<and>
       sm_client_order_id m' = None \<and> sm_order_status m' = Some ''rejected'' \<and>
       sm_skip_reason m' = Some (submission_failure e))"
  using assms by (auto simp: submit_mapping_def split: prod.splits sum.splits)

lemma count_if_simps [simp]:
  "count_if p [] = 0" "count_if p (x # xs) = (if p x then 1 else 0) + count_if p xs"
  by (simp_all add: count_if_def)

lemma count_if_mono: "(\<And>x. x \<in> set xs \<Longrightarrow> p x \<Longrightarrow> q x) \<Longrightarrow> count_if p xs \<le> count_if q xs"
  by (induction xs) (auto simp: trans_le_add2)

lemma count_if_split:
  "(\<And>x. x \<in> set xs \<Longrightarrow> r x = (p x \<or> q x)) \<Longrightarrow> (\<And>x. x \<in> set xs \<Longrightarrow> \<not> (p x \<and> q x)) \<Longrightarrow>
   count_if p xs + count_if q xs = count_if r xs"
  by (induction xs) auto

lemma count_if_le: "count_if p xs \<le> length xs"
  by (simp add: count_if_def)

text \<open>What the mapping hands to the submission: an order that is complete and not answered, or none.\<close>

definition unsent :: "signal_order_mapping \<Rightarrow> bool" where
  "unsent m \<longleftrightarrow> sm_client_order_id m = None \<and> sm_order_status m = None \<and>
     (sm_order_qty m \<noteq> None \<longrightarrow> sm_order_side m \<noteq> None \<and> sm_skip_reason m = None) \<and>
     (sm_order_qty m = None \<longrightarrow> sm_skip_reason m \<noteq> None)"

lemma sized_order_unsent: "sized_order env st st' s m \<Longrightarrow> unsent m"
  by (auto simp: sized_order_def base_mapping_def unsent_def)

lemma skipped_signal_unsent: "skipped_signal s m \<Longrightarrow> unsent m"
  by (auto simp: skipped_signal_def base_mapping_def unsent_def)

text \<open>What the gateway answered to the orders, in their order, each after the ones before it.\<close>

fun gateway_answers ::
  "'g orch_env \<Rightarrow> signal_order_mapping list \<Rightarrow> 'g \<Rightarrow> (orch_error + order_submission) list" where
  "gateway_answers env [] g = []"
| "gateway_answers env (m # ms) g =
     (case (sm_order_qty m, sm_order_side m) of
        (Some qty, Some side) \<Rightarrow>
          let (x, g') = execution_submit 3 env (orchestrated_order (sm_symbol m) side qty) g
          in x # gateway_answers env ms g'
      | _ \<Rightarrow> gateway_answers env ms g)"

definition has_order :: "signal_order_mapping \<Rightarrow> bool" where
  "has_order m \<longleftrightarrow> sm_order_qty m \<noteq> None"

text \<open>Identifier, status and reason of an order, by the gateway's answer.\<close>

definition outcome :: "signal_order_mapping \<Rightarrow> string option \<times> string option \<times> string option" where
  "outcome m = (sm_client_order_id m, sm_order_status m, sm_skip_reason m)"

definition answer_outcome :: "orch_error + order_submission \<Rightarrow> string option \<times> string option \<times> string option" where
  "answer_outcome x =
     (case x of
        Inr s \<Rightarrow> (Some (ob_client_order_id s), Some (ob_status s), None)
      | Inl e \<Rightarrow> (None, Some ''rejected'', Some (submission_failure e)))"

lemma submitted_outcomes:
  "\<forall>m \<in> set ms. unsent m \<Longrightarrow> submit_orders env ms g = (ms', g') \<Longrightarrow>
   length ms' = length ms \<and> map outcome (filter has_order ms') = map answer_outcome (gateway_answers env ms g) \<and>
   (\<forall>m \<in> set ms'. \<not> has_order m \<longrightarrow> unsent m)"
proof (induction ms arbitrary: g ms' g')
  case (Cons m ms)
  obtain m1 g1 where m1: "submit_mapping env m g = (m1, g1)" by (metis prod.exhaust)
  obtain ms1 g2 where ms1: "submit_orders env ms g1 = (ms1, g2)" by (metis prod.exhaust)
  have ms': "ms' = m1 # ms1" using Cons.prems m1 ms1 by simp
  note IH = Cons.IH [OF _ ms1]
  have m: "unsent m" using Cons.prems(1) by simp
  show ?case
  proof (cases "sm_order_qty m")
    case None
    then have "m1 = m" "g1 = g" using submit_mapping_fields(4) [OF m1] by simp_all
    with IH Cons.prems(1) None show ?thesis by (simp add: ms' has_order_def)
  next
    case (Some q)
    with m obtain side where side: "sm_order_side m = Some side" "sm_client_order_id m = None" "sm_skip_reason m = None"
      by (auto simp: unsent_def)
    obtain x g3 where x: "execution_submit 3 env (orchestrated_order (sm_symbol m) side q) g = (x, g3)"
      by (metis prod.exhaust)
    have g3: "g1 = g3" "has_order m1" "outcome m1 = answer_outcome x"
      using m1 Some side x
      by (auto simp: submit_mapping_def has_order_def outcome_def answer_outcome_def split: sum.splits)
    with IH Cons.prems(1) Some side x show ?thesis by (simp add: ms')
  qed
qed simp

text \<open>A count over the mappings that only orders meet is one over the answers.\<close>

lemma count_answers:
  assumes "map outcome (filter has_order ms) = map answer_outcome xs" "\<forall>m \<in> set ms. \<not> has_order m \<longrightarrow> unsent m"
    "\<And>m. p m = f (outcome m)" "\<And>c. \<not> f (None, None, c)"
  shows "count_if p ms = count_if (f \<circ> answer_outcome) xs"
proof -
  have "count_if p ms = count_if p (filter has_order ms)"
    using assms(2)
  proof (induction ms)
    case (Cons m ms)
    then show ?case using assms(3) [of m] assms(4) by (auto simp: outcome_def unsent_def)
  qed simp
  also have "\<dots> = count_if f (map outcome (filter has_order ms))"
    by (simp add: count_if_def filter_map o_def assms(3))
  also have "\<dots> = count_if (f \<circ> answer_outcome) xs"
    unfolding assms(1) by (simp add: count_if_def filter_map)
  finally show ?thesis .
qed

text \<open>A run from a fresh start ends in one of two ways.\<close>

lemma orch_run_cases:
  assumes "orch_init now age method [] = Inr st" "ids \<noteq> []"
  obtains (failed) e where "orch_signals env ids = Inl e"
      "orch_run env rid ids d st g = (Inr (failed_run env rid ids d e), g)"
    | (ran) ss as_of ms st' ms' g' where "orch_signals env ids = Inr (ss, as_of)"
      "map_signals_to_orders env ss st = (Inr ms, st')" "length ms = length ss" "\<forall>m \<in> set ms. unsent m"
      "submit_orders env ms g = (ms', g')"
      "orch_run env rid ids d st g = (Inr (run_result env rid ids as_of (length ss) ms'), g')"
proof (cases "orch_signals env ids")
  case (Inl e)
  with assms(2) show ?thesis by (intro failed) (simp_all add: orch_run_def)
next
  case (Inr p)
  obtain ss as_of where p: "p = (ss, as_of)" by (cases p)
  obtain ms st' where ms: "map_signals_to_orders env ss st = (Inr ms, st')" "length ms = length ss"
    "\<forall>i < length ss. unsent (ms ! i)"
    using mapped_orders [OF assms(1), of env ss] sized_order_unsent skipped_signal_unsent by metis
  have "\<forall>m \<in> set ms. unsent m" using ms(2,3) by (auto simp: in_set_conv_nth)
  moreover obtain ms' g' where sub: "submit_orders env ms g = (ms', g')" by (metis prod.exhaust)
  ultimately show ?thesis
    using Inr ms assms(2) by (intro ran [OF _ ms(1,2) _ sub]) (simp_all add: orch_run_def p)
qed

section \<open>The gateway a run posts to\<close>

text \<open>
  What the orchestrator knows of the service behind its requests is that each takes it along a relation;
  then a whole run does.
\<close>

locale order_gateway =
  fixes post :: "order_request \<Rightarrow> 'g \<Rightarrow> order_submission http_reply \<times> 'g"
    and moves :: "'g \<Rightarrow> 'g \<Rightarrow> bool"
  assumes moves_refl: "moves g g"
    and moves_trans: "moves g1 g2 \<Longrightarrow> moves g2 g3 \<Longrightarrow> moves g1 g3"
    and moves_post: "moves g (snd (post order g))"
begin

lemma moves_execution_submit: "oe_post env = post \<Longrightarrow> moves g (snd (execution_submit n env order g))"
proof (induction n arbitrary: g)
  case (Suc n)
  obtain reply g1 where "post order g = (reply, g1)" by (metis prod.exhaust)
  with Suc moves_post [of g order] show ?case
    by (auto intro: moves_trans split: option.split)
qed (simp add: moves_refl)

lemma moves_submit_mapping:
  assumes "oe_post env = post"
  shows "moves g (snd (submit_mapping env m g))"
proof -
  have "snd (submit_mapping env m g) = g \<or>
    (\<exists>order. snd (submit_mapping env m g) = snd (execution_submit 3 env order g))"
    by (auto simp: submit_mapping_def split: option.split sum.split prod.split) (metis snd_conv)+
  then show ?thesis
    using moves_execution_submit [OF assms, of g 3] moves_refl by auto
qed

lemma moves_submit_orders: "oe_post env = post \<Longrightarrow> moves g (snd (submit_orders env ms g))"
proof (induction ms arbitrary: g)
  case (Cons m ms)
  show ?case
    using moves_trans [OF moves_submit_mapping [OF Cons.prems, of g m] Cons.IH [OF Cons.prems]]
    by (simp add: case_prod_unfold Let_def)
qed (simp add: moves_refl)

lemma moves_run: "oe_post env = post \<Longrightarrow> moves g (snd (orch_run env rid ids d st g))"
  using moves_submit_orders [of env g]
  by (auto simp: orch_run_def case_prod_unfold Let_def moves_refl split: sum.split)

end

section \<open>An example\<close>

text \<open>Two signals, of which Redis has a price for the first only; the gateway accepts everything.\<close>

definition demo_price :: rval where
  "demo_price = RJson (JObj [(''symbol'', JStr ''AAPL''), (''timestamp'', JInt 95), (''mid'', JInt 150)])"

definition demo_orch_reply :: "order_request \<Rightarrow> order_submission http_reply" where
  "demo_orch_reply order = Response 200 (Parsed
     \<lparr>ob_client_order_id = ''o1'', ob_status = ''pending_new'', ob_broker_order_id = Some ''b1''\<rparr>)"

definition demo_signals :: "signal list" where
  "demo_signals =
     [\<lparr>sg_symbol = ''AAPL'', sg_predicted_return = 1 / 20, sg_rank = 1, sg_target_weight = 1 / 3\<rparr>,
      \<lparr>sg_symbol = ''MSFT'', sg_predicted_return = 1 / 50, sg_rank = 2, sg_target_weight = - 1 / 4\<rparr>]"

definition demo_orch :: "order_request list orch_env" where
  "demo_orch =
     \<lparr>oe_capital = 100000, oe_max_position_size = 20000, oe_max_price_age = 30,
      oe_allocation_method = ''rank_aggregation'',
      oe_redis = Some (\<lambda>_. redis_put (price_key ''AAPL'') demo_price empty_redis), oe_redis_fails = (\<lambda>_. False),
      oe_now = (\<lambda>n. 100 + of_nat n), oe_decimal = (\<lambda>j. case j of JInt i \<Rightarrow> Some (of_int i) | _ \<Rightarrow> None),
      oe_fromiso = (\<lambda>j. case j of JInt i \<Rightarrow> Some (of_int i) | _ \<Rightarrow> None),
      oe_fetch = (\<lambda>_ _. Response 200 (Parsed \<lparr>sr_signals = demo_signals, sr_as_of_date = ''2025-01-02''\<rparr>)),
      oe_allocate = (\<lambda>_ _ _. Inr []), oe_post = (\<lambda>order g. (demo_orch_reply order, g @ [order])),
      oe_today = ''2025-01-02''\<rparr>"

definition demo_prices :: price_state where
  "demo_prices = \<lparr>ps_cache = (\<lambda>_. None), ps_timestamps = (\<lambda>_. None), ps_redis_unavailable = False,
     ps_prefetch_attempted = [], ps_clock = 0, ps_reads = 0\<rparr>"

lemma demo_prices_init: "orch_init 100 30 ''rank_aggregation'' [] = Inr demo_prices"
  by (simp add: orch_init_def demo_prices_def)

section \<open>Properties\<close>

text \<open>C30. Every signal has its mapping: it is skipped with a reason, or it is an order on the side of its weight
  for at least one share and for as many whole shares as the lesser of its part of the capital and of the limit
  per position pays for, at a positive price that Redis held for the symbol and that was not older than
  allowed when it was used, which is a reading of the clock made while this very signal was mapped.\<close>

theorem orders_sized_by_fresh_prices:
  assumes "orch_init now age method [] = Inr st"
  shows "\<exists>ms st'. map_signals_to_orders env signals st = (Inr ms, st') \<and> length ms = length signals \<and>
    (\<forall>i < length signals. let s = signals ! i; m = ms ! i; st0 = prefetch_prices env (order_symbols signals) st in
      sm_symbol m = sg_symbol s \<and> sm_target_weight m = sg_target_weight s \<and>
      (case sm_order_qty m of
         None \<Rightarrow> sm_skip_reason m \<noteq> None \<and> sm_order_side m = None
       | Some q \<Rightarrow> sm_order_side m = Some (if sg_target_weight s > 0 then ''buy'' else ''sell'') \<and>
           (\<exists>p k. redis_price env (sg_symbol s) p k \<and>
              ps_clock (state_before env signals st0 i) \<le> k \<and> k < ps_clock (state_before env signals st0 (Suc i)) \<and>
              0 < p \<and> 1 \<le> q \<and>
              of_int q * p \<le> min (\<bar>sg_target_weight s\<bar> * oe_capital env) (oe_max_position_size env) \<and>
              min (\<bar>sg_target_weight s\<bar> * oe_capital env) (oe_max_position_size env) < (of_int q + 1) * p)))"
proof -
  let ?st0 = "prefetch_prices env (order_symbols signals) st"
  obtain ms st' where ms: "map_signals_to_orders env signals st = (Inr ms, st')" "length ms = length signals"
    "\<forall>i < length signals. sized_order env (state_before env signals ?st0 i) (state_before env signals ?st0 (Suc i))
       (signals ! i) (ms ! i) \<or> skipped_signal (signals ! i) (ms ! i)"
    using mapped_orders [OF assms] by blast
  let ?ok = "\<lambda>a b s m. sm_symbol m = sg_symbol s \<and> sm_target_weight m = sg_target_weight s \<and>
      (case sm_order_qty m of
         None \<Rightarrow> sm_skip_reason m \<noteq> None \<and> sm_order_side m = None
       | Some q \<Rightarrow> sm_order_side m = Some (if sg_target_weight s > 0 then ''buy'' else ''sell'') \<and>
           (\<exists>p k. redis_price env (sg_symbol s) p k \<and> ps_clock a \<le> k \<and> k < ps_clock b \<and> 0 < p \<and> 1 \<le> q \<and>
              of_int q * p \<le> min (\<bar>sg_target_weight s\<bar> * oe_capital env) (oe_max_position_size env) \<and>
              min (\<bar>sg_target_weight s\<bar> * oe_capital env) (oe_max_position_size env) < (of_int q + 1) * p))"
  have sized: "?ok a b s m" if "sized_order env a b s m" for a b s m
  proof -
    from that obtain p q dollars where o: "fresh_between env a b (sg_symbol s) p"
      "calculate_position_size (sg_target_weight s) (oe_capital env) p (oe_max_position_size env) = Some (q, dollars)"
      "1 \<le> q" "m = (base_mapping s)\<lparr>sm_order_qty := Some q,
          sm_order_side := Some (if sg_target_weight s > 0 then ''buy'' else ''sell'')\<rparr>"
      unfolding sized_order_def by blast
    note pos = fresh_between_pos [OF o(1)]
    note size = calculate_position_size_bounds [OF o(2) pos o(3)]
    obtain k where "redis_price env (sg_symbol s) p k" "ps_clock a \<le> k" "k < ps_clock b"
      using o(1) unfolding fresh_between_def by blast
    then have "\<exists>p k. redis_price env (sg_symbol s) p k \<and> ps_clock a \<le> k \<and> k < ps_clock b \<and> 0 < p \<and> 1 \<le> q \<and>
        of_int q * p \<le> min (\<bar>sg_target_weight s\<bar> * oe_capital env) (oe_max_position_size env) \<and>
        min (\<bar>sg_target_weight s\<bar> * oe_capital env) (oe_max_position_size env) < (of_int q + 1) * p"
      using pos size o(3) by blast
    then show ?thesis by (simp add: o(4) base_mapping_def)
  qed
  have skipped: "?ok a b s m" if "skipped_signal s m" for a b s m
    using that by (auto simp: skipped_signal_def base_mapping_def)
  have "?ok (state_before env signals ?st0 i) (state_before env signals ?st0 (Suc i)) (signals ! i) (ms ! i)"
    if "i < length signals" for i
    using ms(3) that sized skipped by blast
  with ms(1,2) show ?thesis unfolding Let_def by blast
qed

theorem orders_sized_by_fresh_prices_witness:
  "\<exists>ms st'. map_signals_to_orders demo_orch demo_signals demo_prices = (Inr ms, st') \<and>
     map (\<lambda>m. (sm_symbol m, sm_order_qty m, sm_order_side m)) ms =
       [(''AAPL'', Some 133, Some ''buy''), (''MSFT'', None, None)]"
proof -
  have "map_sum id (map (\<lambda>m. (sm_symbol m, sm_order_qty m, sm_order_side m)))
      (fst (map_signals_to_orders demo_orch demo_signals demo_prices)) =
      Inr [(''AAPL'', Some 133, Some ''buy''), (''MSFT'', None, None)]"
    by code_simp
  then show ?thesis
    using orders_sized_by_fresh_prices [OF demo_prices_init, of demo_orch demo_signals] by auto
qed

text \<open>C32. A run ends in one of two ways.  Either it failed before any order, and then it left the gateway alone,
  has no mappings and says why; or it has a mapping for every signal, and its orders carry what the gateway
  answered: identifier and status of an answer, and otherwise the status rejected with the failure as the
  reason.  The counts are those of the answers: submitted are the orders answered, rejected those that failed
  or were answered rejected or cancelled, accepted those answered with any other status that is not empty (the
  statuses canceled and failed included); and the status of the run is what the counts say.\<close>

theorem run_accounts_for_every_signal:
  assumes "orch_init now age method [] = Inr st" "orch_run env rid ids as_of_date st g = (Inr r, g')"
  shows "re_run_id r = rid \<and>
    (re_error_message r \<noteq> None \<and> re_status r = ''failed'' \<and> re_mappings r = [] \<and> g' = g \<or>
     re_error_message r = None \<and>
     (\<exists>ss as_of ms st'. orch_signals env ids = Inr (ss, as_of) \<and> map_signals_to_orders env ss st = (Inr ms, st') \<and>
        re_num_signals r = length ss \<and> length (re_mappings r) = length ss \<and>
        (let answers = gateway_answers env ms g in
           map outcome (filter has_order (re_mappings r)) = map answer_outcome answers \<and>
           (\<forall>m \<in> set (re_mappings r). \<not> has_order m \<longrightarrow>
              sm_client_order_id m = None \<and> sm_order_status m = None \<and> sm_skip_reason m \<noteq> None) \<and>
           re_num_submitted r = length (filter (\<lambda>x. \<exists>s. x = Inr s) answers) \<and>
           re_num_accepted r = length (filter (\<lambda>x. \<exists>s. x = Inr s \<and>
              ob_status s \<notin> {[], ''rejected'', ''cancelled''}) answers) \<and>
           re_num_rejected r = length (filter (\<lambda>x. (\<exists>e. x = Inl e) \<or>
              (\<exists>s. x = Inr s \<and> ob_status s \<in> {''rejected'', ''cancelled''})) answers))) \<and>
     re_status r = (if re_num_rejected r = 0 then ''completed''
                    else if re_num_accepted r = 0 then ''failed'' else ''partial''))"
proof -
  have ids: "ids \<noteq> []" using assms(2) by (auto simp: orch_run_def)
  from assms(1) ids show ?thesis
  proof (cases rule: orch_run_cases [where env = env and rid = rid and d = as_of_date and g = g])
    case (failed e)
    with assms(2) show ?thesis by (auto simp: failed_run_def)
  next
    case (ran ss as_of ms st' ms' g2)
    let ?answers = "gateway_answers env ms g"
    have r: "r = run_result env rid ids as_of (length ss) ms'" "g' = g2"
      using ran(6) assms(2) by auto
    note out = submitted_outcomes [OF ran(4,5)]
    have "count_if (\<lambda>m. sm_client_order_id m \<noteq> None) ms' =
        count_if ((\<lambda>(c, _). c \<noteq> None) \<circ> answer_outcome) ?answers"
      by (rule count_answers) (use out in \<open>auto simp: outcome_def\<close>)
    also have "(\<lambda>(c, _). c \<noteq> None) \<circ> answer_outcome = (\<lambda>x. \<exists>s. x = Inr s)"
      by (rule ext) (simp add: answer_outcome_def split: sum.split)
    finally have submitted: "count_if (\<lambda>m. sm_client_order_id m \<noteq> None) ms' = count_if (\<lambda>x. \<exists>s. x = Inr s) ?answers" .
    have "count_if is_accepted ms' =
        count_if ((\<lambda>(_, t, _). t \<notin> {None, Some [], Some ''rejected'', Some ''cancelled''}) \<circ> answer_outcome) ?answers"
      by (rule count_answers) (use out in \<open>auto simp: outcome_def is_accepted_def is_rejected_def\<close>)
    also have "(\<lambda>(_, t, _). t \<notin> {None, Some [], Some ''rejected'', Some ''cancelled''}) \<circ> answer_outcome =
        (\<lambda>x. \<exists>s. x = Inr s \<and> ob_status s \<notin> {[], ''rejected'', ''cancelled''})"
      by (rule ext) (simp add: answer_outcome_def split: sum.split)
    finally have accepted: "count_if is_accepted ms' =
        count_if (\<lambda>x. \<exists>s. x = Inr s \<and> ob_status s \<notin> {[], ''rejected'', ''cancelled''}) ?answers" .
    have "count_if is_rejected ms' =
        count_if ((\<lambda>(_, t, _). t \<in> {Some ''rejected'', Some ''cancelled''}) \<circ> answer_outcome) ?answers"
      by (rule count_answers) (use out in \<open>auto simp: outcome_def is_rejected_def\<close>)
    also have "(\<lambda>(_, t, _). t \<in> {Some ''rejected'', Some ''cancelled''}) \<circ> answer_outcome =
        (\<lambda>x. (\<exists>e. x = Inl e) \<or> (\<exists>s. x = Inr s \<and> ob_status s \<in> {''rejected'', ''cancelled''}))"
      by (rule ext) (simp add: answer_outcome_def split: sum.split)
    finally have rejected: "count_if is_rejected ms' =
        count_if (\<lambda>x. (\<exists>e. x = Inl e) \<or> (\<exists>s. x = Inr s \<and> ob_status s \<in> {''rejected'', ''cancelled''})) ?answers" .
    have "map outcome (filter has_order ms') = map answer_outcome ?answers" "length ms' = length ss"
      "\<forall>m \<in> set ms'. \<not> has_order m \<longrightarrow> sm_client_order_id m = None \<and> sm_order_status m = None \<and> sm_skip_reason m \<noteq> None"
      using out ran(3) by (auto simp: unsent_def has_order_def)
    moreover have "re_error_message r = None" "re_run_id r = rid" "re_mappings r = ms'" "re_num_signals r = length ss"
      "re_status r = (if re_num_rejected r = 0 then ''completed''
                    else if re_num_accepted r = 0 then ''failed'' else ''partial'')"
      by (simp_all add: r run_result_def Let_def)
    moreover have "re_num_submitted r = count_if (\<lambda>x. \<exists>s. x = Inr s) ?answers"
      unfolding submitted [symmetric] by (simp add: r run_result_def Let_def)
    moreover have "re_num_accepted r = count_if (\<lambda>x. \<exists>s. x = Inr s \<and>
        ob_status s \<notin> {[], ''rejected'', ''cancelled''}) ?answers"
      unfolding accepted [symmetric] by (simp add: r run_result_def Let_def)
    moreover have "re_num_rejected r = count_if (\<lambda>x. (\<exists>e. x = Inl e) \<or>
        (\<exists>s. x = Inr s \<and> ob_status s \<in> {''rejected'', ''cancelled''})) ?answers"
      unfolding rejected [symmetric] by (simp add: r run_result_def Let_def)
    ultimately show ?thesis
      using ran(1,2) unfolding count_if_def Let_def by blast
  qed
qed

theorem run_accounts_for_every_signal_witness:
  "(\<exists>r g'. orch_run demo_orch ''r1'' [''alpha''] None demo_prices [] = (Inr r, g') \<and> re_run_id r = ''r1'' \<and>
     re_num_accepted r = 1 \<and> g' = [orchestrated_order ''AAPL'' ''buy'' 133])"
proof -
  have ran: "re_num_accepted (projr (fst (orch_run demo_orch ''r1'' [''alpha''] None demo_prices []))) = 1 \<and>
      snd (orch_run demo_orch ''r1'' [''alpha''] None demo_prices []) = [orchestrated_order ''AAPL'' ''buy'' 133] \<and>
      \<not> isl (fst (orch_run demo_orch ''r1'' [''alpha''] None demo_prices []))"
    by code_simp
  then obtain r g' where r: "orch_run demo_orch ''r1'' [''alpha''] None demo_prices [] = (Inr r, g')"
    by (metis prod.collapse sum.collapse(2))
  show ?thesis
    using run_accounts_for_every_signal [OF demo_prices_init r] ran r by auto
qed

end
