(* ===== verification/Orchestrator_Service.thy ===== *)
theory Orchestrator_Service
  imports Orchestrator
begin

text \<open>
  The service around the orchestrator, \<^verbatim>\<open>apps/orchestrator/main.py\<close> and \<^verbatim>\<open>database.py\<close>: its start, the
  endpoint that runs an orchestration, the kill switch's endpoints and the stored runs; and the composition
  with the execution gateway over a network that loses requests and answers.  The state of the service is the
  kill switch's Redis, whether there is a kill switch, the flag that its state is unknown, the gateway
  behind HTTP and the stored runs.
\<close>

section \<open>The state and the start\<close>

record 'g orch_service =
  ow_redis :: redis
  ow_kill_switch :: bool
  ow_kill_switch_unavailable :: bool
  ow_gateway :: 'g
  ow_runs :: "orchestration_result list"

text \<open>Without Redis, or when the construction of the kill switch fails, the service is closed from the start.\<close>

definition orchestrator_startup :: "bool \<Rightarrow> bool \<Rightarrow> redis \<Rightarrow> 'g \<Rightarrow> orchestration_result list \<Rightarrow> 'g orch_service" where
  "orchestrator_startup has_redis constructed r g runs =
     (if has_redis \<and> constructed
      then \<lparr>ow_redis = ks_init r, ow_kill_switch = True, ow_kill_switch_unavailable = False, ow_gateway = g, ow_runs = runs\<rparr>
      else \<lparr>ow_redis = r, ow_kill_switch = False, ow_kill_switch_unavailable = True, ow_gateway = g, ow_runs = runs\<rparr>)"

definition set_kill_switch_unavailable :: "'g orch_service \<Rightarrow> 'g orch_service" where
  "set_kill_switch_unavailable w = w\<lparr>ow_kill_switch_unavailable := True\<rparr>"

section \<open>The endpoints of the kill switch\<close>

definition ks_not_initialized :: py_error where
  "ks_not_initialized = HTTPException 503 ''Kill-switch unavailable (Redis not initialized)''"

definition ks_state_missing :: py_error where
  "ks_state_missing = HTTPException 503 ''Kill-switch state missing in Redis (fail-closed for safety)''"

text \<open>The clauses the two changing endpoints share; a decoding error is a \<open>ValueError\<close>.\<close>

definition ks_endpoint_answer :: "dict result \<Rightarrow> 'g orch_service \<Rightarrow> dict result \<times> 'g orch_service" where
  "ks_endpoint_answer x w =
     (case x of
        Inr d \<Rightarrow> (Inr d, w)
      | Inl (RuntimeError m) \<Rightarrow> (Inl ks_state_missing, set_kill_switch_unavailable w)
      | Inl (ValueError m) \<Rightarrow> (Inl (HTTPException 400 m), w)
      | Inl DecodeError \<Rightarrow> (Inl (HTTPException 400 ''invalid JSON''), w)
      | Inl e \<Rightarrow> (Inl e, w))"

definition engage_kill_switch ::
  "string \<Rightarrow> string \<Rightarrow> string \<Rightarrow> json \<Rightarrow> 'g orch_service \<Rightarrow> dict result \<times> 'g orch_service" where
  "engage_kill_switch now reason operator details w =
     (if \<not> ow_kill_switch w then (Inl ks_not_initialized, w)
      else let (x, r) = ks_engage now reason operator details (ow_redis w)
           in ks_endpoint_answer (rbind x (\<lambda>_. ks_get_status r)) (w\<lparr>ow_redis := r\<rparr>))"

definition disengage_kill_switch ::
  "string \<Rightarrow> string \<Rightarrow> string option \<Rightarrow> 'g orch_service \<Rightarrow> dict result \<times> 'g orch_service" where
  "disengage_kill_switch now operator notes w =
     (if \<not> ow_kill_switch w then (Inl ks_not_initialized, w)
      else let (x, r) = ks_disengage now operator notes (ow_redis w)
           in ks_endpoint_answer (rbind x (\<lambda>_. ks_get_status r)) (w\<lparr>ow_redis := r\<rparr>))"

definition get_kill_switch_status :: "'g orch_service \<Rightarrow> dict result \<times> 'g orch_service" where
  "get_kill_switch_status w =
     (if \<not> ow_kill_switch w then (Inl ks_not_initialized, w)
      else case ks_get_status (ow_redis w) of
        Inl (RuntimeError m) \<Rightarrow> (Inl ks_state_missing, set_kill_switch_unavailable w)
      | x \<Rightarrow> (x, w))"

section \<open>The stored runs\<close>

definition create_run :: "orchestration_result \<Rightarrow> orchestration_result list \<Rightarrow> orchestration_result list" where
  "create_run r runs = runs @ [r]"

text \<open>\<open>COALESCE\<close> keeps the error message when none is given.\<close>

definition update_run_status ::
  "string \<Rightarrow> string \<Rightarrow> string option \<Rightarrow> orchestration_result list \<Rightarrow> orchestration_result list" where
  "update_run_status rid status message runs =
     map (\<lambda>r. if re_run_id r = rid
       then r\<lparr>re_status := status,
              re_error_message := (case message of None \<Rightarrow> re_error_message r | Some m \<Rightarrow> Some m)\<rparr>
       else r) runs"

section \<open>The endpoint that runs an orchestration\<close>

record orch_request =
  oq_as_of_date :: "string option"
  oq_capital :: "rat option"
  oq_max_position_size :: "rat option"

definition default_zero :: "rat option \<Rightarrow> rat \<Rightarrow> rat" where
  "default_zero x d = (case x of None \<Rightarrow> d | Some y \<Rightarrow> if y = 0 then d else y)"

text \<open>What the outer clauses of the endpoint make of an exception.\<close>

fun endpoint_error :: "py_error \<Rightarrow> py_error" where
  "endpoint_error (HTTPException c m) = HTTPException c m"
| "endpoint_error (ValueError m) = HTTPException 400 m"
| "endpoint_error DecodeError = HTTPException 400 ''invalid JSON''"
| "endpoint_error _ = HTTPException 500 ''Internal server error during orchestration''"

text \<open>The checks of the kill switch: the flag, then the state if there is a kill switch.\<close>

definition orch_kill_switch :: "'g orch_service \<Rightarrow> unit result \<times> 'g orch_service" where
  "orch_kill_switch w =
     (if ow_kill_switch_unavailable w then (Inl (HTTPException 503 ''Kill-switch unavailable''), w)
      else if \<not> ow_kill_switch w then (Inr (), w)
      else case ks_is_engaged (ow_redis w) of
        Inr False \<Rightarrow> (Inr (), w)
      | Inr True \<Rightarrow> (Inl (HTTPException 503 ''Kill-switch engaged''), w)
      | Inl (RuntimeError m) \<Rightarrow>
          (Inl ks_state_missing, set_kill_switch_unavailable w)
      | Inl e \<Rightarrow> (Inl (endpoint_error e), w))"

text \<open>
  The endpoint for the configured strategy; \<open>stored\<close> says whether \<open>create_run\<close> succeeds, \<open>parse_date\<close>
  reads a date and prints it again.
\<close>

definition run_orchestration ::
  "'g orch_env \<Rightarrow> (string \<Rightarrow> string option) \<Rightarrow> bool \<Rightarrow> string \<Rightarrow> string \<Rightarrow> orch_request \<Rightarrow> 'g orch_service \<Rightarrow>
   orchestration_result result \<times> 'g orch_service" where
  "run_orchestration env parse_date stored run_id strategy_id q w =
     (case orch_kill_switch w of
        (Inl e, w') \<Rightarrow> (Inl e, w')
      | (Inr _, w') \<Rightarrow>
          let given = (case oq_as_of_date q of Some [] \<Rightarrow> None | x \<Rightarrow> x);
              as_of = (case given of None \<Rightarrow> None | Some d \<Rightarrow> parse_date d);
              env' = env\<lparr>oe_capital := default_zero (oq_capital q) (oe_capital env),
                         oe_max_position_size := default_zero (oq_max_position_size q) (oe_max_position_size env)\<rparr>
          in if given \<noteq> None \<and> as_of = None
             then (Inl (HTTPException 400 ''Invalid date format''), w')
             else case orch_init (oe_now env' 0) (oe_max_price_age env') ''rank_aggregation'' [] of
               Inl e \<Rightarrow> (Inl (HTTPException 400 (run_error_message e)), w')
             | Inr st \<Rightarrow>
                 (case orch_run env' run_id [strategy_id] as_of st (ow_gateway w') of
                    (Inl e, g') \<Rightarrow> (Inl (HTTPException 400 (run_error_message e)), w'\<lparr>ow_gateway := g'\<rparr>)
                  | (Inr r, g') \<Rightarrow>
                      if stored then (Inr r, w'\<lparr>ow_gateway := g', ow_runs := create_run r (ow_runs w')\<rparr>)
                      else (Inl (HTTPException 500 ''Database error during orchestration''),
                            w'\<lparr>ow_gateway := g'\<rparr>)))"

section \<open>Steps of the service\<close>

text \<open>\<open>OOther\<close> is what other clients do to the kill switch's Redis.\<close>

datatype 'g orch_event =
    ORun "'g orch_env" "string \<Rightarrow> string option" bool string string orch_request
  | OEngage string string string json
  | ODisengage string string "string option"
  | OStatus
  | OUpdate string string "string option"
  | OOther "redis \<Rightarrow> redis"

fun orch_step :: "'g orch_event \<Rightarrow> 'g orch_service \<Rightarrow> 'g orch_service" where
  "orch_step (ORun env parse_date stored run_id strategy_id q) w =
     snd (run_orchestration env parse_date stored run_id strategy_id q w)"
| "orch_step (OEngage now reason operator details) w = snd (engage_kill_switch now reason operator details w)"
| "orch_step (ODisengage now operator notes) w = snd (disengage_kill_switch now operator notes w)"
| "orch_step OStatus w = snd (get_kill_switch_status w)"
| "orch_step (OUpdate rid status message) w = w\<lparr>ow_runs := update_run_status rid status message (ow_runs w)\<rparr>"
| "orch_step (OOther f) w = w\<lparr>ow_redis := f (ow_redis w)\<rparr>"

inductive orch_reach :: "'g orch_service \<Rightarrow> 'g orch_event list \<Rightarrow> 'g orch_service \<Rightarrow> bool" for w0 where
  orch_start: "orch_reach w0 [] w0"
| orch_next: "orch_reach w0 evs w \<Longrightarrow> orch_reach w0 (evs @ [ev]) (orch_step ev w)"

inductive_cases orch_reach_snoc: "orch_reach w0 (evs @ [ev]) w"

section \<open>What a step does to the gateway\<close>

lemma ks_endpoint_answer_frame [simp]:
  "ow_redis (snd (ks_endpoint_answer x w)) = ow_redis w"
  "ow_kill_switch (snd (ks_endpoint_answer x w)) = ow_kill_switch w"
  "ow_gateway (snd (ks_endpoint_answer x w)) = ow_gateway w"
  "ow_runs (snd (ks_endpoint_answer x w)) = ow_runs w"
  "ow_kill_switch_unavailable w \<Longrightarrow> ow_kill_switch_unavailable (snd (ks_endpoint_answer x w))"
  by (auto simp: ks_endpoint_answer_def set_kill_switch_unavailable_def split: sum.split py_error.split)

lemma engage_frame [simp]:
  "ow_kill_switch (snd (engage_kill_switch now reason operator details w)) = ow_kill_switch w"
  "ow_gateway (snd (engage_kill_switch now reason operator details w)) = ow_gateway w"
  "ow_runs (snd (engage_kill_switch now reason operator details w)) = ow_runs w"
  "ow_kill_switch_unavailable w \<Longrightarrow>
   ow_kill_switch_unavailable (snd (engage_kill_switch now reason operator details w))"
  by (simp_all add: engage_kill_switch_def case_prod_unfold Let_def)

lemma disengage_frame [simp]:
  "ow_kill_switch (snd (disengage_kill_switch now operator notes w)) = ow_kill_switch w"
  "ow_gateway (snd (disengage_kill_switch now operator notes w)) = ow_gateway w"
  "ow_runs (snd (disengage_kill_switch now operator notes w)) = ow_runs w"
  "ow_kill_switch_unavailable w \<Longrightarrow>
   ow_kill_switch_unavailable (snd (disengage_kill_switch now operator notes w))"
  by (simp_all add: disengage_kill_switch_def case_prod_unfold Let_def)

lemma status_frame [simp]:
  "ow_redis (snd (get_kill_switch_status w)) = ow_redis w"
  "ow_kill_switch (snd (get_kill_switch_status w)) = ow_kill_switch w"
  "ow_gateway (snd (get_kill_switch_status w)) = ow_gateway w"
  "ow_runs (snd (get_kill_switch_status w)) = ow_runs w"
  "ow_kill_switch_unavailable w \<Longrightarrow> ow_kill_switch_unavailable (snd (get_kill_switch_status w))"
  by (auto simp: get_kill_switch_status_def set_kill_switch_unavailable_def split: sum.split py_error.split)

lemma orch_kill_switch_frame [simp]:
  "ow_redis (snd (orch_kill_switch w)) = ow_redis w"
  "ow_kill_switch (snd (orch_kill_switch w)) = ow_kill_switch w"
  "ow_gateway (snd (orch_kill_switch w)) = ow_gateway w"
  "ow_runs (snd (orch_kill_switch w)) = ow_runs w"
  "ow_kill_switch_unavailable w \<Longrightarrow> ow_kill_switch_unavailable (snd (orch_kill_switch w))"
  by (auto simp: orch_kill_switch_def set_kill_switch_unavailable_def
      split: sum.split py_error.split bool.split)

lemma orch_kill_switch_pass:
  "orch_kill_switch w = (Inr u, w') \<Longrightarrow>
   w' = w \<and> \<not> ow_kill_switch_unavailable w \<and> (ow_kill_switch w \<longrightarrow> ks_is_engaged (ow_redis w) = Inr False)"
  by (auto simp: orch_kill_switch_def split: if_splits sum.splits py_error.splits bool.splits)

text \<open>A request is stopped by the kill switch, stopped by its own fields, or runs.\<close>

lemma run_orchestration_cases:
  obtains (stopped) e where "run_orchestration env parse_date stored rid sid q w = (Inl e, snd (orch_kill_switch w))"
    | (ran) env' d st x g' where "orch_kill_switch w = (Inr (), w)" "oe_post env' = oe_post env"
      "oe_max_position_size env' = default_zero (oq_max_position_size q) (oe_max_position_size env)"
      "orch_init (oe_now env 0) (oe_max_price_age env) ''rank_aggregation'' [] = Inr st"
      "orch_run env' rid [sid] d st (ow_gateway w) = (Inr x, g')"
      "snd (run_orchestration env parse_date stored rid sid q w) =
         w\<lparr>ow_gateway := g', ow_runs := (if stored then create_run x (ow_runs w) else ow_runs w)\<rparr>"
      "fst (run_orchestration env parse_date stored rid sid q w) =
         (if stored then Inr x else Inl (HTTPException 500 ''Database error during orchestration''))"
proof (cases "orch_kill_switch w")
  case gate: (Pair y w1)
  let ?env = "env\<lparr>oe_capital := default_zero (oq_capital q) (oe_capital env),
      oe_max_position_size := default_zero (oq_max_position_size q) (oe_max_position_size env)\<rparr>"
  let ?given = "case oq_as_of_date q of Some [] \<Rightarrow> None | x \<Rightarrow> x"
  let ?d = "case ?given of None \<Rightarrow> None | Some d \<Rightarrow> parse_date d"
  show ?thesis
  proof (cases "(\<exists>e. y = Inl e) \<or> ?given \<noteq> None \<and> ?d = None \<or>
      (\<exists>e. orch_init (oe_now env 0) (oe_max_price_age env) ''rank_aggregation'' [] = Inl e)")
    case True
    then have "\<exists>e. run_orchestration env parse_date stored rid sid q w = (Inl e, w1)"
      by (auto simp: run_orchestration_def gate Let_def split: sum.split)
    then show ?thesis using stopped gate by auto
  next
    case False
    obtain st where st: "orch_init (oe_now env 0) (oe_max_price_age env) ''rank_aggregation'' [] = Inr st"
      using False by (metis sum.exhaust)
    have y: "y = Inr ()" "w1 = w"
      using False orch_kill_switch_pass [of w _ w1] gate by (cases y; auto)+
    obtain x g' where run: "orch_run ?env rid [sid] ?d st (ow_gateway w) = (Inr x, g')"
      by (rule orch_run_cases [OF st, of "[sid]" ?env rid ?d "ow_gateway w"]) auto
    have "run_orchestration env parse_date stored rid sid q w =
        (if stored then (Inr x, w\<lparr>ow_gateway := g', ow_runs := create_run x (ow_runs w)\<rparr>)
         else (Inl (HTTPException 500 ''Database error during orchestration''), w\<lparr>ow_gateway := g'\<rparr>))"
      using False st run by (auto simp: run_orchestration_def gate y Let_def)
    then show ?thesis
      using gate y st run by (intro ran [of ?env st ?d x g']) auto
  qed
qed

text \<open>The runs of an event post to a given service.\<close>

fun posts_to :: "(order_request \<Rightarrow> 'g \<Rightarrow> order_submission http_reply \<times> 'g) \<Rightarrow> 'g orch_event \<Rightarrow> bool" where
  "posts_to post (ORun env parse_date stored run_id strategy_id q) = (oe_post env = post)"
| "posts_to post _ = True"

context order_gateway
begin

lemma moves_endpoint:
  assumes "oe_post env = post"
  shows "moves (ow_gateway w) (ow_gateway (snd (run_orchestration env parse_date stored rid sid q w)))"
proof (cases rule: run_orchestration_cases [of env parse_date stored rid sid q w])
  case (stopped e)
  then show ?thesis by (simp add: moves_refl)
next
  case (ran env' d st x g')
  then show ?thesis using moves_run [of env' "ow_gateway w" rid "[sid]" d st] assms by simp
qed

lemma moves_step: "posts_to post ev \<Longrightarrow> moves (ow_gateway w) (ow_gateway (orch_step ev w))"
  by (cases ev) (simp_all add: moves_endpoint moves_refl)

lemma moves_reach:
  "orch_reach w0 evs w \<Longrightarrow> \<forall>ev \<in> set evs. posts_to post ev \<Longrightarrow> moves (ow_gateway w0) (ow_gateway w)"
  by (induction rule: orch_reach.induct) (auto intro: moves_refl moves_trans moves_step)

end

section \<open>The gateway behind the network\<close>

text \<open>
  The service behind the requests is the gateway of the theory \<^verbatim>\<open>Gateway\<close>, with the number of requests so far.  The
  \<open>n\<close>-th request finds the gateway after other events, in surroundings of its own, and may be lost on its way,
  lose its answer, or be answered.
\<close>

datatype fault = Answered | RequestLost | AnswerLost

record network =
  nt_between :: "nat \<Rightarrow> gateway_event list"
  nt_env :: "nat \<Rightarrow> submit_env"
  nt_recovery :: "nat \<Rightarrow> recovery_state"
  nt_fault :: "nat \<Rightarrow> fault"

text \<open>The request as the gateway's schema reads it: the symbol in upper case, the fields checked.\<close>

definition gateway_request :: "order_request \<Rightarrow> order_request" where
  "gateway_request order = order\<lparr>or_symbol := upper (or_symbol order)\<rparr>"

fun error_status :: "py_error \<Rightarrow> nat" where
  "error_status (HTTPException c m) = c"
| "error_status _ = 500"

definition gateway_answer ::
  "submit_env \<Rightarrow> recovery_state \<Rightarrow> order_request \<Rightarrow> gateway \<Rightarrow> order_submission http_reply \<times> gateway" where
  "gateway_answer env rv order w =
     (if \<not> order_request_ok (db_request (gateway_request order)) then (Response 422 (NotAMapping ''detail''), w)
      else case submit_order env rv (gateway_request order) w of
        (Inr r, w') \<Rightarrow>
          (Response 200 (Parsed \<lparr>ob_client_order_id = os_client_order_id r, ob_status = os_status r,
             ob_broker_order_id = os_broker_order_id r\<rparr>), w')
      | (Inl e, w') \<Rightarrow> (Response (error_status e) (NotAMapping ''detail''), w'))"

definition gateway_post ::
  "network \<Rightarrow> order_request \<Rightarrow> nat \<times> gateway \<Rightarrow> order_submission http_reply \<times> (nat \<times> gateway)" where
  "gateway_post net order g =
     (let (n, w) = g; w1 = fold gateway_step (nt_between net n) w
      in if nt_fault net n = RequestLost then (ConnectError ''connection refused'', (Suc n, w1))
         else let (reply, w2) = gateway_answer (nt_env net n) (nt_recovery net n) order w1
              in (if nt_fault net n = AnswerLost then TimeoutException ''read timeout'' else reply, (Suc n, w2)))"

text \<open>The events of the gateway that a request can bring about.\<close>

definition network_events :: "network \<Rightarrow> gateway_event set" where
  "network_events net = (\<Union>n. set (nt_between net n)) \<union>
     {ESubmit (nt_env net n) (nt_recovery net n) order |n order. order_request_ok (db_request order)}"

definition gateway_moves :: "network \<Rightarrow> nat \<times> gateway \<Rightarrow> nat \<times> gateway \<Rightarrow> bool" where
  "gateway_moves net g g' \<longleftrightarrow>
     fst g \<le> fst g' \<and> (\<exists>evs. gateway_reach (snd g) evs (snd g') \<and> set evs \<subseteq> network_events net)"

lemma gateway_reach_append: "gateway_reach w evs' w' \<Longrightarrow> gateway_reach w0 evs w \<Longrightarrow> gateway_reach w0 (evs @ evs') w'"
  by (induction rule: gateway_reach.induct) (simp_all add: gateway_next flip: append_assoc)

lemma gateway_reach_fold: "gateway_reach w evs (fold gateway_step evs w)"
  by (induction evs rule: rev_induct) (simp_all add: gateway_start gateway_next)

lemma gateway_answer_reach:
  "\<exists>evs. gateway_reach w evs (snd (gateway_answer env rv order w)) \<and>
     set evs \<subseteq> {ESubmit env rv order' |order'. order_request_ok (db_request order')}"
proof (cases "order_request_ok (db_request (gateway_request order))")
  case False
  then show ?thesis using gateway_start [of w] by (intro exI [of _ "[]"]) (simp add: gateway_answer_def)
next
  case True
  then have "snd (gateway_answer env rv order w) = gateway_step (ESubmit env rv (gateway_request order)) w"
    by (simp add: gateway_answer_def split: prod.split sum.split)
  with True gateway_next [OF gateway_start, of w "ESubmit env rv (gateway_request order)"] show ?thesis
    by (intro exI [of _ "[ESubmit env rv (gateway_request order)]"]) auto
qed

lemma gateway_moves_refl: "gateway_moves net g g"
  using gateway_start [of "snd g"] by (auto simp: gateway_moves_def intro: exI [of _ "[]"])

lemma gateway_moves_trans: "gateway_moves net g1 g2 \<Longrightarrow> gateway_moves net g2 g3 \<Longrightarrow> gateway_moves net g1 g3"
  unfolding gateway_moves_def by (metis gateway_reach_append order.trans set_append Un_least)

lemma gateway_moves_post: "gateway_moves net g (snd (gateway_post net order g))"
proof -
  obtain n w where g: "g = (n, w)" by (cases g)
  let ?w = "fold gateway_step (nt_between net n) w"
  have between: "gateway_moves net g (Suc n, ?w)"
    using gateway_reach_fold [of w "nt_between net n"] by (auto simp: g gateway_moves_def network_events_def)
  have "{ESubmit (nt_env net n) (nt_recovery net n) order' |order'. order_request_ok (db_request order')}
      \<subseteq> network_events net"
    by (auto simp: network_events_def)
  then obtain evs where "gateway_reach ?w evs (snd (gateway_answer (nt_env net n) (nt_recovery net n) order ?w))"
    "set evs \<subseteq> network_events net"
    using gateway_answer_reach [of ?w "nt_env net n" "nt_recovery net n" order] by (meson subset_trans)
  then have "gateway_moves net (Suc n, ?w) (Suc n, snd (gateway_answer (nt_env net n) (nt_recovery net n) order ?w))"
    by (auto simp: gateway_moves_def)
  with between show ?thesis
    using gateway_moves_trans [OF between] by (simp add: g gateway_post_def case_prod_unfold Let_def)
qed

interpretation og: order_gateway "gateway_post net" "gateway_moves net"
  by unfold_locales (rule gateway_moves_refl, erule (1) gateway_moves_trans, rule gateway_moves_post)

lemma sent_once_reach:
  "gateway_reach w0 evs w \<Longrightarrow> sent_once w0 \<Longrightarrow> \<forall>ev \<in> set evs. event_ok ev \<Longrightarrow> sent_once w"
  by (induction rule: gateway_reach.induct) (auto intro: sent_once_step)

section \<open>An example\<close>

text \<open>The example of the theory \<^verbatim>\<open>Orchestrator\<close>, whose first request reaches the gateway but loses its answer.\<close>

definition demo_network :: network where
  "demo_network =
     \<lparr>nt_between = (\<lambda>_. []), nt_env = (\<lambda>_. demo_env (BrokerAccepted (Some ''b1'')) ''t1''),
      nt_recovery = (\<lambda>_. demo_recovery), nt_fault = (\<lambda>n. if n = 0 then AnswerLost else Answered)\<rparr>"

definition demo_orch_env :: "(nat \<times> gateway) orch_env" where
  "demo_orch_env =
     \<lparr>oe_capital = 100000, oe_max_position_size = 1500, oe_max_price_age = 30,
      oe_allocation_method = ''rank_aggregation'', oe_redis = oe_redis demo_orch, oe_redis_fails = (\<lambda>_. False),
      oe_now = oe_now demo_orch, oe_decimal = oe_decimal demo_orch, oe_fromiso = oe_fromiso demo_orch,
      oe_fetch = oe_fetch demo_orch, oe_allocate = (\<lambda>_ _ _. Inr []), oe_post = gateway_post demo_network,
      oe_today = ''2025-01-02''\<rparr>"

definition demo_service :: "bool \<Rightarrow> (nat \<times> gateway) orch_service" where
  "demo_service constructed = orchestrator_startup True constructed empty_redis (0, demo_gateway) []"

definition demo_orch_run :: "(nat \<times> gateway) orch_event" where
  "demo_orch_run = ORun demo_orch_env (\<lambda>d. Some d) True ''r1'' ''alpha''
     \<lparr>oq_as_of_date = None, oq_capital = None, oq_max_position_size = None\<rparr>"

definition demo_engage :: "(nat \<times> gateway) orch_event" where
  "demo_engage = OEngage ''t1'' ''halt'' ''ops'' JNull"

lemma demo_orch_reach:
  "orch_reach w ([] @ [ev]) (orch_step ev w)"
  "orch_reach w (([] @ [ev]) @ [ev']) (orch_step ev' (orch_step ev w))"
  by (intro orch_next orch_start)+

section \<open>Properties\<close>

text \<open>C29. With the gateway of this development behind a network that loses requests and answers, and
  whatever other events the gateway meets between them, no sequence of runs, with all their retries, sends an
  identifier to the broker twice, and every identifier that was sent has its row.\<close>

theorem orchestrated_orders_sent_once:
  assumes "orch_reach w0 evs w" "\<forall>ev \<in> set evs. posts_to (gateway_post net) ev"
    "gw_sent (snd (ow_gateway w0)) = []"
    "\<forall>n d. keeps d (sv_meanwhile (nt_env net n) d)" "\<forall>n. \<forall>ev \<in> set (nt_between net n). event_ok ev"
  shows "distinct (map fst (gw_sent (snd (ow_gateway w)))) \<and>
    (\<forall>c \<in> set (map fst (gw_sent (snd (ow_gateway w)))). db_order (gw_db (snd (ow_gateway w))) c \<noteq> None)"
proof -
  have "\<forall>ev \<in> network_events net. event_ok ev"
    using assms(4,5) by (auto simp: network_events_def)
  then have "sent_once (snd (ow_gateway w))"
    using og.moves_reach [OF assms(1,2)] sent_once_reach [of "snd (ow_gateway w0)" _ "snd (ow_gateway w)"] assms(3)
    by (force simp: gateway_moves_def sent_once_def)
  then show ?thesis by (simp add: sent_once_def)
qed

theorem orchestrated_orders_sent_once_witness:
  "distinct (map fst (gw_sent (snd (ow_gateway (orch_step demo_orch_run (demo_service True))))))"
  using orchestrated_orders_sent_once [OF demo_orch_reach(1) [of "demo_service True" demo_orch_run], of demo_network]
  by (simp add: demo_orch_run_def demo_orch_env_def demo_service_def orchestrator_startup_def demo_gateway_def
      demo_network_def demo_env_def)

text \<open>Where other clients leave an engaged kill switch engaged and nobody disengages it.\<close>

fun keeps_engaged :: "'g orch_event \<Rightarrow> bool" where
  "keeps_engaged (ODisengage now operator notes) = False"
| "keeps_engaged (OOther f) = (\<forall>r. ks_is_engaged r = Inr True \<longrightarrow> ks_is_engaged (f r) = Inr True)"
| "keeps_engaged _ = True"

definition closed_service :: "'g orch_service \<Rightarrow> bool" where
  "closed_service w \<longleftrightarrow> ow_kill_switch_unavailable w \<or> ow_kill_switch w \<and> ks_is_engaged (ow_redis w) = Inr True"

lemma closed_run:
  assumes "closed_service w"
  shows "snd (run_orchestration env parse_date stored rid sid q w) = snd (orch_kill_switch w)"
proof (cases rule: run_orchestration_cases [of env parse_date stored rid sid q w])
  case (ran env' d st x g')
  then have False using orch_kill_switch_pass [OF ran(1)] assms by (auto simp: closed_service_def)
  then show ?thesis ..
qed simp

lemma engage_redis:
  "ow_redis (snd (engage_kill_switch now reason operator details w)) =
     (if ow_kill_switch w then snd (ks_engage now reason operator details (ow_redis w)) else ow_redis w)"
  by (simp add: engage_kill_switch_def case_prod_unfold Let_def)

lemma closed_step:
  assumes "closed_service w" "ow_kill_switch_unavailable w \<or> keeps_engaged ev"
  shows "closed_service (orch_step ev w)" "ow_gateway (orch_step ev w) = ow_gateway w"
    "map re_run_id (ow_runs (orch_step ev w)) = map re_run_id (ow_runs w)"
    "ow_kill_switch_unavailable w \<Longrightarrow> ow_kill_switch_unavailable (orch_step ev w)"
proof -
  have engaged: "ks_is_engaged (snd (ks_engage now reason operator details r)) = Inr True"
    if "ks_is_engaged r = Inr True" for now reason operator details r
    using ks_run_op_engaged [OF that, of "KsEngage now reason operator details"] by simp
  show "closed_service (orch_step ev w)"
    using assms engaged by (cases ev) (auto simp: closed_service_def closed_run engage_redis)
  show "ow_gateway (orch_step ev w) = ow_gateway w"
    using assms(1) by (cases ev) (simp_all add: closed_run)
  show "map re_run_id (ow_runs (orch_step ev w)) = map re_run_id (ow_runs w)"
    using assms(1) by (cases ev) (simp_all add: closed_run update_run_status_def)
  show "ow_kill_switch_unavailable w \<Longrightarrow> ow_kill_switch_unavailable (orch_step ev w)"
    using assms(1) by (cases ev) (simp_all add: closed_run)
qed

text \<open>C31. While the kill switch is engaged, and for good once its state was found to be unknown, no event posts an
  order, changes the gateway or stores a run, whatever is requested; a service that could not construct its
  kill switch is closed from the start.\<close>

theorem closed_orchestrator_posts_nothing:
  assumes "orch_reach w0 evs w"
    "w0 = orchestrator_startup has_redis False r g runs \<or> ow_kill_switch_unavailable w0 \<or>
     ow_kill_switch w0 \<and> ks_is_engaged (ow_redis w0) = Inr True \<and> (\<forall>ev \<in> set evs. keeps_engaged ev)"
  shows "ow_gateway w = ow_gateway w0 \<and> map re_run_id (ow_runs w) = map re_run_id (ow_runs w0) \<and>
    (\<exists>e. fst (run_orchestration env parse_date stored rid sid q w) = Inl e)"
proof -
  have "closed_service w0 \<and> (ow_kill_switch_unavailable w0 \<or> (\<forall>ev \<in> set evs. keeps_engaged ev))"
    using assms(2) by (auto simp: closed_service_def orchestrator_startup_def)
  with assms(1) have w: "closed_service w \<and> ow_gateway w = ow_gateway w0 \<and>
      map re_run_id (ow_runs w) = map re_run_id (ow_runs w0) \<and>
      (ow_kill_switch_unavailable w0 \<longrightarrow> ow_kill_switch_unavailable w)"
  proof (induction rule: orch_reach.induct)
    case (orch_next evs w ev)
    then have "closed_service w" "ow_kill_switch_unavailable w \<or> keeps_engaged ev" by auto
    from closed_step [OF this] orch_next show ?case by auto
  qed simp
  moreover have "\<exists>e. fst (run_orchestration env parse_date stored rid sid q w) = Inl e"
  proof (cases rule: run_orchestration_cases [of env parse_date stored rid sid q w])
    case (ran env' d st x g')
    then have False using orch_kill_switch_pass [OF ran(1)] w by (auto simp: closed_service_def)
    then show ?thesis ..
  qed simp
  ultimately show ?thesis by simp
qed

theorem closed_orchestrator_posts_nothing_witness:
  "ow_gateway (orch_step demo_orch_run (orch_step demo_engage (demo_service True))) = (0, demo_gateway)"
proof -
  have "ks_is_engaged (snd (ks_engage ''t1'' ''halt'' ''ops'' JNull (ks_init empty_redis))) = Inr True"
    by code_simp
  then have "ks_is_engaged (ow_redis (orch_step demo_engage (demo_service True))) = Inr True"
    by (simp add: demo_engage_def demo_service_def orchestrator_startup_def engage_redis)
  then show ?thesis
    using closed_orchestrator_posts_nothing [OF demo_orch_reach(1) [of "orch_step demo_engage (demo_service True)" demo_orch_run]]
    by (simp add: demo_orch_run_def demo_engage_def demo_service_def orchestrator_startup_def)
qed

end
