(* ===== verification/Spec2Isabelle.thy ===== *)
theory Spec2Isabelle
  imports Risk_Checker Gateway Manual_Machine Orchestrator_Service
begin

text \<open>
  The execution and risk core of the trading platform, modelled from its Python sources and verified.

  \<^bold>\<open>The program.\<close>  An orchestrator turns the signals of strategies into orders and sends them to the execution gateway
  (\<^verbatim>\<open>apps/execution_gateway\<close>), which checks them, stores them, sends them to a broker and follows what
  becomes of them.  Three safety components of \<^verbatim>\<open>libs/trading/risk_management\<close> keep their state in
  Redis, shared by all processes: a kill switch, a circuit breaker and the reservations of positions.
  The orders, fills, trades and positions are rows of a database.  What the broker does reaches the
  gateway in two ways that may overlap and repeat: webhooks, and a reconciliation service that
  compares the database with the broker at startup and periodically.  Until the first reconciliation
  has succeeded a startup gate lets only orders through that reduce a position.

  \<^bold>\<open>State.\<close>  Redis is the record \<open>redis\<close> of \<^verbatim>\<open>Redis_Store\<close>: a value and a time to live for every key.
  The database is the record \<open>db\<close> of \<^verbatim>\<open>Order_Db\<close>: one association list or list per table.  The gateway
  of \<^verbatim>\<open>Submit_Order\<close> is Redis, the database and the log of what was sent to the broker.  Every method
  that changes state returns it changed, errors are the left side of a sum (\<open>result\<close>), and a raise
  leaves the state as the code leaves it.  Decimals and weights are exact rationals, times are rationals of
  seconds, Python integers are integers; the 32-bit words of SHA-256 are words.  The clock, random
  tokens, the broker, parsers of dates and numbers and the printing of decimals are arguments.

  \<^bold>\<open>Theories\<close>, from the bottom:

  \<^item> \<^verbatim>\<open>Prelude\<close>: exceptions, JSON, dictionaries, decimal printing, case and white space; the locales of
    keyed stores.
  \<^item> \<^verbatim>\<open>Redis_Store\<close>: the commands of \<^verbatim>\<open>libs/core/redis_client/client.py\<close>; \<^verbatim>\<open>Watch_Tx\<close>: optimistic
    transactions of any number of clients (WATCH, MULTI, EXEC) as a locale and a step relation with
    its serialization.
  \<^item> \<^verbatim>\<open>Circuit_Breaker\<close>, \<^verbatim>\<open>Kill_Switch\<close>, \<^verbatim>\<open>Position_Reservation\<close>, \<^verbatim>\<open>Risk_Config\<close>, \<^verbatim>\<open>Risk_Checker\<close>:
    \<^verbatim>\<open>breaker.py\<close>, \<^verbatim>\<open>kill_switch.py\<close>, \<^verbatim>\<open>position_reservation.py\<close>, \<^verbatim>\<open>config.py\<close> and \<^verbatim>\<open>checker.py\<close> of
    \<^verbatim>\<open>libs/trading/risk_management\<close>, the Lua scripts translated branch by branch.
  \<^item> \<^verbatim>\<open>Sha256\<close>, \<^verbatim>\<open>Order_Id\<close>: the hash and the deterministic identifiers of \<^verbatim>\<open>order_id_generator.py\<close>.
  \<^item> \<^verbatim>\<open>Twap_Slicer\<close>: \<^verbatim>\<open>order_slicer.py\<close>; \<^verbatim>\<open>Fat_Finger\<close>: \<^verbatim>\<open>fat_finger_validator.py\<close> and the context of
    \<^verbatim>\<open>services/order_helpers.py\<close>; \<^verbatim>\<open>Position_Pnl\<close>: the position update of \<^verbatim>\<open>database.py\<close> and
    \<^verbatim>\<open>services/pnl_calculator.py\<close>.
  \<^item> \<^verbatim>\<open>Order_Db\<close>, \<^verbatim>\<open>Order_Fills\<close>: the statements of \<^verbatim>\<open>database.py\<close> on orders, orphan orders,
    modifications and high-water marks, and on fills, trades and positions.
  \<^item> \<^verbatim>\<open>Webhook\<close>: \<^verbatim>\<open>webhook_security.py\<close> and \<^verbatim>\<open>routes/webhooks.py\<close>.
  \<^item> \<^verbatim>\<open>Recon_Orders\<close>, \<^verbatim>\<open>Recon_Service\<close>: the package \<^verbatim>\<open>reconciliation\<close>, from the pure helpers to the run
    and the startup gate.
  \<^item> \<^verbatim>\<open>Recovery\<close>: \<^verbatim>\<open>recovery_manager.py\<close> and its use in \<^verbatim>\<open>routes/health.py\<close>.
  \<^item> \<^verbatim>\<open>Submit_Order\<close>: \<^verbatim>\<open>submit_order\<close> of \<^verbatim>\<open>routes/orders.py\<close> with its eleven gates and every failure of
    the broker, on top of all of the above.
  \<^item> \<^verbatim>\<open>Alpaca_Client\<close>: \<^verbatim>\<open>alpaca_client.py\<close>, with the broker's servers as an argument: retries, the
    classification of errors, the paging of the order list, quotes and activities.
  \<^item> \<^verbatim>\<open>Modify_Order\<close>: the endpoints of \<^verbatim>\<open>routes/orders.py\<close> that modify, cancel and read orders.
  \<^item> \<^verbatim>\<open>Gateway\<close>: the components together, as the steps of one state machine.
  \<^item> \<^verbatim>\<open>Slice_Db\<close>: the statements of \<^verbatim>\<open>database.py\<close> on sliced orders; \<^verbatim>\<open>Slice_Scheduler\<close>:
    \<^verbatim>\<open>slice_scheduler.py\<close> with the job library as an argument; \<^verbatim>\<open>Slice_Recovery\<close>: what its recovery
    guarantees; \<^verbatim>\<open>Slice_Machine\<close>: its jobs, cancellations and recoveries as interleaved steps.
  \<^item> \<^verbatim>\<open>Twap_Orders\<close>: the endpoints of \<^verbatim>\<open>routes/slicing.py\<close>.
  \<^item> \<^verbatim>\<open>Manual_Controls\<close>, \<^verbatim>\<open>Manual_Orders\<close>: the operator's endpoints of \<^verbatim>\<open>api/manual_controls.py\<close>, the
    checks, cancellations and lists in the first and what places orders in the second; \<^verbatim>\<open>Manual_Safety\<close>
    and \<^verbatim>\<open>Manual_Machine\<close>: what they guarantee, one by one and over any sequence of requests.
  \<^item> \<^verbatim>\<open>Orchestrator\<close>: \<^verbatim>\<open>apps/orchestrator/orchestrator.py\<close> with the clients of \<^verbatim>\<open>clients.py\<close>, which turns
    signals into orders, over a locale of what it knows of the gateway; \<^verbatim>\<open>Orchestrator_Service\<close>: \<^verbatim>\<open>main.py\<close>
    and \<^verbatim>\<open>database.py\<close> of the same service, and its composition with the gateway over a network that
    loses requests and answers.

  \<^bold>\<open>What is shown.\<close>

  \<^item> The order path: in any interleaving an identifier is sent to the broker at most once; the broker
    is called past every gate only; on every path the reservation ends confirmed if the broker
    accepted and released otherwise; retries have no effect; orphans stop trading.
  \<^item> The safety components: concurrent reservations stay within the limit and are conserved;
    concurrent trips are linearizable and counted once; missing state fails closed; an engaged kill
    switch stays engaged; recovery makes nothing usable that it has not read, and succeeds when the
    state is there.
  \<^item> The database: status updates converge to the newest in any order and number of deliveries, unless
    another locks the row first or reports more; final statuses are locked, fills are recorded once, a
    fill moves the position by the growth of the filled quantity over the order's row, which is the
    change of the row unless its update is rejected; recalculated profit is the cash brought in, and a
    fill conserves equity at every price.
  \<^item> Reconciliation: positions become the broker's when the constraints of their table accept every
    record, and otherwise the run ends with the constraint's error; open orders have caught up,
    synthetic fills close the gap exactly, pages are read without loss where creation times differ; the
    startup gate opens by a run that succeeded or a justified override, and stays open.
  \<^item> Slices: once canceled a waiting slice is never sent, under a halt of trading no run passes its
    guards and only one that had passed them sends, each attempt leaves its slice in a definite status, a recovery leaves no eligible slice without a job;
    and no new TWAP order can be stored, because of the statement that inserts the parent.
  \<^item> The operator: closing never flips a position, adjusting reaches its target and needs the breaker
    unless the exposure shrinks, flattening closes every position, an order by hand passes the kill
    switch and twice the breaker, whose two readings agree whenever the library can tell the state; a
    cancellation always answers that the order is cancelled, while the row of an order the broker knows
    stays at pending cancel; and over any sequence of requests each order is valid, has its row and is
    sent once.
  \<^item> The orchestrator: orders are sized within the limits at prices of their symbol that are fresh when
    used, every signal is accounted for and the counts of a run are those of the gateway's answers, a
    closed kill switch stops every run, and lost answers and retries never make the
    gateway send an identifier twice.
  \<^item> The pure parts: identifiers collide only where the hash does, plans split the whole quantity
    evenly within their duration, the daily series adds up.

  Lemmas without a claim number record further behaviour, among it where the code departs from its
  documentation: \<open>cas_reopens_filled\<close>, \<open>partial_fill_reduction_increases_risk\<close>,
  \<open>missing_average_stops_positions\<close>, \<open>free_fill_refused\<close>, \<open>order_list_skips_equal_times\<close>, \<open>cancel_pending_still_live\<close>, \<open>real_fill_supersedes_itself\<close>,
  \<open>locked_fill_counts_twice\<close>, \<open>known_replacement_not_finalized\<close>, \<open>connection_error_is_final\<close>,
  \<open>retry_at_the_limit_is_refused\<close>, \<open>restart_forgets_engagement\<close>, \<open>rsv_expiry_keeps_reserved\<close>,
  \<open>recovery_skips_created_parents\<close>, \<open>missing_state_drops_slice\<close>, \<open>stateless_breaker_passes\<close>,
  \<open>flatten_stops_at_fraction\<close>, \<open>canceled_counts_as_accepted\<close>, \<open>execution_submit_no_timeout\<close>.

  \<^bold>\<open>Bounds.\<close>  No definition needs fuel: the two clients of the orchestrator count down their three
  attempts, loops run over lists, the paging loop over its page limit and
  the retry loop of a transaction over the interference it meets, which its theorem quantifies over.

  \<^bold>\<open>Not modelled.\<close>  Lost connections to Redis and the database and their retries; the 28 digits of
  Python's decimal context; asyncio scheduling and locks inside a process, whose effect is the order
  of the steps: a run of the orchestrator is one step, so that a kill switch engaged during a run stops
  its orders only at the gates of the gateway, which each order passes on its own; the constraints
  of the tables that only rows of the wrong form break, which the schemas of the requests exclude;
  metrics, logging, rate limits and authentication; characters beyond one byte.  The
  other routes of the gateway and the allocation across several strategies are not modelled.  The web
  console, the services around models and market data, research and data pipelines are user
  interface, network clients or calls of data-frame and machine-learning libraries.
\<close>

end
